(* ===== verification/Graphene_Prelude.thy ===== *)
theory Graphene_Prelude
  imports Main
begin

text \<open>
  Shared material of the development: the result type in which a C++ exception is a value,
  the parameter that stands for \<open>fc::safe<int64_t>\<close>, and the fact collections the component
  theories use.

  \<^item> \<open>FC_ASSERT\<close> and \<open>res_bind\<close> are the two ways the code stops early: a failed assertion, and an
    exception that comes out of a call. \<open>res_fold\<close> is a loop whose body may throw.
  \<^item> \<open>share_type\<close> of the code is \<open>fc::safe<int64_t>\<close> from the \<open>fc\<close> submodule. Its arithmetic is a
    parameter of every definition that uses it: a function \<open>sf\<close> that takes the ideal integer result
    of an operation and gives back the stored value, or the overflow exception.
    \<open>safe_exact\<close> says that a value that is given back is the ideal one, \<open>safe_total\<close> that every
    value of the \<open>int64_t\<close> range is given back.  \<open>checked_int64\<close> is the instance the witnesses use.
  \<^item> Object tables are association lists from instance numbers to objects, in the order the objects
    were inserted; \<open>t_sum\<close> adds up a quantity over the objects of a table and is the
    measure with which the ledger theories state that no share is created or destroyed.
\<close>

named_theorems res_simps "when a computation that may throw returns a value"
named_theorems table_simps "lookup and sum over object tables after an update"

subsection \<open>Exceptions as values\<close>

datatype fc_exception =
    Assert_exn string
  | Overflow_exn
  | Throw_exn string
  | Black_swan_exn

type_synonym 'a res = "fc_exception + 'a"

definition FC_ASSERT :: "bool \<Rightarrow> string \<Rightarrow> 'a res \<Rightarrow> 'a res" where
  "FC_ASSERT c msg k = (if c then k else Inl (Assert_exn msg))"

definition res_bind :: "'a res \<Rightarrow> ('a \<Rightarrow> 'b res) \<Rightarrow> 'b res" where
  "res_bind m f = (case m of Inl e \<Rightarrow> Inl e | Inr x \<Rightarrow> f x)"

fun res_fold :: "('a \<Rightarrow> 's \<Rightarrow> 's res) \<Rightarrow> 'a list \<Rightarrow> 's \<Rightarrow> 's res" where
  "res_fold f [] s = Inr s"
| "res_fold f (x # xs) s = res_bind (f x s) (res_fold f xs)"

definition opt_get :: "string \<Rightarrow> 'a option \<Rightarrow> 'a res" where
  "opt_get msg x = (case x of None \<Rightarrow> Inl (Throw_exn msg) | Some y \<Rightarrow> Inr y)"

lemma FC_ASSERT_True [simp]: "FC_ASSERT True msg k = k"
  by (simp add: FC_ASSERT_def)

lemma FC_ASSERT_False [simp]: "FC_ASSERT False msg k = Inl (Assert_exn msg)"
  by (simp add: FC_ASSERT_def)

lemma FC_ASSERT_Inr [simp, res_simps]: "FC_ASSERT c msg k = Inr y \<longleftrightarrow> c \<and> k = Inr y"
  by (simp add: FC_ASSERT_def)

lemma Inr_FC_ASSERT [simp, res_simps]: "Inr y = FC_ASSERT c msg k \<longleftrightarrow> c \<and> k = Inr y"
  by (auto simp: FC_ASSERT_def)

lemma res_bind_simps [simp]:
  "res_bind (Inr x) f = f x"
  "res_bind (Inl e) f = Inl e"
  by (simp_all add: res_bind_def)

lemma res_bind_Inr [simp, res_simps]:
  "res_bind m f = Inr y \<longleftrightarrow> (\<exists>x. m = Inr x \<and> f x = Inr y)"
  by (cases m) (simp_all add: res_bind_def)

lemma res_bind_InrE:
  assumes "res_bind m f = Inr y"
  obtains x where "m = Inr x" "f x = Inr y"
  using assms by auto

lemma res_bind_cong [fundef_cong]:
  "m = m' \<Longrightarrow> (\<And>x. m' = Inr x \<Longrightarrow> f x = f' x) \<Longrightarrow> res_bind m f = res_bind m' f'"
  by (cases m') (simp_all add: res_bind_def)

lemma FC_ASSERT_cong [fundef_cong]:
  "c = c' \<Longrightarrow> msg = msg' \<Longrightarrow> (c' \<Longrightarrow> k = k') \<Longrightarrow> FC_ASSERT c msg k = FC_ASSERT c' msg' k'"
  by (simp add: FC_ASSERT_def)

lemma res_bind_assoc: "res_bind (res_bind m f) g = res_bind m (\<lambda>x. res_bind (f x) g)"
  by (cases m) simp_all

lemma opt_get_Inr [simp, res_simps]: "opt_get msg x = Inr y \<longleftrightarrow> x = Some y"
  by (auto simp: opt_get_def split: option.splits)

lemma opt_get_Some [simp]: "opt_get msg (Some x) = Inr x"
  by (simp add: opt_get_def)

lemma res_fold_append:
  "res_fold f (xs @ ys) s = res_bind (res_fold f xs s) (res_fold f ys)"
  by (induction xs arbitrary: s) (simp_all add: res_bind_assoc cong: res_bind_cong)

text \<open>A loop keeps what every run of its body keeps.\<close>

lemma res_fold_invariant:
  assumes "res_fold f xs s = Inr s'" and "P s"
    and "\<And>x s s'. x \<in> set xs \<Longrightarrow> P s \<Longrightarrow> f x s = Inr s' \<Longrightarrow> P s'"
  shows "P s'"
  using assms by (induction xs arbitrary: s) auto

subsection \<open>The parameter for \<open>fc::safe<int64_t>\<close>\<close>

type_synonym safe64 = "int \<Rightarrow> int res"

definition safe_exact :: "safe64 \<Rightarrow> bool" where
  "safe_exact sf \<longleftrightarrow> (\<forall>x y. sf x = Inr y \<longrightarrow> y = x)"

definition safe_total :: "safe64 \<Rightarrow> bool" where
  "safe_total sf \<longleftrightarrow> (\<forall>x. - (2 ^ 63) \<le> x \<and> x < 2 ^ 63 \<longrightarrow> sf x = Inr x)"

definition checked_int64 :: safe64 where
  "checked_int64 x = (if - (2 ^ 63) \<le> x \<and> x < 2 ^ 63 then Inr x else Inl Overflow_exn)"

lemma checked_int64_code [code]:
  "checked_int64 x = (if - 9223372036854775808 \<le> x \<and> x < 9223372036854775808 then Inr x else Inl Overflow_exn)"
  by (simp add: checked_int64_def)

lemma safe_exactD [dest?]: "safe_exact sf \<Longrightarrow> sf x = Inr y \<Longrightarrow> y = x"
  by (simp add: safe_exact_def)

lemma safe_exact_Inr: "safe_exact sf \<Longrightarrow> sf x = Inr y \<longleftrightarrow> sf x = Inr x \<and> y = x"
  by (auto simp: safe_exact_def)

lemma safe_totalD: "safe_total sf \<Longrightarrow> - (2 ^ 63) \<le> x \<Longrightarrow> x < 2 ^ 63 \<Longrightarrow> sf x = Inr x"
  by (simp add: safe_total_def)

lemma checked_int64_exact [simp]: "safe_exact checked_int64"
  by (simp add: safe_exact_def checked_int64_def)

lemma checked_int64_total [simp]: "safe_total checked_int64"
  by (simp add: safe_total_def checked_int64_def)

text \<open>The functions of \<open>fc\<close> that move amounts between integer types: \<open>fc_safe\<close> is the checked \<open>int64_t\<close>
  arithmetic above, \<open>fc_to_share\<close> takes an \<open>fc::uint128_t\<close> through \<open>to_uint64()\<close> into a \<open>share_type\<close>. All that is
  relied on is that amounts in range come out unchanged.\<close>

record fc_lib =
  fc_safe :: safe64
  fc_to_share :: "int \<Rightarrow> int res"

definition fc_lib_ok :: "fc_lib \<Rightarrow> bool" where
  "fc_lib_ok lib \<longleftrightarrow> safe_exact (fc_safe lib) \<and> safe_total (fc_safe lib)
     \<and> (\<forall>x. 0 \<le> x \<and> x < 2 ^ 63 \<longrightarrow> fc_to_share lib x = Inr x)"

definition std_lib :: fc_lib where
  "std_lib = \<lparr>fc_safe = checked_int64, fc_to_share = checked_int64\<rparr>"

lemma std_lib_ok [simp]: "fc_lib_ok std_lib"
  by (simp add: fc_lib_ok_def std_lib_def checked_int64_def)

lemma fc_safe_in_range: "fc_lib_ok lib \<Longrightarrow> - (2 ^ 63) \<le> x \<Longrightarrow> x < 2 ^ 63 \<Longrightarrow> fc_safe lib x = Inr x"
  by (simp add: fc_lib_ok_def safe_total_def)

lemma fc_to_share_in_range: "fc_lib_ok lib \<Longrightarrow> 0 \<le> x \<Longrightarrow> x < 2 ^ 63 \<Longrightarrow> fc_to_share lib x = Inr x"
  by (simp add: fc_lib_ok_def)

lemma fc_safe_exact: "fc_lib_ok lib \<Longrightarrow> fc_safe lib x = Inr y \<Longrightarrow> y = x"
  by (auto simp: fc_lib_ok_def dest: safe_exactD)

subsection \<open>Fuel\<close>

text \<open>Loops without a measure take fuel; a computation is \<open>fuelled\<close> when it does not stop for lack of it.\<close>

definition fuelled :: "'a res \<Rightarrow> bool" where
  "fuelled r \<longleftrightarrow> r \<noteq> Inl (Throw_exn ''out of fuel'')"

named_theorems fuelled_intros "computations that never run out of fuel"

lemma fuelled_Inr [simp]: "fuelled (Inr x)"
  by (simp add: fuelled_def)

lemma fuelled_bind [fuelled_intros]: "fuelled r \<Longrightarrow> (\<And>x. r = Inr x \<Longrightarrow> fuelled (f x)) \<Longrightarrow> fuelled (res_bind r f)"
  by (cases r) (simp_all add: fuelled_def)

lemma fuelled_assert [fuelled_intros]: "(P \<Longrightarrow> fuelled r) \<Longrightarrow> fuelled (FC_ASSERT P msg r)"
  by (simp add: fuelled_def FC_ASSERT_def)

lemma fuelled_if [fuelled_intros]: "(P \<Longrightarrow> fuelled r) \<Longrightarrow> (\<not> P \<Longrightarrow> fuelled s) \<Longrightarrow> fuelled (if P then r else s)"
  by simp

subsection \<open>Object tables\<close>

type_synonym 'o table = "(nat \<times> 'o) list"

fun t_upd :: "nat \<Rightarrow> ('o \<Rightarrow> 'o) \<Rightarrow> 'o table \<Rightarrow> 'o table" where
  "t_upd i f [] = []"
| "t_upd i f ((j, x) # t) = (if i = j then (j, f x) # t else (j, x) # t_upd i f t)"

fun t_del :: "nat \<Rightarrow> 'o table \<Rightarrow> 'o table" where
  "t_del i [] = []"
| "t_del i ((j, x) # t) = (if i = j then t else (j, x) # t_del i t)"

definition t_sum :: "('o \<Rightarrow> int) \<Rightarrow> 'o table \<Rightarrow> int" where
  "t_sum g t = (\<Sum>p\<leftarrow>t. g (snd p))"

lemma t_sum_simps [simp]:
  "t_sum g [] = 0"
  "t_sum g ((i, x) # t) = g x + t_sum g t"
  "t_sum g (t @ u) = t_sum g t + t_sum g u"
  by (simp_all add: t_sum_def)

lemma t_sum_upd [table_simps]:
  "map_of t i = Some x \<Longrightarrow> t_sum g (t_upd i f t) = t_sum g t - g x + g (f x)"
  by (induction t) (auto split: if_splits)

lemma t_sum_del [table_simps]:
  "map_of t i = Some x \<Longrightarrow> t_sum g (t_del i t) = t_sum g t - g x"
  by (induction t) (auto split: if_splits)

lemma t_sum_cong: "(\<And>i x. (i, x) \<in> set t \<Longrightarrow> g x = h x) \<Longrightarrow> t_sum g t = t_sum h t"
  unfolding t_sum_def by (rule arg_cong [of _ _ sum_list], rule map_cong) auto

lemma t_sum_nonneg: "(\<And>i x. (i, x) \<in> set t \<Longrightarrow> 0 \<le> g x) \<Longrightarrow> 0 \<le> t_sum g t"
  by (induction t) fastforce+

lemma map_of_t_upd [table_simps]:
  "map_of (t_upd i f t) j = (if i = j then map_option f (map_of t i) else map_of t j)"
  by (induction t) auto

lemma keys_t_upd [simp]: "map fst (t_upd i f t) = map fst t"
  by (induction t) auto

lemma set_t_del: "p \<in> set (t_del i t) \<Longrightarrow> p \<in> set t"
  by (induction t) (auto split: if_splits)

lemma distinct_t_del [simp]: "distinct (map fst t) \<Longrightarrow> distinct (map fst (t_del i t))"
  by (induction t) (force dest: set_t_del)+

lemma map_of_t_del_other [table_simps]: "i \<noteq> j \<Longrightarrow> map_of (t_del i t) j = map_of t j"
  by (induction t) auto

lemma map_of_t_del_same: "distinct (map fst t) \<Longrightarrow> map_of (t_del i t) i = None"
  by (induction t) (force simp: map_of_eq_None_iff split: if_splits)+

lemma t_upd_None: "map_of t i = None \<Longrightarrow> t_upd i f t = t"
  by (induction t) (auto split: if_splits)

lemma t_del_None: "map_of t i = None \<Longrightarrow> t_del i t = t"
  by (induction t) (auto split: if_splits)

end
