(* ===== verification/Undo_Database.thy ===== *)
theory Undo_Database
  imports Graphene_Prelude "HOL-Library.Word"
begin

text \<open>
  The object database with multi-level undo: \<open>libraries/db/undo_database.cpp\<close> with its header, the
  mutators of \<open>primary_index\<close> (\<open>libraries/db/include/graphene/db/index.hpp\<close>) that call it, and the object
  identifiers of \<open>libraries/protocol/include/graphene/protocol/object_id.hpp\<close>.

  A database holds the objects by identifier and the next identifier of each index. An \<open>undo_state\<close> records what a
  session changed; the stack has its most recent state first (\<open>_stack.back()\<close> is the head of the list). The
  hash containers of the source are association lists, whose order stands for the iteration order of
  the container.

  The specification is a stack of complete snapshots: opening a session pushes the current contents,
  undoing it restores the top snapshot, merging it forgets the top snapshot. \<open>refines\<close> relates the recorded
  differences to the snapshots, and the lemmas show that every operation of the undo database simulates
  its counterpart on snapshots and that an undo never throws.
\<close>

subsection \<open>Object identifiers\<close>

unbundle bit_operations_syntax

definition GRAPHENE_DB_MAX_INSTANCE_ID :: "64 word" where
  "GRAPHENE_DB_MAX_INSTANCE_ID = mask 48"

definition object_id_pack :: "8 word \<Rightarrow> 8 word \<Rightarrow> 64 word \<Rightarrow> (64 word) res" where
  "object_id_pack s t i =
     FC_ASSERT (drop_bit 48 i = 0) ''instance overflow''
       (Inr (push_bit 56 (ucast s) OR push_bit 48 (ucast t) OR i))"

definition object_id_space :: "64 word \<Rightarrow> 8 word" where
  "object_id_space number = ucast (drop_bit 56 number)"

definition object_id_type_of :: "64 word \<Rightarrow> 8 word" where
  "object_id_type_of number = ucast (drop_bit 48 number AND 0x00ff)"

definition object_id_instance :: "64 word \<Rightarrow> 64 word" where
  "object_id_instance number = number AND GRAPHENE_DB_MAX_INSTANCE_ID"

text \<open>The database model uses the three components of an identifier, which \<open>object_id_pack\<close> packs into one word.\<close>

record oid =
  oid_space :: nat
  oid_type :: nat
  oid_instance :: nat

abbreviation index_id :: "oid \<Rightarrow> nat \<times> nat" where
  "index_id i \<equiv> (oid_space i, oid_type i)"

subsection \<open>State\<close>

record 'o undo_state =
  old_values :: "(oid \<times> 'o) list"
  old_index_next_ids :: "((nat \<times> nat) \<times> oid) list"
  new_ids :: "oid list"
  removed :: "(oid \<times> 'o) list"

definition empty_undo_state :: "'o undo_state" where
  "empty_undo_state = \<lparr>old_values = [], old_index_next_ids = [], new_ids = [], removed = []\<rparr>"

record 'o contents =
  objs :: "oid \<Rightarrow> 'o option"
  next_id :: "nat \<times> nat \<Rightarrow> oid"

record 'o undo_db = "'o contents" +
  active_sessions :: nat
  disabled :: bool
  stack :: "'o undo_state list"
  max_size :: nat

definition cur :: "'o undo_db \<Rightarrow> 'o contents" where
  "cur db = \<lparr>objs = objs db, next_id = next_id db\<rparr>"

subsection \<open>Recording changes\<close>

definition top_state :: "'o undo_db \<Rightarrow> 'o undo_state \<times> 'o undo_state list" where
  "top_state db = (case stack db of [] \<Rightarrow> (empty_undo_state, []) | s # ss \<Rightarrow> (s, ss))"

definition on_create :: "oid \<Rightarrow> 'o undo_db \<Rightarrow> 'o undo_db" where
  "on_create i db =
     (if disabled db then db
      else let (state, rest) = top_state db;
               state1 = (if map_of (old_index_next_ids state) (index_id i) = None
                         then state\<lparr>old_index_next_ids := (index_id i, i) # old_index_next_ids state\<rparr>
                         else state);
               state2 = state1\<lparr>new_ids := List.insert i (new_ids state1)\<rparr>
           in db\<lparr>stack := state2 # rest\<rparr>)"

definition on_modify :: "oid \<Rightarrow> 'o \<Rightarrow> 'o undo_db \<Rightarrow> 'o undo_db" where
  "on_modify i obj db =
     (if disabled db then db
      else let (state, rest) = top_state db;
               state' = (if i \<in> set (new_ids state) then state
                         else if map_of (old_values state) i \<noteq> None then state
                         else state\<lparr>old_values := (i, obj) # old_values state\<rparr>)
           in db\<lparr>stack := state' # rest\<rparr>)"

definition al_erase :: "'k \<Rightarrow> ('k \<times> 'v) list \<Rightarrow> ('k \<times> 'v) list" where
  "al_erase k xs = filter (\<lambda>p. fst p \<noteq> k) xs"

definition al_set :: "'k \<Rightarrow> 'v \<Rightarrow> ('k \<times> 'v) list \<Rightarrow> ('k \<times> 'v) list" where
  "al_set k v xs = (k, v) # al_erase k xs"

definition on_remove :: "oid \<Rightarrow> 'o \<Rightarrow> 'o undo_db \<Rightarrow> 'o undo_db" where
  "on_remove i obj db =
     (if disabled db then db
      else let (state, rest) = top_state db;
               state' = (if i \<in> set (new_ids state)
                         then state\<lparr>new_ids := removeAll i (new_ids state)\<rparr>
                         else case map_of (old_values state) i of
                                Some v \<Rightarrow> state\<lparr>removed := al_set i v (removed state),
                                                old_values := al_erase i (old_values state)\<rparr>
                              | None \<Rightarrow> if map_of (removed state) i \<noteq> None then state
                                        else state\<lparr>removed := al_set i obj (removed state)\<rparr>)
           in db\<lparr>stack := state' # rest\<rparr>)"

subsection \<open>The mutators of an index\<close>

text \<open>\<open>create\<close> gives the object the next identifier of its index, inserts it, advances the identifier and then
  records the creation; \<open>modify\<close> records the old value first; \<open>remove\<close> records the removal first.\<close>

definition db_create :: "nat \<times> nat \<Rightarrow> 'o \<Rightarrow> 'o undo_db \<Rightarrow> (oid \<times> 'o undo_db) res" where
  "db_create ix obj db =
     (let i = next_id db ix in
      FC_ASSERT (objs db i = None) ''Could not create object! Most likely a uniqueness constraint is violated.''
       (Inr (i, on_create i (db\<lparr>objs := (objs db)(i \<mapsto> obj),
                next_id := (next_id db)(ix := i\<lparr>oid_instance := Suc (oid_instance i)\<rparr>)\<rparr>))))"

definition db_modify :: "oid \<Rightarrow> ('o \<Rightarrow> 'o) \<Rightarrow> 'o undo_db \<Rightarrow> 'o undo_db res" where
  "db_modify i f db =
     res_bind (opt_get ''Unable to find Object'' (objs db i)) (\<lambda>obj.
       let db' = on_modify i obj db in Inr (db'\<lparr>objs := (objs db')(i \<mapsto> f obj)\<rparr>))"

definition db_remove :: "oid \<Rightarrow> 'o undo_db \<Rightarrow> 'o undo_db res" where
  "db_remove i db =
     res_bind (opt_get ''Unable to find Object'' (objs db i)) (\<lambda>obj.
       let db' = on_remove i obj db in Inr (db'\<lparr>objs := (objs db')(i := None)\<rparr>))"

definition db_insert :: "oid \<Rightarrow> 'o \<Rightarrow> 'o undo_db \<Rightarrow> 'o undo_db res" where
  "db_insert i obj db =
     FC_ASSERT (objs db i = None) ''Could not insert object, most likely a uniqueness constraint was violated''
       (Inr (on_create i (db\<lparr>objs := (objs db)(i \<mapsto> obj)\<rparr>)))"

definition set_next_id :: "nat \<times> nat \<Rightarrow> oid \<Rightarrow> 'o undo_db \<Rightarrow> 'o undo_db" where
  "set_next_id ix i db = db\<lparr>next_id := (next_id db)(ix := i)\<rparr>"

subsection \<open>Sessions\<close>

definition enable :: "'o undo_db \<Rightarrow> 'o undo_db" where "enable db = db\<lparr>disabled := False\<rparr>"
definition disable :: "'o undo_db \<Rightarrow> 'o undo_db" where "disable db = db\<lparr>disabled := True\<rparr>"

text \<open>\<open>while( size() > max_size() ) _stack.pop_front();\<close>\<close>

function prune_stack :: "nat \<Rightarrow> 'o undo_state list \<Rightarrow> 'o undo_state list" where
  "prune_stack m ss = (if length ss > m then prune_stack m (butlast ss) else ss)"
  by pat_completeness auto
termination by (relation "measure (\<lambda>(m, ss). length ss)") auto

declare prune_stack.simps [simp del]

text \<open>A session object: whether its destructor undoes, and whether it disables the database again.\<close>

record session =
  apply_undo :: bool
  disable_on_exit :: bool

definition start_undo_session :: "bool \<Rightarrow> 'o undo_db \<Rightarrow> session \<times> 'o undo_db" where
  "start_undo_session force_enable db =
     (if disabled db \<and> \<not> force_enable then (\<lparr>apply_undo = True, disable_on_exit = False\<rparr>, db)
      else let doe = disabled db \<and> force_enable;
               db1 = (if force_enable then db\<lparr>disabled := False\<rparr> else db)
           in (\<lparr>apply_undo = True, disable_on_exit = doe\<rparr>,
               db1\<lparr>stack := empty_undo_state # prune_stack (max_size db1) (stack db1),
                   active_sessions := Suc (active_sessions db1)\<rparr>))"

text \<open>The common body of \<open>undo\<close> and \<open>pop_commit\<close>: put the recorded values back.\<close>

definition revert_state :: "'o undo_state \<Rightarrow> 'o undo_db \<Rightarrow> 'o undo_db res" where
  "revert_state state db =
     res_bind (res_fold (\<lambda>(i, v) d. db_modify i (\<lambda>_. v) d) (old_values state) db) (\<lambda>db1.
     res_bind (res_fold db_remove (new_ids state) db1) (\<lambda>db2.
     let db3 = fold (\<lambda>(ix, i) d. set_next_id ix i d) (old_index_next_ids state) db2
     in res_fold (\<lambda>(i, v) d. db_insert i v d) (removed state) db3))"

definition undo :: "'o undo_db \<Rightarrow> 'o undo_db res" where
  "undo db =
     FC_ASSERT (\<not> disabled db) ''!_disabled''
    (FC_ASSERT (active_sessions db > 0) ''_active_sessions > 0''
     (case stack db of
        [] \<Rightarrow> Inl (Throw_exn ''empty stack'')
      | state # rest \<Rightarrow>
          res_bind (revert_state state (disable db)) (\<lambda>db1.
            Inr ((enable (db1\<lparr>stack := rest\<rparr>))\<lparr>active_sessions := active_sessions db1 - 1\<rparr>))))"

definition merge_old_value :: "oid \<times> 'o \<Rightarrow> 'o undo_state \<Rightarrow> 'o undo_state" where
  "merge_old_value p prev =
     (if fst p \<in> set (new_ids prev) then prev
      else if map_of (old_values prev) (fst p) \<noteq> None then prev
      else prev\<lparr>old_values := al_set (fst p) (snd p) (old_values prev)\<rparr>)"

definition merge_next_id :: "(nat \<times> nat) \<times> oid \<Rightarrow> 'o undo_state \<Rightarrow> 'o undo_state" where
  "merge_next_id p prev =
     (if map_of (old_index_next_ids prev) (fst p) = None
      then prev\<lparr>old_index_next_ids := p # old_index_next_ids prev\<rparr> else prev)"

definition merge_removed :: "oid \<times> 'o \<Rightarrow> 'o undo_state \<Rightarrow> 'o undo_state" where
  "merge_removed p prev =
     (if fst p \<in> set (new_ids prev) then prev\<lparr>new_ids := removeAll (fst p) (new_ids prev)\<rparr>
      else case map_of (old_values prev) (fst p) of
             Some v \<Rightarrow> prev\<lparr>removed := al_set (fst p) v (removed prev),
                            old_values := al_erase (fst p) (old_values prev)\<rparr>
           | None \<Rightarrow> prev\<lparr>removed := al_set (fst p) (snd p) (removed prev)\<rparr>)"

definition merge_states :: "'o undo_state \<Rightarrow> 'o undo_state \<Rightarrow> 'o undo_state" where
  "merge_states state prev =
     (let p1 = fold merge_old_value (old_values state) prev;
          p2 = p1\<lparr>new_ids := fold List.insert (new_ids state) (new_ids p1)\<rparr>;
          p3 = fold merge_next_id (old_index_next_ids state) p2
      in fold merge_removed (removed state) p3)"

definition merge :: "'o undo_db \<Rightarrow> 'o undo_db res" where
  "merge db =
     FC_ASSERT (active_sessions db > 0) ''_active_sessions > 0''
     (if active_sessions db = 1 \<and> length (stack db) = 1
      then Inr (db\<lparr>stack := [], active_sessions := active_sessions db - 1\<rparr>)
      else case stack db of
             state # prev_state # rest \<Rightarrow>
               Inr (db\<lparr>stack := merge_states state prev_state # rest,
                       active_sessions := active_sessions db - 1\<rparr>)
           | _ \<Rightarrow> Inl (Assert_exn ''_stack.size() >=2''))"

definition commit :: "'o undo_db \<Rightarrow> 'o undo_db res" where
  "commit db =
     FC_ASSERT (active_sessions db > 0) ''_active_sessions > 0''
       (Inr (db\<lparr>active_sessions := active_sessions db - 1\<rparr>))"

definition pop_commit :: "'o undo_db \<Rightarrow> 'o undo_db res" where
  "pop_commit db =
     FC_ASSERT (active_sessions db = 0) ''_active_sessions == 0''
     (case stack db of
        [] \<Rightarrow> Inl (Assert_exn ''!_stack.empty()'')
      | state # rest \<Rightarrow>
          res_bind (revert_state state (disable db)) (\<lambda>db1. Inr (enable (db1\<lparr>stack := rest\<rparr>))))"

text \<open>The operations of the session object; the destructor is \<open>session_exit\<close>.\<close>

definition session_commit :: "session \<Rightarrow> 'o undo_db \<Rightarrow> (session \<times> 'o undo_db) res" where
  "session_commit s db = res_bind (commit db) (\<lambda>db'. Inr (s\<lparr>apply_undo := False\<rparr>, db'))"

definition session_undo :: "session \<Rightarrow> 'o undo_db \<Rightarrow> (session \<times> 'o undo_db) res" where
  "session_undo s db =
     (if apply_undo s then res_bind (undo db) (\<lambda>db'. Inr (s\<lparr>apply_undo := False\<rparr>, db'))
      else Inr (s\<lparr>apply_undo := False\<rparr>, db))"

definition session_merge :: "session \<Rightarrow> 'o undo_db \<Rightarrow> (session \<times> 'o undo_db) res" where
  "session_merge s db =
     (if apply_undo s then res_bind (merge db) (\<lambda>db'. Inr (s\<lparr>apply_undo := False\<rparr>, db'))
      else Inr (s\<lparr>apply_undo := False\<rparr>, db))"

definition session_exit :: "session \<Rightarrow> 'o undo_db \<Rightarrow> 'o undo_db res" where
  "session_exit s db =
     res_bind (if apply_undo s then undo db else Inr db) (\<lambda>db'.
       Inr (if disable_on_exit s then disable db' else db'))"

text \<open>Moving a session: the constructor takes over \<open>_apply_undo\<close> only, \<open>_disable_on_exit\<close> keeps its default.\<close>

definition session_move :: "session \<Rightarrow> session \<times> session" where
  "session_move mv = (\<lparr>apply_undo = apply_undo mv, disable_on_exit = False\<rparr>, mv\<lparr>apply_undo := False\<rparr>)"

definition session_assign :: "session \<Rightarrow> session \<Rightarrow> 'o undo_db \<Rightarrow> (session \<times> session \<times> 'o undo_db) res" where
  "session_assign s mv db =
     res_bind (if apply_undo s then undo db else Inr db) (\<lambda>db'.
       Inr (s\<lparr>apply_undo := apply_undo mv\<rparr>, mv\<lparr>apply_undo := False\<rparr>, db'))"

subsection \<open>Association lists\<close>

lemma map_of_al_erase [simp]: "map_of (al_erase k xs) j = (if j = k then None else map_of xs j)"
  by (induction xs) (auto simp: al_erase_def)

lemma distinct_al_erase [simp]: "distinct (map fst xs) \<Longrightarrow> distinct (map fst (al_erase k xs))"
  unfolding al_erase_def by (induction xs) auto

lemma map_of_al_set [simp]: "map_of (al_set k v xs) j = (if j = k then Some v else map_of xs j)"
  by (simp add: al_set_def)

lemma distinct_al_set [simp]: "distinct (map fst xs) \<Longrightarrow> distinct (map fst (al_set k v xs))"
  using distinct_al_erase [of xs k] by (auto simp: al_set_def al_erase_def)

lemma set_fold_insert [simp]: "set (fold List.insert xs ys) = set xs \<union> set ys"
  by (induction xs arbitrary: ys) auto

lemma distinct_fold_insert: "distinct ys \<Longrightarrow> distinct (fold List.insert xs ys)"
  by (induction xs arbitrary: ys) auto

subsection \<open>What a recorded difference means\<close>

definition contents_ok :: "'o contents \<Rightarrow> bool" where
  "contents_ok c \<longleftrightarrow> (\<forall>ix. index_id (next_id c ix) = ix)
     \<and> (\<forall>i. objs c i \<noteq> None \<longrightarrow> oid_instance i < oid_instance (next_id c (index_id i)))"

text \<open>An identifier is in at most one container of a state, and that container says what the object was
  before: \<open>n\<close> tells whether it is new, \<open>v\<close> and \<open>r\<close> are its entries among the old and the removed values,
  \<open>x\<close> and \<open>y\<close> the object before and now.\<close>

definition entry :: "bool \<Rightarrow> 'o option \<Rightarrow> 'o option \<Rightarrow> 'o option \<Rightarrow> 'o option \<Rightarrow> bool" where
  "entry n v r x y \<longleftrightarrow>
     (if n then x = None \<and> y \<noteq> None \<and> v = None \<and> r = None
      else case v of
             Some w \<Rightarrow> x = Some w \<and> y \<noteq> None \<and> r = None
           | None \<Rightarrow> (case r of Some w \<Rightarrow> x = Some w \<and> y = None | None \<Rightarrow> x = y))"

definition entry_ok :: "'o contents \<Rightarrow> 'o undo_state \<Rightarrow> 'o contents \<Rightarrow> oid \<Rightarrow> bool" where
  "entry_ok b s c i \<longleftrightarrow>
     entry (i \<in> set (new_ids s)) (map_of (old_values s) i) (map_of (removed s) i) (objs b i) (objs c i)
     \<and> (i \<in> set (new_ids s) \<longrightarrow> oid_instance (next_id b (index_id i)) \<le> oid_instance i)"

lemma entry_merge:
  assumes "entry n1 v1 r1 x y" "entry n2 v2 r2 y z" "n2 \<Longrightarrow> x = None"
  shows "entry ((n1 \<or> n2) \<and> r2 = None)
    (if \<not> n1 \<and> \<not> n2 \<and> r2 \<noteq> None then None
     else if n1 then v1 else case v1 of Some v \<Rightarrow> Some v | None \<Rightarrow> v2)
    (case r2 of
       Some w \<Rightarrow> if n1 \<or> n2 then r1
                 else (case v1 of Some v \<Rightarrow> Some v | None \<Rightarrow> (case v2 of Some v \<Rightarrow> Some v | None \<Rightarrow> Some w))
     | None \<Rightarrow> r1) x z"
  using assms
  by (cases n1; cases n2; cases v1; cases v2; cases r1; cases r2) (auto simp: entry_def)

definition state_distinct :: "'o undo_state \<Rightarrow> bool" where
  "state_distinct s \<longleftrightarrow> distinct (map fst (old_values s)) \<and> distinct (map fst (removed s))
     \<and> distinct (new_ids s) \<and> distinct (map fst (old_index_next_ids s))"

definition next_ok :: "('i \<Rightarrow> oid) \<Rightarrow> ('i \<times> oid) list \<Rightarrow> ('i \<Rightarrow> oid) \<Rightarrow> bool" where
  "next_ok nb saved nc \<longleftrightarrow> (\<forall>ix. nb ix = (case map_of saved ix of Some n \<Rightarrow> n | None \<Rightarrow> nc ix)
     \<and> oid_instance (nb ix) \<le> oid_instance (nc ix))"

definition diff_inv :: "'o contents \<Rightarrow> 'o undo_state \<Rightarrow> 'o contents \<Rightarrow> bool" where
  "diff_inv b s c \<longleftrightarrow> contents_ok b \<and> contents_ok c \<and> state_distinct s \<and> (\<forall>i. entry_ok b s c i)
     \<and> next_ok (next_id b) (old_index_next_ids s) (next_id c)"

lemma next_ok_refl [simp]: "next_ok n [] n"
  by (simp add: next_ok_def)

lemma next_ok_le: "next_ok nb saved nc \<Longrightarrow> oid_instance (nb ix) \<le> oid_instance (nc ix)"
  unfolding next_ok_def by blast

lemma diff_inv_le: "diff_inv b s c \<Longrightarrow> oid_instance (next_id b ix) \<le> oid_instance (next_id c ix)"
  unfolding diff_inv_def by (blast intro: next_ok_le)

lemma contents_ok_bound: "contents_ok c \<Longrightarrow> objs c i \<noteq> None \<Longrightarrow> oid_instance i < oid_instance (next_id c (index_id i))"
  unfolding contents_ok_def by blast

lemma next_ok_advance:
  assumes "next_ok nb saved nc"
  shows "next_ok nb (if map_of saved ix = None then (ix, nc ix) # saved else saved)
    (nc(ix := (nc ix)\<lparr>oid_instance := Suc (oid_instance (nc ix))\<rparr>))"
  using assms by (auto simp: next_ok_def intro: le_SucI split: option.splits if_splits)

lemma diff_inv_empty: "contents_ok c \<Longrightarrow> diff_inv c empty_undo_state c"
  by (simp add: diff_inv_def state_distinct_def entry_ok_def entry_def empty_undo_state_def)

definition created :: "nat \<times> nat \<Rightarrow> 'o \<Rightarrow> 'o contents \<Rightarrow> 'o contents" where
  "created ix obj c = (let i = next_id c ix in
     c\<lparr>objs := (objs c)(i \<mapsto> obj), next_id := (next_id c)(ix := i\<lparr>oid_instance := Suc (oid_instance i)\<rparr>)\<rparr>)"

lemma contents_ok_created: "contents_ok c \<Longrightarrow> contents_ok (created ix obj c)"
  by (cases ix) (auto simp: contents_ok_def created_def Let_def less_Suc_eq split: if_splits)

lemma contents_ok_fresh: "contents_ok c \<Longrightarrow> objs c (next_id c ix) = None"
  unfolding contents_ok_def by (metis less_irrefl)

lemma diff_inv_fresh: "diff_inv b s c \<Longrightarrow> objs b (next_id c ix) = None"
  unfolding diff_inv_def contents_ok_def next_ok_def by (metis not_less)

definition record_create :: "oid \<Rightarrow> 'o undo_state \<Rightarrow> 'o undo_state" where
  "record_create i s =
     (let s1 = (if map_of (old_index_next_ids s) (index_id i) = None
                then s\<lparr>old_index_next_ids := (index_id i, i) # old_index_next_ids s\<rparr> else s)
      in s1\<lparr>new_ids := List.insert i (new_ids s1)\<rparr>)"

definition record_modify :: "oid \<Rightarrow> 'o \<Rightarrow> 'o undo_state \<Rightarrow> 'o undo_state" where
  "record_modify i obj s =
     (if i \<in> set (new_ids s) then s else if map_of (old_values s) i \<noteq> None then s
      else s\<lparr>old_values := (i, obj) # old_values s\<rparr>)"

definition record_remove :: "oid \<Rightarrow> 'o \<Rightarrow> 'o undo_state \<Rightarrow> 'o undo_state" where
  "record_remove i obj s =
     (if i \<in> set (new_ids s) then s\<lparr>new_ids := removeAll i (new_ids s)\<rparr>
      else case map_of (old_values s) i of
             Some v \<Rightarrow> s\<lparr>removed := al_set i v (removed s), old_values := al_erase i (old_values s)\<rparr>
           | None \<Rightarrow> if map_of (removed s) i \<noteq> None then s else s\<lparr>removed := al_set i obj (removed s)\<rparr>)"

lemma diff_inv_create:
  assumes "diff_inv b s c"
  shows "diff_inv b (record_create (next_id c ix) s) (created ix obj c)"
proof -
  let ?i = "next_id c ix" and ?s = "record_create (next_id c ix) s" and ?c = "created ix obj c"
  have ok: "contents_ok b" "contents_ok c" "state_distinct s" "\<And>i. entry_ok b s c i"
    using assms by (auto simp: diff_inv_def)
  have ixi: "index_id ?i = ix" using ok(2) unfolding contents_ok_def by blast
  have fresh: "objs b ?i = None" "objs c ?i = None"
    using diff_inv_fresh [OF assms] contents_ok_fresh [OF ok(2)] by auto
  have none: "?i \<notin> set (new_ids s)" "map_of (old_values s) ?i = None" "map_of (removed s) ?i = None"
    using ok(4) [of ?i] fresh by (auto simp: entry_ok_def entry_def split: if_splits option.splits)
  have le: "oid_instance (next_id b (index_id ?i)) \<le> oid_instance ?i"
    using diff_inv_le [OF assms, of ix] by (simp only: ixi)
  have "entry_ok b ?s ?c i" for i
    using ok(4) [of i] none fresh le
    by (auto simp: entry_ok_def entry_def record_create_def created_def Let_def split: if_splits option.splits)
  moreover have "state_distinct ?s"
    using ok(3) by (auto simp: state_distinct_def record_create_def Let_def map_of_eq_None_iff)
  moreover have "next_ok (next_id b) (old_index_next_ids ?s) (next_id ?c)"
    using next_ok_advance [of "next_id b" "old_index_next_ids s" "next_id c" ix] assms ixi
    by (auto simp: diff_inv_def record_create_def created_def Let_def split: if_splits)
  ultimately show ?thesis
    using ok(1) contents_ok_created [OF ok(2), of ix obj] by (simp add: diff_inv_def)
qed

lemma diff_inv_modify:
  assumes "diff_inv b s c" "objs c i = Some obj"
  shows "diff_inv b (record_modify i obj s) (c\<lparr>objs := (objs c)(i \<mapsto> v)\<rparr>)"
proof -
  let ?s = "record_modify i obj s" and ?c = "c\<lparr>objs := (objs c)(i \<mapsto> v)\<rparr>"
  have ok: "state_distinct s" "\<And>i. entry_ok b s c i" using assms by (auto simp: diff_inv_def)
  have "entry_ok b ?s ?c j" for j
    using ok(2) [of j] ok(2) [of i] assms(2)
    by (auto simp: entry_ok_def entry_def record_modify_def split: if_splits option.splits)
  moreover have "state_distinct ?s"
    using ok(1) by (auto simp: state_distinct_def record_modify_def map_of_eq_None_iff)
  moreover have "contents_ok ?c" using assms by (auto simp: diff_inv_def contents_ok_def)
  moreover have "old_index_next_ids ?s = old_index_next_ids s" by (simp add: record_modify_def)
  ultimately show ?thesis using assms(1) by (simp add: diff_inv_def)
qed

lemma diff_inv_remove:
  assumes "diff_inv b s c" "objs c i = Some obj"
  shows "diff_inv b (record_remove i obj s) (c\<lparr>objs := (objs c)(i := None)\<rparr>)"
proof -
  let ?s = "record_remove i obj s" and ?c = "c\<lparr>objs := (objs c)(i := None)\<rparr>"
  have ok: "state_distinct s" "\<And>i. entry_ok b s c i" using assms by (auto simp: diff_inv_def)
  have "entry_ok b ?s ?c j" for j
    using ok(2) [of j] ok(2) [of i] assms(2)
    by (auto simp: entry_ok_def entry_def record_remove_def split: if_splits option.splits)
  moreover have "state_distinct ?s"
    using ok(1) by (auto simp: state_distinct_def record_remove_def distinct_removeAll split: option.splits)
  moreover have "contents_ok ?c" using assms by (auto simp: diff_inv_def contents_ok_def)
  moreover have "old_index_next_ids ?s = old_index_next_ids s"
    by (auto simp: record_remove_def split: option.splits)
  ultimately show ?thesis using assms(1) by (simp add: diff_inv_def)
qed

subsection \<open>Merging two differences\<close>

lemma fold_merge_old_value:
  "map_of (old_values (fold merge_old_value xs p)) i =
     (if i \<in> set (new_ids p) then map_of (old_values p) i
      else case map_of (old_values p) i of Some v \<Rightarrow> Some v | None \<Rightarrow> map_of xs i)"
  "new_ids (fold merge_old_value xs p) = new_ids p"
  "removed (fold merge_old_value xs p) = removed p"
  "old_index_next_ids (fold merge_old_value xs p) = old_index_next_ids p"
  "state_distinct p \<Longrightarrow> state_distinct (fold merge_old_value xs p)"
  by (induction xs arbitrary: p)
    (auto simp: merge_old_value_def state_distinct_def split: option.splits)

lemma fold_merge_next_id:
  "map_of (old_index_next_ids (fold merge_next_id xs p)) ix =
     (case map_of (old_index_next_ids p) ix of Some v \<Rightarrow> Some v | None \<Rightarrow> map_of xs ix)"
  "new_ids (fold merge_next_id xs p) = new_ids p"
  "removed (fold merge_next_id xs p) = removed p"
  "old_values (fold merge_next_id xs p) = old_values p"
  by (induction xs arbitrary: p) (auto simp: merge_next_id_def split: option.splits)

lemma fold_merge_next_id_distinct:
  "state_distinct p \<Longrightarrow> state_distinct (fold merge_next_id xs p)"
  by (induction xs arbitrary: p)
    (auto simp: merge_next_id_def state_distinct_def map_of_eq_None_iff)

lemma fold_merge_removed:
  assumes "distinct (map fst xs)"
  shows "set (new_ids (fold merge_removed xs p)) = {i \<in> set (new_ids p). map_of xs i = None}"
    and "map_of (old_values (fold merge_removed xs p)) i =
      (if i \<notin> set (new_ids p) \<and> map_of xs i \<noteq> None then None else map_of (old_values p) i)"
    and "map_of (removed (fold merge_removed xs p)) i =
      (case map_of xs i of
         Some w \<Rightarrow> if i \<in> set (new_ids p) then map_of (removed p) i
                   else (case map_of (old_values p) i of Some v \<Rightarrow> Some v | None \<Rightarrow> Some w)
       | None \<Rightarrow> map_of (removed p) i)"
    and "old_index_next_ids (fold merge_removed xs p) = old_index_next_ids p"
    and "state_distinct p \<Longrightarrow> state_distinct (fold merge_removed xs p)"
  using assms
proof (induction xs arbitrary: p)
  case Nil
  case 1 show ?case by simp
  case 2 show ?case by simp
  case 3 show ?case by simp
  case 4 show ?case by simp
  case 5 then show ?case by simp
next
  case (Cons x xs)
  obtain k w where x: "x = (k, w)" by fastforce
  { case 1
    then have k: "map_of xs k = None" by (auto simp: x map_of_eq_None_iff)
    from 1 Cons.IH(1) k show ?case by (auto simp: x merge_removed_def split: option.splits)
  next
    case 2
    then have k: "map_of xs k = None" by (auto simp: x map_of_eq_None_iff)
    from 2 Cons.IH(2) k show ?case by (auto simp: x merge_removed_def split: option.splits)
  next
    case 3
    then have k: "map_of xs k = None" by (auto simp: x map_of_eq_None_iff)
    from 3 Cons.IH(3) k show ?case by (auto simp: x merge_removed_def split: option.splits)
  next
    case 4
    with Cons.IH(4) show ?case by (auto simp: x merge_removed_def split: option.splits)
  next
    case 5
    then have "state_distinct (merge_removed x p)"
      by (auto simp: x merge_removed_def state_distinct_def distinct_removeAll split: option.splits)
    with 5 Cons.IH(5) show ?case by simp }
qed

lemma next_ok_trans:
  assumes "next_ok na s1 nb" "next_ok nb s2 nc"
    and "\<And>ix. map_of s ix = (case map_of s1 ix of Some v \<Rightarrow> Some v | None \<Rightarrow> map_of s2 ix)"
  shows "next_ok na s nc"
proof -
  have "na ix = (case map_of s ix of Some n \<Rightarrow> n | None \<Rightarrow> nc ix)" for ix
    using assms(1,2) assms(3) [of ix] by (auto simp: next_ok_def split: option.splits)
  moreover have "oid_instance (na ix) \<le> oid_instance (nc ix)" for ix
    using assms(1,2) unfolding next_ok_def by (meson le_trans)
  ultimately show ?thesis by (simp add: next_ok_def)
qed

lemma merge_states_maps:
  assumes "distinct (map fst (removed s2))"
  shows "i \<in> set (new_ids (merge_states s2 s1)) \<longleftrightarrow>
      (i \<in> set (new_ids s1) \<or> i \<in> set (new_ids s2)) \<and> map_of (removed s2) i = None"
    and "map_of (old_values (merge_states s2 s1)) i =
      (if i \<notin> set (new_ids s1) \<and> i \<notin> set (new_ids s2) \<and> map_of (removed s2) i \<noteq> None then None
       else if i \<in> set (new_ids s1) then map_of (old_values s1) i
       else case map_of (old_values s1) i of Some v \<Rightarrow> Some v | None \<Rightarrow> map_of (old_values s2) i)"
    and "map_of (removed (merge_states s2 s1)) i =
      (case map_of (removed s2) i of
         Some w \<Rightarrow> if i \<in> set (new_ids s1) \<or> i \<in> set (new_ids s2) then map_of (removed s1) i
                   else (case map_of (old_values s1) i of Some v \<Rightarrow> Some v
                         | None \<Rightarrow> (case map_of (old_values s2) i of Some v \<Rightarrow> Some v | None \<Rightarrow> Some w))
       | None \<Rightarrow> map_of (removed s1) i)"
    and "map_of (old_index_next_ids (merge_states s2 s1)) ix =
      (case map_of (old_index_next_ids s1) ix of Some v \<Rightarrow> Some v | None \<Rightarrow> map_of (old_index_next_ids s2) ix)"
  by (simp_all add: merge_states_def Let_def fold_merge_removed [OF assms] fold_merge_next_id fold_merge_old_value
      split: option.splits) blast+

lemma merge_states_distinct:
  assumes "state_distinct s1" "state_distinct s2"
  shows "state_distinct (merge_states s2 s1)"
proof -
  let ?p1 = "fold merge_old_value (old_values s2) s1"
  have "state_distinct (?p1\<lparr>new_ids := fold List.insert (new_ids s2) (new_ids ?p1)\<rparr>)"
    using fold_merge_old_value(5) [OF assms(1)] by (auto simp: state_distinct_def distinct_fold_insert)
  moreover have "distinct (map fst (removed s2))" using assms(2) by (simp add: state_distinct_def)
  ultimately show ?thesis
    unfolding merge_states_def Let_def by (intro fold_merge_removed(5) fold_merge_next_id_distinct)
qed

lemma diff_inv_merge:
  assumes ab: "diff_inv a s1 b" and bc: "diff_inv b s2 c"
  shows "diff_inv a (merge_states s2 s1) c"
proof -
  have e1: "entry_ok a s1 b i" and e2: "entry_ok b s2 c i" for i
    using assms by (auto simp: diff_inv_def)
  have d: "distinct (map fst (removed s2))" using bc by (simp add: diff_inv_def state_distinct_def)
  have new2: "objs a i = None \<and> oid_instance (next_id a (index_id i)) \<le> oid_instance i"
    if "i \<in> set (new_ids s2)" for i
  proof -
    have "oid_instance (next_id b (index_id i)) \<le> oid_instance i" using e2 [of i] that by (simp add: entry_ok_def)
    with diff_inv_le [OF ab, of "index_id i"] have le: "oid_instance (next_id a (index_id i)) \<le> oid_instance i"
      by (rule le_trans)
    moreover have "contents_ok a" using ab by (simp add: diff_inv_def)
    ultimately show ?thesis using contents_ok_bound [of a i] by fastforce
  qed
  have "entry_ok a (merge_states s2 s1) c i" for i
  proof -
    have "entry (i \<in> set (new_ids (merge_states s2 s1))) (map_of (old_values (merge_states s2 s1)) i)
        (map_of (removed (merge_states s2 s1)) i) (objs a i) (objs c i)"
      unfolding merge_states_maps [OF d]
      by (rule entry_merge) (use e1 [of i] e2 [of i] new2 [of i] in \<open>auto simp: entry_ok_def\<close>)
    moreover have "i \<in> set (new_ids (merge_states s2 s1)) \<longrightarrow> oid_instance (next_id a (index_id i)) \<le> oid_instance i"
      using e1 [of i] new2 [of i] by (auto simp: merge_states_maps [OF d] entry_ok_def)
    ultimately show ?thesis by (simp add: entry_ok_def)
  qed
  moreover have "next_ok (next_id a) (old_index_next_ids (merge_states s2 s1)) (next_id c)"
    by (rule next_ok_trans [of _ "old_index_next_ids s1" "next_id b" "old_index_next_ids s2"])
      (use assms in \<open>simp_all add: diff_inv_def merge_states_maps [OF d]\<close>)
  moreover have "state_distinct (merge_states s2 s1)"
    using assms by (intro merge_states_distinct) (simp_all add: diff_inv_def)
  ultimately show ?thesis using assms by (simp add: diff_inv_def)
qed

subsection \<open>Reverting a difference\<close>

lemma fold_db_modify:
  assumes "disabled db" "distinct (map fst vs)" "\<And>i v. (i, v) \<in> set vs \<Longrightarrow> objs db i \<noteq> None"
  shows "res_fold (\<lambda>(i, v). db_modify i (\<lambda>_. v)) vs db
    = Inr (db\<lparr>objs := (\<lambda>i. case map_of vs i of Some v \<Rightarrow> Some v | None \<Rightarrow> objs db i)\<rparr>)"
  using assms
proof (induction vs arbitrary: db)
  case Nil
  then show ?case by simp
next
  case (Cons p vs)
  obtain k w where p: "p = (k, w)" by fastforce
  obtain obj where obj: "objs db k = Some obj" using Cons.prems(3) p by fastforce
  let ?db = "db\<lparr>objs := (objs db)(k \<mapsto> w)\<rparr>"
  have "db_modify k (\<lambda>_. w) db = Inr ?db"
    using obj Cons.prems(1) by (simp add: db_modify_def on_modify_def Let_def)
  moreover have "res_fold (\<lambda>(i, v). db_modify i (\<lambda>_. v)) vs ?db
      = Inr (?db\<lparr>objs := (\<lambda>i. case map_of vs i of Some v \<Rightarrow> Some v | None \<Rightarrow> objs ?db i)\<rparr>)"
    using Cons.prems by (intro Cons.IH) (auto simp: p)
  moreover have "map_of vs k = None" using Cons.prems(2) by (auto simp: p map_of_eq_None_iff)
  then have "(\<lambda>i. case map_of vs i of Some v \<Rightarrow> Some v | None \<Rightarrow> objs ?db i)
      = (\<lambda>i. case map_of (p # vs) i of Some v \<Rightarrow> Some v | None \<Rightarrow> objs db i)"
    by (auto simp: p fun_eq_iff split: option.splits)
  ultimately show ?case by (simp add: p)
qed

lemma fold_db_remove:
  assumes "disabled db" "distinct is" "\<And>i. i \<in> set is \<Longrightarrow> objs db i \<noteq> None"
  shows "res_fold db_remove is db = Inr (db\<lparr>objs := (\<lambda>i. if i \<in> set is then None else objs db i)\<rparr>)"
  using assms
proof (induction "is" arbitrary: db)
  case Nil
  then show ?case by simp
next
  case (Cons k js)
  obtain obj where obj: "objs db k = Some obj" using Cons.prems(3) by fastforce
  let ?db = "db\<lparr>objs := (objs db)(k := None)\<rparr>"
  have "db_remove k db = Inr ?db"
    using obj Cons.prems(1) by (simp add: db_remove_def on_remove_def Let_def)
  moreover have "res_fold db_remove js ?db = Inr (?db\<lparr>objs := (\<lambda>i. if i \<in> set js then None else objs ?db i)\<rparr>)"
    using Cons.prems by (intro Cons.IH) auto
  moreover have "(\<lambda>i. if i \<in> set js then None else objs ?db i) = (\<lambda>i. if i \<in> set (k # js) then None else objs db i)"
    by auto
  ultimately show ?case by simp
qed

lemma fold_set_next_id:
  assumes "distinct (map fst ns)"
  shows "fold (\<lambda>(ix, i) d. set_next_id ix i d) ns db
    = db\<lparr>next_id := (\<lambda>ix. case map_of ns ix of Some n \<Rightarrow> n | None \<Rightarrow> next_id db ix)\<rparr>"
  using assms
proof (induction ns arbitrary: db)
  case Nil
  then show ?case by simp
next
  case (Cons p ns)
  obtain k w where p: "p = (k, w)" by fastforce
  have "map_of ns k = None" using Cons.prems by (auto simp: p map_of_eq_None_iff)
  then have "(\<lambda>ix. case map_of ns ix of Some n \<Rightarrow> n | None \<Rightarrow> ((next_id db)(k := w)) ix)
      = (\<lambda>ix. case map_of (p # ns) ix of Some n \<Rightarrow> n | None \<Rightarrow> next_id db ix)"
    by (auto simp: p fun_eq_iff split: option.splits)
  with Cons.IH [of "db\<lparr>next_id := (next_id db)(k := w)\<rparr>"] Cons.prems show ?case
    by (simp add: p set_next_id_def cong: option.case_cong)
qed

lemma fold_db_insert:
  assumes "disabled db" "distinct (map fst vs)" "\<And>i v. (i, v) \<in> set vs \<Longrightarrow> objs db i = None"
  shows "res_fold (\<lambda>(i, v). db_insert i v) vs db
    = Inr (db\<lparr>objs := (\<lambda>i. case map_of vs i of Some v \<Rightarrow> Some v | None \<Rightarrow> objs db i)\<rparr>)"
  using assms
proof (induction vs arbitrary: db)
  case Nil
  then show ?case by simp
next
  case (Cons p vs)
  obtain k w where p: "p = (k, w)" by fastforce
  let ?db = "db\<lparr>objs := (objs db)(k \<mapsto> w)\<rparr>"
  have "db_insert k w db = Inr ?db"
    using Cons.prems(1) Cons.prems(3) [of k w] by (simp add: p db_insert_def on_create_def)
  moreover have k: "k \<notin> fst ` set vs" using Cons.prems(2) by (simp add: p)
  then have "res_fold (\<lambda>(i, v). db_insert i v) vs ?db
      = Inr (?db\<lparr>objs := (\<lambda>i. case map_of vs i of Some v \<Rightarrow> Some v | None \<Rightarrow> objs ?db i)\<rparr>)"
    using Cons.prems by (intro Cons.IH) (auto simp: p image_iff)
  moreover have "(\<lambda>i. case map_of vs i of Some v \<Rightarrow> Some v | None \<Rightarrow> objs ?db i)
      = (\<lambda>i. case map_of (p # vs) i of Some v \<Rightarrow> Some v | None \<Rightarrow> objs db i)"
    using k map_of_eq_None_iff [of vs k] by (auto simp: p fun_eq_iff split: option.splits)
  ultimately show ?case by (simp add: p)
qed

lemma revert_state_restores:
  assumes inv: "diff_inv b s (cur db)" and dis: "disabled db"
  shows "revert_state s db = Inr (db\<lparr>objs := objs b, next_id := next_id b\<rparr>)"
proof -
  have d: "distinct (map fst (old_values s))" "distinct (map fst (removed s))" "distinct (new_ids s)"
    "distinct (map fst (old_index_next_ids s))" and e: "\<And>i. entry_ok b s (cur db) i"
    using inv by (auto simp: diff_inv_def state_distinct_def)
  have n: "next_id b ix = (case map_of (old_index_next_ids s) ix of Some n \<Rightarrow> n | None \<Rightarrow> next_id db ix)" for ix
    using inv by (cases ix) (auto simp: diff_inv_def next_ok_def cur_def)
  have mem: "(i, v) \<in> set (old_values s) \<longleftrightarrow> map_of (old_values s) i = Some v"
    "(i, v) \<in> set (removed s) \<longleftrightarrow> map_of (removed s) i = Some v" for i v
    using d(1,2) by simp_all
  let ?db1 = "db\<lparr>objs := (\<lambda>i. case map_of (old_values s) i of Some v \<Rightarrow> Some v | None \<Rightarrow> objs db i)\<rparr>"
  let ?db2 = "?db1\<lparr>objs := (\<lambda>i. if i \<in> set (new_ids s) then None else objs ?db1 i)\<rparr>"
  let ?db3 = "?db2\<lparr>next_id := next_id b\<rparr>"
  have pres1: "objs db i \<noteq> None" if "map_of (old_values s) i = Some v" for i v
    using e [of i] that by (auto simp: entry_ok_def entry_def cur_def split: if_splits)
  have pres2: "objs ?db1 i \<noteq> None" if "i \<in> set (new_ids s)" for i
    using e [of i] that by (auto simp: entry_ok_def entry_def cur_def)
  have pres3: "objs ?db2 i = None" if "map_of (removed s) i = Some v" for i v
    using e [of i] that by (auto simp: entry_ok_def entry_def cur_def split: if_splits option.splits)
  have 1: "res_fold (\<lambda>(i, v). db_modify i (\<lambda>_. v)) (old_values s) db = Inr ?db1"
    using pres1 by (intro fold_db_modify dis d) (simp add: mem)
  have 2: "res_fold db_remove (new_ids s) ?db1 = Inr ?db2"
    using pres2 by (intro fold_db_remove d) (auto simp: dis)
  have 3: "fold (\<lambda>(ix, i) d. set_next_id ix i d) (old_index_next_ids s) ?db2 = ?db3"
  proof -
    have "(\<lambda>ix. case map_of (old_index_next_ids s) ix of Some m \<Rightarrow> m | None \<Rightarrow> next_id ?db2 ix) = next_id b"
      by (rule ext) (simp add: n cong: option.case_cong)
    then show ?thesis by (simp only: fold_set_next_id [OF d(4)])
  qed
  have 4: "res_fold (\<lambda>(i, v). db_insert i v) (removed s) ?db3
      = Inr (?db3\<lparr>objs := (\<lambda>i. case map_of (removed s) i of Some v \<Rightarrow> Some v | None \<Rightarrow> objs ?db3 i)\<rparr>)"
    using pres3 by (intro fold_db_insert d) (auto simp: mem dis)
  have "(case map_of (removed s) i of Some v \<Rightarrow> Some v | None \<Rightarrow> objs ?db3 i) = objs b i" for i
    using e [of i] by (auto simp: entry_ok_def entry_def cur_def split: if_splits option.splits)
  then have "(\<lambda>i. case map_of (removed s) i of Some v \<Rightarrow> Some v | None \<Rightarrow> objs ?db3 i) = objs b" by blast
  with 1 2 3 4 show ?thesis by (simp add: revert_state_def Let_def)
qed

subsection \<open>The specification: a stack of snapshots\<close>

text \<open>A run of the database is a sequence of these commands.\<close>

datatype 'o command =
    Create "nat \<times> nat" 'o
  | Modify oid "'o \<Rightarrow> 'o"
  | Remove oid
  | Start_session
  | Undo
  | Merge
  | Commit
  | Pop_commit

fun exec :: "'o command \<Rightarrow> 'o undo_db \<Rightarrow> 'o undo_db res" where
  "exec (Create ix obj) db = res_bind (db_create ix obj db) (\<lambda>p. Inr (snd p))"
| "exec (Modify i f) db = db_modify i f db"
| "exec (Remove i) db = db_remove i db"
| "exec Start_session db = Inr (snd (start_undo_session False db))"
| "exec Undo db = undo db"
| "exec Merge db = merge db"
| "exec Commit db = commit db"
| "exec Pop_commit db = pop_commit db"

text \<open>The abstract state: the current contents and the snapshots, the most recent first. Without an open
  session the first change takes a snapshot, as the source then opens an undo state by itself.\<close>

type_synonym 'o snapshots = "'o contents \<times> 'o contents list"

definition push_if_empty :: "'o snapshots \<Rightarrow> 'o contents list" where
  "push_if_empty a = (if snd a = [] then [fst a] else snd a)"

fun snap_exec :: "nat \<Rightarrow> 'o command \<Rightarrow> 'o snapshots \<Rightarrow> 'o snapshots" where
  "snap_exec m (Create ix obj) a = (created ix obj (fst a), push_if_empty a)"
| "snap_exec m (Modify i f) a = ((fst a)\<lparr>objs := (objs (fst a))(i := map_option f (objs (fst a) i))\<rparr>, push_if_empty a)"
| "snap_exec m (Remove i) a = ((fst a)\<lparr>objs := (objs (fst a))(i := None)\<rparr>, push_if_empty a)"
| "snap_exec m Start_session a = (fst a, fst a # take m (snd a))"
| "snap_exec m Undo a = (hd (snd a), tl (snd a))"
| "snap_exec m Merge a = (fst a, tl (snd a))"
| "snap_exec m Commit a = a"
| "snap_exec m Pop_commit a = (hd (snd a), tl (snd a))"

fun chain :: "'o contents list \<Rightarrow> 'o undo_state list \<Rightarrow> 'o contents \<Rightarrow> bool" where
  "chain [] [] c = contents_ok c"
| "chain (b # bs) (s # ss) c = (diff_inv b s c \<and> chain bs ss b)"
| "chain _ _ c = False"

definition refines :: "'o snapshots \<Rightarrow> 'o undo_db \<Rightarrow> bool" where
  "refines a db \<longleftrightarrow> fst a = cur db \<and> chain (snd a) (stack db) (cur db) \<and> \<not> disabled db"

lemma chain_ok: "chain bs ss c \<Longrightarrow> contents_ok c"
  by (cases "(bs, ss, c)" rule: chain.cases) (auto simp: diff_inv_def)

lemma chain_take: "chain bs ss c \<Longrightarrow> chain (take m bs) (take m ss) c"
  by (induction bs ss c arbitrary: m rule: chain.induct) (auto simp: take_Cons diff_inv_def split: nat.splits)

lemma prune_stack_take: "prune_stack m ss = take m ss"
proof (induction m ss rule: prune_stack.induct)
  case (1 m ss)
  then show ?case by (simp add: prune_stack.simps [of m ss] take_butlast)
qed

lemma refines_top:
  assumes "refines a db" "top_state db = (s, rest)"
  obtains b bs where "push_if_empty a = b # bs" "diff_inv b s (cur db)" "chain bs rest b"
  using assms
  by (cases "(snd a, stack db, cur db)" rule: chain.cases)
    (auto simp: refines_def top_state_def push_if_empty_def intro: diff_inv_empty)

lemma cur_simps [simp]:
  "cur (db\<lparr>stack := ss\<rparr>) = cur db"
  "cur (db\<lparr>disabled := d\<rparr>) = cur db"
  "cur (db\<lparr>active_sessions := n\<rparr>) = cur db"
  "cur (db\<lparr>objs := f\<rparr>) = (cur db)\<lparr>objs := f\<rparr>"
  "cur (db\<lparr>next_id := g\<rparr>) = (cur db)\<lparr>next_id := g\<rparr>"
  "objs (cur db) = objs db" "next_id (cur db) = next_id db"
  by (simp_all add: cur_def)

lemma on_create_eq:
  "\<not> disabled db \<Longrightarrow> top_state db = (s, rest) \<Longrightarrow> on_create i db = db\<lparr>stack := record_create i s # rest\<rparr>"
  by (simp add: on_create_def record_create_def Let_def)

lemma on_modify_eq:
  "\<not> disabled db \<Longrightarrow> top_state db = (s, rest) \<Longrightarrow> on_modify i v db = db\<lparr>stack := record_modify i v s # rest\<rparr>"
  by (simp add: on_modify_def record_modify_def Let_def)

lemma on_remove_eq:
  "\<not> disabled db \<Longrightarrow> top_state db = (s, rest) \<Longrightarrow> on_remove i v db = db\<lparr>stack := record_remove i v s # rest\<rparr>"
  by (simp add: on_remove_def record_remove_def Let_def)

lemma refines_create:
  assumes "refines a db" "db_create ix obj db = Inr (i, db')"
  shows "refines (snap_exec m (Create ix obj) a) db'"
proof -
  obtain s rest where top: "top_state db = (s, rest)" by fastforce
  let ?n = "next_id db ix"
  let ?db1 = "db\<lparr>objs := (objs db)(?n \<mapsto> obj), next_id := (next_id db)(ix := ?n\<lparr>oid_instance := Suc (oid_instance ?n)\<rparr>)\<rparr>"
  have en: "\<not> disabled db" and a: "fst a = cur db" using assms(1) by (auto simp: refines_def)
  have "top_state ?db1 = (s, rest)" using top by (simp add: top_state_def)
  then have db': "db' = ?db1\<lparr>stack := record_create ?n s # rest\<rparr>"
    using assms(2) en by (auto simp: db_create_def Let_def on_create_eq)
  obtain b bs where bs: "push_if_empty a = b # bs" "diff_inv b s (cur db)" "chain bs rest b"
    using refines_top [OF assms(1) top] .
  have "cur db' = created ix obj (cur db)" by (simp add: db' created_def Let_def)
  with bs en a diff_inv_create [OF bs(2), of ix obj] show ?thesis
    by (simp add: refines_def db')
qed

lemma refines_modify:
  assumes "refines a db" "db_modify i f db = Inr db'"
  shows "refines (snap_exec m (Modify i f) a) db'"
proof -
  obtain s rest where top: "top_state db = (s, rest)" by fastforce
  have en: "\<not> disabled db" and a: "fst a = cur db" using assms(1) by (auto simp: refines_def)
  obtain v where v: "objs db i = Some v" and db': "db' = db\<lparr>stack := record_modify i v s # rest, objs := (objs db)(i \<mapsto> f v)\<rparr>"
    using assms(2) by (auto simp: db_modify_def Let_def on_modify_eq [OF en top])
  obtain b bs where bs: "push_if_empty a = b # bs" "diff_inv b s (cur db)" "chain bs rest b"
    using refines_top [OF assms(1) top] .
  from bs en a v diff_inv_modify [OF bs(2), of i v "f v"] show ?thesis
    by (simp add: refines_def db')
qed

lemma refines_remove:
  assumes "refines a db" "db_remove i db = Inr db'"
  shows "refines (snap_exec m (Remove i) a) db'"
proof -
  obtain s rest where top: "top_state db = (s, rest)" by fastforce
  have en: "\<not> disabled db" and a: "fst a = cur db" using assms(1) by (auto simp: refines_def)
  obtain v where v: "objs db i = Some v" and db': "db' = db\<lparr>stack := record_remove i v s # rest, objs := (objs db)(i := None)\<rparr>"
    using assms(2) by (auto simp: db_remove_def Let_def on_remove_eq [OF en top])
  obtain b bs where bs: "push_if_empty a = b # bs" "diff_inv b s (cur db)" "chain bs rest b"
    using refines_top [OF assms(1) top] .
  from bs en a v diff_inv_remove [OF bs(2), of i v] show ?thesis
    by (simp add: refines_def db')
qed

lemma refines_start:
  "refines a db \<Longrightarrow> refines (snap_exec (max_size db) Start_session a) (snd (start_undo_session False db))"
  by (auto simp: refines_def start_undo_session_def prune_stack_take Let_def
      intro: chain_take diff_inv_empty chain_ok)

lemma refines_stack:
  assumes "refines a db" "stack db = s # ss"
  obtains b bs where "snd a = b # bs" "diff_inv b s (cur db)" "chain bs ss b"
  using assms by (cases "(snd a, stack db, cur db)" rule: chain.cases) (auto simp: refines_def)

lemma revert_refines:
  assumes "refines a db" "stack db = s # ss"
  shows "\<exists>b bs. snd a = b # bs \<and> chain bs ss b \<and>
    revert_state s (disable db) = Inr ((disable db)\<lparr>objs := objs b, next_id := next_id b\<rparr>)"
proof -
  obtain b bs where b: "snd a = b # bs" "diff_inv b s (cur db)" "chain bs ss b"
    using refines_stack [OF assms] .
  have "diff_inv b s (cur (disable db))" using b by (simp add: disable_def)
  with b revert_state_restores [of b s "disable db"] show ?thesis by (simp add: disable_def)
qed

lemma contents_eqI: "(cur db)\<lparr>objs := objs b, next_id := next_id b\<rparr> = (b :: 'o contents)"
  by (simp add: cur_def)

lemma refines_undo:
  assumes "refines a db" "undo db = Inr db'"
  shows "refines (snap_exec m Undo a) db'"
proof -
  obtain s ss where st: "stack db = s # ss" using assms(2) by (auto simp: undo_def split: list.splits)
  from revert_refines [OF assms(1) st] obtain b bs where b: "snd a = b # bs" "chain bs ss b"
    "revert_state s (disable db) = Inr ((disable db)\<lparr>objs := objs b, next_id := next_id b\<rparr>)" by blast
  with assms st show ?thesis by (auto simp: undo_def refines_def enable_def disable_def contents_eqI)
qed

lemma refines_pop_commit:
  assumes "refines a db" "pop_commit db = Inr db'"
  shows "refines (snap_exec m Pop_commit a) db'"
proof -
  obtain s ss where st: "stack db = s # ss" using assms(2) by (auto simp: pop_commit_def split: list.splits)
  from revert_refines [OF assms(1) st] obtain b bs where b: "snd a = b # bs" "chain bs ss b"
    "revert_state s (disable db) = Inr ((disable db)\<lparr>objs := objs b, next_id := next_id b\<rparr>)" by blast
  with assms st show ?thesis by (auto simp: pop_commit_def refines_def enable_def disable_def contents_eqI)
qed

lemma refines_merge:
  assumes "refines a db" "merge db = Inr db'"
  shows "refines (snap_exec m Merge a) db'"
proof (cases "active_sessions db = 1 \<and> length (stack db) = 1")
  case True
  then obtain s where st: "stack db = [s]" by (cases "stack db") auto
  obtain b bs where b: "snd a = b # bs" "diff_inv b s (cur db)" "chain bs [] b"
    using refines_stack [OF assms(1) st] .
  then have "bs = []" by (cases bs) auto
  moreover have "db' = db\<lparr>stack := [], active_sessions := active_sessions db - 1\<rparr>"
    using assms(2) True by (simp add: merge_def)
  ultimately show ?thesis using b assms(1) by (simp add: refines_def diff_inv_def)
next
  case False
  then obtain s2 s1 ss where st: "stack db = s2 # s1 # ss"
    and db': "db' = db\<lparr>stack := merge_states s2 s1 # ss, active_sessions := active_sessions db - 1\<rparr>"
    using assms(2) by (auto simp: merge_def split: list.splits)
  obtain b bs where b: "snd a = b # bs" "diff_inv b s2 (cur db)" "chain bs (s1 # ss) b"
    using refines_stack [OF assms(1) st] .
  then obtain b1 bs1 where b1: "bs = b1 # bs1" "diff_inv b1 s1 b" "chain bs1 ss b1" by (cases bs) auto
  from diff_inv_merge [OF b1(2) b(2)] b b1 assms(1) show ?thesis by (simp add: refines_def db')
qed

lemma refines_commit: "refines a db \<Longrightarrow> commit db = Inr db' \<Longrightarrow> refines (snap_exec m Commit a) db'"
  by (auto simp: commit_def refines_def)

lemma refines_exec: "refines a db \<Longrightarrow> exec c db = Inr db' \<Longrightarrow> refines (snap_exec (max_size db) c a) db'"
  by (cases c) (auto simp del: snap_exec.simps intro: refines_create refines_modify refines_remove refines_start
      refines_undo refines_merge refines_commit refines_pop_commit)

lemma max_size_exec: "exec c db = Inr db' \<Longrightarrow> refines a db \<Longrightarrow> max_size db' = max_size db"
proof (induction c)
  case Undo
  then obtain s ss where "stack db = s # ss" by (auto simp: undo_def split: list.splits)
  with Undo revert_refines [of a db s ss] show ?case by (auto simp: undo_def enable_def disable_def)
next
  case Pop_commit
  then obtain s ss where "stack db = s # ss" by (auto simp: pop_commit_def split: list.splits)
  with Pop_commit revert_refines [of a db s ss] show ?case by (auto simp: pop_commit_def enable_def disable_def)
qed (auto simp: db_create_def db_modify_def db_remove_def on_create_def on_modify_def on_remove_def Let_def
      start_undo_session_def merge_def commit_def split: prod.splits list.splits if_splits)

subsection \<open>Simulation\<close>

text \<open>A concrete machine that may throw simulates an abstract one: every successful step is the abstract step. Then
  so is every run.\<close>

locale simulation =
  fixes rel :: "'a \<Rightarrow> 'c \<Rightarrow> bool"
    and cstep :: "'e \<Rightarrow> 'c \<Rightarrow> 'c res"
    and astep :: "'e \<Rightarrow> 'a \<Rightarrow> 'a"
  assumes sim: "rel a c \<Longrightarrow> cstep e c = Inr c' \<Longrightarrow> rel (astep e a) c'"
begin

lemma sim_run: "rel a c \<Longrightarrow> res_fold cstep es c = Inr c' \<Longrightarrow> rel (fold astep es a) c'"
  by (induction es arbitrary: a c) (auto dest: sim)

end

text \<open>The abstract machine needs the bound on the number of snapshots, which no command changes.\<close>

interpretation undo_snapshots: simulation
  "\<lambda>(m, a) db. max_size db = m \<and> refines a db" exec "\<lambda>c (m, a). (m, snap_exec m c a)"
proof unfold_locales
  fix a :: "nat \<times> 'o snapshots" and db db' :: "'o undo_db" and c :: "'o command"
  assume rel: "(case a of (m, a) \<Rightarrow> \<lambda>db. max_size db = m \<and> refines a db) db" and ex: "exec c db = Inr db'"
  obtain m s where a: "a = (m, s)" by (cases a)
  have r: "refines s db" and m: "max_size db = m" using rel by (auto simp: a)
  have "refines (snap_exec m c s) db'"
    using refines_exec [OF r ex] by (simp add: m)
  with max_size_exec [OF ex r] m
  show "(case (case a of (m, a) \<Rightarrow> (m, snap_exec m c a)) of (m, a) \<Rightarrow> \<lambda>db. max_size db = m \<and> refines a db) db'"
    by (simp add: a)
qed

subsection \<open>Properties\<close>

text \<open>C7: The undo database implements a stack of full snapshots. Run any sequence of creations, modifications,
  removals, session starts, undos, merges, commits and commit pops on a consistent database; if the
  run returns, the contents are those of the same run on complete snapshots, and the recorded
  differences still describe every snapshot.\<close>

theorem undo_database_refines_snapshots:
  assumes "refines a db" "res_fold exec cmds db = Inr db'"
  shows "refines (fold (snap_exec (max_size db)) cmds a) db' \<and> cur db' = fst (fold (snap_exec (max_size db)) cmds a)"
proof -
  have eq: "fold (\<lambda>c (m, a). (m, snap_exec m c a)) cmds (max_size db, a) = (max_size db, fold (snap_exec (max_size db)) cmds a)"
    by (induction cmds arbitrary: a) auto
  have "case (max_size db, a) of (m, a) \<Rightarrow> max_size db = m \<and> refines a db"
    using assms(1) by simp
  from undo_snapshots.sim_run [of "(max_size db, a)" db cmds db'] assms
  have "refines (fold (snap_exec (max_size db)) cmds a) db'" unfolding eq by simp
  then show ?thesis by (simp add: refines_def)
qed

definition fresh_db :: "'o undo_db" where
  "fresh_db = \<lparr>objs = (\<lambda>_. None), next_id = (\<lambda>(s, t). \<lparr>oid_space = s, oid_type = t, oid_instance = 0\<rparr>),
     active_sessions = 0, disabled = False, stack = [], max_size = 256\<rparr>"

lemma fresh_db_refines: "refines (cur fresh_db, []) fresh_db"
  by (simp add: refines_def fresh_db_def cur_def contents_ok_def)

theorem undo_database_refines_snapshots_witness:
  "\<exists>db'. res_fold exec [Start_session, Create (1, 2) ''a'', Start_session,
       Create (1, 2) ''b'', Remove \<lparr>oid_space = 1, oid_type = 2, oid_instance = 0\<rparr>, Merge, Undo] fresh_db = Inr db'
     \<and> cur db' = cur fresh_db"
proof -
  let ?cs = "[Start_session, Create (1, 2) ''a'', Start_session,
       Create (1, 2) ''b'', Remove \<lparr>oid_space = 1, oid_type = 2, oid_instance = 0\<rparr>, Merge, Undo]"
  have "\<exists>db'. res_fold exec ?cs fresh_db = Inr db'"
    by (simp add: fresh_db_def start_undo_session_def Let_def prune_stack_take db_create_def on_create_def top_state_def
        db_remove_def on_remove_def merge_def merge_states_def merge_old_value_def merge_next_id_def merge_removed_def
        al_set_def al_erase_def undo_def revert_state_def disable_def enable_def empty_undo_state_def set_next_id_def
        db_insert_def)
  then obtain db' where db': "res_fold exec ?cs fresh_db = Inr db'" by blast
  from undo_database_refines_snapshots [OF fresh_db_refines db'] have "cur db' = cur fresh_db"
    by (simp add: push_if_empty_def fresh_db_def)
  with db' show ?thesis by blast
qed

text \<open>Undoing never throws: whenever a session is active and the recorded differences describe the snapshots, \<open>undo\<close>
  returns, restores exactly the objects and next identifiers of the latest snapshot, drops that snapshot and
  closes one session.\<close>

lemma undo_total_and_restores:
  assumes "refines (c, b # bs) db" "active_sessions db > 0"
  shows "\<exists>db'. undo db = Inr db' \<and> cur db' = b \<and> refines (b, bs) db' \<and> active_sessions db' = active_sessions db - 1"
proof -
  obtain s ss where st: "stack db = s # ss" using assms(1) by (cases "stack db") (auto simp: refines_def)
  from revert_refines [OF assms(1) st] assms obtain db' where db': "undo db = Inr db'"
      "active_sessions db' = active_sessions db - 1"
    using st by (auto simp: undo_def refines_def enable_def disable_def)
  with refines_undo [OF assms(1) db'(1)] show ?thesis by (auto simp: refines_def)
qed

lemma instance_bits:
  assumes "drop_bit 48 i = (0 :: 64 word)" "bit i n"
  shows "n < 48"
proof (rule ccontr)
  assume "\<not> n < 48"
  then have "bit (drop_bit 48 i) (n - 48) = bit i n" by (subst bit_drop_bit_eq) simp
  with assms show False by simp
qed

lemma pack_space:
  "drop_bit 48 i = 0 \<Longrightarrow>
     ucast (drop_bit 56 (push_bit 56 (ucast (s :: 8 word)) OR push_bit 48 (ucast (t :: 8 word)) OR (i :: 64 word))) = s"
  by (rule bit_word_eqI) (auto simp: bit_simps dest: instance_bits bit_imp_le_length)

lemma pack_type:
  assumes "drop_bit 48 i = 0"
  shows "ucast (drop_bit 48 (push_bit 56 (ucast (s :: 8 word)) OR push_bit 48 (ucast (t :: 8 word)) OR (i :: 64 word)) AND 0x00ff) = t"
proof -
  have m: "(0x00ff :: 64 word) = mask 8" by (simp add: mask_eq_exp_minus_1)
  show ?thesis unfolding m
    using assms by (intro bit_word_eqI) (auto simp: bit_simps dest: instance_bits bit_imp_le_length)
qed

lemma pack_instance:
  "drop_bit 48 i = 0 \<Longrightarrow>
     (push_bit 56 (ucast (s :: 8 word)) OR push_bit 48 (ucast (t :: 8 word)) OR (i :: 64 word)) AND mask 48 = i"
  by (rule bit_word_eqI) (auto simp: bit_simps dest: instance_bits bit_imp_le_length)

text \<open>The packed 64-bit object identifier is a faithful encoding: every space, type and instance below \<open>2 ^ 48\<close>
  packs, and the accessors give the three components back; any larger instance is rejected.\<close>

lemma object_id_roundtrip:
  "(drop_bit 48 i = 0 \<longrightarrow> (\<exists>w. object_id_pack s t i = Inr w \<and> object_id_space w = s
     \<and> object_id_type_of w = t \<and> object_id_instance w = i))
   \<and> (drop_bit 48 i \<noteq> 0 \<longrightarrow> object_id_pack s t i = Inl (Assert_exn ''instance overflow''))"
  unfolding object_id_pack_def object_id_space_def object_id_type_of_def object_id_instance_def
    GRAPHENE_DB_MAX_INSTANCE_ID_def FC_ASSERT_def
  using pack_space pack_type pack_instance by auto

end
