(* ===== verification/Graphene_Config.thy ===== *)
theory Graphene_Config
  imports Graphene_Prelude
begin

text \<open>
  The constants of \<open>libraries/protocol/include/graphene/protocol/config.hpp\<close>, the reserved account
  and asset identifiers, the asset permission flags of \<open>types.hpp\<close> and the hard-fork times of
  \<open>libraries/chain/hardfork.d\<close>.  Identifiers of objects of one type are their instance numbers;
  points in time are seconds since the epoch, as in \<open>fc::time_point_sec\<close>.
\<close>

type_synonym account_id = nat
type_synonym asset_id = nat
type_synonym obj_id = nat
type_synonym time_sec = nat

definition GRAPHENE_MAX_SHARE_SUPPLY :: int where
  "GRAPHENE_MAX_SHARE_SUPPLY = 1000000000000000"

definition GRAPHENE_BLOCKCHAIN_PRECISION :: int where
  "GRAPHENE_BLOCKCHAIN_PRECISION = 100000"

definition GRAPHENE_100_PERCENT :: int where
  "GRAPHENE_100_PERCENT = 10000"

definition GRAPHENE_COLLATERAL_RATIO_DENOM :: int where
  "GRAPHENE_COLLATERAL_RATIO_DENOM = 1000"

definition GRAPHENE_MIN_COLLATERAL_RATIO :: int where
  "GRAPHENE_MIN_COLLATERAL_RATIO = 1001"

definition GRAPHENE_MAX_COLLATERAL_RATIO :: int where
  "GRAPHENE_MAX_COLLATERAL_RATIO = 32000"

definition GRAPHENE_DEFAULT_MAINTENANCE_COLLATERAL_RATIO :: int where
  "GRAPHENE_DEFAULT_MAINTENANCE_COLLATERAL_RATIO = 1750"

definition GRAPHENE_DEFAULT_MAX_SHORT_SQUEEZE_RATIO :: int where
  "GRAPHENE_DEFAULT_MAX_SHORT_SQUEEZE_RATIO = 1500"

definition GRAPHENE_MIN_ASSET_SYMBOL_LENGTH :: nat where "GRAPHENE_MIN_ASSET_SYMBOL_LENGTH = 3"
definition GRAPHENE_MAX_ASSET_SYMBOL_LENGTH :: nat where "GRAPHENE_MAX_ASSET_SYMBOL_LENGTH = 16"
definition GRAPHENE_MIN_ACCOUNT_NAME_LENGTH :: nat where "GRAPHENE_MIN_ACCOUNT_NAME_LENGTH = 1"
definition GRAPHENE_MAX_ACCOUNT_NAME_LENGTH :: nat where "GRAPHENE_MAX_ACCOUNT_NAME_LENGTH = 63"

definition GRAPHENE_MAX_SIG_CHECK_DEPTH :: nat where "GRAPHENE_MAX_SIG_CHECK_DEPTH = 2"
definition GRAPHENE_COMMITTEE_ACCOUNT :: account_id where "GRAPHENE_COMMITTEE_ACCOUNT = 0"
definition GRAPHENE_WITNESS_ACCOUNT :: account_id where "GRAPHENE_WITNESS_ACCOUNT = 1"
definition GRAPHENE_RELAXED_COMMITTEE_ACCOUNT :: account_id where "GRAPHENE_RELAXED_COMMITTEE_ACCOUNT = 2"
definition GRAPHENE_NULL_ACCOUNT :: account_id where "GRAPHENE_NULL_ACCOUNT = 3"
definition GRAPHENE_TEMP_ACCOUNT :: account_id where "GRAPHENE_TEMP_ACCOUNT = 4"
definition GRAPHENE_PROXY_TO_SELF_ACCOUNT :: account_id where "GRAPHENE_PROXY_TO_SELF_ACCOUNT = 5"

text \<open>The CORE asset is the one whose identifier is the default \<open>asset_id_type()\<close>.\<close>

definition core_asset :: asset_id where "core_asset = 0"

definition GRAPHENE_1_PERCENT :: int where "GRAPHENE_1_PERCENT = 100"
definition GRAPHENE_MAX_WORKER_NAME_LENGTH :: nat where "GRAPHENE_MAX_WORKER_NAME_LENGTH = 63"
definition GRAPHENE_MAX_URL_LENGTH :: nat where "GRAPHENE_MAX_URL_LENGTH = 127"
definition GRAPHENE_CORE_ASSET_CYCLE_RATE :: nat where "GRAPHENE_CORE_ASSET_CYCLE_RATE = 17"
definition GRAPHENE_CORE_ASSET_CYCLE_RATE_BITS :: nat where "GRAPHENE_CORE_ASSET_CYCLE_RATE_BITS = 32"
definition GRAPHENE_MIN_TRANSACTION_SIZE_LIMIT :: nat where "GRAPHENE_MIN_TRANSACTION_SIZE_LIMIT = 1024"
definition GRAPHENE_MIN_BLOCK_SIZE_LIMIT :: nat where "GRAPHENE_MIN_BLOCK_SIZE_LIMIT = 5120"
definition GRAPHENE_MIN_BLOCK_INTERVAL :: nat where "GRAPHENE_MIN_BLOCK_INTERVAL = 1"
definition GRAPHENE_MAX_BLOCK_INTERVAL :: nat where "GRAPHENE_MAX_BLOCK_INTERVAL = 30"
definition GRAPHENE_DEFAULT_MAX_BUYBACK_MARKETS :: nat where "GRAPHENE_DEFAULT_MAX_BUYBACK_MARKETS = 4"

definition HARDFORK_453_TIME :: time_sec where "HARDFORK_453_TIME = 1450288800"
definition HARDFORK_516_TIME :: time_sec where "HARDFORK_516_TIME = 1456250400"
definition HARDFORK_533_TIME :: time_sec where "HARDFORK_533_TIME = 1456250400"
definition HARDFORK_607_TIME :: time_sec where "HARDFORK_607_TIME = 1458752400"
definition HARDFORK_613_TIME :: time_sec where "HARDFORK_613_TIME = 1458752400"
definition HARDFORK_CORE_143_TIME :: time_sec where "HARDFORK_CORE_143_TIME = 1512747600"
definition HARDFORK_CORE_518_TIME :: time_sec where "HARDFORK_CORE_518_TIME = 1532008920"
definition HARDFORK_CORE_1465_TIME :: time_sec where "HARDFORK_CORE_1465_TIME = 1556028120"
definition HARDFORK_436_TIME :: time_sec where "HARDFORK_436_TIME = 1450288800"
definition HARDFORK_555_TIME :: time_sec where "HARDFORK_555_TIME = 1456250400"
definition HARDFORK_615_TIME :: time_sec where "HARDFORK_615_TIME = 1458752400"
definition HARDFORK_1268_TIME :: time_sec where "HARDFORK_1268_TIME = 1556028120"
definition HARDFORK_CORE_184_TIME :: time_sec where "HARDFORK_CORE_184_TIME = 1532008920"
definition HARDFORK_CORE_342_TIME :: time_sec where "HARDFORK_CORE_342_TIME = 1532008920"
definition HARDFORK_CORE_343_TIME :: time_sec where "HARDFORK_CORE_343_TIME = 1532008920"
definition HARDFORK_CORE_338_TIME :: time_sec where "HARDFORK_CORE_338_TIME = 1532008920"
definition HARDFORK_CORE_453_TIME :: time_sec where "HARDFORK_CORE_453_TIME = 1532008920"
definition HARDFORK_CORE_584_TIME :: time_sec where "HARDFORK_CORE_584_TIME = 1556028120"
definition HARDFORK_CORE_1573_TIME :: time_sec where "HARDFORK_CORE_1573_TIME = 1556028120"
definition HARDFORK_CORE_606_TIME :: time_sec where "HARDFORK_CORE_606_TIME = 1532008920"
definition HARDFORK_CORE_625_TIME :: time_sec where "HARDFORK_CORE_625_TIME = 1532008920"
definition HARDFORK_CORE_834_TIME :: time_sec where "HARDFORK_CORE_834_TIME = 1532008920"
definition HARDFORK_CORE_604_TIME :: time_sec where "HARDFORK_CORE_604_TIME = 1532008920"
definition HARDFORK_CORE_1270_TIME :: time_sec where "HARDFORK_CORE_1270_TIME = 1556028120"
definition HARDFORK_385_TIME :: time_sec where "HARDFORK_385_TIME = 1445558400"
definition HARDFORK_445_TIME :: time_sec where "HARDFORK_445_TIME = 1450288800"
definition HARDFORK_480_TIME :: time_sec where "HARDFORK_480_TIME = 1450378800"
definition HARDFORK_572_TIME :: time_sec where "HARDFORK_572_TIME = 1456250400"
definition HARDFORK_CORE_199_TIME :: time_sec where "HARDFORK_CORE_199_TIME = 1532008920"
definition HARDFORK_CORE_216_TIME :: time_sec where "HARDFORK_CORE_216_TIME = 1512747600"
definition HARDFORK_CORE_429_TIME :: time_sec where "HARDFORK_CORE_429_TIME = 1512747600"
definition HARDFORK_CORE_583_TIME :: time_sec where "HARDFORK_CORE_583_TIME = 1532008920"
definition HARDFORK_CORE_868_890_TIME :: time_sec where "HARDFORK_CORE_868_890_TIME = 1532008920"
definition HARDFORK_CORE_922_931_TIME :: time_sec where "HARDFORK_CORE_922_931_TIME = 1532008920"
definition HARDFORK_CORE_935_TIME :: time_sec where "HARDFORK_CORE_935_TIME = 1532008920"
definition HARDFORK_CORE_1468_TIME :: time_sec where "HARDFORK_CORE_1468_TIME = 1556028120"
definition SOFTFORK_CORE_1465_TIME :: time_sec where "SOFTFORK_CORE_1465_TIME = 1545350400"

lemmas config_defs =
  GRAPHENE_MAX_SHARE_SUPPLY_def GRAPHENE_100_PERCENT_def GRAPHENE_COLLATERAL_RATIO_DENOM_def
  GRAPHENE_MIN_COLLATERAL_RATIO_def GRAPHENE_MAX_COLLATERAL_RATIO_def

lemmas account_id_defs =
  GRAPHENE_COMMITTEE_ACCOUNT_def GRAPHENE_WITNESS_ACCOUNT_def GRAPHENE_RELAXED_COMMITTEE_ACCOUNT_def
  GRAPHENE_NULL_ACCOUNT_def GRAPHENE_TEMP_ACCOUNT_def GRAPHENE_PROXY_TO_SELF_ACCOUNT_def

lemmas hardfork_defs =
  HARDFORK_436_TIME_def HARDFORK_555_TIME_def HARDFORK_615_TIME_def HARDFORK_1268_TIME_def
  HARDFORK_CORE_184_TIME_def HARDFORK_CORE_342_TIME_def HARDFORK_CORE_343_TIME_def
  HARDFORK_CORE_604_TIME_def HARDFORK_CORE_1270_TIME_def HARDFORK_CORE_338_TIME_def HARDFORK_CORE_453_TIME_def
  HARDFORK_CORE_606_TIME_def HARDFORK_CORE_625_TIME_def HARDFORK_CORE_834_TIME_def
  HARDFORK_385_TIME_def HARDFORK_445_TIME_def HARDFORK_480_TIME_def HARDFORK_572_TIME_def HARDFORK_CORE_199_TIME_def
  HARDFORK_CORE_216_TIME_def HARDFORK_CORE_429_TIME_def HARDFORK_CORE_583_TIME_def HARDFORK_CORE_868_890_TIME_def
  HARDFORK_CORE_922_931_TIME_def HARDFORK_CORE_935_TIME_def HARDFORK_CORE_1468_TIME_def SOFTFORK_CORE_1465_TIME_def
  HARDFORK_CORE_584_TIME_def HARDFORK_CORE_1573_TIME_def HARDFORK_453_TIME_def HARDFORK_516_TIME_def HARDFORK_533_TIME_def
  HARDFORK_607_TIME_def HARDFORK_613_TIME_def HARDFORK_CORE_143_TIME_def HARDFORK_CORE_518_TIME_def HARDFORK_CORE_1465_TIME_def

text \<open>A \<open>time_point_sec\<close> holds an unsigned 32-bit count; its maximum marks ``never''.\<close>

definition time_maximum :: time_sec where "time_maximum = 2 ^ 32 - 1"

lemma time_maximum_code [code]: "time_maximum = 4294967295"
  by (simp add: time_maximum_def)

text \<open>The sum of a \<open>time_point_sec\<close> and a number of seconds, and the product of two unsigned 32-bit numbers.\<close>

definition time_plus :: "time_sec \<Rightarrow> nat \<Rightarrow> time_sec" where
  "time_plus t s = (t + s) mod 2 ^ 32"

definition u32_times :: "nat \<Rightarrow> nat \<Rightarrow> nat" where
  "u32_times a b = a * b mod 2 ^ 32"

lemma u32_code [code]: "time_plus t s = (t + s) mod 4294967296" "u32_times a b = a * b mod 4294967296"
  by (simp_all add: time_plus_def u32_times_def)

end
