(* ===== verification/Asset_Price.thy ===== *)
theory Asset_Price
  imports Graphene_Config Complex_Main
begin

text \<open>
  Assets, prices and price feeds: \<open>libraries/protocol/include/graphene/protocol/asset.hpp\<close> and
  \<open>libraries/protocol/asset.cpp\<close>.

  An \<open>asset\<close> is an amount of one asset type, a \<open>price\<close> the ratio of two assets. The 128-bit
  products of the comparison and conversion operators are taken modulo \<open>2 ^ 128\<close> (\<open>u128\<close>), as the
  unsigned type of the source does; fractions are kept in lowest terms by \<open>Rat.normalize\<close>, as
  \<open>boost::rational\<close> keeps them, and their components are ideal integers.

  The lemmas: the two conversions are the floor and the ceiling of the exact quotient and stabilise
  after one round trip; the comparison is a strict weak order on valid prices (which is what the
  ordered indexes of the database rely on); the scaling of a price by a ratio is total on valid
  prices, gives a valid price and is exact whenever the exact result fits; \<open>call_price\<close> terminates
  within bounds.
\<close>

subsection \<open>Assets\<close>

record asset =
  amount :: int
  asset_id :: asset_id

abbreviation mk_asset :: "int \<Rightarrow> asset_id \<Rightarrow> asset" where
  "mk_asset a i \<equiv> \<lparr>amount = a, asset_id = i\<rparr>"

definition asset_add :: "safe64 \<Rightarrow> asset \<Rightarrow> asset \<Rightarrow> asset res" where
  "asset_add sf a b =
     FC_ASSERT (asset_id a = asset_id b) ''asset_id == o.asset_id''
       (res_bind (sf (amount a + amount b)) (\<lambda>v. Inr (mk_asset v (asset_id a))))"

definition asset_sub :: "safe64 \<Rightarrow> asset \<Rightarrow> asset \<Rightarrow> asset res" where
  "asset_sub sf a b =
     FC_ASSERT (asset_id a = asset_id b) ''asset_id == o.asset_id''
       (res_bind (sf (amount a - amount b)) (\<lambda>v. Inr (mk_asset v (asset_id a))))"

definition asset_neg :: "safe64 \<Rightarrow> asset \<Rightarrow> asset res" where
  "asset_neg sf a = res_bind (sf (- amount a)) (\<lambda>v. Inr (mk_asset v (asset_id a)))"

definition asset_less :: "asset \<Rightarrow> asset \<Rightarrow> bool res" where
  "asset_less a b =
     FC_ASSERT (asset_id a = asset_id b) ''a.asset_id == b.asset_id'' (Inr (amount a < amount b))"

definition asset_le :: "asset \<Rightarrow> asset \<Rightarrow> bool res" where
  "asset_le a b = res_bind (asset_less b a) (\<lambda>c. Inr (\<not> c))"

definition asset_ge :: "asset \<Rightarrow> asset \<Rightarrow> bool res" where
  "asset_ge a b = res_bind (asset_less a b) (\<lambda>c. Inr (\<not> c))"

definition scaled_precision_lut :: "int list" where
  "scaled_precision_lut = map (\<lambda>i. 10 ^ i) [0..<19]"

definition scaled_precision :: "nat \<Rightarrow> int res" where
  "scaled_precision p = FC_ASSERT (p < 19) ''precision < 19'' (Inr (scaled_precision_lut ! p))"

subsection \<open>Prices\<close>

record price =
  base :: asset
  quote :: asset

abbreviation mk_price :: "asset \<Rightarrow> asset \<Rightarrow> price" where
  "mk_price b q \<equiv> \<lparr>base = b, quote = q\<rparr>"

definition null_price :: price where
  "null_price = mk_price (mk_asset 0 core_asset) (mk_asset 0 core_asset)"

definition u128 :: "int \<Rightarrow> int" where
  "u128 x = x mod 2 ^ 128"

lemma u128_code [code]: "u128 x = x mod 340282366920938463463374607431768211456"
  by (simp add: u128_def)

definition price_eq :: "price \<Rightarrow> price \<Rightarrow> bool" where
  "price_eq a b \<longleftrightarrow>
     (if (asset_id (base a), asset_id (quote a)) \<noteq> (asset_id (base b), asset_id (quote b)) then False
      else u128 (u128 (amount (quote b)) * amount (base a))
         = u128 (u128 (amount (quote a)) * amount (base b)))"

definition price_less :: "price \<Rightarrow> price \<Rightarrow> bool" where
  "price_less a b \<longleftrightarrow>
     (if asset_id (base a) < asset_id (base b) then True
      else if asset_id (base a) > asset_id (base b) then False
      else if asset_id (quote a) < asset_id (quote b) then True
      else if asset_id (quote a) > asset_id (quote b) then False
      else u128 (u128 (amount (quote b)) * amount (base a))
         < u128 (u128 (amount (quote a)) * amount (base b)))"

definition price_le :: "price \<Rightarrow> price \<Rightarrow> bool" where
  "price_le a b \<longleftrightarrow> \<not> price_less b a"

definition asset_times_price :: "asset \<Rightarrow> price \<Rightarrow> asset res" where
  "asset_times_price a b =
     (if asset_id a = asset_id (base b) then
        FC_ASSERT (amount (base b) > 0) ''b.base.amount.value > 0''
         (let result = u128 (u128 (amount a) * amount (quote b)) div amount (base b)
          in FC_ASSERT (result \<le> GRAPHENE_MAX_SHARE_SUPPLY) ''result <= GRAPHENE_MAX_SHARE_SUPPLY''
               (Inr (mk_asset result (asset_id (quote b)))))
      else if asset_id a = asset_id (quote b) then
        FC_ASSERT (amount (quote b) > 0) ''b.quote.amount.value > 0''
         (let result = u128 (u128 (amount a) * amount (base b)) div amount (quote b)
          in FC_ASSERT (result \<le> GRAPHENE_MAX_SHARE_SUPPLY) ''result <= GRAPHENE_MAX_SHARE_SUPPLY''
               (Inr (mk_asset result (asset_id (base b)))))
      else Inl (Throw_exn ''invalid asset * price''))"

definition multiply_and_round_up :: "asset \<Rightarrow> price \<Rightarrow> asset res" where
  "multiply_and_round_up a b =
     (if asset_id a = asset_id (base b) then
        FC_ASSERT (amount (base b) > 0) ''b.base.amount.value > 0''
         (let result = u128 (u128 (amount a) * amount (quote b) + amount (base b) - 1) div amount (base b)
          in FC_ASSERT (result \<le> GRAPHENE_MAX_SHARE_SUPPLY) ''result <= GRAPHENE_MAX_SHARE_SUPPLY''
               (Inr (mk_asset result (asset_id (quote b)))))
      else if asset_id a = asset_id (quote b) then
        FC_ASSERT (amount (quote b) > 0) ''b.quote.amount.value > 0''
         (let result = u128 (u128 (amount a) * amount (base b) + amount (quote b) - 1) div amount (quote b)
          in FC_ASSERT (result \<le> GRAPHENE_MAX_SHARE_SUPPLY) ''result <= GRAPHENE_MAX_SHARE_SUPPLY''
               (Inr (mk_asset result (asset_id (base b)))))
      else Inl (Throw_exn ''invalid asset::multiply_and_round_up(price)''))"

definition asset_div :: "asset \<Rightarrow> asset \<Rightarrow> price res" where
  "asset_div b q =
     FC_ASSERT (asset_id b \<noteq> asset_id q) ''base.asset_id != quote.asset_id'' (Inr (mk_price b q))"

definition price_max :: "asset_id \<Rightarrow> asset_id \<Rightarrow> price res" where
  "price_max b q = asset_div (mk_asset GRAPHENE_MAX_SHARE_SUPPLY b) (mk_asset 1 q)"

definition price_min :: "asset_id \<Rightarrow> asset_id \<Rightarrow> price res" where
  "price_min b q = asset_div (mk_asset 1 b) (mk_asset GRAPHENE_MAX_SHARE_SUPPLY q)"

definition price_inv :: "price \<Rightarrow> price" where
  "price_inv p = mk_price (quote p) (base p)"

definition price_is_null :: "price \<Rightarrow> bool" where
  "price_is_null p \<longleftrightarrow> asset_id (base p) = core_asset \<and> asset_id (quote p) = core_asset"

definition price_validate :: "price \<Rightarrow> unit res" where
  "price_validate p =
     FC_ASSERT (amount (base p) > 0) ''base.amount > share_type(0)''
    (FC_ASSERT (amount (quote p) > 0) ''quote.amount > share_type(0)''
    (FC_ASSERT (asset_id (base p) \<noteq> asset_id (quote p)) ''base.asset_id != quote.asset_id''
    (Inr ())))"

subsection \<open>Scaling a price by a ratio\<close>

text \<open>A \<open>boost::rational\<close> with positive components: numerator and denominator without common factor.\<close>

type_synonym fraction = "nat \<times> nat"

definition mk_fraction :: "nat \<Rightarrow> nat \<Rightarrow> fraction" where
  "mk_fraction n d = (n div gcd n d, d div gcd n d)"

definition max_nat :: nat where
  "max_nat = nat GRAPHENE_MAX_SHARE_SUPPLY"

text \<open>The shrinking loop of \<open>operator * (price, ratio_type)\<close>: the fraction, whether it was halved
  (\<open>shrinked\<close>) and whether it was clamped (\<open>using_max\<close>).\<close>

lemma mk_fraction_le: "fst (mk_fraction n d) \<le> n" "snd (mk_fraction n d) \<le> d"
  by (simp_all add: mk_fraction_def)

function shrink_loop :: "fraction \<Rightarrow> bool \<Rightarrow> fraction \<times> bool \<times> bool" where
  "shrink_loop (n, d) shrinked =
     (if n > max_nat \<or> d > max_nat then
        if n = 1 then ((1, max_nat), shrinked, True)
        else if d = 1 then ((max_nat, 1), shrinked, True)
        else shrink_loop (mk_fraction (n div 2) (d div 2)) True
      else ((n, d), shrinked, False))"
  by pat_completeness auto
termination
proof (relation "measure (\<lambda>((n, d), s). n + d)", goal_cases)
  case 1
  show ?case by simp
next
  case (2 n d s)
  have "fst (mk_fraction (n div 2) (d div 2)) + snd (mk_fraction (n div 2) (d div 2))
        \<le> n div 2 + d div 2"
    by (intro add_mono mk_fraction_le)
  also have "\<dots> < n + d" using 2 by auto
  finally show ?case by (simp add: case_prod_unfold)
qed

declare shrink_loop.simps [simp del]

text \<open>\<open>abs(x - z) < abs(y - z)\<close> on fractions with positive denominators.\<close>

definition closer :: "fraction \<Rightarrow> fraction \<Rightarrow> fraction \<Rightarrow> bool" where
  "closer x y z \<longleftrightarrow>
     \<bar>int (fst x) * int (snd z) - int (fst z) * int (snd x)\<bar> * int (snd y)
   < \<bar>int (fst y) * int (snd z) - int (fst z) * int (snd y)\<bar> * int (snd x)"

definition refine_shrinked :: "fraction \<Rightarrow> fraction \<Rightarrow> fraction" where
  "refine_shrinked ocp cp =
     (let (num, den) = (if fst ocp > snd ocp
                        then (min (fst ocp div snd ocp) max_nat, 1)
                        else (1, min (snd ocp div fst ocp) max_nat))
      in if num = max_nat \<or> den = max_nat then (num, den)
         else if closer (num, den) cp ocp then (num, den) else cp)"

definition price_times_ratio :: "price \<Rightarrow> int \<Rightarrow> int \<Rightarrow> price res" where
  "price_times_ratio p rn rd =
     res_bind (price_validate p) (\<lambda>_.
     FC_ASSERT (rn > 0 \<and> rd > 0) ''r.numerator() > 0 && r.denominator() > 0''
     (if rn = rd then Inr p
      else
        let p128 = mk_fraction (nat (amount (base p))) (nat (amount (quote p)));
            ocp = mk_fraction (fst p128 * nat rn) (snd p128 * nat rd);
            (cp0, shrinked, using_max) = shrink_loop ocp False;
            cp = (if shrinked then refine_shrinked ocp cp0 else cp0)
        in res_bind (asset_div (mk_asset (int (fst cp)) (asset_id (base p)))
                               (mk_asset (int (snd cp)) (asset_id (quote p)))) (\<lambda>np.
           let np' = (if (shrinked \<or> using_max)
                         \<and> (rn > rd \<and> price_less np p \<or> rn < rd \<and> price_less p np)
                      then p else np)
           in res_bind (price_validate np') (\<lambda>_. Inr np'))))"

text \<open>A \<open>ratio_type\<close> is a \<open>boost::rational<int32_t>\<close>, so it too is in lowest terms.\<close>

definition price_times_ratio_type :: "price \<Rightarrow> int \<Rightarrow> int \<Rightarrow> price res" where
  "price_times_ratio_type p n d =
     (let r = Rat.normalize (n, d) in price_times_ratio p (fst r) (snd r))"

definition price_div_ratio :: "price \<Rightarrow> int \<Rightarrow> int \<Rightarrow> price res" where
  "price_div_ratio p rn rd = price_times_ratio_type p rd rn"

subsection \<open>Call prices\<close>

text \<open>The amounts are not negative at any call of \<open>call_price\<close> or of the squeeze price, so the loops run on
  natural numbers; a zero denominator is the \<open>bad_rational\<close> exception of \<open>boost::rational\<close>.\<close>

function call_price_loop :: "fraction \<Rightarrow> fraction" where
  "call_price_loop (n, d) =
     (if n > max_nat \<or> d > max_nat
      then call_price_loop (mk_fraction (n div 2 + 1) (d div 2 + 1))
      else (n, d))"
  by pat_completeness auto
termination
proof (relation "measure (\<lambda>(n, d). n + d)", goal_cases)
  case 1
  show ?case by simp
next
  case (2 n d)
  have "fst (mk_fraction (n div 2 + 1) (d div 2 + 1)) + snd (mk_fraction (n div 2 + 1) (d div 2 + 1))
        \<le> (n div 2 + 1) + (d div 2 + 1)"
    by (intro add_mono mk_fraction_le)
  also have "\<dots> < n + d"
    using 2 by (simp add: max_nat_def GRAPHENE_MAX_SHARE_SUPPLY_def) linarith
  finally show ?case by (simp add: case_prod_unfold)
qed

declare call_price_loop.simps [simp del]

definition call_price_of :: "asset \<Rightarrow> asset \<Rightarrow> int \<Rightarrow> price res" where
  "call_price_of debt collateral collateral_ratio =
     FC_ASSERT (amount collateral \<noteq> 0) ''bad_rational''
     (let swan = mk_fraction (nat (amount debt)) (nat (amount collateral));
          ratio = mk_fraction (nat collateral_ratio) (nat GRAPHENE_COLLATERAL_RATIO_DENOM);
          cp = call_price_loop (mk_fraction (fst swan * fst ratio) (snd swan * snd ratio))
      in asset_div (mk_asset (int (snd cp)) (asset_id collateral))
                   (mk_asset (int (fst cp)) (asset_id debt)))"

subsection \<open>Price feeds\<close>

record price_feed =
  settlement_price :: price
  core_exchange_rate :: price
  maintenance_collateral_ratio :: int
  maximum_short_squeeze_ratio :: int

definition null_feed :: price_feed where
  "null_feed = \<lparr>settlement_price = null_price, core_exchange_rate = null_price,
     maintenance_collateral_ratio = GRAPHENE_DEFAULT_MAINTENANCE_COLLATERAL_RATIO,
     maximum_short_squeeze_ratio = GRAPHENE_DEFAULT_MAX_SHORT_SQUEEZE_RATIO\<rparr>"

definition price_feed_validate :: "price_feed \<Rightarrow> unit res" where
  "price_feed_validate f =
     res_bind (if \<not> price_is_null (settlement_price f) then price_validate (settlement_price f) else Inr ())
      (\<lambda>_.
       FC_ASSERT (maximum_short_squeeze_ratio f \<ge> GRAPHENE_MIN_COLLATERAL_RATIO) ''MSSR >= min''
      (FC_ASSERT (maximum_short_squeeze_ratio f \<le> GRAPHENE_MAX_COLLATERAL_RATIO) ''MSSR <= max''
      (FC_ASSERT (maintenance_collateral_ratio f \<ge> GRAPHENE_MIN_COLLATERAL_RATIO) ''MCR >= min''
      (FC_ASSERT (maintenance_collateral_ratio f \<le> GRAPHENE_MAX_COLLATERAL_RATIO) ''MCR <= max''
      (Inr ())))))"

definition price_feed_is_for :: "price_feed \<Rightarrow> asset_id \<Rightarrow> bool" where
  "price_feed_is_for f a =
     (if \<not> price_is_null (settlement_price f) then asset_id (base (settlement_price f)) = a
      else if \<not> price_is_null (core_exchange_rate f) then asset_id (base (core_exchange_rate f)) = a
      else True)"

lemma half_up_le: "m div 2 + m mod 2 \<le> (m::nat)"
  by presburger

lemma half_up_less: "2 \<le> m \<Longrightarrow> m div 2 + m mod 2 < (m::nat)"
  by presburger

function squeeze_loop :: "fraction \<Rightarrow> fraction" where
  "squeeze_loop (n, d) =
     (if n > max_nat \<or> d > max_nat
      then squeeze_loop (mk_fraction (n div 2 + n mod 2) (d div 2 + d mod 2))
      else (n, d))"
  by pat_completeness auto
termination
proof (relation "measure (\<lambda>(n, d). n + d)", goal_cases)
  case 1
  show ?case by simp
next
  case (2 n d)
  let ?m = "mk_fraction (n div 2 + n mod 2) (d div 2 + d mod 2)"
  have "fst ?m + snd ?m \<le> (n div 2 + n mod 2) + (d div 2 + d mod 2)"
    by (intro add_mono mk_fraction_le)
  also have "\<dots> < n + d"
  proof (cases "n > max_nat")
    case True
    then show ?thesis
      using half_up_less [of n] half_up_le [of d] by (simp add: max_nat_def GRAPHENE_MAX_SHARE_SUPPLY_def)
  next
    case False
    with 2 show ?thesis
      using half_up_less [of d] half_up_le [of n] by (simp add: max_nat_def GRAPHENE_MAX_SHARE_SUPPLY_def)
  qed
  finally show ?case by (simp add: case_prod_unfold)
qed

declare squeeze_loop.simps [simp del]

definition max_short_squeeze_price_before_hf_1270 :: "price_feed \<Rightarrow> price res" where
  "max_short_squeeze_price_before_hf_1270 f =
     (let sp = settlement_price f in
      FC_ASSERT (amount (quote sp) \<noteq> 0 \<and> maximum_short_squeeze_ratio f \<noteq> 0) ''bad_rational''
      (let s = mk_fraction (nat (amount (base sp))) (nat (amount (quote sp)));
           r = mk_fraction (nat GRAPHENE_COLLATERAL_RATIO_DENOM) (nat (maximum_short_squeeze_ratio f));
           cp = squeeze_loop (mk_fraction (fst s * fst r) (snd s * snd r))
       in asset_div (mk_asset (int (fst cp)) (asset_id (base sp)))
                    (mk_asset (int (snd cp)) (asset_id (quote sp)))))"

definition max_short_squeeze_price :: "price_feed \<Rightarrow> price res" where
  "max_short_squeeze_price f =
     price_times_ratio_type (settlement_price f) GRAPHENE_COLLATERAL_RATIO_DENOM (maximum_short_squeeze_ratio f)"

definition maintenance_collateralization :: "price_feed \<Rightarrow> price res" where
  "maintenance_collateralization f =
     (if price_is_null (settlement_price f) then Inr null_price
      else price_times_ratio_type (price_inv (settlement_price f))
             (maintenance_collateral_ratio f) GRAPHENE_COLLATERAL_RATIO_DENOM)"

subsection \<open>Conversion: floor, ceiling and stabilisation\<close>

definition amount_ok :: "int \<Rightarrow> bool" where
  "amount_ok x \<longleftrightarrow> 0 \<le> x \<and> x < 2 ^ 63"

definition price_ok :: "price \<Rightarrow> bool" where
  "price_ok p \<longleftrightarrow> 0 < amount (base p) \<and> amount (base p) < 2 ^ 63
     \<and> 0 < amount (quote p) \<and> amount (quote p) < 2 ^ 63
     \<and> asset_id (base p) \<noteq> asset_id (quote p)"

text \<open>The rate that converts an amount of asset \<open>i\<close> at price \<open>p\<close>.\<close>

definition rate_num :: "price \<Rightarrow> asset_id \<Rightarrow> int" where
  "rate_num p i = (if i = asset_id (base p) then amount (quote p) else amount (base p))"

definition rate_den :: "price \<Rightarrow> asset_id \<Rightarrow> int" where
  "rate_den p i = (if i = asset_id (base p) then amount (base p) else amount (quote p))"

definition other_id :: "price \<Rightarrow> asset_id \<Rightarrow> asset_id" where
  "other_id p i = (if i = asset_id (base p) then asset_id (quote p) else asset_id (base p))"

lemma u128_id: "0 \<le> x \<Longrightarrow> x < 2 ^ 128 \<Longrightarrow> u128 x = x"
  by (simp add: u128_def)

lemma prod_lt_126:
  fixes x y :: int
  assumes "0 \<le> x" "x < 2 ^ 63" "0 \<le> y" "y < 2 ^ 63"
  shows "0 \<le> x * y" "x * y < 2 ^ 126"
proof -
  show "0 \<le> x * y" using assms by simp
  have "x * y \<le> x * 2 ^ 63" using assms by (intro mult_left_mono) auto
  also have "\<dots> < 2 ^ 63 * 2 ^ 63" using assms by simp
  finally show "x * y < 2 ^ 126" by simp
qed

lemma u128_prod:
  fixes x y :: int
  assumes "0 \<le> x" "x < 2 ^ 63" "0 \<le> y" "y < 2 ^ 63"
  shows "u128 (u128 x * y) = x * y"
  using prod_lt_126 [OF assms] assms by (simp add: u128_def)

lemma u128_prod_up:
  fixes x y z :: int
  assumes "0 \<le> x" "x < 2 ^ 63" "0 \<le> y" "y < 2 ^ 63" "0 < z" "z < 2 ^ 63"
  shows "u128 (u128 x * y + z - 1) = x * y + z - 1"
proof -
  have "u128 x = x" using assms by (simp add: u128_def)
  moreover have "0 \<le> x * y + z - 1"
    using prod_lt_126(1) [OF assms(1-4)] assms(5) by linarith
  moreover have "x * y + z - 1 < 2 ^ 128"
    using prod_lt_126(2) [OF assms(1-4)] assms(6) by simp
  ultimately show ?thesis by (simp only: u128_id)
qed

lemma rate_pos: "price_ok p \<Longrightarrow> 0 < rate_num p i \<and> rate_num p i < 2 ^ 63 \<and> 0 < rate_den p i \<and> rate_den p i < 2 ^ 63"
  by (simp add: price_ok_def rate_num_def rate_den_def)

lemma rate_other:
  assumes "price_ok p" "i \<in> {asset_id (base p), asset_id (quote p)}"
  shows "rate_num p (other_id p i) = rate_den p i" "rate_den p (other_id p i) = rate_num p i"
    "other_id p (other_id p i) = i" "other_id p i \<in> {asset_id (base p), asset_id (quote p)}"
  using assms by (auto simp: price_ok_def rate_num_def rate_den_def other_id_def)

lemma asset_times_price_iff:
  assumes "price_ok p" "amount_ok (amount a)"
  shows "asset_times_price a p = Inr r \<longleftrightarrow>
    asset_id a \<in> {asset_id (base p), asset_id (quote p)} \<and>
    (let q = (amount a * rate_num p (asset_id a)) div rate_den p (asset_id a)
     in q \<le> GRAPHENE_MAX_SHARE_SUPPLY \<and> r = mk_asset q (other_id p (asset_id a)))"
  using assms
  by (auto simp: asset_times_price_def price_ok_def amount_ok_def u128_prod Let_def
      rate_num_def rate_den_def other_id_def)

lemma asset_times_price_nonneg: "asset_times_price x p = Inr y \<Longrightarrow> 0 \<le> amount y"
  by (auto simp: asset_times_price_def Let_def u128_def pos_imp_zdiv_nonneg_iff split: if_splits)

lemma multiply_and_round_up_nonneg: "multiply_and_round_up x p = Inr y \<Longrightarrow> 0 \<le> amount y"
  by (auto simp: multiply_and_round_up_def Let_def u128_def pos_imp_zdiv_nonneg_iff split: if_splits)

lemma multiply_and_round_up_iff:
  assumes "price_ok p" "amount_ok (amount a)"
  shows "multiply_and_round_up a p = Inr r \<longleftrightarrow>
    asset_id a \<in> {asset_id (base p), asset_id (quote p)} \<and>
    (let q = (amount a * rate_num p (asset_id a) + rate_den p (asset_id a) - 1) div rate_den p (asset_id a)
     in q \<le> GRAPHENE_MAX_SHARE_SUPPLY \<and> r = mk_asset q (other_id p (asset_id a)))"
  using assms
  by (auto simp: multiply_and_round_up_def price_ok_def amount_ok_def u128_prod_up Let_def
      rate_num_def rate_den_def other_id_def)

lemma int_floor_bounds:
  fixes x d :: int
  assumes "0 < d"
  shows "(x div d) * d \<le> x" "x < (x div d + 1) * d"
proof -
  have eq: "x div d * d + x mod d = x" by (rule div_mult_mod_eq)
  have bounds: "0 \<le> x mod d" "x mod d < d" using assms by auto
  show "(x div d) * d \<le> x" using eq bounds by linarith
  show "x < (x div d + 1) * d" using eq bounds by (simp only: distrib_right mult_1)
qed

lemma int_ceil_bounds:
  fixes x d :: int
  assumes "0 < d"
  shows "x \<le> ((x + d - 1) div d) * d" "(((x + d - 1) div d) - 1) * d < x"
  using int_floor_bounds [OF assms, of "x + d - 1"] by (auto simp: algebra_simps)

lemma int_div_le_of_mult:
  fixes q x d :: int
  assumes "0 < d" "x \<le> q * d"
  shows "x div d \<le> q"
  using zdiv_mono1 [OF assms(2,1)] assms(1) by simp

lemma int_le_div_of_mult:
  fixes q x d :: int
  assumes "0 < d" "q * d \<le> x"
  shows "q \<le> x div d"
  using zdiv_mono1 [OF assms(2,1)] assms(1) by simp

text \<open>Floor, then ceiling back, then floor again: with \<open>r\<close> the floor of \<open>a n / d\<close>, the ceiling of
  \<open>r d / n\<close> is not above \<open>a\<close> and its floor is \<open>r\<close> again.\<close>

lemma floor_ceil_floor:
  fixes a n d :: int
  assumes n: "0 < n" and d: "0 < d"
  defines "r \<equiv> (a * n) div d"
  defines "b \<equiv> (r * d + n - 1) div n"
  shows "b \<le> a" "(b * n) div d = r"
proof -
  have r: "r * d \<le> a * n" unfolding r_def by (rule int_floor_bounds(1) [OF d])
  have "(b - 1) * n < r * d" unfolding b_def by (rule int_ceil_bounds(2) [OF n])
  with r have "(b - 1) * n < a * n" by linarith
  then show ba: "b \<le> a" using n by simp
  have "r * d \<le> b * n" unfolding b_def by (rule int_ceil_bounds(1) [OF n])
  then have "r \<le> (b * n) div d" by (rule int_le_div_of_mult [OF d])
  moreover have "(b * n) div d \<le> r"
    unfolding r_def using ba n d by (intro zdiv_mono1 mult_right_mono) auto
  ultimately show "(b * n) div d = r" by simp
qed

subsection \<open>The order on prices\<close>

definition price_ratio :: "price \<Rightarrow> real" where
  "price_ratio p = real_of_int (amount (base p)) / real_of_int (amount (quote p))"

lemma price_less_iff:
  assumes "price_ok a" "price_ok b"
  shows "price_less a b \<longleftrightarrow>
    asset_id (base a) < asset_id (base b) \<or>
    asset_id (base a) = asset_id (base b) \<and>
      (asset_id (quote a) < asset_id (quote b) \<or>
       asset_id (quote a) = asset_id (quote b) \<and> price_ratio a < price_ratio b)"
proof -
  have "price_ratio a < price_ratio b \<longleftrightarrow>
      real_of_int (amount (quote b) * amount (base a)) < real_of_int (amount (quote a) * amount (base b))"
    using assms by (simp add: price_ratio_def price_ok_def field_simps)
  then have "price_ratio a < price_ratio b \<longleftrightarrow>
      amount (quote b) * amount (base a) < amount (quote a) * amount (base b)"
    by (simp only: of_int_less_iff)
  then show ?thesis
    using assms by (auto simp: price_less_def price_ok_def u128_prod)
qed

lemma price_eq_iff:
  assumes "price_ok a" "price_ok b"
  shows "price_eq a b \<longleftrightarrow> asset_id (base a) = asset_id (base b) \<and>
    asset_id (quote a) = asset_id (quote b) \<and> price_ratio a = price_ratio b"
proof -
  have "price_ratio a = price_ratio b \<longleftrightarrow>
      real_of_int (amount (quote b) * amount (base a)) = real_of_int (amount (quote a) * amount (base b))"
    using assms by (simp add: price_ratio_def price_ok_def field_simps)
  then have "price_ratio a = price_ratio b \<longleftrightarrow>
      amount (quote b) * amount (base a) = amount (quote a) * amount (base b)"
    by (simp only: of_int_eq_iff)
  then show ?thesis
    using assms by (auto simp: price_eq_def price_ok_def u128_prod)
qed

text \<open>What an ordered index needs of its comparison: a strict weak order on the keys it holds. The keys
  that are not ordered either way are its equal keys.\<close>

locale strict_weak_order =
  fixes ok :: "'k \<Rightarrow> bool"
    and lt :: "'k \<Rightarrow> 'k \<Rightarrow> bool"
    and eqv :: "'k \<Rightarrow> 'k \<Rightarrow> bool"
  assumes irrefl: "ok a \<Longrightarrow> \<not> lt a a"
    and trans: "ok a \<Longrightarrow> ok b \<Longrightarrow> ok c \<Longrightarrow> lt a b \<Longrightarrow> lt b c \<Longrightarrow> lt a c"
    and trichotomy: "ok a \<Longrightarrow> ok b \<Longrightarrow> eqv a b \<longleftrightarrow> \<not> lt a b \<and> \<not> lt b a"
    and eqv_trans: "ok a \<Longrightarrow> ok b \<Longrightarrow> ok c \<Longrightarrow> eqv a b \<Longrightarrow> eqv b c \<Longrightarrow> eqv a c"
begin

lemma asym: "ok a \<Longrightarrow> ok b \<Longrightarrow> lt a b \<Longrightarrow> \<not> lt b a"
  using irrefl trans by blast

lemma le_trans:
  assumes "ok a" "ok b" "ok c" "\<not> lt b a" "\<not> lt c b"
  shows "\<not> lt c a"
  using assms trans trichotomy eqv_trans by metis

lemma le_total: "ok a \<Longrightarrow> ok b \<Longrightarrow> \<not> lt b a \<or> \<not> lt a b"
  using asym by blast

lemma lt_eqv_trans: "ok a \<Longrightarrow> ok b \<Longrightarrow> ok c \<Longrightarrow> lt a b \<Longrightarrow> eqv b c \<Longrightarrow> lt a c"
  using trans trichotomy eqv_trans by metis

end

interpretation price_order: strict_weak_order price_ok price_less price_eq
  by unfold_locales (auto simp: price_less_iff price_eq_iff)

lemma price_inv_ok [simp]: "price_ok (price_inv p) \<longleftrightarrow> price_ok p"
  by (auto simp: price_ok_def price_inv_def)

lemma price_inv_ids [simp]:
  "asset_id (base (price_inv p)) = asset_id (quote p)"
  "asset_id (quote (price_inv p)) = asset_id (base p)"
  "price_inv (price_inv p) = p"
  by (simp_all add: price_inv_def)

text \<open>Inverting two prices of the same market reverses their order.\<close>

lemma price_less_inv:
  assumes "price_ok a" "price_ok b" "asset_id (base a) = asset_id (base b)"
    "asset_id (quote a) = asset_id (quote b)"
  shows "price_less (price_inv a) (price_inv b) \<longleftrightarrow> price_less b a"
  using assms
  by (simp add: price_less_iff) (simp add: price_ratio_def price_inv_def price_ok_def field_simps)

subsection \<open>Scaling by a ratio: total, valid, exact when it fits, never against the ratio\<close>

lemma max_nat_pos [simp]: "0 < max_nat" "max_nat \<noteq> 0" "Suc 0 \<le> max_nat" "int max_nat = GRAPHENE_MAX_SHARE_SUPPLY"
  by (simp_all add: max_nat_def GRAPHENE_MAX_SHARE_SUPPLY_def)

lemma mk_fraction_pos: "0 < n \<Longrightarrow> 0 < d \<Longrightarrow> 0 < fst (mk_fraction n d) \<and> 0 < snd (mk_fraction n d)"
  by (simp add: mk_fraction_def div_greater_zero_iff)

lemma mk_fraction_cross: "fst (mk_fraction n d) * d = n * snd (mk_fraction n d)"
proof -
  have "gcd n d dvd n" "gcd n d dvd d" by simp_all
  then show ?thesis by (simp add: mk_fraction_def div_mult_swap dvd_div_mult mult.commute)
qed

lemma shrink_loop_pos:
  assumes "0 < n" "0 < d" "shrink_loop (n, d) s = ((n', d'), s', u)"
  shows "0 < n' \<and> 0 < d' \<and> n' \<le> max_nat \<and> d' \<le> max_nat"
  using assms
proof (induction "(n, d)" s arbitrary: n d rule: shrink_loop.induct)
  case (1 n d s)
  show ?case
  proof (cases "(n > max_nat \<or> d > max_nat) \<and> n \<noteq> 1 \<and> d \<noteq> 1")
    case True
    obtain m k where mk: "mk_fraction (n div 2) (d div 2) = (m, k)" by fastforce
    have "0 < m \<and> 0 < k"
      using mk_fraction_pos [of "n div 2" "d div 2"] True 1(2,3) by (simp add: mk div_greater_zero_iff)
    with True 1 show ?thesis by (simp add: shrink_loop.simps [of n d] mk)
  next
    case False
    with 1(2-4) show ?thesis
      by (auto simp: shrink_loop.simps [of n d] split: if_splits)
  qed
qed

lemma shrink_loop_fits:
  "n \<le> max_nat \<Longrightarrow> d \<le> max_nat \<Longrightarrow> shrink_loop (n, d) s = ((n, d), s, False)"
  by (simp add: shrink_loop.simps)

lemma shrink_loop_flag: "s \<Longrightarrow> fst (snd (shrink_loop c s))"
proof (induction c s rule: shrink_loop.induct)
  case (1 n d s)
  then show ?case by (auto simp: shrink_loop.simps [of n d])
qed

lemma shrink_loop_unshrinked:
  assumes "shrink_loop (n, d) s = ((n', d'), False, False)"
  shows "n' = n \<and> d' = d"
  using assms shrink_loop_flag [of True "mk_fraction (n div 2) (d div 2)"]
  by (auto simp: shrink_loop.simps [of n d] split: if_splits)

lemma refine_shrinked_pos:
  assumes "0 < fst ocp" "0 < snd ocp" "0 < fst cp" "0 < snd cp" "fst cp \<le> max_nat" "snd cp \<le> max_nat"
  shows "0 < fst (refine_shrinked ocp cp) \<and> 0 < snd (refine_shrinked ocp cp)
    \<and> fst (refine_shrinked ocp cp) \<le> max_nat \<and> snd (refine_shrinked ocp cp) \<le> max_nat"
  using assms by (auto simp: refine_shrinked_def Let_def div_greater_zero_iff)

text \<open>The scaled price before the final check against the ratio's direction.\<close>

definition scaled :: "price \<Rightarrow> int \<Rightarrow> int \<Rightarrow> fraction \<times> bool" where
  "scaled p rn rd =
     (let p128 = mk_fraction (nat (amount (base p))) (nat (amount (quote p)));
          ocp = mk_fraction (fst p128 * nat rn) (snd p128 * nat rd);
          (cp0, shrinked, using_max) = shrink_loop ocp False
      in (if shrinked then refine_shrinked ocp cp0 else cp0, shrinked \<or> using_max))"

definition exact_scaled :: "price \<Rightarrow> int \<Rightarrow> int \<Rightarrow> fraction" where
  "exact_scaled p rn rd =
     (let p128 = mk_fraction (nat (amount (base p))) (nat (amount (quote p)))
      in mk_fraction (fst p128 * nat rn) (snd p128 * nat rd))"

lemma exact_scaled_pos:
  assumes "price_ok p" "0 < rn" "0 < rd"
  shows "0 < fst (exact_scaled p rn rd) \<and> 0 < snd (exact_scaled p rn rd)"
proof -
  have "0 < fst (mk_fraction (nat (amount (base p))) (nat (amount (quote p)))) \<and>
        0 < snd (mk_fraction (nat (amount (base p))) (nat (amount (quote p))))"
    using assms by (intro mk_fraction_pos) (auto simp: price_ok_def)
  with assms show ?thesis by (auto simp: exact_scaled_def Let_def intro!: mk_fraction_pos [THEN conjunct1] mk_fraction_pos [THEN conjunct2])
qed

lemma exact_scaled_cross:
  assumes "price_ok p" "0 < rn" "0 < rd"
  shows "int (fst (exact_scaled p rn rd)) * (amount (quote p) * rd)
       = (amount (base p) * rn) * int (snd (exact_scaled p rn rd))"
proof -
  define b q where "b = nat (amount (base p))" and "q = nat (amount (quote p))"
  define n d where "n = fst (mk_fraction b q)" and "d = snd (mk_fraction b q)"
  define N D where "N = fst (exact_scaled p rn rd)" and "D = snd (exact_scaled p rn rd)"
  have pos: "0 < b" "0 < q" using assms by (auto simp: b_def q_def price_ok_def)
  then have nd: "0 < n" "0 < d" using mk_fraction_pos [of b q] by (auto simp: n_def d_def)
  have 1: "n * q = b * d" unfolding n_def d_def by (rule mk_fraction_cross)
  have 2: "N * (d * nat rd) = (n * nat rn) * D"
    unfolding N_def D_def exact_scaled_def Let_def b_def [symmetric] q_def [symmetric]
      n_def [symmetric] d_def [symmetric] by (rule mk_fraction_cross)
  have "d * (N * (q * nat rd)) = q * (N * (d * nat rd))" by (simp add: ac_simps)
  also have "\<dots> = q * ((n * nat rn) * D)" by (simp only: 2)
  also have "\<dots> = (n * q) * (nat rn * D)" by (simp add: ac_simps)
  also have "\<dots> = d * ((b * nat rn) * D)" by (simp add: 1 ac_simps)
  finally have "N * (q * nat rd) = (b * nat rn) * D" using nd by simp
  then have "int (N * (q * nat rd)) = int ((b * nat rn) * D)" by simp
  then show ?thesis
    using assms by (simp add: N_def D_def b_def q_def price_ok_def)
qed

definition fraction_price :: "price \<Rightarrow> fraction \<Rightarrow> price" where
  "fraction_price p f = mk_price (mk_asset (int (fst f)) (asset_id (base p)))
                                 (mk_asset (int (snd f)) (asset_id (quote p)))"

lemma scaled_bounds:
  assumes "price_ok p" "0 < rn" "0 < rd"
  shows "0 < fst (fst (scaled p rn rd)) \<and> 0 < snd (fst (scaled p rn rd))
    \<and> fst (fst (scaled p rn rd)) \<le> max_nat \<and> snd (fst (scaled p rn rd)) \<le> max_nat"
proof -
  obtain n d where nd: "exact_scaled p rn rd = (n, d)" by fastforce
  obtain n' d' s u where sl: "shrink_loop (n, d) False = ((n', d'), s, u)" by (metis prod.exhaust)
  have pos: "0 < n" "0 < d" using exact_scaled_pos [OF assms] by (simp_all add: nd)
  have b: "0 < n' \<and> 0 < d' \<and> n' \<le> max_nat \<and> d' \<le> max_nat" by (rule shrink_loop_pos [OF pos sl])
  have eq: "scaled p rn rd = (if s then refine_shrinked (n, d) (n', d') else (n', d'), s \<or> u)"
    using sl nd by (simp add: scaled_def exact_scaled_def Let_def)
  show ?thesis using b pos refine_shrinked_pos [of "(n, d)" "(n', d')"] by (simp add: eq)
qed

lemma scaled_exact:
  assumes "\<not> snd (scaled p rn rd)"
  shows "fst (scaled p rn rd) = exact_scaled p rn rd"
proof -
  obtain n d where nd: "exact_scaled p rn rd = (n, d)" by fastforce
  obtain n' d' s u where sl: "shrink_loop (n, d) False = ((n', d'), s, u)" by (metis prod.exhaust)
  have eq: "scaled p rn rd = (if s then refine_shrinked (n, d) (n', d') else (n', d'), s \<or> u)"
    using sl nd by (simp add: scaled_def exact_scaled_def Let_def)
  with assms sl have "n' = n \<and> d' = d" by (auto dest: shrink_loop_unshrinked)
  with eq assms nd show ?thesis by simp
qed

lemma scaled_fits:
  assumes "fst (exact_scaled p rn rd) \<le> max_nat" "snd (exact_scaled p rn rd) \<le> max_nat"
  shows "scaled p rn rd = (exact_scaled p rn rd, False)"
proof -
  obtain n d where nd: "exact_scaled p rn rd = (n, d)" by fastforce
  have "shrink_loop (n, d) False = ((n, d), False, False)"
    using assms nd by (intro shrink_loop_fits) auto
  with nd show ?thesis by (simp add: scaled_def exact_scaled_def Let_def)
qed

lemma fraction_price_ok:
  assumes "price_ok p" "0 < fst f" "0 < snd f" "fst f \<le> max_nat" "snd f \<le> max_nat"
  shows "price_ok (fraction_price p f)"
proof -
  have "int (fst f) < 2 ^ 63 \<and> int (snd f) < 2 ^ 63"
    using assms(4,5) by (simp add: max_nat_def GRAPHENE_MAX_SHARE_SUPPLY_def)
  with assms show ?thesis by (simp add: price_ok_def fraction_price_def)
qed

lemma price_ok_validate: "price_ok p \<Longrightarrow> price_validate p = Inr ()"
  by (simp add: price_ok_def price_validate_def)

lemma price_times_ratio_eq:
  assumes "price_ok p" "0 < rn" "0 < rd" "rn \<noteq> rd"
  shows "price_times_ratio p rn rd =
    Inr (let np = fraction_price p (fst (scaled p rn rd))
         in if snd (scaled p rn rd) \<and> (rn > rd \<and> price_less np p \<or> rn < rd \<and> price_less p np)
            then p else np)"
proof -
  obtain cp adj where sc: "scaled p rn rd = (cp, adj)" by fastforce
  have ok: "price_ok (fraction_price p cp)"
    using fraction_price_ok [OF assms(1)] scaled_bounds [OF assms(1-3)] by (simp add: sc)
  have ids: "asset_id (base p) \<noteq> asset_id (quote p)" using assms by (simp add: price_ok_def)
  show ?thesis
    using assms ids price_ok_validate [OF assms(1)] price_ok_validate [OF ok] sc
    by (auto simp: price_times_ratio_def scaled_def asset_div_def fraction_price_def Let_def
        split: prod.splits if_splits)
qed

lemma price_times_ratio_ok:
  assumes "price_ok p" "0 < rn" "0 < rd" "price_times_ratio p rn rd = Inr np"
  shows "price_ok np" "asset_id (base np) = asset_id (base p)" "asset_id (quote np) = asset_id (quote p)"
    "np = p \<or> amount (base np) \<le> GRAPHENE_MAX_SHARE_SUPPLY \<and> amount (quote np) \<le> GRAPHENE_MAX_SHARE_SUPPLY"
proof -
  let ?f = "fraction_price p (fst (scaled p rn rd))"
  have "np = p \<or> np = ?f"
    using assms price_times_ratio_eq [of p rn rd] price_ok_validate [of p]
    by (cases "rn = rd") (auto simp: price_times_ratio_def Let_def split: if_splits)
  moreover have "price_ok ?f"
    using fraction_price_ok [OF assms(1)] scaled_bounds [OF assms(1-3)] by simp
  moreover have "amount (base ?f) \<le> GRAPHENE_MAX_SHARE_SUPPLY \<and> amount (quote ?f) \<le> GRAPHENE_MAX_SHARE_SUPPLY"
    using scaled_bounds [OF assms(1-3)] by (simp add: fraction_price_def max_nat_def GRAPHENE_MAX_SHARE_SUPPLY_def)
  ultimately show "price_ok np" "asset_id (base np) = asset_id (base p)"
    "asset_id (quote np) = asset_id (quote p)"
    "np = p \<or> amount (base np) \<le> GRAPHENE_MAX_SHARE_SUPPLY \<and> amount (quote np) \<le> GRAPHENE_MAX_SHARE_SUPPLY"
    using assms(1) by (auto simp: fraction_price_def)
qed

lemma exact_scaled_ratio:
  assumes "price_ok p" "0 < rn" "0 < rd"
  shows "price_ratio (fraction_price p (exact_scaled p rn rd)) = price_ratio p * (real_of_int rn / real_of_int rd)"
proof -
  have "real_of_int (int (fst (exact_scaled p rn rd)) * (amount (quote p) * rd))
      = real_of_int ((amount (base p) * rn) * int (snd (exact_scaled p rn rd)))"
    by (simp only: exact_scaled_cross [OF assms])
  then show ?thesis
    using exact_scaled_pos [OF assms] assms
    by (simp add: price_ratio_def fraction_price_def price_ok_def field_simps)
qed

lemma price_ratio_pos: "price_ok p \<Longrightarrow> 0 < price_ratio p"
  by (simp add: price_ratio_def price_ok_def)

lemma price_times_ratio_direction:
  assumes "price_ok p" "0 < rn" "0 < rd" "price_times_ratio p rn rd = Inr np"
  shows "rd \<le> rn \<Longrightarrow> \<not> price_less np p" "rn \<le> rd \<Longrightarrow> \<not> price_less p np"
proof -
  let ?f = "fraction_price p (fst (scaled p rn rd))"
  have f: "price_ok ?f" using fraction_price_ok [OF assms(1)] scaled_bounds [OF assms(1-3)] by simp
  have ids: "asset_id (base ?f) = asset_id (base p)" "asset_id (quote ?f) = asset_id (quote p)"
    by (simp_all add: fraction_price_def)
  have exact: "price_ratio ?f = price_ratio p * (real_of_int rn / real_of_int rd)"
    if "\<not> snd (scaled p rn rd)"
    using exact_scaled_ratio [OF assms(1-3)] scaled_exact [OF that] by simp
  have up: "\<not> price_less ?f p" if "\<not> snd (scaled p rn rd)" "rd < rn"
  proof -
    have "1 \<le> real_of_int rn / real_of_int rd" using that assms by simp
    then have "price_ratio p \<le> price_ratio ?f"
      using exact [OF that(1)] mult_left_mono [of 1 "real_of_int rn / real_of_int rd" "price_ratio p"]
        price_ratio_pos [OF assms(1)] by simp
    then show ?thesis using f assms ids by (simp add: price_less_iff)
  qed
  have down: "\<not> price_less p ?f" if "\<not> snd (scaled p rn rd)" "rn < rd"
  proof -
    have "real_of_int rn / real_of_int rd \<le> 1" using that assms by simp
    then have "price_ratio ?f \<le> price_ratio p"
      using exact [OF that(1)] mult_left_mono [of "real_of_int rn / real_of_int rd" 1 "price_ratio p"]
        price_ratio_pos [OF assms(1)] by simp
    then show ?thesis using f assms ids by (simp add: price_less_iff)
  qed
  have refl: "\<not> price_less p p" by (rule price_order.irrefl [OF assms(1)])
  consider "rn = rd" | "rn < rd" | "rd < rn" by linarith
  then have "(rd \<le> rn \<longrightarrow> \<not> price_less np p) \<and> (rn \<le> rd \<longrightarrow> \<not> price_less p np)"
  proof cases
    case 1
    with assms refl price_ok_validate show ?thesis by (auto simp: price_times_ratio_def)
  next
    case 2
    with assms(4) refl down show ?thesis
      by (auto simp: price_times_ratio_eq [OF assms(1-3)] Let_def split: if_splits)
  next
    case 3
    with assms(4) refl up show ?thesis
      by (auto simp: price_times_ratio_eq [OF assms(1-3)] Let_def split: if_splits)
  qed
  then show "rd \<le> rn \<Longrightarrow> \<not> price_less np p" "rn \<le> rd \<Longrightarrow> \<not> price_less p np" by auto
qed

lemma normalize_pos:
  assumes "0 < n" "0 < d" "Rat.normalize (n, d) = (n', d')"
  shows "0 < n'" "0 < d'" "n' * d = n * d'" "n \<le> d \<longleftrightarrow> n' \<le> d'"
proof -
  have eq: "n' = n div gcd n d" "d' = d div gcd n d"
    using assms by (auto simp: Rat.normalize_def Let_def)
  have g: "0 < gcd n d" "gcd n d dvd n" "gcd n d dvd d" using assms by simp_all
  show "0 < n'" "0 < d'"
    using assms(1,2) g by (simp_all add: eq pos_imp_zdiv_pos_iff zdvd_imp_le)
  show cross: "n' * d = n * d'"
    using g by (simp add: eq div_mult_swap dvd_div_mult mult.commute)
  show "n \<le> d \<longleftrightarrow> n' \<le> d'"
  proof
    assume "n \<le> d"
    then show "n' \<le> d'" using g(1) by (simp add: eq zdiv_mono1)
  next
    assume "n' \<le> d'"
    then have "n' * gcd n d \<le> d' * gcd n d" using g(1) by simp
    then show "n \<le> d" using g by (simp add: eq)
  qed
qed

lemma call_price_loop_bounds:
  assumes "0 < n" "0 < d"
  shows "0 < fst (call_price_loop (n, d)) \<and> 0 < snd (call_price_loop (n, d))
    \<and> fst (call_price_loop (n, d)) \<le> max_nat \<and> snd (call_price_loop (n, d)) \<le> max_nat"
  using assms
proof (induction "(n, d)" arbitrary: n d rule: call_price_loop.induct)
  case (1 n d)
  obtain m k where mk: "mk_fraction (n div 2 + 1) (d div 2 + 1) = (m, k)" by fastforce
  have "0 < fst (m, k) \<and> 0 < snd (m, k)" unfolding mk [symmetric] by (rule mk_fraction_pos) auto
  with 1 mk show ?case by (simp add: call_price_loop.simps [of n d])
qed

lemma price_feed_validate_ratios:
  assumes "price_feed_validate f = Inr ()"
  shows "GRAPHENE_COLLATERAL_RATIO_DENOM \<le> maximum_short_squeeze_ratio f"
    "GRAPHENE_COLLATERAL_RATIO_DENOM \<le> maintenance_collateral_ratio f"
  using assms by (auto simp: price_feed_validate_def config_defs)

lemma price_times_ratio_type_le:
  assumes "price_ok p" "0 < n" "0 < d"
  shows "\<exists>np. price_times_ratio_type p n d = Inr np \<and> price_ok np
    \<and> asset_id (base np) = asset_id (base p) \<and> asset_id (quote np) = asset_id (quote p)
    \<and> (n \<le> d \<longrightarrow> \<not> price_less p np) \<and> (d \<le> n \<longrightarrow> \<not> price_less np p)"
proof -
  obtain n' d' where nd: "Rat.normalize (n, d) = (n', d')" by fastforce
  note pos = normalize_pos [OF assms(2,3) nd]
  have cmp: "d \<le> n \<longleftrightarrow> d' \<le> n'"
  proof -
    have "n = d \<longleftrightarrow> n' = d'"
      using pos(3) assms(2,3) pos(1,2) by (metis mult.commute mult_cancel_left less_irrefl)
    with pos(4) show ?thesis by linarith
  qed
  have ex: "\<exists>np. price_times_ratio p n' d' = Inr np"
    using price_times_ratio_eq [OF assms(1) pos(1,2)] price_ok_validate [OF assms(1)] pos(1,2)
    by (cases "n' = d'") (auto simp: price_times_ratio_def)
  then obtain np where np: "price_times_ratio p n' d' = Inr np" by blast
  show ?thesis
    using price_times_ratio_ok [OF assms(1) pos(1,2) np] price_times_ratio_direction [OF assms(1) pos(1,2) np]
      np nd pos(4) cmp
    by (auto simp: price_times_ratio_type_def)
qed

subsection \<open>Properties\<close>



lemma conversion_stable:
  assumes "price_ok p" "amount_ok (amount a)" "asset_times_price a p = Inr r"
    and "multiply_and_round_up r p = Inr b"
  shows "asset_id b = asset_id a \<and> 0 \<le> amount b \<and> amount b \<le> amount a \<and> asset_times_price b p = Inr r"
proof -
  define n d where "n = rate_num p (asset_id a)" and "d = rate_den p (asset_id a)"
  have pos: "0 < n" "0 < d" using rate_pos [OF assms(1)] by (simp_all add: n_def d_def)
  have r: "r = mk_asset (amount a * n div d) (other_id p (asset_id a))"
    and id: "asset_id a \<in> {asset_id (base p), asset_id (quote p)}"
    and fits: "amount a * n div d \<le> GRAPHENE_MAX_SHARE_SUPPLY"
    using assms(3) asset_times_price_iff [OF assms(1,2)] by (auto simp: Let_def n_def d_def)
  have r0: "0 \<le> amount r" using assms(2) pos by (simp add: r amount_ok_def pos_imp_zdiv_nonneg_iff)
  then have rok: "amount_ok (amount r)" using fits by (simp add: r amount_ok_def config_defs)
  have b: "b = mk_asset ((amount r * d + n - 1) div n) (asset_id a)"
    using assms(4) multiply_and_round_up_iff [OF assms(1) rok, of b] rate_other [OF assms(1) id]
    by (simp add: Let_def r n_def d_def)
  have le: "amount b \<le> amount a" and fl: "amount b * n div d = amount r"
    using floor_ceil_floor [OF pos, of "amount a"] by (simp_all add: b r)
  have "0 \<le> amount r * d" using r0 pos by simp
  then have b0: "0 \<le> amount b" using pos(1) by (simp add: b pos_imp_zdiv_nonneg_iff)
  have bok: "amount_ok (amount b)" using b0 le assms(2) by (simp add: amount_ok_def)
  have "asset_times_price b p = Inr r"
    using asset_times_price_iff [OF assms(1) bok] fl id fits b r
    by (simp add: Let_def n_def [symmetric] d_def [symmetric])
  with b b0 le show ?thesis by simp
qed

text \<open>The rounding of the market engine is stable: if an amount converted down gives \<open>r\<close>, then \<open>r\<close> converted
  back with rounding up is never more than the amount one started from, and converting that
  down again gives exactly \<open>r\<close>, so nobody can gain a share by converting back and forth.\<close>

lemma conversion_round_trip_stable:
  assumes "price_ok p" "amount_ok (amount a)" "asset_times_price a p = Inr r"
    and "multiply_and_round_up r p = Inr b"
  shows "asset_id b = asset_id a \<and> 0 \<le> amount b \<and> amount b \<le> amount a \<and> asset_times_price b p = Inr r"
  using assms by (rule conversion_stable)



text \<open>Scaling a valid price by a positive ratio never throws; the result is a valid price of the same market
  whose amounts do not exceed the maximum share supply (unless the price is returned unchanged), it never moves
  against the ratio, and it is exactly the scaled price whenever the reduced fraction fits.\<close>

lemma price_scaling_total_valid_exact:
  assumes "price_ok p" "0 < rn" "0 < rd"
  shows "\<exists>np. price_times_ratio p rn rd = Inr np \<and> price_validate np = Inr ()
    \<and> asset_id (base np) = asset_id (base p) \<and> asset_id (quote np) = asset_id (quote p)
    \<and> (np = p \<or> amount (base np) \<le> GRAPHENE_MAX_SHARE_SUPPLY \<and> amount (quote np) \<le> GRAPHENE_MAX_SHARE_SUPPLY)
    \<and> (rd \<le> rn \<longrightarrow> \<not> price_less np p) \<and> (rn \<le> rd \<longrightarrow> \<not> price_less p np)
    \<and> (fst (exact_scaled p rn rd) \<le> max_nat \<and> snd (exact_scaled p rn rd) \<le> max_nat \<longrightarrow>
         amount (base np) * (amount (quote p) * rd) = (amount (base p) * rn) * amount (quote np))"
proof -
  obtain np where np: "price_times_ratio p rn rd = Inr np"
    using price_times_ratio_eq [OF assms] price_ok_validate [OF assms(1)] assms(2,3)
    by (cases "rn = rd") (auto simp: price_times_ratio_def)
  have exact: "amount (base np) * (amount (quote p) * rd) = (amount (base p) * rn) * amount (quote np)"
    if "fst (exact_scaled p rn rd) \<le> max_nat" "snd (exact_scaled p rn rd) \<le> max_nat"
  proof (cases "rn = rd")
    case True
    with np assms price_ok_validate [OF assms(1)] show ?thesis by (auto simp: price_times_ratio_def)
  next
    case False
    with np scaled_fits [OF that] exact_scaled_cross [OF assms] show ?thesis
      by (auto simp: price_times_ratio_eq [OF assms] fraction_price_def Let_def)
  qed
  show ?thesis
    using np exact price_ok_validate price_times_ratio_ok [OF assms np] price_times_ratio_direction [OF assms np]
    by blast
qed

text \<open>For a validated feed with a settlement price, the maximum short squeeze price and the maintenance
  collateralization exist, are valid prices, and lie on the right side of the feed: the squeeze price is not above the
  settlement price (debt per collateral), the required collateralization not below the feed's collateral per debt.\<close>

lemma feed_limits_ordered:
  assumes "price_feed_validate f = Inr ()" "price_ok (settlement_price f)" "\<not> price_is_null (settlement_price f)"
  shows "\<exists>mssp mc. max_short_squeeze_price f = Inr mssp \<and> maintenance_collateralization f = Inr mc
    \<and> price_ok mssp \<and> price_ok mc \<and> price_le mssp (settlement_price f)
    \<and> price_le (price_inv (settlement_price f)) mc"
proof -
  note r = price_feed_validate_ratios [OF assms(1)]
  have pos: "0 < GRAPHENE_COLLATERAL_RATIO_DENOM" "0 < maximum_short_squeeze_ratio f" "0 < maintenance_collateral_ratio f"
    using r by (simp_all add: config_defs)
  show ?thesis
    using price_times_ratio_type_le [OF assms(2) pos(1,2)]
      price_times_ratio_type_le [of "price_inv (settlement_price f)", OF _ pos(3,1)] r assms(2,3)
    by (auto simp: max_short_squeeze_price_def maintenance_collateralization_def price_le_def)
qed

end
