(* ===== verification/Vesting.thy ===== *)
theory Vesting
  imports Asset_Price
begin

text \<open>
  Vesting balances: \<open>libraries/chain/vesting_balance_object.cpp\<close> with its header, and the visitor of
  \<open>vesting_balance_evaluator.cpp\<close> that turns a policy initializer of an operation into a policy.

  The three policies of the \<open>static_variant\<close> are the constructors of \<open>vesting_policy\<close>. \<open>fc::uint128_t\<close> values
  are integers reduced by \<open>u128\<close>; the \<open>assert\<close> statements of the source are not part of the release build and are
  theorems here. What the policies have in common is the locale \<open>vesting_contract\<close>: the amount that
  may be withdrawn is between zero and the balance, grows with time, and a withdrawal of \<open>a\<close> lowers
  it by at least \<open>a\<close> for all later times. Every policy is an interpretation, and the client theorem of the locale bounds
  what any sequence of withdrawals can take.
\<close>

subsection \<open>Data\<close>

record vesting_policy_context =
  ctx_balance :: asset
  ctx_now :: time_sec
  ctx_amount :: asset

abbreviation mk_ctx :: "asset \<Rightarrow> time_sec \<Rightarrow> asset \<Rightarrow> vesting_policy_context" where
  "mk_ctx b n a \<equiv> \<lparr>ctx_balance = b, ctx_now = n, ctx_amount = a\<rparr>"

record linear_vesting_policy =
  begin_timestamp :: time_sec
  vesting_cliff_seconds :: nat
  vesting_duration_seconds :: nat
  begin_balance :: int

record cdd_vesting_policy =
  vesting_seconds :: nat
  coin_seconds_earned :: int
  start_claim :: time_sec
  coin_seconds_earned_last_update :: time_sec

datatype vesting_policy =
    Linear_vesting linear_vesting_policy
  | Cdd_vesting cdd_vesting_policy
  | Instant_vesting

datatype vesting_balance_type = Unspecified | Cashback | Worker | Witness | Market_fee_sharing

record vesting_balance_object =
  vb_owner :: account_id
  vb_balance :: asset
  vb_policy :: vesting_policy
  vb_balance_type :: vesting_balance_type

definition sum_below_max_shares :: "fc_lib \<Rightarrow> asset \<Rightarrow> asset \<Rightarrow> bool res" where
  "sum_below_max_shares lib a b =
     (if amount a \<le> GRAPHENE_MAX_SHARE_SUPPLY \<and> amount b \<le> GRAPHENE_MAX_SHARE_SUPPLY
      then res_bind (fc_safe lib (amount a + amount b)) (\<lambda>s. Inr (s \<le> GRAPHENE_MAX_SHARE_SUPPLY))
      else Inr False)"

definition same_asset_and_below_max :: "fc_lib \<Rightarrow> vesting_policy_context \<Rightarrow> bool res" where
  "same_asset_and_below_max lib ctx =
     (if asset_id (ctx_amount ctx) = asset_id (ctx_balance ctx)
      then sum_below_max_shares lib (ctx_amount ctx) (ctx_balance ctx) else Inr False)"

subsection \<open>Linear vesting\<close>

definition linear_get_allowed_withdraw :: "fc_lib \<Rightarrow> linear_vesting_policy \<Rightarrow> vesting_policy_context \<Rightarrow> asset res" where
  "linear_get_allowed_withdraw lib p ctx =
     (if ctx_now ctx > begin_timestamp p then
        let elapsed_seconds = ctx_now ctx - begin_timestamp p in
        if elapsed_seconds \<ge> vesting_cliff_seconds p then
          res_bind
            (if elapsed_seconds < vesting_duration_seconds p
             then fc_to_share lib (u128 (u128 (begin_balance p) * int elapsed_seconds) div int (vesting_duration_seconds p))
             else Inr (begin_balance p)) (\<lambda>total_vested.
          res_bind (fc_safe lib (begin_balance p - amount (ctx_balance ctx))) (\<lambda>withdrawn_already.
          res_bind (fc_safe lib (total_vested - withdrawn_already)) (\<lambda>allowed_withdraw.
            Inr (mk_asset allowed_withdraw (asset_id (ctx_balance ctx))))))
        else Inr (mk_asset 0 (asset_id (ctx_balance ctx)))
      else Inr (mk_asset 0 (asset_id (ctx_balance ctx))))"

definition linear_on_deposit :: "linear_vesting_policy \<Rightarrow> vesting_policy_context \<Rightarrow> linear_vesting_policy res" where
  "linear_on_deposit p ctx = Inr p"

definition linear_on_deposit_vested :: "linear_vesting_policy \<Rightarrow> vesting_policy_context \<Rightarrow> linear_vesting_policy res" where
  "linear_on_deposit_vested p ctx = Inl (Throw_exn ''May not deposit vested into a linear vesting balance.'')"

definition linear_on_withdraw :: "linear_vesting_policy \<Rightarrow> vesting_policy_context \<Rightarrow> linear_vesting_policy res" where
  "linear_on_withdraw p ctx = Inr p"

definition linear_is_deposit_allowed :: "fc_lib \<Rightarrow> linear_vesting_policy \<Rightarrow> vesting_policy_context \<Rightarrow> bool res" where
  "linear_is_deposit_allowed lib p ctx = same_asset_and_below_max lib ctx"

definition linear_is_withdraw_allowed :: "fc_lib \<Rightarrow> linear_vesting_policy \<Rightarrow> vesting_policy_context \<Rightarrow> bool res" where
  "linear_is_withdraw_allowed lib p ctx =
     (if asset_id (ctx_amount ctx) = asset_id (ctx_balance ctx)
      then res_bind (linear_get_allowed_withdraw lib p ctx) (asset_le (ctx_amount ctx)) else Inr False)"

subsection \<open>Coin-seconds vesting\<close>

definition vesting_secs :: "cdd_vesting_policy \<Rightarrow> int" where
  "vesting_secs p = max (int (vesting_seconds p)) 1"

definition compute_coin_seconds_earned :: "cdd_vesting_policy \<Rightarrow> vesting_policy_context \<Rightarrow> int" where
  "compute_coin_seconds_earned p ctx =
     (let delta_seconds = int (ctx_now ctx) - int (coin_seconds_earned_last_update p);
          delta_coin_seconds = u128 (u128 (amount (ctx_balance ctx)) * u128 delta_seconds);
          coin_seconds_earned_cap = u128 (u128 (amount (ctx_balance ctx)) * vesting_secs p)
      in min (u128 (coin_seconds_earned p + delta_coin_seconds)) coin_seconds_earned_cap)"

definition update_coin_seconds_earned :: "cdd_vesting_policy \<Rightarrow> vesting_policy_context \<Rightarrow> cdd_vesting_policy" where
  "update_coin_seconds_earned p ctx =
     p\<lparr>coin_seconds_earned := compute_coin_seconds_earned p ctx, coin_seconds_earned_last_update := ctx_now ctx\<rparr>"

definition cdd_get_allowed_withdraw :: "fc_lib \<Rightarrow> cdd_vesting_policy \<Rightarrow> vesting_policy_context \<Rightarrow> asset res" where
  "cdd_get_allowed_withdraw lib p ctx =
     (if ctx_now ctx \<le> start_claim p then Inr (mk_asset 0 (asset_id (ctx_balance ctx)))
      else res_bind (fc_to_share lib (compute_coin_seconds_earned p ctx div vesting_secs p)) (\<lambda>withdraw_available.
             Inr (mk_asset withdraw_available (asset_id (ctx_balance ctx)))))"

definition cdd_on_deposit :: "cdd_vesting_policy \<Rightarrow> vesting_policy_context \<Rightarrow> cdd_vesting_policy res" where
  "cdd_on_deposit p ctx = Inr (update_coin_seconds_earned p ctx)"

text \<open>\<open>ctx.amount.amount.value * std::max(vesting_seconds, 1u)\<close> is a product of an \<open>int64_t\<close> and an unsigned 32-bit number,
  computed in 64 bits before it is added to the 128-bit sum.\<close>

definition wrap_int64 :: "int \<Rightarrow> int" where
  "wrap_int64 x = (x + 2 ^ 63) mod 2 ^ 64 - 2 ^ 63"

definition cdd_on_deposit_vested :: "cdd_vesting_policy \<Rightarrow> vesting_policy_context \<Rightarrow> cdd_vesting_policy res" where
  "cdd_on_deposit_vested p ctx =
     res_bind (cdd_on_deposit p ctx) (\<lambda>p1.
       Inr (p1\<lparr>coin_seconds_earned :=
              u128 (coin_seconds_earned p1 + u128 (wrap_int64 (amount (ctx_amount ctx) * vesting_secs p1)))\<rparr>))"

definition cdd_on_withdraw :: "cdd_vesting_policy \<Rightarrow> vesting_policy_context \<Rightarrow> cdd_vesting_policy res" where
  "cdd_on_withdraw p ctx =
     (let p1 = update_coin_seconds_earned p ctx;
          coin_seconds_needed = u128 (u128 (amount (ctx_amount ctx)) * vesting_secs p1)
      in Inr (p1\<lparr>coin_seconds_earned := u128 (coin_seconds_earned p1 - coin_seconds_needed)\<rparr>))"

definition cdd_is_deposit_allowed :: "fc_lib \<Rightarrow> cdd_vesting_policy \<Rightarrow> vesting_policy_context \<Rightarrow> bool res" where
  "cdd_is_deposit_allowed lib p ctx = same_asset_and_below_max lib ctx"

definition cdd_is_deposit_vested_allowed :: "fc_lib \<Rightarrow> cdd_vesting_policy \<Rightarrow> vesting_policy_context \<Rightarrow> bool res" where
  "cdd_is_deposit_vested_allowed lib p ctx = cdd_is_deposit_allowed lib p ctx"

definition cdd_is_withdraw_allowed :: "fc_lib \<Rightarrow> cdd_vesting_policy \<Rightarrow> vesting_policy_context \<Rightarrow> bool res" where
  "cdd_is_withdraw_allowed lib p ctx = res_bind (cdd_get_allowed_withdraw lib p ctx) (asset_le (ctx_amount ctx))"

subsection \<open>Instant vesting\<close>

definition instant_get_allowed_withdraw :: "vesting_policy_context \<Rightarrow> asset res" where
  "instant_get_allowed_withdraw ctx = Inr (ctx_balance ctx)"

definition instant_is_deposit_allowed :: "fc_lib \<Rightarrow> vesting_policy_context \<Rightarrow> bool res" where
  "instant_is_deposit_allowed lib ctx = same_asset_and_below_max lib ctx"

definition instant_is_withdraw_allowed :: "vesting_policy_context \<Rightarrow> bool res" where
  "instant_is_withdraw_allowed ctx =
     (if asset_id (ctx_amount ctx) = asset_id (ctx_balance ctx)
      then res_bind (instant_get_allowed_withdraw ctx) (asset_le (ctx_amount ctx)) else Inr False)"

subsection \<open>The visitors and the vesting balance object\<close>

fun get_allowed_withdraw_visitor :: "fc_lib \<Rightarrow> vesting_policy \<Rightarrow> vesting_policy_context \<Rightarrow> asset res" where
  "get_allowed_withdraw_visitor lib (Linear_vesting p) ctx = linear_get_allowed_withdraw lib p ctx"
| "get_allowed_withdraw_visitor lib (Cdd_vesting p) ctx = cdd_get_allowed_withdraw lib p ctx"
| "get_allowed_withdraw_visitor lib Instant_vesting ctx = instant_get_allowed_withdraw ctx"

fun is_withdraw_allowed_visitor :: "fc_lib \<Rightarrow> vesting_policy \<Rightarrow> vesting_policy_context \<Rightarrow> bool res" where
  "is_withdraw_allowed_visitor lib (Linear_vesting p) ctx = linear_is_withdraw_allowed lib p ctx"
| "is_withdraw_allowed_visitor lib (Cdd_vesting p) ctx = cdd_is_withdraw_allowed lib p ctx"
| "is_withdraw_allowed_visitor lib Instant_vesting ctx = instant_is_withdraw_allowed ctx"

fun is_deposit_allowed_visitor :: "fc_lib \<Rightarrow> vesting_policy \<Rightarrow> vesting_policy_context \<Rightarrow> bool res" where
  "is_deposit_allowed_visitor lib (Linear_vesting p) ctx = linear_is_deposit_allowed lib p ctx"
| "is_deposit_allowed_visitor lib (Cdd_vesting p) ctx = cdd_is_deposit_allowed lib p ctx"
| "is_deposit_allowed_visitor lib Instant_vesting ctx = instant_is_deposit_allowed lib ctx"

fun is_deposit_vested_allowed_visitor :: "fc_lib \<Rightarrow> vesting_policy \<Rightarrow> vesting_policy_context \<Rightarrow> bool res" where
  "is_deposit_vested_allowed_visitor lib (Linear_vesting p) ctx = Inr False"
| "is_deposit_vested_allowed_visitor lib (Cdd_vesting p) ctx = cdd_is_deposit_vested_allowed lib p ctx"
| "is_deposit_vested_allowed_visitor lib Instant_vesting ctx = Inr False"

fun on_deposit_visitor :: "vesting_policy \<Rightarrow> vesting_policy_context \<Rightarrow> vesting_policy res" where
  "on_deposit_visitor (Linear_vesting p) ctx = res_bind (linear_on_deposit p ctx) (\<lambda>p'. Inr (Linear_vesting p'))"
| "on_deposit_visitor (Cdd_vesting p) ctx = res_bind (cdd_on_deposit p ctx) (\<lambda>p'. Inr (Cdd_vesting p'))"
| "on_deposit_visitor Instant_vesting ctx = Inr Instant_vesting"

fun on_deposit_vested_visitor :: "vesting_policy \<Rightarrow> vesting_policy_context \<Rightarrow> vesting_policy res" where
  "on_deposit_vested_visitor (Linear_vesting p) ctx = res_bind (linear_on_deposit_vested p ctx) (\<lambda>p'. Inr (Linear_vesting p'))"
| "on_deposit_vested_visitor (Cdd_vesting p) ctx = res_bind (cdd_on_deposit_vested p ctx) (\<lambda>p'. Inr (Cdd_vesting p'))"
| "on_deposit_vested_visitor Instant_vesting ctx = Inr Instant_vesting"

fun on_withdraw_visitor :: "vesting_policy \<Rightarrow> vesting_policy_context \<Rightarrow> vesting_policy res" where
  "on_withdraw_visitor (Linear_vesting p) ctx = res_bind (linear_on_withdraw p ctx) (\<lambda>p'. Inr (Linear_vesting p'))"
| "on_withdraw_visitor (Cdd_vesting p) ctx = res_bind (cdd_on_withdraw p ctx) (\<lambda>p'. Inr (Cdd_vesting p'))"
| "on_withdraw_visitor Instant_vesting ctx = Inr Instant_vesting"

definition vbo_is_deposit_allowed :: "fc_lib \<Rightarrow> vesting_balance_object \<Rightarrow> time_sec \<Rightarrow> asset \<Rightarrow> bool res" where
  "vbo_is_deposit_allowed lib vbo now a = is_deposit_allowed_visitor lib (vb_policy vbo) (mk_ctx (vb_balance vbo) now a)"

definition vbo_is_withdraw_allowed :: "fc_lib \<Rightarrow> vesting_balance_object \<Rightarrow> time_sec \<Rightarrow> asset \<Rightarrow> bool res" where
  "vbo_is_withdraw_allowed lib vbo now a = is_withdraw_allowed_visitor lib (vb_policy vbo) (mk_ctx (vb_balance vbo) now a)"

definition vbo_deposit :: "fc_lib \<Rightarrow> vesting_balance_object \<Rightarrow> time_sec \<Rightarrow> asset \<Rightarrow> vesting_balance_object res" where
  "vbo_deposit lib vbo now a =
     res_bind (on_deposit_visitor (vb_policy vbo) (mk_ctx (vb_balance vbo) now a)) (\<lambda>p.
     res_bind (asset_add (fc_safe lib) (vb_balance vbo) a) (\<lambda>b. Inr (vbo\<lparr>vb_policy := p, vb_balance := b\<rparr>)))"

definition vbo_deposit_vested :: "fc_lib \<Rightarrow> vesting_balance_object \<Rightarrow> time_sec \<Rightarrow> asset \<Rightarrow> vesting_balance_object res" where
  "vbo_deposit_vested lib vbo now a =
     res_bind (on_deposit_vested_visitor (vb_policy vbo) (mk_ctx (vb_balance vbo) now a)) (\<lambda>p.
     res_bind (asset_add (fc_safe lib) (vb_balance vbo) a) (\<lambda>b. Inr (vbo\<lparr>vb_policy := p, vb_balance := b\<rparr>)))"

definition vbo_is_deposit_vested_allowed :: "fc_lib \<Rightarrow> vesting_balance_object \<Rightarrow> time_sec \<Rightarrow> asset \<Rightarrow> bool res" where
  "vbo_is_deposit_vested_allowed lib vbo now a =
     is_deposit_vested_allowed_visitor lib (vb_policy vbo) (mk_ctx (vb_balance vbo) now a)"

definition vbo_withdraw :: "fc_lib \<Rightarrow> vesting_balance_object \<Rightarrow> time_sec \<Rightarrow> asset \<Rightarrow> vesting_balance_object res" where
  "vbo_withdraw lib vbo now a =
     res_bind (on_withdraw_visitor (vb_policy vbo) (mk_ctx (vb_balance vbo) now a)) (\<lambda>p.
     res_bind (asset_sub (fc_safe lib) (vb_balance vbo) a) (\<lambda>b. Inr (vbo\<lparr>vb_policy := p, vb_balance := b\<rparr>)))"

definition vbo_get_allowed_withdraw :: "fc_lib \<Rightarrow> vesting_balance_object \<Rightarrow> time_sec \<Rightarrow> asset res" where
  "vbo_get_allowed_withdraw lib vbo now =
     get_allowed_withdraw_visitor lib (vb_policy vbo) (mk_ctx (vb_balance vbo) now (mk_asset 0 core_asset))"

subsection \<open>The \<open>by_vesting_type\<close> index\<close>

definition vbo_mfs_hash :: "account_id \<Rightarrow> asset_id \<Rightarrow> nat" where
  "vbo_mfs_hash acc ast = xor (take_bit 64 (push_bit 40 ast)) acc"

text \<open>\<open>hash_value\<close> of an identifier is \<open>std::hash\<close>, an argument here. Objects come with their identifier.\<close>

definition vesting_balance_object_hash :: "(obj_id \<Rightarrow> nat) \<Rightarrow> obj_id \<times> vesting_balance_object \<Rightarrow> nat" where
  "vesting_balance_object_hash hash_value p =
     (if vb_balance_type (snd p) = Market_fee_sharing
      then vbo_mfs_hash (vb_owner (snd p)) (asset_id (vb_balance (snd p)))
      else hash_value (fst p))"

definition vesting_balance_object_equal :: "obj_id \<times> vesting_balance_object \<Rightarrow> obj_id \<times> vesting_balance_object \<Rightarrow> bool" where
  "vesting_balance_object_equal l r =
     (if vb_balance_type (snd l) = Market_fee_sharing \<and> vb_balance_type (snd l) = vb_balance_type (snd r)
         \<and> vb_owner (snd l) = vb_owner (snd r) \<and> asset_id (vb_balance (snd l)) = asset_id (vb_balance (snd r))
      then True else fst l = fst r)"

subsection \<open>Policy initializers\<close>

datatype vesting_policy_initializer =
    Linear_init time_sec nat nat
  | Cdd_init time_sec nat
  | Instant_init

fun init_policy_visitor :: "int \<Rightarrow> time_sec \<Rightarrow> vesting_policy_initializer \<Rightarrow> vesting_policy" where
  "init_policy_visitor init_balance now (Linear_init b cliff duration) =
     Linear_vesting \<lparr>begin_timestamp = b, vesting_cliff_seconds = cliff, vesting_duration_seconds = duration,
                     begin_balance = init_balance\<rparr>"
| "init_policy_visitor init_balance now (Cdd_init sc secs) =
     Cdd_vesting \<lparr>vesting_seconds = secs, coin_seconds_earned = 0, start_claim = sc,
                  coin_seconds_earned_last_update = now\<rparr>"
| "init_policy_visitor init_balance now Instant_init = Instant_vesting"

subsection \<open>The contract of a policy\<close>

text \<open>A balance is in range: nonnegative and at most the largest supply. Points in time and durations are unsigned
  32-bit numbers.\<close>

definition balance_ok :: "asset \<Rightarrow> bool" where
  "balance_ok b \<longleftrightarrow> 0 \<le> amount b \<and> amount b \<le> GRAPHENE_MAX_SHARE_SUPPLY"

lemma mult_below_u128:
  fixes a b :: int
  assumes "0 \<le> a" "a \<le> 10 ^ 15" "0 \<le> b" "b < 2 ^ 33"
  shows "0 \<le> a * b" "a * b < 2 ^ 127"
proof -
  show "0 \<le> a * b" using assms by simp
  have "a * b \<le> 10 ^ 15 * 2 ^ 33" using assms by (intro mult_mono) auto
  then show "a * b < 2 ^ 127" by simp
qed

locale vesting_contract =
  fixes inv :: "'p \<Rightarrow> asset \<Rightarrow> time_sec \<Rightarrow> bool"
    and allowed :: "'p \<Rightarrow> vesting_policy_context \<Rightarrow> asset res"
    and withdrawn :: "'p \<Rightarrow> vesting_policy_context \<Rightarrow> 'p res"
    and avail :: "'p \<Rightarrow> asset \<Rightarrow> time_sec \<Rightarrow> int"
  assumes allowed_total: "inv p b t \<Longrightarrow> t \<le> now \<Longrightarrow> now < 2 ^ 32 \<Longrightarrow>
      allowed p (mk_ctx b now a) = Inr (mk_asset (avail p b now) (asset_id b))"
    and avail_range: "inv p b t \<Longrightarrow> t \<le> now \<Longrightarrow> now < 2 ^ 32 \<Longrightarrow> 0 \<le> avail p b now \<and> avail p b now \<le> amount b"
    and avail_mono: "inv p b t \<Longrightarrow> t \<le> now \<Longrightarrow> now \<le> T \<Longrightarrow> T < 2 ^ 32 \<Longrightarrow> avail p b now \<le> avail p b T"
    and withdraw_ok: "inv p b t \<Longrightarrow> t \<le> now \<Longrightarrow> now < 2 ^ 32 \<Longrightarrow> 0 \<le> x \<Longrightarrow> x \<le> avail p b now \<Longrightarrow>
      \<exists>p'. withdrawn p (mk_ctx b now (mk_asset x (asset_id b))) = Inr p'
         \<and> inv p' (b\<lparr>amount := amount b - x\<rparr>) now
         \<and> (\<forall>T. now \<le> T \<longrightarrow> T < 2 ^ 32 \<longrightarrow> avail p' (b\<lparr>amount := amount b - x\<rparr>) T \<le> avail p b T - x)"
begin

text \<open>A sequence of withdrawals at given times: each one asks what is allowed, and takes no more.\<close>

fun withdrawals :: "(time_sec \<times> int) list \<Rightarrow> 'p \<Rightarrow> asset \<Rightarrow> ('p \<times> asset) res" where
  "withdrawals [] p b = Inr (p, b)"
| "withdrawals ((now, x) # ws) p b =
     res_bind (allowed p (mk_ctx b now (mk_asset x (asset_id b)))) (\<lambda>al.
     if x \<le> amount al then
       res_bind (withdrawn p (mk_ctx b now (mk_asset x (asset_id b)))) (\<lambda>p'.
         withdrawals ws p' (b\<lparr>amount := amount b - x\<rparr>))
     else Inl (Assert_exn ''withdraw not allowed''))"

lemma withdrawals_step:
  assumes "withdrawals ((now, x) # ws) p b = Inr r" "inv p b t" "t \<le> now" "now < 2 ^ 32" "0 \<le> x"
  obtains p' where "withdrawn p (mk_ctx b now (mk_asset x (asset_id b))) = Inr p'" "x \<le> avail p b now"
    "inv p' (b\<lparr>amount := amount b - x\<rparr>) now"
    "\<And>T. now \<le> T \<Longrightarrow> T < 2 ^ 32 \<Longrightarrow> avail p' (b\<lparr>amount := amount b - x\<rparr>) T \<le> avail p b T - x"
    "withdrawals ws p' (b\<lparr>amount := amount b - x\<rparr>) = Inr r"
proof -
  from assms(1) have le: "x \<le> avail p b now"
    by (auto simp: allowed_total [OF assms(2-4)] split: if_splits)
  from withdraw_ok [OF assms(2-5) le] obtain p' where p': "withdrawn p (mk_ctx b now (mk_asset x (asset_id b))) = Inr p'"
    "inv p' (b\<lparr>amount := amount b - x\<rparr>) now"
    "\<forall>T. now \<le> T \<longrightarrow> T < 2 ^ 32 \<longrightarrow> avail p' (b\<lparr>amount := amount b - x\<rparr>) T \<le> avail p b T - x" by blast
  with assms(1) have "withdrawals ws p' (b\<lparr>amount := amount b - x\<rparr>) = Inr r"
    by (auto split: if_splits)
  with p' le that show thesis by blast
qed

lemma withdrawals_bounded:
  assumes "withdrawals ws p b = Inr (p', b')" "inv p b t" "sorted (map fst ws)" "\<forall>w\<in>set ws. t \<le> fst w \<and> fst w \<le> T \<and> 0 \<le> snd w"
    "t \<le> T" "T < 2 ^ 32"
  shows "(\<Sum>w\<leftarrow>ws. snd w) \<le> avail p b T \<and> amount b' = amount b - (\<Sum>w\<leftarrow>ws. snd w) \<and> 0 \<le> amount b'"
  using assms
proof (induction ws arbitrary: p b t)
  case Nil
  then show ?case using avail_range [of p b t T] by auto
next
  case (Cons w ws)
  obtain now x where w: "w = (now, x)" by (cases w)
  have t: "t \<le> now" "now \<le> T" "0 \<le> x" "now < 2 ^ 32" using Cons.prems by (auto simp: w)
  from withdrawals_step [OF Cons.prems(1)[unfolded w] Cons.prems(2) t(1,4,3)]
  obtain p1 where p1: "inv p1 (b\<lparr>amount := amount b - x\<rparr>) now"
    "avail p1 (b\<lparr>amount := amount b - x\<rparr>) T \<le> avail p b T - x"
    "withdrawals ws p1 (b\<lparr>amount := amount b - x\<rparr>) = Inr (p', b')"
    using t Cons.prems(6) by metis
  have "\<forall>w\<in>set ws. now \<le> fst w \<and> fst w \<le> T \<and> 0 \<le> snd w"
    using Cons.prems(3,4) by (auto simp: w)
  from Cons.IH [OF p1(3,1) _ this t(2) Cons.prems(6)] Cons.prems(3) p1(2)
  show ?case by (auto simp: w)
qed

end

subsection \<open>Linear vesting keeps the contract\<close>

definition linear_vested :: "linear_vesting_policy \<Rightarrow> time_sec \<Rightarrow> int" where
  "linear_vested p now =
     (let e = now - begin_timestamp p in
      if e < vesting_duration_seconds p then begin_balance p * int e div int (vesting_duration_seconds p)
      else begin_balance p)"

definition linear_open :: "linear_vesting_policy \<Rightarrow> time_sec \<Rightarrow> bool" where
  "linear_open p now \<longleftrightarrow> begin_timestamp p < now \<and> vesting_cliff_seconds p \<le> now - begin_timestamp p"

definition linear_avail :: "linear_vesting_policy \<Rightarrow> asset \<Rightarrow> time_sec \<Rightarrow> int" where
  "linear_avail p b now = (if linear_open p now then linear_vested p now - (begin_balance p - amount b) else 0)"

definition linear_inv :: "fc_lib \<Rightarrow> linear_vesting_policy \<Rightarrow> asset \<Rightarrow> time_sec \<Rightarrow> bool" where
  "linear_inv lib p b t \<longleftrightarrow> fc_lib_ok lib \<and> 0 \<le> amount b \<and> amount b \<le> begin_balance p
     \<and> begin_balance p \<le> GRAPHENE_MAX_SHARE_SUPPLY
     \<and> (amount b < begin_balance p \<longrightarrow> linear_open p t \<and> begin_balance p - amount b \<le> linear_vested p t)"

lemma linear_vested_range:
  assumes "0 \<le> begin_balance p"
  shows "0 \<le> linear_vested p now" "linear_vested p now \<le> begin_balance p"
proof -
  let ?e = "int (now - begin_timestamp p)" and ?d = "int (vesting_duration_seconds p)"
  show "0 \<le> linear_vested p now"
    using assms by (simp add: linear_vested_def Let_def div_int_pos_iff)
  have "begin_balance p * ?e div ?d \<le> begin_balance p * ?d div ?d" if "?e < ?d"
    using that assms by (intro zdiv_mono1 mult_left_mono) auto
  then show "linear_vested p now \<le> begin_balance p"
    by (auto simp: linear_vested_def Let_def)
qed

lemma linear_vested_mono:
  assumes "0 \<le> begin_balance p" "s \<le> t"
  shows "linear_vested p s \<le> linear_vested p t"
proof (cases "t - begin_timestamp p < vesting_duration_seconds p")
  case True
  then have "begin_balance p * int (s - begin_timestamp p) div int (vesting_duration_seconds p)
      \<le> begin_balance p * int (t - begin_timestamp p) div int (vesting_duration_seconds p)"
    using assms by (intro zdiv_mono1 mult_left_mono) auto
  moreover have "s - begin_timestamp p < vesting_duration_seconds p" using True assms(2) by linarith
  ultimately show ?thesis using True by (simp add: linear_vested_def Let_def)
next
  case False
  then have "linear_vested p t = begin_balance p" by (simp add: linear_vested_def Let_def)
  with linear_vested_range [OF assms(1)] show ?thesis by simp
qed

lemma linear_inv_later: "linear_inv lib p b t \<Longrightarrow> t \<le> T \<Longrightarrow> linear_inv lib p b T"
  using linear_vested_mono [of p t T] by (auto simp: linear_inv_def linear_open_def)

lemma linear_avail_range:
  assumes "linear_inv lib p b now"
  shows "0 \<le> linear_avail p b now \<and> linear_avail p b now \<le> amount b"
  using assms linear_vested_range [of p now] by (force simp: linear_inv_def linear_avail_def)

lemma linear_allowed:
  assumes "linear_inv lib p b now" "now < 2 ^ 32"
  shows "linear_get_allowed_withdraw lib p (mk_ctx b now a) = Inr (mk_asset (linear_avail p b now) (asset_id b))"
proof (cases "linear_open p now")
  case True
  have lib: "fc_lib_ok lib" and bb: "0 \<le> amount b" "amount b \<le> begin_balance p" "begin_balance p \<le> 10 ^ 15"
    using assms by (auto simp: linear_inv_def config_defs)
  let ?e = "now - begin_timestamp p" and ?d = "vesting_duration_seconds p"
  have "0 \<le> begin_balance p * int ?e" "begin_balance p * int ?e < 2 ^ 127"
    using mult_below_u128 [of "begin_balance p" "int ?e"] bb assms(2) by auto
  then have u: "u128 (u128 (begin_balance p) * int ?e) = begin_balance p * int ?e"
    using bb by (simp add: u128_def)
  have v: "0 \<le> linear_vested p now" "linear_vested p now \<le> 10 ^ 15"
    using linear_vested_range [of p now] bb by auto
  have "(if ?e < ?d then fc_to_share lib (u128 (u128 (begin_balance p) * int ?e) div int ?d)
         else Inr (begin_balance p)) = Inr (linear_vested p now)"
    using v fc_to_share_in_range [OF lib, of "linear_vested p now"] by (auto simp: linear_vested_def Let_def u)
  moreover have "fc_safe lib (begin_balance p - amount b) = Inr (begin_balance p - amount b)"
    using bb by (intro fc_safe_in_range [OF lib]) auto
  moreover have "fc_safe lib (linear_vested p now - (begin_balance p - amount b))
      = Inr (linear_vested p now - (begin_balance p - amount b))"
    using bb v by (intro fc_safe_in_range [OF lib]) auto
  ultimately show ?thesis using True
    by (simp add: linear_get_allowed_withdraw_def linear_open_def linear_avail_def Let_def)
next
  case False
  then show ?thesis by (auto simp: linear_get_allowed_withdraw_def linear_open_def linear_avail_def Let_def)
qed

interpretation linear: vesting_contract "linear_inv lib" "linear_get_allowed_withdraw lib" linear_on_withdraw linear_avail
  for lib
proof unfold_locales
  fix p b t now T and x :: int
  assume i: "linear_inv lib p b t" "t \<le> now"
  then have i': "linear_inv lib p b now" by (rule linear_inv_later)
  show "0 \<le> linear_avail p b now \<and> linear_avail p b now \<le> amount b"
    by (rule linear_avail_range [OF i'])
  show "linear_get_allowed_withdraw lib p (mk_ctx b now a) = Inr (mk_asset (linear_avail p b now) (asset_id b))"
    if "now < 2 ^ 32" for a by (rule linear_allowed [OF i' that])
  show "linear_avail p b now \<le> linear_avail p b T" if T: "now \<le> T"
    using linear_vested_mono [of p now T] linear_avail_range [OF linear_inv_later [OF i' T]] i' T
    by (auto simp: linear_avail_def linear_inv_def linear_open_def)
  show "\<exists>p'. linear_on_withdraw p (mk_ctx b now (mk_asset x (asset_id b))) = Inr p'
         \<and> linear_inv lib p' (b\<lparr>amount := amount b - x\<rparr>) now
         \<and> (\<forall>T. now \<le> T \<longrightarrow> T < 2 ^ 32 \<longrightarrow> linear_avail p' (b\<lparr>amount := amount b - x\<rparr>) T \<le> linear_avail p b T - x)"
    if x: "0 \<le> x" "x \<le> linear_avail p b now"
  proof (intro exI [of _ p] conjI allI impI)
    have "amount b - x < begin_balance p \<Longrightarrow> linear_open p now"
      using x i' by (auto simp: linear_avail_def linear_inv_def split: if_splits)
    then show "linear_inv lib p (b\<lparr>amount := amount b - x\<rparr>) now"
      using i' x linear_avail_range [OF i'] by (auto simp: linear_inv_def linear_avail_def split: if_splits)
    fix T assume "now \<le> T"
    then show "linear_avail p (b\<lparr>amount := amount b - x\<rparr>) T \<le> linear_avail p b T - x"
      using x by (auto simp: linear_avail_def linear_open_def split: if_splits)
  qed (simp add: linear_on_withdraw_def)
qed

subsection \<open>Coin-seconds vesting keeps the contract\<close>

definition cdd_earned :: "cdd_vesting_policy \<Rightarrow> asset \<Rightarrow> time_sec \<Rightarrow> int" where
  "cdd_earned p b now =
     min (coin_seconds_earned p + amount b * (int now - int (coin_seconds_earned_last_update p)))
         (amount b * vesting_secs p)"

definition cdd_avail :: "cdd_vesting_policy \<Rightarrow> asset \<Rightarrow> time_sec \<Rightarrow> int" where
  "cdd_avail p b now = (if now \<le> start_claim p then 0 else cdd_earned p b now div vesting_secs p)"

definition cdd_inv :: "fc_lib \<Rightarrow> cdd_vesting_policy \<Rightarrow> asset \<Rightarrow> time_sec \<Rightarrow> bool" where
  "cdd_inv lib p b t \<longleftrightarrow> fc_lib_ok lib \<and> balance_ok b \<and> vesting_seconds p < 2 ^ 32
     \<and> 0 \<le> coin_seconds_earned p \<and> coin_seconds_earned p \<le> amount b * vesting_secs p
     \<and> coin_seconds_earned_last_update p \<le> t"

lemma vesting_secs_pos [simp]: "0 < vesting_secs p"
  by (simp add: vesting_secs_def)

lemma vesting_secs_update [simp]:
  "vesting_secs (p\<lparr>coin_seconds_earned := x\<rparr>) = vesting_secs p"
  "vesting_secs (p\<lparr>coin_seconds_earned_last_update := t\<rparr>) = vesting_secs p"
  by (simp_all add: vesting_secs_def)

lemma cdd_earned_compute:
  assumes "cdd_inv lib p b now" "now < 2 ^ 32"
  shows "compute_coin_seconds_earned p (mk_ctx b now a) = cdd_earned p b now"
    "0 \<le> cdd_earned p b now" "cdd_earned p b now \<le> amount b * vesting_secs p" "amount b * vesting_secs p < 2 ^ 127"
proof -
  let ?d = "int now - int (coin_seconds_earned_last_update p)"
  have b: "0 \<le> amount b" "amount b \<le> 10 ^ 15" and e: "0 \<le> coin_seconds_earned p" "coin_seconds_earned p \<le> amount b * vesting_secs p"
    and d: "0 \<le> ?d" "?d < 2 ^ 33" and vs: "0 \<le> vesting_secs p" "vesting_secs p < 2 ^ 33"
    using assms by (auto simp: cdd_inv_def balance_ok_def config_defs vesting_secs_def)
  note m1 = mult_below_u128 [OF b d] and m2 = mult_below_u128 [OF b vs]
  show "amount b * vesting_secs p < 2 ^ 127" by (rule m2(2))
  show "cdd_earned p b now \<le> amount b * vesting_secs p" by (simp add: cdd_earned_def)
  show "0 \<le> cdd_earned p b now" using m1 m2 e by (simp add: cdd_earned_def)
  have "u128 (amount b) = amount b" "u128 ?d = ?d" using b d by (auto intro!: u128_id)
  moreover have "u128 (amount b * ?d) = amount b * ?d" "u128 (amount b * vesting_secs p) = amount b * vesting_secs p"
    using m1 m2 by (auto intro!: u128_id)
  moreover have "u128 (coin_seconds_earned p + amount b * ?d) = coin_seconds_earned p + amount b * ?d"
    using m1 m2 e by (auto intro!: u128_id)
  ultimately show "compute_coin_seconds_earned p (mk_ctx b now a) = cdd_earned p b now"
    by (simp add: compute_coin_seconds_earned_def cdd_earned_def Let_def)
qed

lemma cdd_inv_later: "cdd_inv lib p b t \<Longrightarrow> t \<le> T \<Longrightarrow> cdd_inv lib p b T"
  by (auto simp: cdd_inv_def)

lemma cdd_avail_range:
  assumes "cdd_inv lib p b now" "now < 2 ^ 32"
  shows "0 \<le> cdd_avail p b now \<and> cdd_avail p b now \<le> amount b"
proof -
  note c = cdd_earned_compute [OF assms]
  have "cdd_earned p b now div vesting_secs p \<le> amount b * vesting_secs p div vesting_secs p"
    using c by (intro zdiv_mono1) auto
  moreover have "0 \<le> cdd_earned p b now div vesting_secs p" using c by (simp add: pos_imp_zdiv_nonneg_iff)
  moreover have "0 \<le> amount b" using assms by (simp add: cdd_inv_def balance_ok_def)
  ultimately show ?thesis
    by (simp add: cdd_avail_def order_less_imp_not_eq2)
qed

lemma cdd_allowed:
  assumes "cdd_inv lib p b now" "now < 2 ^ 32"
  shows "cdd_get_allowed_withdraw lib p (mk_ctx b now a) = Inr (mk_asset (cdd_avail p b now) (asset_id b))"
proof (cases "now \<le> start_claim p")
  case False
  have "amount b \<le> 10 ^ 15" "fc_lib_ok lib" using assms by (auto simp: cdd_inv_def balance_ok_def config_defs)
  with cdd_avail_range [OF assms] False
  have "fc_to_share lib (cdd_earned p b now div vesting_secs p) = Inr (cdd_earned p b now div vesting_secs p)"
    by (intro fc_to_share_in_range) (auto simp: cdd_avail_def)
  with False show ?thesis
    by (simp add: cdd_get_allowed_withdraw_def cdd_avail_def cdd_earned_compute(1) [OF assms])
qed (simp add: cdd_get_allowed_withdraw_def cdd_avail_def)

lemma cdd_earned_mono:
  "0 \<le> amount b \<Longrightarrow> s \<le> t \<Longrightarrow> cdd_earned p b s \<le> cdd_earned p b t"
  unfolding cdd_earned_def by (intro min.mono add_left_mono mult_left_mono) auto

lemma cdd_avail_mono:
  assumes "cdd_inv lib p b now" "now \<le> T" "T < 2 ^ 32"
  shows "cdd_avail p b now \<le> cdd_avail p b T"
proof -
  have "cdd_earned p b now div vesting_secs p \<le> cdd_earned p b T div vesting_secs p"
    using assms by (intro zdiv_mono1 cdd_earned_mono) (auto simp: cdd_inv_def balance_ok_def)
  with assms cdd_avail_range [OF cdd_inv_later [OF assms(1,2)] assms(3)] show ?thesis
    by (auto simp: cdd_avail_def)
qed

text \<open>Withdrawing \<open>x\<close> uses up \<open>x\<close> times the vesting period of earned coin-seconds.\<close>

lemma cdd_needed_le_earned:
  assumes "cdd_inv lib p b now" "now < 2 ^ 32" "0 \<le> x" "x \<le> cdd_avail p b now"
  shows "x * vesting_secs p \<le> cdd_earned p b now" "0 \<le> x * vesting_secs p"
proof -
  show nn: "0 \<le> x * vesting_secs p" using assms(3) by (simp add: order_less_imp_le)
  have "x \<le> cdd_earned p b now div vesting_secs p \<or> x = 0" using assms(3,4) by (auto simp: cdd_avail_def split: if_splits)
  then show "x * vesting_secs p \<le> cdd_earned p b now"
  proof
    assume "x \<le> cdd_earned p b now div vesting_secs p"
    then have "x * vesting_secs p \<le> cdd_earned p b now div vesting_secs p * vesting_secs p"
      by (intro mult_right_mono) (auto simp: order_less_imp_le)
    also have "\<dots> \<le> cdd_earned p b now"
      using minus_mod_eq_div_mult [of "cdd_earned p b now" "vesting_secs p"]
        pos_mod_sign [OF vesting_secs_pos, of "cdd_earned p b now" p] by linarith
    finally show ?thesis .
  qed (use cdd_earned_compute [OF assms(1,2)] in simp)
qed

lemma cdd_withdrawn:
  assumes "cdd_inv lib p b now" "now < 2 ^ 32" "0 \<le> x" "x \<le> cdd_avail p b now"
  shows "cdd_on_withdraw p (mk_ctx b now (mk_asset x (asset_id b))) =
    Inr (p\<lparr>coin_seconds_earned := cdd_earned p b now - x * vesting_secs p, coin_seconds_earned_last_update := now\<rparr>)"
proof -
  note c = cdd_earned_compute [OF assms(1,2)] and n = cdd_needed_le_earned [OF assms]
  have "amount b \<le> 10 ^ 15" using assms by (auto simp: cdd_inv_def balance_ok_def config_defs)
  with assms cdd_avail_range [OF assms(1,2)] have "u128 x = x" by (intro u128_id) auto
  moreover have "u128 (x * vesting_secs p) = x * vesting_secs p" using n c by (intro u128_id) auto
  moreover have "u128 (cdd_earned p b now - x * vesting_secs p) = cdd_earned p b now - x * vesting_secs p"
    using n c by (intro u128_id) auto
  ultimately show ?thesis
    by (simp add: cdd_on_withdraw_def update_coin_seconds_earned_def Let_def c(1))
qed

lemma cdd_avail_after:
  assumes "cdd_inv lib p b now" "now \<le> T" "T < 2 ^ 32" "0 \<le> x" "x \<le> cdd_avail p b now"
  shows "cdd_avail (p\<lparr>coin_seconds_earned := cdd_earned p b now - x * vesting_secs p, coin_seconds_earned_last_update := now\<rparr>)
           (b\<lparr>amount := amount b - x\<rparr>) T \<le> cdd_avail p b T - x"
proof (cases "T \<le> start_claim p")
  case True
  with assms show ?thesis by (simp add: cdd_avail_def)
next
  case False
  let ?p = "p\<lparr>coin_seconds_earned := cdd_earned p b now - x * vesting_secs p, coin_seconds_earned_last_update := now\<rparr>"
  let ?b = "b\<lparr>amount := amount b - x\<rparr>" and ?v = "vesting_secs p"
  have "(amount b - x) * (int T - int now) \<le> amount b * (int T - int now)"
    using assms by (intro mult_right_mono) auto
  moreover have "cdd_earned p b now \<le> coin_seconds_earned p + amount b * (int now - int (coin_seconds_earned_last_update p))"
    by (simp add: cdd_earned_def)
  ultimately have "cdd_earned ?p ?b T \<le> cdd_earned p b T - x * ?v"
    by (auto simp: cdd_earned_def algebra_simps)
  then have "cdd_earned ?p ?b T div ?v \<le> (cdd_earned p b T - x * ?v) div ?v"
    by (intro zdiv_mono1) auto
  also have "\<dots> = cdd_earned p b T div ?v - x"
    using vesting_secs_pos [of p] div_mult_self1 [of ?v "cdd_earned p b T" "- x"]
    by (simp add: order_less_imp_not_eq2)
  finally show ?thesis using False by (simp add: cdd_avail_def)
qed

lemma cdd_inv_after:
  assumes "cdd_inv lib p b now" "now < 2 ^ 32" "0 \<le> x" "x \<le> cdd_avail p b now"
  shows "cdd_inv lib (p\<lparr>coin_seconds_earned := cdd_earned p b now - x * vesting_secs p, coin_seconds_earned_last_update := now\<rparr>)
           (b\<lparr>amount := amount b - x\<rparr>) now"
  using assms cdd_earned_compute [OF assms(1,2)] cdd_needed_le_earned [OF assms] cdd_avail_range [OF assms(1,2)]
  by (auto simp: cdd_inv_def balance_ok_def left_diff_distrib)

interpretation cdd: vesting_contract "cdd_inv lib" "cdd_get_allowed_withdraw lib" cdd_on_withdraw cdd_avail
  for lib
proof unfold_locales
  fix p b t now T and x :: int
  assume i: "cdd_inv lib p b t" "t \<le> now"
  then have i': "cdd_inv lib p b now" by (rule cdd_inv_later)
  show "cdd_get_allowed_withdraw lib p (mk_ctx b now a) = Inr (mk_asset (cdd_avail p b now) (asset_id b))"
    if "now < 2 ^ 32" for a by (rule cdd_allowed [OF i' that])
  show "0 \<le> cdd_avail p b now \<and> cdd_avail p b now \<le> amount b" if "now < 2 ^ 32"
    by (rule cdd_avail_range [OF i' that])
  show "cdd_avail p b now \<le> cdd_avail p b T" if "now \<le> T" "T < 2 ^ 32"
    by (rule cdd_avail_mono [OF i' that])
  show "\<exists>p'. cdd_on_withdraw p (mk_ctx b now (mk_asset x (asset_id b))) = Inr p'
         \<and> cdd_inv lib p' (b\<lparr>amount := amount b - x\<rparr>) now
         \<and> (\<forall>T. now \<le> T \<longrightarrow> T < 2 ^ 32 \<longrightarrow> cdd_avail p' (b\<lparr>amount := amount b - x\<rparr>) T \<le> cdd_avail p b T - x)"
    if "now < 2 ^ 32" "0 \<le> x" "x \<le> cdd_avail p b now"
    using cdd_withdrawn [OF i' that] cdd_inv_after [OF i' that] cdd_avail_after [OF i' _ _ that(2,3)] by blast
qed

subsection \<open>Instant vesting and the sum of the policies\<close>

fun policy_inv :: "fc_lib \<Rightarrow> vesting_policy \<Rightarrow> asset \<Rightarrow> time_sec \<Rightarrow> bool" where
  "policy_inv lib (Linear_vesting p) b t = linear_inv lib p b t"
| "policy_inv lib (Cdd_vesting p) b t = cdd_inv lib p b t"
| "policy_inv lib Instant_vesting b t = (fc_lib_ok lib \<and> balance_ok b)"

fun policy_avail :: "vesting_policy \<Rightarrow> asset \<Rightarrow> time_sec \<Rightarrow> int" where
  "policy_avail (Linear_vesting p) b now = linear_avail p b now"
| "policy_avail (Cdd_vesting p) b now = cdd_avail p b now"
| "policy_avail Instant_vesting b now = amount b"

interpretation policy: vesting_contract "policy_inv lib" "get_allowed_withdraw_visitor lib" on_withdraw_visitor policy_avail
  for lib
proof unfold_locales
  fix p b t now T and x :: int
  assume i: "policy_inv lib p b t" "t \<le> now"
  show "get_allowed_withdraw_visitor lib p (mk_ctx b now a) = Inr (mk_asset (policy_avail p b now) (asset_id b))"
    if "now < 2 ^ 32" for a
    using i that by (cases p) (auto simp: linear.allowed_total cdd.allowed_total instant_get_allowed_withdraw_def)
  show "0 \<le> policy_avail p b now \<and> policy_avail p b now \<le> amount b" if "now < 2 ^ 32"
    using i that linear.avail_range cdd.avail_range by (cases p) (auto simp: balance_ok_def)
  show "policy_avail p b now \<le> policy_avail p b T" if "now \<le> T" "T < 2 ^ 32"
    using i that linear.avail_mono cdd.avail_mono by (cases p) auto
  show "\<exists>p'. on_withdraw_visitor p (mk_ctx b now (mk_asset x (asset_id b))) = Inr p'
         \<and> policy_inv lib p' (b\<lparr>amount := amount b - x\<rparr>) now
         \<and> (\<forall>T. now \<le> T \<longrightarrow> T < 2 ^ 32 \<longrightarrow> policy_avail p' (b\<lparr>amount := amount b - x\<rparr>) T \<le> policy_avail p b T - x)"
    if w: "now < 2 ^ 32" "0 \<le> x" "x \<le> policy_avail p b now"
  proof (cases p)
    case (Linear_vesting q)
    with linear.withdraw_ok [of lib q b t now x] i w show ?thesis by fastforce
  next
    case (Cdd_vesting q)
    with cdd.withdraw_ok [of lib q b t now x] i w show ?thesis by fastforce
  next
    case Instant_vesting
    with i w show ?thesis by (auto simp: balance_ok_def)
  qed
qed

lemma is_withdraw_allowed_iff:
  assumes "policy_inv lib p b t" "t \<le> now" "now < 2 ^ 32"
  shows "is_withdraw_allowed_visitor lib p (mk_ctx b now a) = Inr True \<longleftrightarrow>
           asset_id a = asset_id b \<and> amount a \<le> policy_avail p b now"
  using policy.allowed_total [OF assms] assms
  by (cases p) (auto simp: linear_is_withdraw_allowed_def cdd_is_withdraw_allowed_def instant_is_withdraw_allowed_def
      asset_le_def asset_less_def)

text \<open>The vesting part of \<open>vesting_balance_withdraw_evaluator\<close>, run for a sequence of operations.\<close>

definition vbo_withdraw_step :: "fc_lib \<Rightarrow> time_sec \<times> asset \<Rightarrow> vesting_balance_object \<Rightarrow> vesting_balance_object res" where
  "vbo_withdraw_step lib w vbo =
     res_bind (vbo_is_withdraw_allowed lib vbo (fst w) (snd w)) (\<lambda>ok.
       FC_ASSERT ok ''vbo.is_withdraw_allowed( now, op.amount )'' (vbo_withdraw lib vbo (fst w) (snd w)))"

definition vbo_inv :: "fc_lib \<Rightarrow> vesting_balance_object \<Rightarrow> time_sec \<Rightarrow> bool" where
  "vbo_inv lib vbo t \<longleftrightarrow> policy_inv lib (vb_policy vbo) (vb_balance vbo) t"

lemma vbo_withdraw_step_sim:
  assumes "vbo_withdraw_step lib (now, a) vbo = Inr vbo'" "vbo_inv lib vbo t" "t \<le> now" "now < 2 ^ 32" "0 \<le> amount a"
  shows "policy.withdrawals lib ((now, amount a) # ws) (vb_policy vbo) (vb_balance vbo)
       = policy.withdrawals lib ws (vb_policy vbo') (vb_balance vbo')"
    "asset_id (vb_balance vbo') = asset_id (vb_balance vbo)" "asset_id a = asset_id (vb_balance vbo)"
    "vbo_inv lib vbo' now"
proof -
  let ?p = "vb_policy vbo" and ?b = "vb_balance vbo"
  have i: "policy_inv lib ?p ?b t" using assms(2) by (simp add: vbo_inv_def)
  have al: "is_withdraw_allowed_visitor lib ?p (mk_ctx ?b now a) = Inr True"
    using assms(1) by (auto simp: vbo_withdraw_step_def vbo_is_withdraw_allowed_def)
  then show id: "asset_id a = asset_id ?b" using is_withdraw_allowed_iff [OF i assms(3,4)] by simp
  have le: "amount a \<le> policy_avail ?p ?b now" using al is_withdraw_allowed_iff [OF i assms(3,4)] by simp
  obtain p' where p': "on_withdraw_visitor ?p (mk_ctx ?b now (mk_asset (amount a) (asset_id ?b))) = Inr p'"
    "policy_inv lib p' (?b\<lparr>amount := amount ?b - amount a\<rparr>) now"
    using policy.withdraw_ok [OF i assms(3-5) le] by blast
  have a: "a = mk_asset (amount a) (asset_id ?b)" using id by simp
  have "fc_safe lib (amount ?b - amount a) = Inr y \<Longrightarrow> y = amount ?b - amount a" for y
    using i by (intro fc_safe_exact) (cases ?p; auto simp: linear_inv_def cdd_inv_def)
  then have v: "vb_policy vbo' = p' \<and> vb_balance vbo' = ?b\<lparr>amount := amount ?b - amount a\<rparr>"
    using assms(1) p'(1) id
    by (auto simp: vbo_withdraw_step_def vbo_withdraw_def asset_sub_def a [symmetric])
  then show "asset_id (vb_balance vbo') = asset_id ?b" "vbo_inv lib vbo' now" using p' by (auto simp: vbo_inv_def)
  show "policy.withdrawals lib ((now, amount a) # ws) ?p ?b = policy.withdrawals lib ws (vb_policy vbo') (vb_balance vbo')"
    using v p'(1) le policy.allowed_total [OF i assms(3,4)] by simp
qed

lemma vbo_run_sim:
  assumes "res_fold (vbo_withdraw_step lib) ws vbo = Inr vbo'" "vbo_inv lib vbo t" "sorted (map fst ws)"
    "\<forall>w\<in>set ws. t \<le> fst w \<and> fst w < 2 ^ 32 \<and> 0 \<le> amount (snd w)"
  shows "policy.withdrawals lib (map (\<lambda>w. (fst w, amount (snd w))) ws) (vb_policy vbo) (vb_balance vbo)
           = Inr (vb_policy vbo', vb_balance vbo')
     \<and> (\<forall>w\<in>set ws. asset_id (snd w) = asset_id (vb_balance vbo))"
  using assms
proof (induction ws arbitrary: vbo t)
  case (Cons w ws)
  obtain now a where w: "w = (now, a)" by (cases w)
  from Cons.prems(1) obtain v1 where v1: "vbo_withdraw_step lib (now, a) vbo = Inr v1"
    "res_fold (vbo_withdraw_step lib) ws v1 = Inr vbo'" by (auto simp: w)
  have c: "t \<le> now" "now < 2 ^ 32" "0 \<le> amount a" using Cons.prems(4) by (auto simp: w)
  note sim = vbo_withdraw_step_sim [OF v1(1) Cons.prems(2) c]
  have "\<forall>w\<in>set ws. now \<le> fst w \<and> fst w < 2 ^ 32 \<and> 0 \<le> amount (snd w)" using Cons.prems(3,4) by (auto simp: w)
  with Cons.IH [OF v1(2) sim(4)] Cons.prems(3) sim(1,2,3) show ?case by (auto simp: w)
qed simp

subsection \<open>Deposits\<close>

lemma cdd_deposit_inv:
  assumes "cdd_inv lib p b now" "now < 2 ^ 32" "0 \<le> x" "amount b + x \<le> GRAPHENE_MAX_SHARE_SUPPLY"
  shows "cdd_inv lib (update_coin_seconds_earned p (mk_ctx b now a)) (b\<lparr>amount := amount b + x\<rparr>) now"
    "cdd_avail (update_coin_seconds_earned p (mk_ctx b now a)) (b\<lparr>amount := amount b + x\<rparr>) now = cdd_avail p b now"
proof -
  note c = cdd_earned_compute [OF assms(1,2)]
  have le: "amount b * vesting_secs p \<le> (amount b + x) * vesting_secs p"
    using assms(3) by (intro mult_right_mono) (auto simp: order_less_imp_le)
  with c have e: "cdd_earned p b now \<le> (amount b + x) * vesting_secs p" by linarith
  show "cdd_inv lib (update_coin_seconds_earned p (mk_ctx b now a)) (b\<lparr>amount := amount b + x\<rparr>) now"
    using assms e c by (auto simp: cdd_inv_def balance_ok_def update_coin_seconds_earned_def)
  show "cdd_avail (update_coin_seconds_earned p (mk_ctx b now a)) (b\<lparr>amount := amount b + x\<rparr>) now = cdd_avail p b now"
    using e c(1) by (simp add: cdd_avail_def update_coin_seconds_earned_def)
      (simp add: cdd_earned_def)
qed

lemma wrap_int64_id: "- (2 ^ 63) \<le> x \<Longrightarrow> x < 2 ^ 63 \<Longrightarrow> wrap_int64 x = x"
  by (simp add: wrap_int64_def)

lemma cdd_deposit_vested:
  assumes "cdd_inv lib p b now" "now < 2 ^ 32" "0 \<le> x" "amount b + x \<le> GRAPHENE_MAX_SHARE_SUPPLY"
    "x * vesting_secs p < 2 ^ 63"
    "p2 = p\<lparr>coin_seconds_earned := cdd_earned p b now + x * vesting_secs p, coin_seconds_earned_last_update := now\<rparr>"
  shows "cdd_on_deposit_vested p (mk_ctx b now (mk_asset x i)) = Inr p2"
    and "cdd_inv lib p2 (b\<lparr>amount := amount b + x\<rparr>) now"
    and "start_claim p < now \<Longrightarrow> cdd_avail p2 (b\<lparr>amount := amount b + x\<rparr>) now = cdd_avail p b now + x"
proof -
  note c = cdd_earned_compute [OF assms(1,2)]
  have nn: "0 \<le> x * vesting_secs p" using assms(3) by (simp add: order_less_imp_le)
  have e: "cdd_earned p b now + x * vesting_secs p \<le> (amount b + x) * vesting_secs p"
    using c by (simp add: algebra_simps)
  have "wrap_int64 (x * vesting_secs p) = x * vesting_secs p" using nn assms(5) by (intro wrap_int64_id) auto
  moreover have "u128 (x * vesting_secs p) = x * vesting_secs p" using nn assms(5) by (intro u128_id) auto
  moreover have "u128 (cdd_earned p b now + x * vesting_secs p) = cdd_earned p b now + x * vesting_secs p"
    using nn assms(5) c by (intro u128_id) auto
  ultimately show "cdd_on_deposit_vested p (mk_ctx b now (mk_asset x i)) = Inr p2"
    by (simp add: cdd_on_deposit_vested_def cdd_on_deposit_def update_coin_seconds_earned_def c(1) assms(6))
  show "cdd_inv lib p2 (b\<lparr>amount := amount b + x\<rparr>) now"
    using assms(1,3,4) nn e c by (auto simp: cdd_inv_def balance_ok_def assms(6))
  have "(cdd_earned p b now + x * vesting_secs p) div vesting_secs p = x + cdd_earned p b now div vesting_secs p"
    by (rule div_mult_self1) (simp add: order_less_imp_not_eq2)
  then show "start_claim p < now \<Longrightarrow> cdd_avail p2 (b\<lparr>amount := amount b + x\<rparr>) now = cdd_avail p b now + x"
    using e by (simp add: cdd_avail_def assms(6)) (simp add: cdd_earned_def)
qed

subsection \<open>Properties\<close>

text \<open>C23: No sequence of accepted withdrawals takes out more than what a single withdrawal at the end could have taken:
  for every policy, withdrawals at increasing times up to \<open>T\<close>, each passing \<open>is_withdraw_allowed\<close>, add up to
  at most \<open>get_allowed_withdraw(T)\<close> of the initial balance object, and leave a nonnegative balance from which exactly that
  sum is missing.\<close>

theorem vesting_withdrawals_bounded:
  assumes "vbo_inv lib vbo t" "res_fold (vbo_withdraw_step lib) ws vbo = Inr vbo'"
    "sorted (map fst ws)" "\<forall>w\<in>set ws. t \<le> fst w \<and> fst w \<le> T \<and> 0 \<le> amount (snd w)" "t \<le> T" "T < 2 ^ 32"
  shows "\<exists>al. vbo_get_allowed_withdraw lib vbo T = Inr al \<and> (\<Sum>w\<leftarrow>ws. amount (snd w)) \<le> amount al
     \<and> amount al \<le> amount (vb_balance vbo)
     \<and> amount (vb_balance vbo') = amount (vb_balance vbo) - (\<Sum>w\<leftarrow>ws. amount (snd w))
     \<and> 0 \<le> amount (vb_balance vbo')"
proof -
  have i: "policy_inv lib (vb_policy vbo) (vb_balance vbo) t" using assms(1) by (simp add: vbo_inv_def)
  have "\<forall>w\<in>set ws. t \<le> fst w \<and> fst w < 2 ^ 32 \<and> 0 \<le> amount (snd w)" using assms(4,6) by fastforce
  from vbo_run_sim [OF assms(2,1,3) this]
  have run: "policy.withdrawals lib (map (\<lambda>w. (fst w, amount (snd w))) ws) (vb_policy vbo) (vb_balance vbo)
      = Inr (vb_policy vbo', vb_balance vbo')" by blast
  from policy.withdrawals_bounded [OF run i _ _ assms(5,6)] assms(3,4)
  have "(\<Sum>w\<leftarrow>ws. amount (snd w)) \<le> policy_avail (vb_policy vbo) (vb_balance vbo) T
     \<and> amount (vb_balance vbo') = amount (vb_balance vbo) - (\<Sum>w\<leftarrow>ws. amount (snd w)) \<and> 0 \<le> amount (vb_balance vbo')"
    by (simp add: comp_def)
  moreover have "vbo_get_allowed_withdraw lib vbo T = Inr (mk_asset (policy_avail (vb_policy vbo) (vb_balance vbo) T) (asset_id (vb_balance vbo)))"
    by (simp add: vbo_get_allowed_withdraw_def policy.allowed_total [OF i assms(5,6)])
  ultimately show ?thesis using policy.avail_range [OF i assms(5,6)] by auto
qed

definition example_vbo :: vesting_balance_object where
  "example_vbo = \<lparr>vb_owner = 7, vb_balance = mk_asset 1000 0,
     vb_policy = Cdd_vesting \<lparr>vesting_seconds = 100, coin_seconds_earned = 0, start_claim = 0,
                   coin_seconds_earned_last_update = 50\<rparr>, vb_balance_type = Unspecified\<rparr>"

theorem vesting_withdrawals_bounded_witness:
  "\<exists>vbo'. res_fold (vbo_withdraw_step std_lib) [(60, mk_asset 100 0), (70, mk_asset 90 0)] example_vbo = Inr vbo'
     \<and> amount (vb_balance vbo') = 810"
proof -
  let ?ws = "[(60, mk_asset 100 0), (70, mk_asset 90 0)]"
  have "\<exists>vbo'. res_fold (vbo_withdraw_step std_lib) ?ws example_vbo = Inr vbo'"
    by (simp add: example_vbo_def vbo_withdraw_step_def vbo_is_withdraw_allowed_def vbo_withdraw_def cdd_is_withdraw_allowed_def
        cdd_get_allowed_withdraw_def compute_coin_seconds_earned_def Let_def u128_def vesting_secs_def cdd_on_withdraw_def
        update_coin_seconds_earned_def std_lib_def checked_int64_def asset_sub_def asset_le_def asset_less_def)
  then obtain vbo' where r: "res_fold (vbo_withdraw_step std_lib) ?ws example_vbo = Inr vbo'" by blast
  have "vbo_inv std_lib example_vbo 50"
    by (simp add: example_vbo_def vbo_inv_def cdd_inv_def balance_ok_def config_defs vesting_secs_def)
  from vesting_withdrawals_bounded [OF this r, of 70] have "amount (vb_balance vbo') = 810"
    by (auto simp: example_vbo_def)
  with r show ?thesis by blast
qed

text \<open>C40: A balance object made by \<open>vesting_balance_create\<close> is well-formed whatever policy the operation asks for, so the
  bound on withdrawals holds for it: for a positive amount up to the largest supply, 32-bit times and durations, the
  policy built by \<open>init_policy_visitor\<close> satisfies the invariant from the moment of creation.\<close>

fun initializer_ok :: "vesting_policy_initializer \<Rightarrow> bool" where
  "initializer_ok (Linear_init b cliff duration) = (b < 2 ^ 32 \<and> cliff < 2 ^ 32 \<and> duration < 2 ^ 32)"
| "initializer_ok (Cdd_init sc secs) = (sc < 2 ^ 32 \<and> secs < 2 ^ 32)"
| "initializer_ok Instant_init = True"



text \<open>Deposits into a coin-seconds balance vest as promised. After a plain deposit exactly as much may be
  withdrawn at that moment as before it; after a \<open>deposit_vested\<close> the whole new amount may be withdrawn at once, provided
  the product of amount and vesting period fits into 63 bits. Both keep the object well-formed.\<close>

lemma cdd_deposits_vest:
  assumes "vbo_inv lib vbo t" "vb_policy vbo = Cdd_vesting p" "t \<le> now" "now < 2 ^ 32" "start_claim p < now"
    "asset_id a = asset_id (vb_balance vbo)" "0 \<le> amount a" "amount (vb_balance vbo) + amount a \<le> GRAPHENE_MAX_SHARE_SUPPLY"
    "amount a * vesting_secs p < 2 ^ 63"
  shows "\<exists>al v1 v2. vbo_get_allowed_withdraw lib vbo now = Inr al
     \<and> vbo_deposit lib vbo now a = Inr v1 \<and> vbo_inv lib v1 now \<and> vbo_get_allowed_withdraw lib v1 now = Inr al
     \<and> vbo_deposit_vested lib vbo now a = Inr v2 \<and> vbo_inv lib v2 now
     \<and> vbo_get_allowed_withdraw lib v2 now = Inr (mk_asset (amount al + amount a) (asset_id al))"
proof -
  let ?b = "vb_balance vbo" and ?b' = "(vb_balance vbo)\<lparr>amount := amount (vb_balance vbo) + amount a\<rparr>"
  have i: "cdd_inv lib p ?b now" using assms(1-3) by (auto simp: vbo_inv_def intro: cdd_inv_later)
  have a: "mk_ctx ?b now a = mk_ctx ?b now (mk_asset (amount a) (asset_id a))" by simp
  have "fc_safe lib (amount ?b + amount a) = Inr (amount ?b + amount a)"
    using assms(7,8) i by (intro fc_safe_in_range) (auto simp: cdd_inv_def balance_ok_def config_defs)
  then have add: "asset_add (fc_safe lib) ?b a = Inr ?b'"
    using assms(6) by (simp add: asset_add_def)
  define p2 where "p2 = p\<lparr>coin_seconds_earned := cdd_earned p ?b now + amount a * vesting_secs p, coin_seconds_earned_last_update := now\<rparr>"
  note d = cdd_deposit_inv [OF i assms(4,7,8), of a] and dv = cdd_deposit_vested [OF i assms(4,7,8,9) p2_def]
  let ?v1 = "vbo\<lparr>vb_policy := Cdd_vesting (update_coin_seconds_earned p (mk_ctx ?b now a)), vb_balance := ?b'\<rparr>"
  let ?v2 = "vbo\<lparr>vb_policy := Cdd_vesting p2, vb_balance := ?b'\<rparr>"
  have "vbo_deposit lib vbo now a = Inr ?v1"
    using add by (simp add: vbo_deposit_def assms(2) cdd_on_deposit_def)
  moreover have "vbo_deposit_vested lib vbo now a = Inr ?v2"
    using add dv(1) by (simp add: vbo_deposit_vested_def assms(2) a)
  moreover have "vbo_inv lib ?v1 now" "vbo_inv lib ?v2 now" using d(1) dv(2) by (simp_all add: vbo_inv_def)
  moreover have "vbo_get_allowed_withdraw lib vbo now = Inr (mk_asset (cdd_avail p ?b now) (asset_id ?b))"
    "vbo_get_allowed_withdraw lib ?v1 now = Inr (mk_asset (cdd_avail p ?b now) (asset_id ?b))"
    "vbo_get_allowed_withdraw lib ?v2 now = Inr (mk_asset (cdd_avail p ?b now + amount a) (asset_id ?b))"
    using cdd_allowed [OF i assms(4)] cdd_allowed [OF d(1) assms(4)] cdd_allowed [OF dv(2) assms(4)] d(2) dv(3) [OF assms(5)]
    by (simp_all add: vbo_get_allowed_withdraw_def assms(2))
  ultimately show ?thesis by (intro exI [of _ "mk_asset (cdd_avail p ?b now) (asset_id ?b)"] exI [of _ ?v1] exI [of _ ?v2]) simp
qed

text \<open>The 64-bit product of \<open>on_deposit_vested\<close> overflows for large deposits: of 584942417356 units deposited as
  vested with a vesting period of one year, not everything may be withdrawn at once.\<close>

lemma deposit_vested_overflow:
  "\<exists>v. vbo_deposit_vested std_lib \<lparr>vb_owner = 7, vb_balance = mk_asset 0 0,
       vb_policy = Cdd_vesting \<lparr>vesting_seconds = 31536000, coin_seconds_earned = 0, start_claim = 0,
         coin_seconds_earned_last_update = 50\<rparr>, vb_balance_type = Cashback\<rparr> 60 (mk_asset 584942417356 0) = Inr v
     \<and> vbo_get_allowed_withdraw std_lib v 60 \<noteq> Inr (mk_asset 584942417356 0)"
  by (simp add: vbo_deposit_vested_def cdd_on_deposit_vested_def cdd_on_deposit_def update_coin_seconds_earned_def
      compute_coin_seconds_earned_def Let_def u128_def vesting_secs_def wrap_int64_def std_lib_def checked_int64_def asset_add_def
      vbo_get_allowed_withdraw_def cdd_get_allowed_withdraw_def)

text \<open>The hash and the equality predicate of the unique \<open>by_vesting_type\<close> index agree: objects the index takes for
  equal hash equally, for any hash of identifiers, if objects with the same identifier are the same object. Two distinct
  objects clash exactly when both are market-fee-sharing balances of one owner in one asset.\<close>

lemma vesting_index_hash_consistent:
  assumes "fst l = fst r \<longrightarrow> l = r" "vesting_balance_object_equal l r"
  shows "vesting_balance_object_hash h l = vesting_balance_object_hash h r
     \<and> (l \<noteq> r \<longrightarrow> vb_balance_type (snd l) = Market_fee_sharing \<and> vb_balance_type (snd r) = Market_fee_sharing
          \<and> vb_owner (snd l) = vb_owner (snd r) \<and> asset_id (vb_balance (snd l)) = asset_id (vb_balance (snd r)))"
  using assms by (auto simp: vesting_balance_object_equal_def vesting_balance_object_hash_def split: if_splits)

end
