(* ===== verification/Governance.thy ===== *)
theory Governance
  imports Vesting "HOL-Library.Char_ord"
begin

text \<open>
  The data of accounts and of the elected positions in \<open>libraries/protocol\<close>: authorities, account names, votes and account
  options (\<open>account.hpp\<close>, \<open>vote.hpp\<close>, \<open>authority.hpp\<close>), the fee parameters and the chain parameters that the committee
  sets (\<open>fee_schedule.hpp\<close>, \<open>chain_parameters.hpp\<close>), and the operations on accounts, witnesses, committee members,
  workers and assertions with their stateless checks \<open>validate()\<close>.

  A public key is a number; sets and maps that the source keeps sorted are lists.
\<close>

subsection \<open>Authorities\<close>

datatype special_authority = No_special_authority | Top_holders_special_authority asset_id nat

record authority =
  weight_threshold :: nat
  account_auths :: "(account_id \<times> nat) list"
  key_auths :: "(nat \<times> nat) list"
  address_auths :: "(nat \<times> nat) list"

definition num_auths :: "authority \<Rightarrow> nat" where
  "num_auths auth = length (account_auths auth) + length (key_auths auth) + length (address_auths auth)"

definition is_impossible :: "authority \<Rightarrow> bool" where
  "is_impossible auth \<longleftrightarrow>
     sum_list (map snd (account_auths auth)) + sum_list (map snd (key_auths auth)) + sum_list (map snd (address_auths auth)) < weight_threshold auth"

definition null_authority :: authority where
  "null_authority = \<lparr>weight_threshold = 1, account_auths = [(GRAPHENE_NULL_ACCOUNT, 1)], key_auths = [], address_auths = []\<rparr>"

definition empty_authority :: authority where
  "empty_authority = \<lparr>weight_threshold = 0, account_auths = [], key_auths = [], address_auths = []\<rparr>"

text \<open>\<open>add_authority\<close> for an account: \<open>account_auths[k] = w\<close> on a sorted map.\<close>

definition add_account_auth :: "account_id \<Rightarrow> nat \<Rightarrow> authority \<Rightarrow> authority" where
  "add_account_auth a w auth = auth\<lparr>account_auths := insort_key fst (a, w) (filter (\<lambda>p. fst p \<noteq> a) (account_auths auth))\<rparr>"

definition validate_special_authority :: "special_authority \<Rightarrow> unit res" where
  "validate_special_authority sa =
     (case sa of No_special_authority \<Rightarrow> Inr ()
      | Top_holders_special_authority _ n \<Rightarrow> FC_ASSERT (n > 0) ''num_top_holders > 0'' (Inr ()))"

subsection \<open>Account names\<close>

definition is_upper :: "char \<Rightarrow> bool" where "is_upper c \<longleftrightarrow> CHR ''A'' \<le> c \<and> c \<le> CHR ''Z''"
definition is_lower :: "char \<Rightarrow> bool" where "is_lower c \<longleftrightarrow> CHR ''a'' \<le> c \<and> c \<le> CHR ''z''"
definition is_digit :: "char \<Rightarrow> bool" where "is_digit c \<longleftrightarrow> CHR ''0'' \<le> c \<and> c \<le> CHR ''9''"
definition is_alpha :: "char \<Rightarrow> bool" where "is_alpha c \<longleftrightarrow> is_upper c \<or> is_lower c"
definition is_alnum :: "char \<Rightarrow> bool" where "is_alnum c \<longleftrightarrow> is_alpha c \<or> is_digit c"

text \<open>One label of a name: the loop body of \<open>is_valid_name\<close> between \<open>begin\<close> and \<open>end\<close>.\<close>

definition valid_label :: "string \<Rightarrow> bool" where
  "valid_label l \<longleftrightarrow> length l \<ge> GRAPHENE_MIN_ACCOUNT_NAME_LENGTH \<and> is_lower (hd l) \<and> (is_lower (last l) \<or> is_digit (last l))
     \<and> (\<forall>c\<in>set (butlast (tl l)). is_lower c \<or> is_digit c \<or> c = CHR ''-'')"

lemma tl_dropWhile_shorter: "dropWhile P s \<noteq> [] \<Longrightarrow> length (tl (dropWhile P s)) < length s"
proof -
  assume "dropWhile P s \<noteq> []"
  then have "length (tl (dropWhile P s)) < length (dropWhile P s)" by simp
  also have "\<dots> \<le> length s" by (rule length_dropWhile_le)
  finally show ?thesis .
qed

function valid_labels :: "string \<Rightarrow> bool" where
  "valid_labels s =
     (let label = takeWhile (\<lambda>c. c \<noteq> CHR ''.'') s; rest = dropWhile (\<lambda>c. c \<noteq> CHR ''.'') s in
      if \<not> valid_label label then False else if rest = [] then True else valid_labels (tl rest))"
  by pat_completeness auto

termination
  by (relation "measure length") (simp, simp only: in_measure, rule tl_dropWhile_shorter, assumption)

declare valid_labels.simps [simp del]

definition is_valid_name :: "string \<Rightarrow> bool" where
  "is_valid_name name =
     (if length name < GRAPHENE_MIN_ACCOUNT_NAME_LENGTH then False
      else if length name > GRAPHENE_MAX_ACCOUNT_NAME_LENGTH then False
      else valid_labels name)"

text \<open>A name with a digit, a dot, a hyphen or a slash is cheap, and so is a name without a vowel.\<close>

fun cheap_loop :: "bool \<Rightarrow> string \<Rightarrow> bool" where
  "cheap_loop v [] = (\<not> v)"
| "cheap_loop v (c # cs) =
     (if is_digit c then True
      else if c = CHR ''.'' \<or> c = CHR ''-'' \<or> c = CHR ''/'' then True
      else cheap_loop (v \<or> c \<in> set ''aeiouy'') cs)"

definition is_cheap_name :: "string \<Rightarrow> bool" where
  "is_cheap_name n = cheap_loop False n"

subsection \<open>Fee parameters and chain parameters\<close>

datatype fee_parameters =
    Fee int
  | Fee_per_kbyte int nat
  | Symbol_fees int int int nat
  | Fee_per_unit int int
  | Account_fees int int nat
  | Membership_fees int int
  | No_fee_parameters

text \<open>The member \<open>fee\<close> of a parameter structure.\<close>

fun param_fee :: "fee_parameters \<Rightarrow> int" where
  "param_fee (Fee f) = f"
| "param_fee (Fee_per_kbyte f _) = f"
| "param_fee (Symbol_fees _ _ l _) = l"
| "param_fee (Fee_per_unit f _) = f"
| "param_fee (Account_fees f _ _) = f"
| "param_fee (Membership_fees f _) = f"
| "param_fee No_fee_parameters = 0"

record fee_schedule =
  fee_scale :: int
  fee_params :: "(nat \<times> fee_parameters) list"

record chain_parameters =
  current_fees :: fee_schedule
  block_interval :: nat
  maintenance_interval :: nat
  maintenance_skip_slots :: nat
  committee_proposal_review_period :: nat
  maximum_transaction_size :: nat
  maximum_block_size :: nat
  maximum_time_until_expiration :: nat
  maximum_proposal_lifetime :: nat
  maximum_asset_whitelist_authorities :: nat
  maximum_asset_feed_publishers :: nat
  maximum_witness_count :: nat
  maximum_committee_count :: nat
  maximum_authority_membership :: nat
  reserve_percent_of_fee :: nat
  network_percent_of_fee :: nat
  lifetime_referrer_percent_of_fee :: nat
  cashback_vesting_period_seconds :: nat
  cashback_vesting_threshold :: int
  count_non_member_votes :: bool
  allow_non_member_whitelists :: bool
  witness_pay_per_block :: int
  witness_pay_vesting_seconds :: nat
  worker_budget_per_day :: int
  max_predicate_opcode :: nat
  accounts_per_fee_scale :: nat
  account_fee_scale_bitshifts :: nat
  max_authority_depth :: nat
  updatable_htlc_options :: "(nat \<times> nat) option"

text \<open>\<open>chain_parameters::validate\<close>. The review period is subtracted from the proposal lifetime in 32 bits.\<close>

definition chain_parameters_validate :: "chain_parameters \<Rightarrow> unit res" where
  "chain_parameters_validate p =
     FC_ASSERT (int (reserve_percent_of_fee p) \<le> GRAPHENE_100_PERCENT) ''reserve_percent_of_fee''
    (FC_ASSERT (int (network_percent_of_fee p) \<le> GRAPHENE_100_PERCENT) ''network_percent_of_fee''
    (FC_ASSERT (int (lifetime_referrer_percent_of_fee p) \<le> GRAPHENE_100_PERCENT) ''lifetime_referrer_percent_of_fee''
    (FC_ASSERT (int (network_percent_of_fee p + lifetime_referrer_percent_of_fee p) \<le> GRAPHENE_100_PERCENT) ''network_percent_of_fee + lifetime_referrer_percent_of_fee''
    (FC_ASSERT (block_interval p \<ge> GRAPHENE_MIN_BLOCK_INTERVAL) ''block_interval >= GRAPHENE_MIN_BLOCK_INTERVAL''
    (FC_ASSERT (block_interval p \<le> GRAPHENE_MAX_BLOCK_INTERVAL) ''block_interval <= GRAPHENE_MAX_BLOCK_INTERVAL''
    (FC_ASSERT (block_interval p > 0) ''block_interval > 0''
    (FC_ASSERT (maintenance_interval p > block_interval p) ''Maintenance interval must be longer than block interval''
    (FC_ASSERT (maintenance_interval p mod block_interval p = 0) ''Maintenance interval must be a multiple of block interval''
    (FC_ASSERT (maximum_transaction_size p \<ge> GRAPHENE_MIN_TRANSACTION_SIZE_LIMIT) ''Transaction size limit is too low''
    (FC_ASSERT (maximum_block_size p \<ge> GRAPHENE_MIN_BLOCK_SIZE_LIMIT) ''Block size limit is too low''
    (FC_ASSERT (maximum_time_until_expiration p > block_interval p) ''Maximum transaction expiration time must be greater than a block interval''
    (FC_ASSERT ((int (maximum_proposal_lifetime p) - int (committee_proposal_review_period p)) mod 2 ^ 32 > int (block_interval p))
       ''Committee proposal review period must be less than the maximum proposal lifetime''
    (Inr ())))))))))))))"

subsection \<open>Votes and account options\<close>

text \<open>The type of a vote is in the lower 8 bits of its identifier, the instance in the upper 24. Identifiers convert to
  their instance, so that they are ordered and looked up by instance.\<close>

type_synonym vote_id = nat

definition vote_committee :: nat where "vote_committee = 0"
definition vote_witness :: nat where "vote_witness = 1"
definition vote_worker :: nat where "vote_worker = 2"

definition make_vote_id :: "nat \<Rightarrow> nat \<Rightarrow> vote_id" where
  "make_vote_id ty inst = (inst * 256 + ty) mod 2 ^ 32"

definition vote_type :: "vote_id \<Rightarrow> nat" where
  "vote_type v = v mod 256"

definition vote_instance :: "vote_id \<Rightarrow> nat" where
  "vote_instance v = v div 256"

lemma vote_id_parts:
  assumes "ty < 256" "inst < 2 ^ 24"
  shows "vote_type (make_vote_id ty inst) = ty" "vote_instance (make_vote_id ty inst) = inst"
proof -
  have "inst * 256 + ty < 2 ^ 32" using assms by simp
  then have "make_vote_id ty inst = inst * 256 + ty" by (simp add: make_vote_id_def)
  then show "vote_type (make_vote_id ty inst) = ty" "vote_instance (make_vote_id ty inst) = inst"
    using assms(1) by (simp_all add: vote_type_def vote_instance_def)
qed

record account_options =
  memo_key :: nat
  voting_account :: account_id
  num_witness :: nat
  num_committee :: nat
  votes :: "vote_id list"

definition opts_is_voting :: "account_options \<Rightarrow> bool" where
  "opts_is_voting opts \<longleftrightarrow> voting_account opts \<noteq> GRAPHENE_PROXY_TO_SELF_ACCOUNT \<or> votes opts \<noteq> []"

text \<open>The loop counts the needed witnesses and committee members down.\<close>

fun count_votes :: "vote_id list \<Rightarrow> nat \<Rightarrow> nat \<Rightarrow> nat \<times> nat" where
  "count_votes [] needed_witnesses needed_committee = (needed_witnesses, needed_committee)"
| "count_votes (v # vs) needed_witnesses needed_committee =
     (if vote_type v = vote_witness \<and> needed_witnesses > 0 then count_votes vs (needed_witnesses - 1) needed_committee
      else if vote_type v = vote_committee \<and> needed_committee > 0 then count_votes vs needed_witnesses (needed_committee - 1)
      else count_votes vs needed_witnesses needed_committee)"

definition account_options_validate :: "account_options \<Rightarrow> unit res" where
  "account_options_validate opts =
     FC_ASSERT (count_votes (votes opts) (num_witness opts) (num_committee opts) = (0, 0))
       ''May not specify fewer witnesses or committee members than the number voted for.'' (Inr ())"

subsection \<open>Operations on accounts\<close>

record buyback_account_options =
  asset_to_buy :: asset_id
  asset_to_buy_issuer :: account_id
  buyback_markets :: "asset_id list"

record account_create_operation =
  cr_fee :: asset
  cr_registrar :: account_id
  cr_referrer :: account_id
  cr_referrer_percent :: nat
  cr_name :: string
  cr_owner :: authority
  cr_active :: authority
  cr_options :: account_options
  cr_owner_special_authority :: "special_authority option"
  cr_active_special_authority :: "special_authority option"
  cr_buyback_options :: "buyback_account_options option"

record account_update_operation =
  ud_fee :: asset
  ud_account :: account_id
  ud_owner :: "authority option"
  ud_active :: "authority option"
  ud_new_options :: "account_options option"
  ud_owner_special_authority :: "special_authority option"
  ud_active_special_authority :: "special_authority option"

definition is_owner_update :: "account_update_operation \<Rightarrow> bool" where
  "is_owner_update x \<longleftrightarrow> ud_owner x \<noteq> None \<or> ud_owner_special_authority x \<noteq> None"

record account_whitelist_operation =
  wl_fee :: asset
  authorizing_account :: account_id
  account_to_list :: account_id
  new_listing :: nat

record account_upgrade_operation =
  ug_fee :: asset
  account_to_upgrade :: account_id
  upgrade_to_lifetime_member :: bool

definition valid_auth :: "string \<Rightarrow> authority \<Rightarrow> unit res" where
  "valid_auth msg auth =
     FC_ASSERT (num_auths auth \<noteq> 0) ''num_auths() != 0''
    (FC_ASSERT (address_auths auth = []) ''address_auths.size() == 0''
    (FC_ASSERT (\<not> is_impossible auth) msg (Inr ())))"

definition if_given :: "('a \<Rightarrow> unit res) \<Rightarrow> 'a option \<Rightarrow> unit res" where
  "if_given f x = (case x of None \<Rightarrow> Inr () | Some y \<Rightarrow> f y)"

definition account_create_validate :: "account_create_operation \<Rightarrow> unit res" where
  "account_create_validate x =
     FC_ASSERT (amount (cr_fee x) \<ge> 0) ''fee.amount >= 0''
    (FC_ASSERT (is_valid_name (cr_name x)) ''is_valid_name( name )''
    (FC_ASSERT (int (cr_referrer_percent x) \<le> GRAPHENE_100_PERCENT) ''referrer_percent <= GRAPHENE_100_PERCENT''
    (FC_ASSERT (num_auths (cr_owner x) \<noteq> 0) ''owner.num_auths() != 0''
    (FC_ASSERT (address_auths (cr_owner x) = []) ''owner.address_auths.size() == 0''
    (FC_ASSERT (num_auths (cr_active x) \<noteq> 0) ''active.num_auths() != 0''
    (FC_ASSERT (address_auths (cr_active x) = []) ''active.address_auths.size() == 0''
    (FC_ASSERT (\<not> is_impossible (cr_owner x)) ''cannot create an account with an imposible owner authority threshold''
    (FC_ASSERT (\<not> is_impossible (cr_active x)) ''cannot create an account with an imposible active authority threshold''
    (res_bind (account_options_validate (cr_options x)) (\<lambda>_.
     res_bind (if_given validate_special_authority (cr_owner_special_authority x)) (\<lambda>_.
     res_bind (if_given validate_special_authority (cr_active_special_authority x)) (\<lambda>_.
     if_given (\<lambda>bbo.
       FC_ASSERT (cr_owner_special_authority x = None) ''!owner_special_authority.valid()''
      (FC_ASSERT (cr_active_special_authority x = None) ''!active_special_authority.valid()''
      (FC_ASSERT (cr_owner x = null_authority) ''owner == authority::null_authority()''
      (FC_ASSERT (cr_active x = null_authority) ''active == authority::null_authority()''
      (FC_ASSERT (length (buyback_markets bbo) > 0) ''n_markets > 0''
      (FC_ASSERT (\<forall>m\<in>set (buyback_markets bbo). m \<noteq> asset_to_buy bbo) ''m != asset_to_buy'' (Inr ()))))))) (cr_buyback_options x)))))))))))))"

definition account_update_validate :: "account_update_operation \<Rightarrow> unit res" where
  "account_update_validate x =
     FC_ASSERT (ud_account x \<noteq> GRAPHENE_TEMP_ACCOUNT) ''account != GRAPHENE_TEMP_ACCOUNT''
    (FC_ASSERT (amount (ud_fee x) \<ge> 0) ''fee.amount >= 0''
    (FC_ASSERT (ud_account x \<noteq> 0) ''account != account_id_type()''
    (FC_ASSERT (ud_owner x \<noteq> None \<or> ud_active x \<noteq> None \<or> ud_new_options x \<noteq> None \<or> ud_owner_special_authority x \<noteq> None
        \<or> ud_active_special_authority x \<noteq> None) ''has_action''
    (res_bind (if_given (valid_auth ''cannot update an account with an imposible owner authority threshold'') (ud_owner x)) (\<lambda>_.
     res_bind (if_given (valid_auth ''cannot update an account with an imposible active authority threshold'') (ud_active x)) (\<lambda>_.
     res_bind (if_given account_options_validate (ud_new_options x)) (\<lambda>_.
     res_bind (if_given validate_special_authority (ud_owner_special_authority x)) (\<lambda>_.
     if_given validate_special_authority (ud_active_special_authority x)))))))))"

definition account_whitelist_validate :: "account_whitelist_operation \<Rightarrow> unit res" where
  "account_whitelist_validate x =
     FC_ASSERT (amount (wl_fee x) \<ge> 0) ''fee.amount >= 0'' (FC_ASSERT (new_listing x < 4) ''new_listing < 0x4'' (Inr ()))"

definition account_upgrade_validate :: "account_upgrade_operation \<Rightarrow> unit res" where
  "account_upgrade_validate x = FC_ASSERT (amount (ug_fee x) \<ge> 0) ''fee.amount >= 0'' (Inr ())"

subsection \<open>Operations on elected positions\<close>

record committee_member_create_operation =
  mc_fee :: asset
  mc_committee_member_account :: account_id
  mc_url :: string

record committee_member_update_operation =
  mu_fee :: asset
  mu_committee_member :: obj_id
  mu_committee_member_account :: account_id
  mu_new_url :: "string option"

record committee_member_update_global_parameters_operation =
  mp_fee :: asset
  new_parameters :: chain_parameters

record witness_create_operation =
  nc_fee :: asset
  nc_witness_account :: account_id
  nc_url :: string
  block_signing_key :: nat

record witness_update_operation =
  nu_fee :: asset
  nu_witness :: obj_id
  nu_witness_account :: account_id
  nu_new_url :: "string option"
  new_signing_key :: "nat option"

datatype worker_initializer = Refund_worker_initializer | Vesting_balance_worker_initializer nat | Burn_worker_initializer

record worker_create_operation =
  kc_fee :: asset
  kc_owner :: account_id
  kc_work_begin_date :: time_sec
  kc_work_end_date :: time_sec
  kc_daily_pay :: int
  kc_name :: string
  kc_url :: string
  kc_initializer :: worker_initializer

definition valid_url :: "string \<Rightarrow> unit res" where
  "valid_url u = FC_ASSERT (length u < GRAPHENE_MAX_URL_LENGTH) ''url.size() < GRAPHENE_MAX_URL_LENGTH'' (Inr ())"

definition committee_member_create_validate :: "committee_member_create_operation \<Rightarrow> unit res" where
  "committee_member_create_validate x = FC_ASSERT (amount (mc_fee x) \<ge> 0) ''fee.amount >= 0'' (valid_url (mc_url x))"

definition committee_member_update_validate :: "committee_member_update_operation \<Rightarrow> unit res" where
  "committee_member_update_validate x = FC_ASSERT (amount (mu_fee x) \<ge> 0) ''fee.amount >= 0'' (if_given valid_url (mu_new_url x))"

definition global_parameters_validate :: "committee_member_update_global_parameters_operation \<Rightarrow> unit res" where
  "global_parameters_validate x = FC_ASSERT (amount (mp_fee x) \<ge> 0) ''fee.amount >= 0'' (chain_parameters_validate (new_parameters x))"

definition witness_create_validate :: "witness_create_operation \<Rightarrow> unit res" where
  "witness_create_validate x = FC_ASSERT (amount (nc_fee x) \<ge> 0) ''fee.amount >= 0'' (valid_url (nc_url x))"

definition witness_update_validate :: "witness_update_operation \<Rightarrow> unit res" where
  "witness_update_validate x = FC_ASSERT (amount (nu_fee x) \<ge> 0) ''fee.amount >= 0'' (if_given valid_url (nu_new_url x))"

definition worker_create_validate :: "worker_create_operation \<Rightarrow> unit res" where
  "worker_create_validate x =
     FC_ASSERT (amount (kc_fee x) \<ge> 0) ''fee.amount >= 0''
    (FC_ASSERT (kc_work_end_date x > kc_work_begin_date x) ''work_end_date > work_begin_date''
    (FC_ASSERT (kc_daily_pay x > 0) ''daily_pay > 0''
    (FC_ASSERT (kc_daily_pay x < GRAPHENE_MAX_SHARE_SUPPLY) ''daily_pay < GRAPHENE_MAX_SHARE_SUPPLY''
    (FC_ASSERT (length (kc_name x) < GRAPHENE_MAX_WORKER_NAME_LENGTH) ''name.size() < GRAPHENE_MAX_WORKER_NAME_LENGTH''
    (valid_url (kc_url x))))))"

subsection \<open>Assertions and custom operations\<close>

datatype predicate = Account_name_eq_lit account_id string | Asset_symbol_eq_lit asset_id string | Block_id_predicate "nat \<times> nat"

record assert_operation =
  xa_fee :: asset
  xa_fee_paying_account :: account_id
  predicates :: "predicate list"
  xa_required_auths :: "account_id list"

record custom_operation =
  xc_fee :: asset
  xc_payer :: account_id
  xc_required_auths :: "account_id list"
  custom_id :: nat
  custom_data :: "nat list"

text \<open>The loop over the predicates calls \<open>validate()\<close> of each and drops the result.\<close>

definition assert_validate :: "assert_operation \<Rightarrow> unit res" where
  "assert_validate x = FC_ASSERT (amount (xa_fee x) \<ge> 0) ''fee.amount >= 0'' (Inr ())"

definition custom_validate :: "custom_operation \<Rightarrow> unit res" where
  "custom_validate x = FC_ASSERT (amount (xc_fee x) > 0) ''fee.amount > 0'' (Inr ())"

end
