(* ===== verification/Operations.thy ===== *)
theory Operations
  imports Governance
begin

text \<open>
  The operations of \<open>libraries/protocol\<close> that the modelled evaluators execute: their structures
  (\<open>protocol/include/graphene/protocol/*.hpp\<close>), who pays their fee, their stateless checks \<open>validate()\<close> and the
  fees they ask for (\<open>protocol/*.cpp\<close>), and the variant \<open>operation\<close>.

  Memos, descriptions and empty extension fields are left out: they are opaque data whose only effect is their packed size
  in the fee, which is an argument of the fee functions. A public key and an address are numbers.
  The operations on accounts and elected positions are in \<open>Governance\<close>.
\<close>

subsection \<open>Asset options\<close>

record asset_options =
  max_supply :: int
  market_fee_percent :: nat
  max_market_fee :: int
  issuer_permissions :: nat
  flags :: nat
  core_exchange_rate :: price
  whitelist_authorities :: "account_id list"
  blacklist_authorities :: "account_id list"
  whitelist_markets :: "asset_id list"
  blacklist_markets :: "asset_id list"
  reward_percent :: "nat option"
  whitelist_market_fee_sharing :: "account_id list option"

record bitasset_options =
  feed_lifetime_sec :: nat
  minimum_feeds :: nat
  force_settlement_delay_sec :: nat
  force_settlement_offset_percent :: nat
  maximum_force_settlement_volume :: nat
  short_backing_asset :: asset_id

text \<open>The permission flags of \<open>types.hpp\<close>; \<open>has_flag\<close> is the test \<open>flags & f\<close>, \<open>outside\<close> the test \<open>flags & ~mask\<close>.\<close>

definition charge_market_fee :: nat where "charge_market_fee = 0x01"
definition white_list :: nat where "white_list = 0x02"
definition override_authority :: nat where "override_authority = 0x04"
definition transfer_restricted :: nat where "transfer_restricted = 0x08"
definition disable_force_settle :: nat where "disable_force_settle = 0x10"
definition global_settle :: nat where "global_settle = 0x20"
definition disable_confidential :: nat where "disable_confidential = 0x40"
definition witness_fed_asset :: nat where "witness_fed_asset = 0x80"
definition committee_fed_asset :: nat where "committee_fed_asset = 0x100"

definition ASSET_ISSUER_PERMISSION_MASK :: nat where "ASSET_ISSUER_PERMISSION_MASK = 0x1ff"

lemmas flag_defs = charge_market_fee_def white_list_def override_authority_def transfer_restricted_def disable_force_settle_def
  global_settle_def disable_confidential_def witness_fed_asset_def committee_fed_asset_def

definition has_flag :: "nat \<Rightarrow> nat \<Rightarrow> bool" where
  "has_flag fs f \<longleftrightarrow> and fs f \<noteq> 0"

definition outside :: "nat \<Rightarrow> nat \<Rightarrow> bool" where
  "outside fs m \<longleftrightarrow> and fs m \<noteq> fs"

definition asset_options_validate :: "asset_options \<Rightarrow> unit res" where
  "asset_options_validate opts =
     FC_ASSERT (max_supply opts > 0) ''max_supply > 0''
    (FC_ASSERT (max_supply opts \<le> GRAPHENE_MAX_SHARE_SUPPLY) ''max_supply <= GRAPHENE_MAX_SHARE_SUPPLY''
    (FC_ASSERT (int (market_fee_percent opts) \<le> GRAPHENE_100_PERCENT) ''market_fee_percent <= GRAPHENE_100_PERCENT''
    (FC_ASSERT (max_market_fee opts \<ge> 0 \<and> max_market_fee opts \<le> GRAPHENE_MAX_SHARE_SUPPLY) ''max_market_fee''
    (FC_ASSERT (\<not> outside (issuer_permissions opts) ASSET_ISSUER_PERMISSION_MASK) ''issuer_permissions''
    (FC_ASSERT (\<not> has_flag (flags opts) global_settle) ''!(flags & global_settle)''
    (FC_ASSERT (and (flags opts) (or witness_fed_asset committee_fed_asset) \<noteq> or witness_fed_asset committee_fed_asset) ''fed by witnesses and committee''
    (res_bind (price_validate (core_exchange_rate opts)) (\<lambda>_.
     FC_ASSERT (asset_id (base (core_exchange_rate opts)) = 0 \<or> asset_id (quote (core_exchange_rate opts)) = 0) ''core_exchange_rate''
    (FC_ASSERT (whitelist_authorities opts = [] \<and> blacklist_authorities opts = [] \<or> has_flag (flags opts) white_list) ''flags & white_list''
    (FC_ASSERT (\<forall>m\<in>set (whitelist_markets opts). m \<notin> set (blacklist_markets opts)) ''blacklist_markets.find(item)''
    (FC_ASSERT (\<forall>m\<in>set (blacklist_markets opts). m \<notin> set (whitelist_markets opts)) ''whitelist_markets.find(item)''
    (FC_ASSERT (case reward_percent opts of None \<Rightarrow> True | Some r \<Rightarrow> int r < GRAPHENE_100_PERCENT) ''reward_percent < GRAPHENE_100_PERCENT''
    (Inr ())))))))))))))"

definition bitasset_options_validate :: "bitasset_options \<Rightarrow> unit res" where
  "bitasset_options_validate opts =
     FC_ASSERT (minimum_feeds opts > 0) ''minimum_feeds > 0''
    (FC_ASSERT (int (force_settlement_offset_percent opts) \<le> GRAPHENE_100_PERCENT) ''force_settlement_offset_percent''
    (FC_ASSERT (int (maximum_force_settlement_volume opts) \<le> GRAPHENE_100_PERCENT) ''maximum_force_settlement_volume''
    (Inr ())))"

subsection \<open>Asset symbols\<close>

text \<open>The loop over the characters, with the flag \<open>dot_already_present\<close>.\<close>

fun symbol_loop :: "bool \<Rightarrow> string \<Rightarrow> bool" where
  "symbol_loop dot [] = True"
| "symbol_loop dot (c # cs) =
     (if is_alpha c \<and> is_upper c \<or> is_digit c then symbol_loop dot cs
      else if c = CHR ''.'' then (if dot then False else symbol_loop True cs)
      else False)"

definition is_valid_symbol :: "string \<Rightarrow> bool" where
  "is_valid_symbol s =
     (if length s < GRAPHENE_MIN_ASSET_SYMBOL_LENGTH then False
      else if take 3 s = ''BIT'' then False
      else if length s > GRAPHENE_MAX_ASSET_SYMBOL_LENGTH then False
      else if \<not> is_alpha (hd s) then False
      else if \<not> is_alnum (last s) then False
      else symbol_loop False s)"

subsection \<open>Fees of operations\<close>

definition calculate_data_fee :: "fc_lib \<Rightarrow> nat \<Rightarrow> nat \<Rightarrow> int res" where
  "calculate_data_fee lib bytes price_per_kbyte =
     (let result = u128 (int bytes * int price_per_kbyte) div 1024 in
      FC_ASSERT (result \<le> GRAPHENE_MAX_SHARE_SUPPLY) ''result <= GRAPHENE_MAX_SHARE_SUPPLY'' (fc_to_share lib result))"

text \<open>The fee of \<open>transfer\<close>, \<open>override_transfer\<close> and \<open>withdraw_permission_claim\<close>; \<open>memo_size\<close> is the packed size of the memo, if there is one.\<close>

definition memo_fee :: "fc_lib \<Rightarrow> int \<Rightarrow> nat \<Rightarrow> nat option \<Rightarrow> int res" where
  "memo_fee lib fee price_per_kbyte memo_size =
     (case memo_size of None \<Rightarrow> Inr fee
      | Some n \<Rightarrow> res_bind (calculate_data_fee lib n price_per_kbyte) (\<lambda>d. fc_safe lib (fee + d)))"

definition asset_create_calculate_fee :: "fc_lib \<Rightarrow> int \<Rightarrow> int \<Rightarrow> int \<Rightarrow> nat \<Rightarrow> string \<Rightarrow> nat \<Rightarrow> int res" where
  "asset_create_calculate_fee lib symbol3 symbol4 long_symbol price_per_kbyte symbol packed_size =
     (let required = (if length symbol = 3 then symbol3 else if length symbol = 4 then symbol4 else long_symbol) in
      res_bind (calculate_data_fee lib packed_size price_per_kbyte) (\<lambda>d. Inr ((required + d) mod 2 ^ 64)))"

text \<open>Fees per day and per kilobyte of a hash time locked contract; the products are 64 bits wide and checked for overflow.\<close>

definition per_unit_fee :: "int \<Rightarrow> int \<Rightarrow> int \<Rightarrow> int res" where
  "per_unit_fee fee per_unit units =
     (let product = per_unit * units mod 2 ^ 64 in
      FC_ASSERT (units = 0 \<or> product div units = per_unit) ''Fee calculation overflow'' (Inr ((fee + product) mod 2 ^ 64)))"

text \<open>\<open>asset_issue\<close> and \<open>asset_update\<close> always pay for the packed size, in unchecked 64-bit arithmetic.\<close>

definition sized_fee :: "fc_lib \<Rightarrow> int \<Rightarrow> nat \<Rightarrow> nat \<Rightarrow> int res" where
  "sized_fee lib fee price_per_kbyte packed_size =
     res_bind (calculate_data_fee lib packed_size price_per_kbyte) (\<lambda>d. Inr ((fee + d) mod 2 ^ 64))"

text \<open>Fees of account operations: a premium name costs more, and the packed size is charged, unchecked in 64 bits.\<close>

definition account_create_calculate_fee :: "fc_lib \<Rightarrow> int \<Rightarrow> int \<Rightarrow> nat \<Rightarrow> string \<Rightarrow> nat \<Rightarrow> int res" where
  "account_create_calculate_fee lib basic_fee premium_fee price_per_kbyte name packed_size =
     (let required = (if \<not> is_cheap_name name then premium_fee else basic_fee) in
      res_bind (calculate_data_fee lib packed_size price_per_kbyte) (\<lambda>d. Inr ((required + d) mod 2 ^ 64)))"

definition account_upgrade_calculate_fee :: "int \<Rightarrow> int \<Rightarrow> bool \<Rightarrow> int res" where
  "account_upgrade_calculate_fee annual_fee lifetime_fee lifetime = Inr (if lifetime then lifetime_fee else annual_fee)"

definition assert_calculate_fee :: "int \<Rightarrow> predicate list \<Rightarrow> int res" where
  "assert_calculate_fee fee ps = Inr (fee * int (length ps) mod 2 ^ 64)"

text \<open>\<open>predicate::validate\<close>, whose result \<open>assert_operation::validate\<close> does not use.\<close>

definition predicate_validate :: "predicate \<Rightarrow> bool" where
  "predicate_validate p =
     (case p of Account_name_eq_lit _ name \<Rightarrow> is_valid_name name
      | Asset_symbol_eq_lit _ sy \<Rightarrow> is_valid_symbol sy
      | Block_id_predicate _ \<Rightarrow> True)"

definition SECONDS_PER_DAY :: int where "SECONDS_PER_DAY = 86400"

text \<open>\<open>claim_period_seconds + SECONDS_PER_DAY - 1\<close> is computed in 32 bits.\<close>

definition htlc_create_calculate_fee :: "int \<Rightarrow> int \<Rightarrow> nat \<Rightarrow> int res" where
  "htlc_create_calculate_fee fee fee_per_day claim_period_seconds =
     per_unit_fee fee fee_per_day ((int claim_period_seconds + SECONDS_PER_DAY - 1) mod 2 ^ 32 div SECONDS_PER_DAY)"

definition htlc_redeem_calculate_fee :: "int \<Rightarrow> int \<Rightarrow> nat \<Rightarrow> int res" where
  "htlc_redeem_calculate_fee fee fee_per_kb preimage_bytes = per_unit_fee fee fee_per_kb ((int preimage_bytes + 1023) div 1024)"

definition htlc_extend_calculate_fee :: "int \<Rightarrow> int \<Rightarrow> nat \<Rightarrow> int res" where
  "htlc_extend_calculate_fee fee fee_per_day seconds_to_add =
     per_unit_fee fee fee_per_day ((int seconds_to_add + SECONDS_PER_DAY - 1) mod 2 ^ 32 div SECONDS_PER_DAY)"

subsection \<open>Operation structures\<close>

record transfer_operation =
  tr_fee :: asset
  tr_from :: account_id
  tr_to :: account_id
  tr_amount :: asset

record override_transfer_operation =
  ot_fee :: asset
  ot_issuer :: account_id
  ot_from :: account_id
  ot_to :: account_id
  ot_amount :: asset

record vesting_balance_create_operation =
  vc_fee :: asset
  vc_creator :: account_id
  vc_owner :: account_id
  vc_amount :: asset
  vc_policy :: vesting_policy_initializer

record vesting_balance_withdraw_operation =
  vw_fee :: asset
  vw_vesting_balance :: obj_id
  vw_owner :: account_id
  vw_amount :: asset

record limit_order_create_operation =
  lc_fee :: asset
  lc_seller :: account_id
  amount_to_sell :: asset
  min_to_receive :: asset
  lc_expiration :: time_sec
  fill_or_kill :: bool

record limit_order_cancel_operation =
  lx_fee :: asset
  lx_order :: obj_id
  lx_fee_paying_account :: account_id

record call_order_update_operation =
  cu_fee :: asset
  funding_account :: account_id
  delta_collateral :: asset
  delta_debt :: asset
  cu_target_collateral_ratio :: "nat option"

record bid_collateral_operation =
  bc_fee :: asset
  bc_bidder :: account_id
  bc_additional_collateral :: asset
  bc_debt_covered :: asset

record asset_create_operation =
  ac_fee :: asset
  ac_issuer :: account_id
  ac_symbol :: string
  ac_precision :: nat
  common_options :: asset_options
  bitasset_opts :: "bitasset_options option"
  ac_is_prediction_market :: bool

record asset_issue_operation =
  ai_fee :: asset
  ai_issuer :: account_id
  asset_to_issue :: asset
  issue_to_account :: account_id

record asset_reserve_operation =
  ar_fee :: asset
  ar_payer :: account_id
  amount_to_reserve :: asset

record asset_fund_fee_pool_operation =
  af_fee :: asset
  af_from_account :: account_id
  af_asset_id :: asset_id
  af_amount :: int

record asset_update_operation =
  au_fee :: asset
  au_issuer :: account_id
  au_asset_to_update :: asset_id
  au_new_issuer :: "account_id option"
  au_new_options :: asset_options

record asset_update_issuer_operation =
  ui_fee :: asset
  ui_issuer :: account_id
  ui_asset_to_update :: asset_id
  ui_new_issuer :: account_id

record asset_update_bitasset_operation =
  ub_fee :: asset
  ub_issuer :: account_id
  ub_asset_to_update :: asset_id
  ub_new_options :: bitasset_options

record asset_update_feed_producers_operation =
  up_fee :: asset
  up_issuer :: account_id
  up_asset_to_update :: asset_id
  new_feed_producers :: "account_id list"

record asset_publish_feed_operation =
  pf_fee :: asset
  pf_publisher :: account_id
  pf_asset_id :: asset_id
  pf_feed :: price_feed

record asset_global_settle_operation =
  gs_fee :: asset
  gs_issuer :: account_id
  gs_asset_to_settle :: asset_id
  gs_settle_price :: price

record asset_settle_operation =
  as_fee :: asset
  as_account :: account_id
  as_amount :: asset

record asset_claim_fees_operation =
  cf_fee :: asset
  cf_issuer :: account_id
  cf_amount_to_claim :: asset

record asset_claim_pool_operation =
  cp_fee :: asset
  cp_issuer :: account_id
  cp_asset_id :: asset_id
  cp_amount_to_claim :: asset

record withdraw_permission_create_operation =
  wc_fee :: asset
  wc_withdraw_from_account :: account_id
  wc_authorized_account :: account_id
  wc_withdrawal_limit :: asset
  wc_withdrawal_period_sec :: nat
  wc_periods_until_expiration :: nat
  wc_period_start_time :: time_sec

record withdraw_permission_update_operation =
  wu_fee :: asset
  wu_withdraw_from_account :: account_id
  wu_authorized_account :: account_id
  permission_to_update :: obj_id
  wu_withdrawal_limit :: asset
  wu_withdrawal_period_sec :: nat
  wu_period_start_time :: time_sec
  wu_periods_until_expiration :: nat

record withdraw_permission_claim_operation =
  wd_fee :: asset
  wd_withdraw_permission :: obj_id
  wd_withdraw_from_account :: account_id
  wd_withdraw_to_account :: account_id
  amount_to_withdraw :: asset

record withdraw_permission_delete_operation =
  wx_fee :: asset
  wx_withdraw_from_account :: account_id
  wx_authorized_account :: account_id
  withdrawal_permission :: obj_id

text \<open>The hash of a preimage is tagged with its algorithm: RIPEMD160, SHA1 or SHA256.\<close>

type_synonym htlc_hash = "nat \<times> nat list"

record htlc_create_operation =
  hc_fee :: asset
  hc_from :: account_id
  hc_to :: account_id
  hc_amount :: asset
  hc_preimage_hash :: htlc_hash
  hc_preimage_size :: nat
  claim_period_seconds :: nat

record htlc_redeem_operation =
  hr_fee :: asset
  hr_htlc_id :: obj_id
  redeemer :: account_id
  preimage :: "nat list"

record htlc_extend_operation =
  he_fee :: asset
  he_htlc_id :: obj_id
  update_issuer :: account_id
  seconds_to_add :: nat

record balance_claim_operation =
  bl_fee :: asset
  deposit_to_account :: account_id
  balance_to_claim :: obj_id
  balance_owner_key :: nat
  total_claimed :: asset

datatype operation =
    Transfer transfer_operation
  | Override_transfer override_transfer_operation
  | Vesting_balance_create vesting_balance_create_operation
  | Vesting_balance_withdraw vesting_balance_withdraw_operation
  | Limit_order_create limit_order_create_operation
  | Limit_order_cancel limit_order_cancel_operation
  | Call_order_update call_order_update_operation
  | Bid_collateral bid_collateral_operation
  | Asset_create asset_create_operation
  | Asset_issue asset_issue_operation
  | Asset_reserve asset_reserve_operation
  | Asset_fund_fee_pool asset_fund_fee_pool_operation
  | Asset_update asset_update_operation
  | Asset_update_issuer asset_update_issuer_operation
  | Asset_update_bitasset asset_update_bitasset_operation
  | Asset_update_feed_producers asset_update_feed_producers_operation
  | Asset_publish_feed asset_publish_feed_operation
  | Asset_global_settle asset_global_settle_operation
  | Asset_settle asset_settle_operation
  | Asset_claim_fees asset_claim_fees_operation
  | Asset_claim_pool asset_claim_pool_operation
  | Withdraw_permission_create withdraw_permission_create_operation
  | Withdraw_permission_update withdraw_permission_update_operation
  | Withdraw_permission_claim withdraw_permission_claim_operation
  | Withdraw_permission_delete withdraw_permission_delete_operation
  | Htlc_create htlc_create_operation
  | Htlc_redeem htlc_redeem_operation
  | Htlc_extend htlc_extend_operation
  | Balance_claim balance_claim_operation
  | Account_create account_create_operation
  | Account_update account_update_operation
  | Account_whitelist account_whitelist_operation
  | Account_upgrade account_upgrade_operation
  | Committee_member_create committee_member_create_operation
  | Committee_member_update committee_member_update_operation
  | Committee_member_update_global_parameters committee_member_update_global_parameters_operation
  | Witness_create witness_create_operation
  | Witness_update witness_update_operation
  | Worker_create worker_create_operation
  | Assert assert_operation
  | Custom custom_operation

fun op_fee :: "operation \<Rightarrow> asset" where
  "op_fee (Transfer x) = tr_fee x"
| "op_fee (Override_transfer x) = ot_fee x"
| "op_fee (Vesting_balance_create x) = vc_fee x"
| "op_fee (Vesting_balance_withdraw x) = vw_fee x"
| "op_fee (Limit_order_create x) = lc_fee x"
| "op_fee (Limit_order_cancel x) = lx_fee x"
| "op_fee (Call_order_update x) = cu_fee x"
| "op_fee (Bid_collateral x) = bc_fee x"
| "op_fee (Asset_create x) = ac_fee x"
| "op_fee (Asset_issue x) = ai_fee x"
| "op_fee (Asset_reserve x) = ar_fee x"
| "op_fee (Asset_fund_fee_pool x) = af_fee x"
| "op_fee (Asset_update x) = au_fee x"
| "op_fee (Asset_update_issuer x) = ui_fee x"
| "op_fee (Asset_update_bitasset x) = ub_fee x"
| "op_fee (Asset_update_feed_producers x) = up_fee x"
| "op_fee (Asset_publish_feed x) = pf_fee x"
| "op_fee (Asset_global_settle x) = gs_fee x"
| "op_fee (Asset_settle x) = as_fee x"
| "op_fee (Asset_claim_fees x) = cf_fee x"
| "op_fee (Asset_claim_pool x) = cp_fee x"
| "op_fee (Withdraw_permission_create x) = wc_fee x"
| "op_fee (Withdraw_permission_update x) = wu_fee x"
| "op_fee (Withdraw_permission_claim x) = wd_fee x"
| "op_fee (Withdraw_permission_delete x) = wx_fee x"
| "op_fee (Htlc_create x) = hc_fee x"
| "op_fee (Htlc_redeem x) = hr_fee x"
| "op_fee (Htlc_extend x) = he_fee x"
| "op_fee (Balance_claim x) = bl_fee x"
| "op_fee (Account_create x) = cr_fee x"
| "op_fee (Account_update x) = ud_fee x"
| "op_fee (Account_whitelist x) = wl_fee x"
| "op_fee (Account_upgrade x) = ug_fee x"
| "op_fee (Committee_member_create x) = mc_fee x"
| "op_fee (Committee_member_update x) = mu_fee x"
| "op_fee (Committee_member_update_global_parameters x) = mp_fee x"
| "op_fee (Witness_create x) = nc_fee x"
| "op_fee (Witness_update x) = nu_fee x"
| "op_fee (Worker_create x) = kc_fee x"
| "op_fee (Assert x) = xa_fee x"
| "op_fee (Custom x) = xc_fee x"

fun fee_payer :: "operation \<Rightarrow> account_id" where
  "fee_payer (Transfer x) = tr_from x"
| "fee_payer (Override_transfer x) = ot_issuer x"
| "fee_payer (Vesting_balance_create x) = vc_creator x"
| "fee_payer (Vesting_balance_withdraw x) = vw_owner x"
| "fee_payer (Limit_order_create x) = lc_seller x"
| "fee_payer (Limit_order_cancel x) = lx_fee_paying_account x"
| "fee_payer (Call_order_update x) = funding_account x"
| "fee_payer (Bid_collateral x) = bc_bidder x"
| "fee_payer (Asset_create x) = ac_issuer x"
| "fee_payer (Asset_issue x) = ai_issuer x"
| "fee_payer (Asset_reserve x) = ar_payer x"
| "fee_payer (Asset_fund_fee_pool x) = af_from_account x"
| "fee_payer (Asset_update x) = au_issuer x"
| "fee_payer (Asset_update_issuer x) = ui_issuer x"
| "fee_payer (Asset_update_bitasset x) = ub_issuer x"
| "fee_payer (Asset_update_feed_producers x) = up_issuer x"
| "fee_payer (Asset_publish_feed x) = pf_publisher x"
| "fee_payer (Asset_global_settle x) = gs_issuer x"
| "fee_payer (Asset_settle x) = as_account x"
| "fee_payer (Asset_claim_fees x) = cf_issuer x"
| "fee_payer (Asset_claim_pool x) = cp_issuer x"
| "fee_payer (Withdraw_permission_create x) = wc_withdraw_from_account x"
| "fee_payer (Withdraw_permission_update x) = wu_withdraw_from_account x"
| "fee_payer (Withdraw_permission_claim x) = wd_withdraw_to_account x"
| "fee_payer (Withdraw_permission_delete x) = wx_withdraw_from_account x"
| "fee_payer (Htlc_create x) = hc_from x"
| "fee_payer (Htlc_redeem x) = redeemer x"
| "fee_payer (Htlc_extend x) = update_issuer x"
| "fee_payer (Balance_claim x) = deposit_to_account x"
| "fee_payer (Account_create x) = cr_registrar x"
| "fee_payer (Account_update x) = ud_account x"
| "fee_payer (Account_whitelist x) = authorizing_account x"
| "fee_payer (Account_upgrade x) = account_to_upgrade x"
| "fee_payer (Committee_member_create x) = mc_committee_member_account x"
| "fee_payer (Committee_member_update x) = mu_committee_member_account x"
| "fee_payer (Committee_member_update_global_parameters x) = 0"
| "fee_payer (Witness_create x) = nc_witness_account x"
| "fee_payer (Witness_update x) = nu_witness_account x"
| "fee_payer (Worker_create x) = kc_owner x"
| "fee_payer (Assert x) = xa_fee_paying_account x"
| "fee_payer (Custom x) = xc_payer x"

subsection \<open>Validation\<close>

text \<open>One definition per \<open>validate()\<close>, with the checks in the order of the source.\<close>

definition transfer_validate :: "transfer_operation \<Rightarrow> unit res" where
  "transfer_validate x =
     FC_ASSERT (amount (tr_fee x) \<ge> 0) ''fee.amount >= 0''
    (FC_ASSERT (tr_from x \<noteq> tr_to x) ''from != to''
    (FC_ASSERT (amount (tr_amount x) > 0) ''amount.amount > 0'' (Inr ())))"

definition override_transfer_validate :: "override_transfer_operation \<Rightarrow> unit res" where
  "override_transfer_validate x =
     FC_ASSERT (amount (ot_fee x) \<ge> 0) ''fee.amount >= 0''
    (FC_ASSERT (ot_from x \<noteq> ot_to x) ''from != to''
    (FC_ASSERT (amount (ot_amount x) > 0) ''amount.amount > 0''
    (FC_ASSERT (ot_issuer x \<noteq> ot_from x) ''issuer != from'' (Inr ()))))"

definition vesting_balance_create_validate :: "vesting_balance_create_operation \<Rightarrow> unit res" where
  "vesting_balance_create_validate x =
     FC_ASSERT (amount (vc_fee x) \<ge> 0) ''fee.amount >= 0''
    (FC_ASSERT (amount (vc_amount x) > 0) ''amount.amount > 0'' (Inr ()))"

definition vesting_balance_withdraw_validate :: "vesting_balance_withdraw_operation \<Rightarrow> unit res" where
  "vesting_balance_withdraw_validate x =
     FC_ASSERT (amount (vw_fee x) \<ge> 0) ''fee.amount >= 0''
    (FC_ASSERT (amount (vw_amount x) > 0) ''amount.amount > 0''
    (FC_ASSERT (vw_owner x \<noteq> GRAPHENE_TEMP_ACCOUNT) ''owner != GRAPHENE_TEMP_ACCOUNT'' (Inr ())))"

definition limit_order_create_validate :: "limit_order_create_operation \<Rightarrow> unit res" where
  "limit_order_create_validate x =
     FC_ASSERT (asset_id (amount_to_sell x) \<noteq> asset_id (min_to_receive x)) ''amount_to_sell.asset_id != min_to_receive.asset_id''
    (FC_ASSERT (amount (lc_fee x) \<ge> 0) ''fee.amount >= 0''
    (FC_ASSERT (amount (amount_to_sell x) > 0) ''amount_to_sell.amount > 0''
    (FC_ASSERT (amount (min_to_receive x) > 0) ''min_to_receive.amount > 0'' (Inr ()))))"

definition limit_order_cancel_validate :: "limit_order_cancel_operation \<Rightarrow> unit res" where
  "limit_order_cancel_validate x =
     FC_ASSERT (amount (lx_fee x) \<ge> 0) ''fee.amount >= 0'' (Inr ())"

definition call_order_update_validate :: "call_order_update_operation \<Rightarrow> unit res" where
  "call_order_update_validate x =
     FC_ASSERT (amount (cu_fee x) \<ge> 0) ''fee.amount >= 0''
    (FC_ASSERT (asset_id (delta_collateral x) \<noteq> asset_id (delta_debt x)) ''delta_collateral.asset_id != delta_debt.asset_id''
    (FC_ASSERT (amount (delta_collateral x) \<noteq> 0 \<or> amount (delta_debt x) \<noteq> 0) ''delta_collateral.amount != 0 || delta_debt.amount != 0'' (Inr ())))"

definition bid_collateral_validate :: "bid_collateral_operation \<Rightarrow> unit res" where
  "bid_collateral_validate x =
     FC_ASSERT (amount (bc_fee x) \<ge> 0) ''fee.amount >= 0''
    (FC_ASSERT (amount (bc_debt_covered x) = 0 \<or> amount (bc_debt_covered x) > 0 \<and> amount (bc_additional_collateral x) > 0) ''debt_covered.amount'' (Inr ()))"

definition asset_create_validate :: "asset_create_operation \<Rightarrow> unit res" where
  "asset_create_validate x =
     FC_ASSERT (amount (ac_fee x) \<ge> 0) ''fee.amount >= 0''
    (FC_ASSERT (is_valid_symbol (ac_symbol x)) ''is_valid_symbol(symbol)''
    (res_bind (asset_options_validate (common_options x)) (\<lambda>_.
     FC_ASSERT (has_flag (issuer_permissions (common_options x)) (or disable_force_settle global_settle) \<longrightarrow> bitasset_opts x \<noteq> None) ''bitasset_opts.valid()''
    (FC_ASSERT (ac_is_prediction_market x \<longrightarrow> bitasset_opts x \<noteq> None) ''Cannot have a User-Issued Asset implement a prediction market.''
    (FC_ASSERT (ac_is_prediction_market x \<longrightarrow> has_flag (issuer_permissions (common_options x)) global_settle) ''issuer_permissions & global_settle''
    (res_bind (case bitasset_opts x of None \<Rightarrow> Inr () | Some b \<Rightarrow> bitasset_options_validate b) (\<lambda>_.
     res_bind (asset_times_price (mk_asset 1 core_asset) (core_exchange_rate (common_options x))) (\<lambda>dummy.
     FC_ASSERT (asset_id dummy = 1) ''dummy.asset_id == asset_id_type(1)''
    (FC_ASSERT (ac_precision x \<le> 12) ''precision <= 12'' (Inr ()))))))))))"

definition asset_update_validate :: "asset_update_operation \<Rightarrow> unit res" where
  "asset_update_validate x =
     FC_ASSERT (amount (au_fee x) \<ge> 0) ''fee.amount >= 0''
    (FC_ASSERT (au_new_issuer x \<noteq> Some (au_issuer x)) ''issuer != *new_issuer''
    (res_bind (asset_options_validate (au_new_options x)) (\<lambda>_.
     res_bind (asset_times_price (mk_asset 1 (au_asset_to_update x)) (core_exchange_rate (au_new_options x))) (\<lambda>dummy.
     FC_ASSERT (asset_id dummy = core_asset) ''dummy.asset_id == asset_id_type()'' (Inr ())))))"

definition asset_publish_feed_validate :: "asset_publish_feed_operation \<Rightarrow> unit res" where
  "asset_publish_feed_validate x =
     FC_ASSERT (amount (pf_fee x) \<ge> 0) ''fee.amount >= 0''
     (let feed = pf_feed x in
      res_bind (price_feed_validate feed) (\<lambda>_.
      res_bind (if \<not> price_is_null (price_feed.core_exchange_rate feed) then price_validate (price_feed.core_exchange_rate feed) else Inr ()) (\<lambda>_.
      FC_ASSERT (\<not> price_is_null (settlement_price feed) \<and> \<not> price_is_null (price_feed.core_exchange_rate feed) \<longrightarrow>
          asset_id (base (settlement_price feed)) = asset_id (base (price_feed.core_exchange_rate feed))) ''settlement_price.base''
     (FC_ASSERT (\<not> price_is_null (settlement_price feed)) ''!feed.settlement_price.is_null()''
     (FC_ASSERT (\<not> price_is_null (price_feed.core_exchange_rate feed)) ''!feed.core_exchange_rate.is_null()''
     (FC_ASSERT (price_feed_is_for feed (pf_asset_id x)) ''feed.is_for( asset_id )'' (Inr ())))))))"

definition asset_update_bitasset_validate :: "asset_update_bitasset_operation \<Rightarrow> unit res" where
  "asset_update_bitasset_validate x =
     FC_ASSERT (amount (ub_fee x) \<ge> 0) ''fee.amount >= 0'' (bitasset_options_validate (ub_new_options x))"

definition asset_issue_validate :: "asset_issue_operation \<Rightarrow> unit res" where
  "asset_issue_validate x =
     FC_ASSERT (amount (ai_fee x) \<ge> 0) ''fee.amount >= 0''
    (FC_ASSERT (amount (asset_to_issue x) \<le> GRAPHENE_MAX_SHARE_SUPPLY) ''asset_to_issue.amount <= GRAPHENE_MAX_SHARE_SUPPLY''
    (FC_ASSERT (amount (asset_to_issue x) > 0) ''asset_to_issue.amount > 0''
    (FC_ASSERT (asset_id (asset_to_issue x) \<noteq> 0) ''asset_to_issue.asset_id'' (Inr ()))))"

definition asset_reserve_validate :: "asset_reserve_operation \<Rightarrow> unit res" where
  "asset_reserve_validate x =
     FC_ASSERT (amount (ar_fee x) \<ge> 0) ''fee.amount >= 0''
    (FC_ASSERT (amount (amount_to_reserve x) \<le> GRAPHENE_MAX_SHARE_SUPPLY) ''amount_to_reserve.amount <= GRAPHENE_MAX_SHARE_SUPPLY''
    (FC_ASSERT (amount (amount_to_reserve x) > 0) ''amount_to_reserve.amount > 0'' (Inr ())))"

definition asset_fund_fee_pool_validate :: "asset_fund_fee_pool_operation \<Rightarrow> unit res" where
  "asset_fund_fee_pool_validate x =
     FC_ASSERT (amount (af_fee x) \<ge> 0) ''fee.amount >= 0''
    (FC_ASSERT (asset_id (af_fee x) = core_asset) ''fee.asset_id == asset_id_type()''
    (FC_ASSERT (af_amount x > 0) ''amount > 0'' (Inr ())))"

definition asset_update_issuer_validate :: "asset_update_issuer_operation \<Rightarrow> unit res" where
  "asset_update_issuer_validate x =
     FC_ASSERT (amount (ui_fee x) \<ge> 0) ''fee.amount >= 0''
    (FC_ASSERT (ui_issuer x \<noteq> ui_new_issuer x) ''issuer != new_issuer'' (Inr ()))"

definition asset_update_feed_producers_validate :: "asset_update_feed_producers_operation \<Rightarrow> unit res" where
  "asset_update_feed_producers_validate x =
     FC_ASSERT (amount (up_fee x) \<ge> 0) ''fee.amount >= 0'' (Inr ())"

definition asset_global_settle_validate :: "asset_global_settle_operation \<Rightarrow> unit res" where
  "asset_global_settle_validate x =
     FC_ASSERT (amount (gs_fee x) \<ge> 0) ''fee.amount >= 0''
    (FC_ASSERT (gs_asset_to_settle x = asset_id (base (gs_settle_price x))) ''asset_to_settle == settle_price.base.asset_id'' (Inr ()))"

definition asset_settle_validate :: "asset_settle_operation \<Rightarrow> unit res" where
  "asset_settle_validate x =
     FC_ASSERT (amount (as_fee x) \<ge> 0) ''fee.amount >= 0''
    (FC_ASSERT (amount (as_amount x) \<ge> 0) ''amount.amount >= 0'' (Inr ()))"

definition asset_claim_fees_validate :: "asset_claim_fees_operation \<Rightarrow> unit res" where
  "asset_claim_fees_validate x =
     FC_ASSERT (amount (cf_fee x) \<ge> 0) ''fee.amount >= 0''
    (FC_ASSERT (amount (cf_amount_to_claim x) > 0) ''amount_to_claim.amount > 0'' (Inr ()))"

definition asset_claim_pool_validate :: "asset_claim_pool_operation \<Rightarrow> unit res" where
  "asset_claim_pool_validate x =
     FC_ASSERT (amount (cp_fee x) \<ge> 0) ''fee.amount >= 0''
    (FC_ASSERT (asset_id (cp_fee x) \<noteq> cp_asset_id x) ''fee.asset_id != asset_id''
    (FC_ASSERT (amount (cp_amount_to_claim x) > 0) ''amount_to_claim.amount > 0''
    (FC_ASSERT (asset_id (cp_amount_to_claim x) = core_asset) ''amount_to_claim.asset_id == asset_id_type()'' (Inr ()))))"

definition withdraw_permission_create_validate :: "withdraw_permission_create_operation \<Rightarrow> unit res" where
  "withdraw_permission_create_validate x =
     FC_ASSERT (amount (wc_fee x) \<ge> 0) ''fee.amount >= 0''
    (FC_ASSERT (wc_withdraw_from_account x \<noteq> wc_authorized_account x) ''withdraw_from_account != authorized_account''
    (FC_ASSERT (amount (wc_withdrawal_limit x) > 0) ''withdrawal_limit.amount > 0''
    (FC_ASSERT (wc_withdrawal_period_sec x > 0) ''withdrawal_period_sec > 0''
    (FC_ASSERT (wc_periods_until_expiration x > 0) ''periods_until_expiration > 0'' (Inr ())))))"

definition withdraw_permission_update_validate :: "withdraw_permission_update_operation \<Rightarrow> unit res" where
  "withdraw_permission_update_validate x =
     FC_ASSERT (amount (wu_withdrawal_limit x) > 0) ''withdrawal_limit.amount > 0''
    (FC_ASSERT (amount (wu_fee x) \<ge> 0) ''fee.amount >= 0''
    (FC_ASSERT (wu_withdrawal_period_sec x > 0) ''withdrawal_period_sec > 0''
    (FC_ASSERT (wu_withdraw_from_account x \<noteq> wu_authorized_account x) ''withdraw_from_account != authorized_account''
    (FC_ASSERT (wu_periods_until_expiration x > 0) ''periods_until_expiration > 0'' (Inr ())))))"

definition withdraw_permission_claim_validate :: "withdraw_permission_claim_operation \<Rightarrow> unit res" where
  "withdraw_permission_claim_validate x =
     FC_ASSERT (wd_withdraw_to_account x \<noteq> wd_withdraw_from_account x) ''withdraw_to_account != withdraw_from_account''
    (FC_ASSERT (amount (amount_to_withdraw x) > 0) ''amount_to_withdraw.amount > 0''
    (FC_ASSERT (amount (wd_fee x) \<ge> 0) ''fee.amount >= 0'' (Inr ())))"

definition withdraw_permission_delete_validate :: "withdraw_permission_delete_operation \<Rightarrow> unit res" where
  "withdraw_permission_delete_validate x =
     FC_ASSERT (amount (wx_fee x) \<ge> 0) ''fee.amount >= 0''
    (FC_ASSERT (wx_withdraw_from_account x \<noteq> wx_authorized_account x) ''withdraw_from_account != authorized_account'' (Inr ()))"

definition htlc_create_validate :: "htlc_create_operation \<Rightarrow> unit res" where
  "htlc_create_validate x =
     FC_ASSERT (amount (hc_fee x) \<ge> 0) ''fee.amount >= 0''
    (FC_ASSERT (amount (hc_amount x) > 0) ''HTLC amount should be greater than zero'' (Inr ()))"

definition htlc_redeem_validate :: "htlc_redeem_operation \<Rightarrow> unit res" where
  "htlc_redeem_validate x =
     FC_ASSERT (amount (hr_fee x) \<ge> 0) ''fee.amount >= 0'' (Inr ())"

definition htlc_extend_validate :: "htlc_extend_operation \<Rightarrow> unit res" where
  "htlc_extend_validate x =
     FC_ASSERT (amount (he_fee x) \<ge> 0) ''fee.amount >= 0'' (Inr ())"

definition balance_claim_validate :: "balance_claim_operation \<Rightarrow> unit res" where
  "balance_claim_validate x =
     FC_ASSERT (bl_fee x = mk_asset 0 core_asset) ''fee == asset()''
    (FC_ASSERT (balance_owner_key x \<noteq> 0) ''balance_owner_key != public_key_type()'' (Inr ()))"

text \<open>\<open>operation_validate\<close> visits the variant.\<close>

fun operation_validate :: "operation \<Rightarrow> unit res" where
  "operation_validate (Transfer x) = transfer_validate x"
| "operation_validate (Override_transfer x) = override_transfer_validate x"
| "operation_validate (Vesting_balance_create x) = vesting_balance_create_validate x"
| "operation_validate (Vesting_balance_withdraw x) = vesting_balance_withdraw_validate x"
| "operation_validate (Limit_order_create x) = limit_order_create_validate x"
| "operation_validate (Limit_order_cancel x) = limit_order_cancel_validate x"
| "operation_validate (Call_order_update x) = call_order_update_validate x"
| "operation_validate (Bid_collateral x) = bid_collateral_validate x"
| "operation_validate (Asset_create x) = asset_create_validate x"
| "operation_validate (Asset_issue x) = asset_issue_validate x"
| "operation_validate (Asset_reserve x) = asset_reserve_validate x"
| "operation_validate (Asset_fund_fee_pool x) = asset_fund_fee_pool_validate x"
| "operation_validate (Asset_update x) = asset_update_validate x"
| "operation_validate (Asset_update_issuer x) = asset_update_issuer_validate x"
| "operation_validate (Asset_update_bitasset x) = asset_update_bitasset_validate x"
| "operation_validate (Asset_update_feed_producers x) = asset_update_feed_producers_validate x"
| "operation_validate (Asset_publish_feed x) = asset_publish_feed_validate x"
| "operation_validate (Asset_global_settle x) = asset_global_settle_validate x"
| "operation_validate (Asset_settle x) = asset_settle_validate x"
| "operation_validate (Asset_claim_fees x) = asset_claim_fees_validate x"
| "operation_validate (Asset_claim_pool x) = asset_claim_pool_validate x"
| "operation_validate (Withdraw_permission_create x) = withdraw_permission_create_validate x"
| "operation_validate (Withdraw_permission_update x) = withdraw_permission_update_validate x"
| "operation_validate (Withdraw_permission_claim x) = withdraw_permission_claim_validate x"
| "operation_validate (Withdraw_permission_delete x) = withdraw_permission_delete_validate x"
| "operation_validate (Htlc_create x) = htlc_create_validate x"
| "operation_validate (Htlc_redeem x) = htlc_redeem_validate x"
| "operation_validate (Htlc_extend x) = htlc_extend_validate x"
| "operation_validate (Balance_claim x) = balance_claim_validate x"
| "operation_validate (Account_create x) = account_create_validate x"
| "operation_validate (Account_update x) = account_update_validate x"
| "operation_validate (Account_whitelist x) = account_whitelist_validate x"
| "operation_validate (Account_upgrade x) = account_upgrade_validate x"
| "operation_validate (Committee_member_create x) = committee_member_create_validate x"
| "operation_validate (Committee_member_update x) = committee_member_update_validate x"
| "operation_validate (Committee_member_update_global_parameters x) = global_parameters_validate x"
| "operation_validate (Witness_create x) = witness_create_validate x"
| "operation_validate (Witness_update x) = witness_update_validate x"
| "operation_validate (Worker_create x) = worker_create_validate x"
| "operation_validate (Assert x) = assert_validate x"
| "operation_validate (Custom x) = custom_validate x"

end
