(* ===== verification/Fee_Schedule.thy ===== *)
theory Fee_Schedule
  imports Operations
begin

text \<open>
  The fee schedule of \<open>libraries/protocol/fee_schedule.cpp\<close>: the fee parameters of each kind of operation, how
  \<open>fee_helper\<close> finds them in the schedule and what it takes when they are missing, and the \<open>calculate_fee\<close> of every
  modelled operation. The packed sizes that \<open>fc::raw::pack_size\<close> reports for a memo and for a whole operation come with
  the operation, since memos and serialization are not modelled.
\<close>

text \<open>The sizes that fees are charged for: of the memo, if the operation has one, and the size that \<open>asset_create\<close> and
  \<open>asset_update\<close> take of themselves and \<open>asset_issue\<close> of its optional memo.\<close>

record op_sizes =
  memo_size :: "nat option"
  packed_size :: nat

text \<open>The tag of an operation in the variant \<open>operation\<close> of \<open>operations.hpp\<close>.\<close>

fun which :: "operation \<Rightarrow> nat" where
  "which (Transfer _) = 0"
| "which (Limit_order_create _) = 1"
| "which (Limit_order_cancel _) = 2"
| "which (Call_order_update _) = 3"
| "which (Asset_create _) = 10"
| "which (Asset_update _) = 11"
| "which (Asset_update_bitasset _) = 12"
| "which (Asset_update_feed_producers _) = 13"
| "which (Asset_issue _) = 14"
| "which (Asset_reserve _) = 15"
| "which (Asset_fund_fee_pool _) = 16"
| "which (Asset_settle _) = 17"
| "which (Asset_global_settle _) = 18"
| "which (Asset_publish_feed _) = 19"
| "which (Withdraw_permission_create _) = 25"
| "which (Withdraw_permission_update _) = 26"
| "which (Withdraw_permission_claim _) = 27"
| "which (Withdraw_permission_delete _) = 28"
| "which (Vesting_balance_create _) = 32"
| "which (Vesting_balance_withdraw _) = 33"
| "which (Balance_claim _) = 37"
| "which (Override_transfer _) = 38"
| "which (Asset_claim_fees _) = 43"
| "which (Bid_collateral _) = 45"
| "which (Asset_claim_pool _) = 47"
| "which (Asset_update_issuer _) = 48"
| "which (Htlc_create _) = 49"
| "which (Htlc_redeem _) = 50"
| "which (Htlc_extend _) = 52"
| "which (Account_create _) = 5"
| "which (Account_update _) = 6"
| "which (Account_whitelist _) = 7"
| "which (Account_upgrade _) = 8"
| "which (Witness_create _) = 20"
| "which (Witness_update _) = 21"
| "which (Committee_member_create _) = 29"
| "which (Committee_member_update _) = 30"
| "which (Committee_member_update_global_parameters _) = 31"
| "which (Worker_create _) = 34"
| "which (Custom _) = 35"
| "which (Assert _) = 36"

text \<open>The default constructed \<open>fee_parameters_type\<close> of each operation.\<close>

fun default_fee_parameters :: "operation \<Rightarrow> fee_parameters" where
  "default_fee_parameters (Transfer _) = Fee_per_kbyte (20 * GRAPHENE_BLOCKCHAIN_PRECISION) (nat (10 * GRAPHENE_BLOCKCHAIN_PRECISION))"
| "default_fee_parameters (Limit_order_create _) = Fee (5 * GRAPHENE_BLOCKCHAIN_PRECISION)"
| "default_fee_parameters (Limit_order_cancel _) = Fee 0"
| "default_fee_parameters (Call_order_update _) = Fee (20 * GRAPHENE_BLOCKCHAIN_PRECISION)"
| "default_fee_parameters (Asset_create _) = Symbol_fees (500000 * GRAPHENE_BLOCKCHAIN_PRECISION) (300000 * GRAPHENE_BLOCKCHAIN_PRECISION) (5000 * GRAPHENE_BLOCKCHAIN_PRECISION) 10"
| "default_fee_parameters (Asset_update _) = Fee_per_kbyte (500 * GRAPHENE_BLOCKCHAIN_PRECISION) 10"
| "default_fee_parameters (Asset_update_bitasset _) = Fee (500 * GRAPHENE_BLOCKCHAIN_PRECISION)"
| "default_fee_parameters (Asset_update_feed_producers _) = Fee (500 * GRAPHENE_BLOCKCHAIN_PRECISION)"
| "default_fee_parameters (Asset_issue _) = Fee_per_kbyte (20 * GRAPHENE_BLOCKCHAIN_PRECISION) (nat GRAPHENE_BLOCKCHAIN_PRECISION)"
| "default_fee_parameters (Asset_reserve _) = Fee (20 * GRAPHENE_BLOCKCHAIN_PRECISION)"
| "default_fee_parameters (Asset_fund_fee_pool _) = Fee GRAPHENE_BLOCKCHAIN_PRECISION"
| "default_fee_parameters (Asset_settle _) = Fee (100 * GRAPHENE_BLOCKCHAIN_PRECISION)"
| "default_fee_parameters (Asset_global_settle _) = Fee (500 * GRAPHENE_BLOCKCHAIN_PRECISION)"
| "default_fee_parameters (Asset_publish_feed _) = Fee GRAPHENE_BLOCKCHAIN_PRECISION"
| "default_fee_parameters (Withdraw_permission_create _) = Fee GRAPHENE_BLOCKCHAIN_PRECISION"
| "default_fee_parameters (Withdraw_permission_update _) = Fee GRAPHENE_BLOCKCHAIN_PRECISION"
| "default_fee_parameters (Withdraw_permission_claim _) = Fee_per_kbyte (20 * GRAPHENE_BLOCKCHAIN_PRECISION) 10"
| "default_fee_parameters (Withdraw_permission_delete _) = Fee 0"
| "default_fee_parameters (Vesting_balance_create _) = Fee GRAPHENE_BLOCKCHAIN_PRECISION"
| "default_fee_parameters (Vesting_balance_withdraw _) = Fee (20 * GRAPHENE_BLOCKCHAIN_PRECISION)"
| "default_fee_parameters (Balance_claim _) = No_fee_parameters"
| "default_fee_parameters (Override_transfer _) = Fee_per_kbyte (20 * GRAPHENE_BLOCKCHAIN_PRECISION) 10"
| "default_fee_parameters (Asset_claim_fees _) = Fee (20 * GRAPHENE_BLOCKCHAIN_PRECISION)"
| "default_fee_parameters (Bid_collateral _) = Fee (20 * GRAPHENE_BLOCKCHAIN_PRECISION)"
| "default_fee_parameters (Asset_claim_pool _) = Fee (20 * GRAPHENE_BLOCKCHAIN_PRECISION)"
| "default_fee_parameters (Asset_update_issuer _) = Fee (20 * GRAPHENE_BLOCKCHAIN_PRECISION)"
| "default_fee_parameters (Htlc_create _) = Fee_per_unit GRAPHENE_BLOCKCHAIN_PRECISION GRAPHENE_BLOCKCHAIN_PRECISION"
| "default_fee_parameters (Htlc_redeem _) = Fee_per_unit GRAPHENE_BLOCKCHAIN_PRECISION GRAPHENE_BLOCKCHAIN_PRECISION"
| "default_fee_parameters (Htlc_extend _) = Fee_per_unit GRAPHENE_BLOCKCHAIN_PRECISION GRAPHENE_BLOCKCHAIN_PRECISION"
| "default_fee_parameters (Account_create _) = Account_fees (5 * GRAPHENE_BLOCKCHAIN_PRECISION) (2000 * GRAPHENE_BLOCKCHAIN_PRECISION) (nat GRAPHENE_BLOCKCHAIN_PRECISION)"
| "default_fee_parameters (Account_update _) = Fee_per_kbyte (20 * GRAPHENE_BLOCKCHAIN_PRECISION) (nat GRAPHENE_BLOCKCHAIN_PRECISION)"
| "default_fee_parameters (Account_whitelist _) = Fee 300000"
| "default_fee_parameters (Account_upgrade _) = Membership_fees (2000 * GRAPHENE_BLOCKCHAIN_PRECISION) (10000 * GRAPHENE_BLOCKCHAIN_PRECISION)"
| "default_fee_parameters (Witness_create _) = Fee (5000 * GRAPHENE_BLOCKCHAIN_PRECISION)"
| "default_fee_parameters (Witness_update _) = Fee (20 * GRAPHENE_BLOCKCHAIN_PRECISION)"
| "default_fee_parameters (Committee_member_create _) = Fee (5000 * GRAPHENE_BLOCKCHAIN_PRECISION)"
| "default_fee_parameters (Committee_member_update _) = Fee (20 * GRAPHENE_BLOCKCHAIN_PRECISION)"
| "default_fee_parameters (Committee_member_update_global_parameters _) = Fee GRAPHENE_BLOCKCHAIN_PRECISION"
| "default_fee_parameters (Worker_create _) = Fee (5000 * GRAPHENE_BLOCKCHAIN_PRECISION)"
| "default_fee_parameters (Custom _) = Fee_per_kbyte GRAPHENE_BLOCKCHAIN_PRECISION 10"
| "default_fee_parameters (Assert _) = Fee GRAPHENE_BLOCKCHAIN_PRECISION"

text \<open>\<open>fee_helper::cget\<close>: an operation added by a hard fork borrows the fee of an older one, or takes its defaults,
  until the committee sets its own.\<close>

definition find_params :: "fee_schedule \<Rightarrow> nat \<Rightarrow> fee_parameters res" where
  "find_params sched tag =
     (case map_of (fee_params sched) tag of None \<Rightarrow> Inl (Assert_exn ''itr != parameters.end()'') | Some p \<Rightarrow> Inr p)"

definition fee_helper_cget :: "fee_schedule \<Rightarrow> operation \<Rightarrow> fee_parameters res" where
  "fee_helper_cget sched op1 =
     (case map_of (fee_params sched) (which op1) of Some p \<Rightarrow> Inr p
      | None \<Rightarrow>
          (case op1 of
             Bid_collateral _ \<Rightarrow> res_bind (find_params sched 3) (\<lambda>p. Inr (Fee (param_fee p)))
           | Asset_update_issuer _ \<Rightarrow> res_bind (find_params sched 11) (\<lambda>p. Inr (Fee (param_fee p)))
           | Asset_claim_pool _ \<Rightarrow> res_bind (find_params sched 16) (\<lambda>p. Inr (Fee (param_fee p)))
           | Htlc_create _ \<Rightarrow> Inr (default_fee_parameters op1)
           | Htlc_redeem _ \<Rightarrow> Inr (default_fee_parameters op1)
           | Htlc_extend _ \<Rightarrow> Inr (default_fee_parameters op1)
           | _ \<Rightarrow> find_params sched (which op1)))"

text \<open>The overloads of \<open>calculate_fee\<close>; an operation without its own returns \<open>params.fee\<close>.\<close>

definition operation_calculate_fee :: "fc_lib \<Rightarrow> op_sizes \<Rightarrow> operation \<Rightarrow> fee_parameters \<Rightarrow> int res" where
  "operation_calculate_fee lib sizes op1 p =
     (case (op1, p) of
        (Transfer _, Fee_per_kbyte f k) \<Rightarrow> memo_fee lib f k (memo_size sizes)
      | (Override_transfer _, Fee_per_kbyte f k) \<Rightarrow> memo_fee lib f k (memo_size sizes)
      | (Withdraw_permission_claim _, Fee_per_kbyte f k) \<Rightarrow> memo_fee lib f k (memo_size sizes)
      | (Asset_create x, Symbol_fees s3 s4 l k) \<Rightarrow> asset_create_calculate_fee lib s3 s4 l k (ac_symbol x) (packed_size sizes)
      | (Asset_update _, Fee_per_kbyte f k) \<Rightarrow> sized_fee lib f k (packed_size sizes)
      | (Asset_issue _, Fee_per_kbyte f k) \<Rightarrow> sized_fee lib f k (packed_size sizes)
      | (Htlc_create x, Fee_per_unit f d) \<Rightarrow> htlc_create_calculate_fee f d (claim_period_seconds x)
      | (Htlc_redeem x, Fee_per_unit f k) \<Rightarrow> htlc_redeem_calculate_fee f k (length (preimage x))
      | (Htlc_extend x, Fee_per_unit f d) \<Rightarrow> htlc_extend_calculate_fee f d (seconds_to_add x)
      | (Balance_claim _, _) \<Rightarrow> Inr 0
      | (Account_create x, Account_fees b pr k) \<Rightarrow> account_create_calculate_fee lib b pr k (cr_name x) (packed_size sizes)
      | (Account_update x, Fee_per_kbyte f k) \<Rightarrow> memo_fee lib f k (if ud_new_options x \<noteq> None then Some (packed_size sizes) else None)
      | (Account_upgrade x, Membership_fees an lt) \<Rightarrow> account_upgrade_calculate_fee an lt (upgrade_to_lifetime_member x)
      | (Assert x, Fee f) \<Rightarrow> assert_calculate_fee f (predicates x)
      | (Custom _, Fee_per_kbyte f k) \<Rightarrow> sized_fee lib f k (packed_size sizes)
      | (_, Fee f) \<Rightarrow> Inr f
      | _ \<Rightarrow> Inl (Assert_exn ''wrong fee parameters''))"

text \<open>\<open>calc_fee_visitor\<close>: any failed assertion makes it start again from the parameters in the schedule or, if there are
  none, from the default ones.\<close>

definition calc_fee :: "fc_lib \<Rightarrow> fee_schedule \<Rightarrow> op_sizes \<Rightarrow> operation \<Rightarrow> int res" where
  "calc_fee lib sched sizes op1 =
     (case res_bind (fee_helper_cget sched op1) (operation_calculate_fee lib sizes op1) of
        Inl (Assert_exn _) \<Rightarrow> operation_calculate_fee lib sizes op1
          (case map_of (fee_params sched) (which op1) of Some p \<Rightarrow> p | None \<Rightarrow> default_fee_parameters op1)
      | r \<Rightarrow> r)"

end
