(* ===== verification/Chain_State.thy ===== *)
theory Chain_State
  imports Fee_Schedule
begin

text \<open>
  The objects of the chain database and the database itself: the object classes of
  \<open>libraries/chain/include/graphene/chain/*_object.hpp\<close> that the balance, fee and market code reads and writes,
  each with the fields that code uses, and one record \<open>database\<close> with an index per class.

  An index holds its objects under their instance numbers in the order of creation, and the next instance number.
  \<open>ix_create\<close>, \<open>ix_modify\<close> and \<open>ix_remove\<close> are the calls \<open>create\<close>, \<open>modify\<close> and \<open>remove\<close> of the database; a C++ reference
  to an object is its instance number, looked up at each use. The lambda given to \<open>modify\<close> may throw.

  The second part is the accounting. \<open>imbalance a db\<close> adds up everything the chain holds of asset \<open>a\<close>, as the test
  fixture's \<open>verify_asset_supplies\<close> does, and subtracts the recorded supply. A locale states what it means
  that a step moves a quantity, and that moves compose; it is interpreted for the imbalance.
\<close>

subsection \<open>Indexes\<close>

record 'o index =
  ix_tab :: "'o table"
  ix_next :: nat

definition ix_get :: "obj_id \<Rightarrow> 'o index \<Rightarrow> 'o option" where
  "ix_get i ix = map_of (ix_tab ix) i"

definition ix_create :: "'o \<Rightarrow> 'o index \<Rightarrow> 'o index" where
  "ix_create x ix = ix\<lparr>ix_tab := ix_tab ix @ [(ix_next ix, x)], ix_next := Suc (ix_next ix)\<rparr>"

definition ix_modify :: "obj_id \<Rightarrow> ('o \<Rightarrow> 'o res) \<Rightarrow> 'o index \<Rightarrow> 'o index res" where
  "ix_modify i f ix =
     res_bind (opt_get ''Unable to find Object'' (ix_get i ix)) (\<lambda>x.
     res_bind (f x) (\<lambda>y. Inr (ix\<lparr>ix_tab := t_upd i (\<lambda>_. y) (ix_tab ix)\<rparr>)))"

definition ix_remove :: "obj_id \<Rightarrow> 'o index \<Rightarrow> 'o index" where
  "ix_remove i ix = ix\<lparr>ix_tab := t_del i (ix_tab ix)\<rparr>"

definition ix_find :: "('o \<Rightarrow> bool) \<Rightarrow> 'o index \<Rightarrow> (obj_id \<times> 'o) option" where
  "ix_find P ix = List.find (\<lambda>p. P (snd p)) (ix_tab ix)"

definition ix_sum :: "('o \<Rightarrow> int) \<Rightarrow> 'o index \<Rightarrow> int" where
  "ix_sum g ix = t_sum g (ix_tab ix)"

text \<open>Instance numbers are unique and below the next one.\<close>

definition ix_ok :: "'o index \<Rightarrow> bool" where
  "ix_ok ix \<longleftrightarrow> distinct (map fst (ix_tab ix)) \<and> (\<forall>p\<in>set (ix_tab ix). fst p < ix_next ix)"

lemma ix_sum_create [table_simps]: "ix_sum g (ix_create x ix) = ix_sum g ix + g x"
  by (simp add: ix_sum_def ix_create_def)

lemma ix_sum_remove [table_simps]: "ix_get i ix = Some x \<Longrightarrow> ix_sum g (ix_remove i ix) = ix_sum g ix - g x"
  by (simp add: ix_sum_def ix_remove_def ix_get_def t_sum_del)

lemma ix_modifyE:
  assumes "ix_modify i f ix = Inr ix'"
  obtains x y where "ix_get i ix = Some x" "f x = Inr y" "\<And>g. ix_sum g ix' = ix_sum g ix - g x + g y"
    "\<And>j. ix_get j ix' = (if j = i then Some y else ix_get j ix)" "ix_next ix' = ix_next ix"
  using assms by (auto simp: ix_modify_def ix_sum_def ix_get_def t_sum_upd map_of_t_upd)

lemma ix_ok_create: "ix_ok ix \<Longrightarrow> ix_ok (ix_create x ix)"
  by (fastforce simp: ix_ok_def ix_create_def)

lemma ix_ok_modify: "ix_ok ix \<Longrightarrow> ix_modify i f ix = Inr ix' \<Longrightarrow> ix_ok ix'"
proof -
  have "p \<in> set (t_upd i h t) \<Longrightarrow> fst p \<in> fst ` set t" for p h and t :: "'a table"
    by (metis image_eqI keys_t_upd list.set_map)
  then show "ix_ok ix \<Longrightarrow> ix_modify i f ix = Inr ix' \<Longrightarrow> ix_ok ix'"
    by (fastforce simp: ix_ok_def ix_modify_def)
qed

lemma ix_ok_remove: "ix_ok ix \<Longrightarrow> ix_ok (ix_remove i ix)"
  by (auto simp: ix_ok_def ix_remove_def dest: set_t_del)

lemma ix_get_create [simp]:
  "ix_ok ix \<Longrightarrow> ix_get i (ix_create x ix) = (if i = ix_next ix then Some x else ix_get i ix)"
  by (fastforce simp: ix_ok_def ix_get_def ix_create_def map_add_def split: option.splits dest: map_of_SomeD)

lemma ix_get_remove [simp]: "ix_ok ix \<Longrightarrow> ix_get j (ix_remove i ix) = (if j = i then None else ix_get j ix)"
  by (auto simp: ix_ok_def ix_get_def ix_remove_def map_of_t_del_same table_simps)

lemma ix_find_Some: "ix_find P ix = Some (i, x) \<Longrightarrow> ix_ok ix \<Longrightarrow> ix_get i ix = Some x \<and> P x"
  unfolding ix_find_def ix_get_def ix_ok_def find_Some_iff by (metis map_of_is_SomeI nth_mem snd_conv)

subsection \<open>Accounts\<close>

record account_object =
  membership_expiration_date :: time_sec
  registrar :: account_id
  referrer :: account_id
  lifetime_referrer :: account_id
  network_fee_percentage :: nat
  lifetime_referrer_fee_percentage :: nat
  referrer_rewards_percentage :: nat
  account_name :: string
  owner_auth :: authority
  active_auth :: authority
  statistics :: obj_id
  whitelisting_accounts :: "account_id list"
  whitelisted_accounts :: "account_id list"
  blacklisted_accounts :: "account_id list"
  blacklisting_accounts :: "account_id list"
  cashback_vb :: "obj_id option"
  owner_special_authority :: special_authority
  active_special_authority :: special_authority
  top_n_control_flags :: nat
  allowed_assets :: "asset_id list option"
  acc_options :: account_options

definition is_lifetime_member :: "account_object \<Rightarrow> bool" where
  "is_lifetime_member acc \<longleftrightarrow> membership_expiration_date acc = time_maximum"

definition is_basic_account :: "account_object \<Rightarrow> time_sec \<Rightarrow> bool" where
  "is_basic_account acc now \<longleftrightarrow> now > membership_expiration_date acc"

definition is_member :: "account_object \<Rightarrow> time_sec \<Rightarrow> bool" where
  "is_member acc now \<longleftrightarrow> \<not> is_basic_account acc now"

definition has_special_authority :: "account_object \<Rightarrow> bool" where
  "has_special_authority acc \<longleftrightarrow> owner_special_authority acc \<noteq> No_special_authority \<or> active_special_authority acc \<noteq> No_special_authority"

definition is_annual_member :: "account_object \<Rightarrow> time_sec \<Rightarrow> bool" where
  "is_annual_member acc now \<longleftrightarrow> \<not> is_lifetime_member acc \<and> \<not> is_basic_account acc now"

record account_statistics_object =
  st_owner :: account_id
  st_name :: string
  total_core_in_orders :: int
  core_in_balance :: int
  has_cashback_vb :: bool
  is_voting :: bool
  lifetime_fees_paid :: int
  pending_fees :: int
  pending_vested_fees :: int
  last_vote_time :: time_sec

definition has_some_core_voting :: "account_statistics_object \<Rightarrow> bool" where
  "has_some_core_voting s \<longleftrightarrow> is_voting s \<and> (total_core_in_orders s > 0 \<or> core_in_balance s > 0 \<or> has_cashback_vb s)"

definition has_pending_fees :: "account_statistics_object \<Rightarrow> bool" where
  "has_pending_fees s \<longleftrightarrow> pending_fees s > 0 \<or> pending_vested_fees s > 0"

definition need_maintenance :: "account_statistics_object \<Rightarrow> bool" where
  "need_maintenance s \<longleftrightarrow> has_some_core_voting s \<or> has_pending_fees s"

record account_balance_object =
  ab_owner :: account_id
  ab_asset_type :: asset_id
  ab_balance :: int
  ab_maintenance_flag :: bool

subsection \<open>Assets\<close>

record asset_object =
  symbol :: string
  precision :: nat
  issuer :: account_id
  options :: asset_options
  dynamic_asset_data_id :: obj_id
  bitasset_data_id :: "obj_id option"
  buyback_account :: "account_id option"

record asset_dynamic_data_object =
  current_supply :: int
  confidential_supply :: int
  accumulated_fees :: int
  fee_pool :: int

record asset_bitasset_data_object =
  bd_asset_id :: asset_id
  bd_options :: bitasset_options
  feeds :: "(account_id \<times> (time_sec \<times> price_feed)) list"
  current_feed :: price_feed
  current_feed_publication_time :: time_sec
  current_maintenance_collateralization :: price
  is_prediction_market :: bool
  force_settled_volume :: int
  bd_settlement_price :: price
  settlement_fund :: int
  asset_cer_updated :: bool
  feed_cer_updated :: bool

definition is_market_issued :: "asset_object \<Rightarrow> bool" where
  "is_market_issued ao \<longleftrightarrow> bitasset_data_id ao \<noteq> None"

definition can_force_settle :: "asset_object \<Rightarrow> bool" where
  "can_force_settle ao \<longleftrightarrow> \<not> has_flag (flags (options ao)) disable_force_settle"

definition can_global_settle :: "asset_object \<Rightarrow> bool" where
  "can_global_settle ao \<longleftrightarrow> has_flag (issuer_permissions (options ao)) global_settle"

definition charges_market_fees :: "asset_object \<Rightarrow> bool" where
  "charges_market_fees ao \<longleftrightarrow> has_flag (flags (options ao)) charge_market_fee"

definition is_transfer_restricted :: "asset_object \<Rightarrow> bool" where
  "is_transfer_restricted ao \<longleftrightarrow> has_flag (flags (options ao)) transfer_restricted"

definition can_override :: "asset_object \<Rightarrow> bool" where
  "can_override ao \<longleftrightarrow> has_flag (flags (options ao)) override_authority"

definition has_settlement :: "asset_bitasset_data_object \<Rightarrow> bool" where
  "has_settlement bd \<longleftrightarrow> \<not> price_is_null (bd_settlement_price bd)"

subsection \<open>Market objects\<close>

record limit_order_object =
  lo_expiration :: time_sec
  seller :: account_id
  for_sale :: int
  sell_price :: price
  deferred_fee :: int
  deferred_paid_fee :: asset

definition amount_for_sale :: "limit_order_object \<Rightarrow> asset" where
  "amount_for_sale lo = mk_asset (for_sale lo) (asset_id (base (sell_price lo)))"

definition lo_amount_to_receive :: "limit_order_object \<Rightarrow> asset res" where
  "lo_amount_to_receive lo = asset_times_price (amount_for_sale lo) (sell_price lo)"

definition sell_asset_id :: "limit_order_object \<Rightarrow> asset_id" where
  "sell_asset_id lo = asset_id (base (sell_price lo))"

definition receive_asset_id :: "limit_order_object \<Rightarrow> asset_id" where
  "receive_asset_id lo = asset_id (quote (sell_price lo))"

record call_order_object =
  borrower :: account_id
  collateral :: int
  debt :: int
  call_price :: price
  target_collateral_ratio :: "nat option"

definition debt_type :: "call_order_object \<Rightarrow> asset_id" where
  "debt_type co = asset_id (quote (call_price co))"

definition collateral_type :: "call_order_object \<Rightarrow> asset_id" where
  "collateral_type co = asset_id (base (call_price co))"

definition get_collateral :: "call_order_object \<Rightarrow> asset" where
  "get_collateral co = mk_asset (collateral co) (collateral_type co)"

definition get_debt :: "call_order_object \<Rightarrow> asset" where
  "get_debt co = mk_asset (debt co) (debt_type co)"

definition collateralization :: "call_order_object \<Rightarrow> price res" where
  "collateralization co = asset_div (get_collateral co) (get_debt co)"

record force_settlement_object =
  fs_owner :: account_id
  fs_balance :: asset
  settlement_date :: time_sec

record collateral_bid_object =
  bidder :: account_id
  inv_swan_price :: price

definition get_additional_collateral :: "collateral_bid_object \<Rightarrow> asset" where
  "get_additional_collateral bid = base (inv_swan_price bid)"

definition bid_debt_type :: "collateral_bid_object \<Rightarrow> asset_id" where
  "bid_debt_type bid = asset_id (quote (inv_swan_price bid))"

subsection \<open>Other objects that hold funds\<close>

record fba_accumulator_object =
  accumulated_fba_fees :: int
  designated_asset :: "asset_id option"

record htlc_object =
  htlc_from :: account_id
  htlc_to :: account_id
  htlc_amount :: int
  htlc_asset_id :: asset_id
  preimage_hash :: htlc_hash
  preimage_size :: nat
  htlc_expiration :: time_sec

record balance_object =
  bo_owner :: nat
  bo_balance :: asset
  bo_vesting_policy :: "linear_vesting_policy option"
  last_claim_date :: time_sec

record withdraw_permission_object =
  withdraw_from_account :: account_id
  authorized_account :: account_id
  withdrawal_limit :: asset
  withdrawal_period_sec :: nat
  period_start_time :: time_sec
  wp_expiration :: time_sec
  claimed_this_period :: int

record witness_object =
  witness_account :: account_id
  last_aslot :: nat
  pay_vb :: "obj_id option"
  total_votes :: nat
  total_missed :: nat
  last_confirmed_block_num :: nat
  signing_key :: nat
  witness_vote_id :: vote_id
  witness_url :: string

record committee_member_object =
  committee_member_account :: account_id
  cm_vote_id :: vote_id
  cm_total_votes :: nat
  cm_url :: string

datatype worker_type = Refund_worker int | Vesting_balance_worker obj_id | Burn_worker int

record worker_object =
  worker_account :: account_id
  work_begin_date :: time_sec
  work_end_date :: time_sec
  daily_pay :: int
  worker :: worker_type
  worker_name :: string
  worker_url :: string
  vote_for :: vote_id
  vote_against :: vote_id
  total_votes_for :: nat
  total_votes_against :: nat

record budget_record =
  time_since_last_budget :: nat
  from_initial_reserve :: int
  from_accumulated_fees :: int
  from_unused_witness_budget :: int
  requested_witness_budget :: int
  total_budget :: int
  rec_witness_budget :: int
  rec_worker_budget :: int
  leftover_worker_funds :: int
  supply_delta :: int

subsection \<open>Global properties\<close>

record dynamic_global_property_object =
  head_block_number :: nat
  dgp_time :: time_sec
  next_maintenance_time :: time_sec
  witness_budget :: int
  current_witness :: obj_id
  recently_missed_count :: nat
  current_aslot :: nat
  recent_slots_filled :: nat
  maintenance_flag :: bool
  last_irreversible_block_num :: nat
  last_budget_time :: time_sec
  accounts_registered_this_interval :: nat

text \<open>The operations that \<open>push_applied_operation\<close> appends to the history of the block.\<close>

datatype applied_operation =
    Bid_collateral_vop account_id asset asset
  | Execute_bid_vop account_id asset asset
  | Asset_settle_cancel_vop obj_id account_id asset
  | Limit_order_cancel_vop obj_id account_id asset
  | Fill_order_vop obj_id account_id asset asset asset price bool
  | Htlc_redeemed_vop obj_id account_id account_id account_id asset
  | Htlc_refund_vop obj_id account_id
  | Fba_distribute_vop account_id obj_id int
  | User_operation operation

subsection \<open>The database\<close>

record database =
  accounts :: "account_object index"
  account_stats :: "account_statistics_object index"
  balances :: "account_balance_object index"
  assets :: "asset_object index"
  dyn_data :: "asset_dynamic_data_object index"
  bitassets :: "asset_bitasset_data_object index"
  limit_orders :: "limit_order_object index"
  call_orders :: "call_order_object index"
  settlements :: "force_settlement_object index"
  bids :: "collateral_bid_object index"
  vestings :: "vesting_balance_object index"
  fbas :: "fba_accumulator_object index"
  htlcs :: "htlc_object index"
  balance_objects :: "balance_object index"
  withdraw_permissions :: "withdraw_permission_object index"
  witnesses :: "witness_object index"
  active_witnesses :: "obj_id list"
  current_shuffled_witnesses :: "obj_id list"
  committee_members :: "committee_member_object index"
  workers :: "worker_object index"
  budget_records :: "(time_sec \<times> budget_record) index"
  special_authorities :: "account_id index"
  buybacks :: "asset_id index"
  active_committee_members :: "obj_id list"
  next_available_vote_id :: nat
  pending_parameters :: "chain_parameters option"
  min_witness_count :: nat
  min_committee_member_count :: nat
  parameters :: chain_parameters
  dgp :: dynamic_global_property_object
  applied_ops :: "applied_operation list"
  issue_453_affected_assets :: "asset_id set"

definition head_block_time :: "database \<Rightarrow> time_sec" where
  "head_block_time db = dgp_time (dgp db)"

definition maint_time :: "database \<Rightarrow> time_sec" where
  "maint_time db = next_maintenance_time (dgp db)"

definition get_account :: "database \<Rightarrow> account_id \<Rightarrow> account_object res" where
  "get_account db i = opt_get ''Unable to find Object'' (ix_get i (accounts db))"

definition get_asset :: "database \<Rightarrow> asset_id \<Rightarrow> asset_object res" where
  "get_asset db i = opt_get ''Unable to find Object'' (ix_get i (assets db))"

definition dynamic_data :: "database \<Rightarrow> asset_object \<Rightarrow> asset_dynamic_data_object res" where
  "dynamic_data db ao = opt_get ''Unable to find Object'' (ix_get (dynamic_asset_data_id ao) (dyn_data db))"

definition bitasset_data :: "database \<Rightarrow> asset_object \<Rightarrow> asset_bitasset_data_object res" where
  "bitasset_data db ao =
     (case bitasset_data_id ao of
        None \<Rightarrow> Inl (Assert_exn ''Asset is not a market issued asset.'')
      | Some i \<Rightarrow> opt_get ''Unable to find Object'' (ix_get i (bitassets db)))"

text \<open>\<open>modify( asset(db).dynamic_asset_data_id(db), ... )\<close> and its relatives.\<close>

definition modify_dyn_data :: "asset_id \<Rightarrow> (asset_dynamic_data_object \<Rightarrow> asset_dynamic_data_object res) \<Rightarrow> database \<Rightarrow> database res" where
  "modify_dyn_data a f db =
     res_bind (get_asset db a) (\<lambda>ao.
     res_bind (ix_modify (dynamic_asset_data_id ao) f (dyn_data db)) (\<lambda>ix. Inr (db\<lparr>dyn_data := ix\<rparr>)))"

definition modify_bitasset :: "asset_id \<Rightarrow> (asset_bitasset_data_object \<Rightarrow> asset_bitasset_data_object res) \<Rightarrow> database \<Rightarrow> database res" where
  "modify_bitasset a f db =
     res_bind (get_asset db a) (\<lambda>ao.
     res_bind (opt_get ''Asset is not a market issued asset.'' (bitasset_data_id ao)) (\<lambda>i.
     res_bind (ix_modify i f (bitassets db)) (\<lambda>ix. Inr (db\<lparr>bitassets := ix\<rparr>))))"

definition modify_statistics :: "account_id \<Rightarrow> (account_statistics_object \<Rightarrow> account_statistics_object res) \<Rightarrow> database \<Rightarrow> database res" where
  "modify_statistics acc f db =
     res_bind (get_account db acc) (\<lambda>ao.
     res_bind (ix_modify (statistics ao) f (account_stats db)) (\<lambda>ix. Inr (db\<lparr>account_stats := ix\<rparr>)))"

definition modify_stats_by_owner :: "account_id \<Rightarrow> (account_statistics_object \<Rightarrow> account_statistics_object res) \<Rightarrow> database \<Rightarrow> database res" where
  "modify_stats_by_owner acc f db =
     (case ix_find (\<lambda>s. st_owner s = acc) (account_stats db) of
        None \<Rightarrow> Inl (Assert_exn ''Can not find account statistics object for owner'')
      | Some (i, s) \<Rightarrow> res_bind (ix_modify i f (account_stats db)) (\<lambda>ix. Inr (db\<lparr>account_stats := ix\<rparr>)))"

definition push_applied_operation :: "applied_operation \<Rightarrow> database \<Rightarrow> database" where
  "push_applied_operation vop db = db\<lparr>applied_ops := applied_ops db @ [vop]\<rparr>"

subsection \<open>Accounting\<close>

definition part :: "asset \<Rightarrow> asset_id \<Rightarrow> int" where
  "part x a = (if asset_id x = a then amount x else 0)"

abbreviation core_part :: "int \<Rightarrow> asset_id \<Rightarrow> int" where
  "core_part x \<equiv> part (mk_asset x core_asset)"

definition lo_holds :: "asset_id \<Rightarrow> limit_order_object \<Rightarrow> int" where
  "lo_holds a lo = part (amount_for_sale lo) a + core_part (deferred_fee lo) a + part (deferred_paid_fee lo) a"

definition dyn_balance :: "asset_dynamic_data_object \<Rightarrow> int" where
  "dyn_balance d = accumulated_fees d + confidential_supply d - current_supply d"

definition asset_link :: "asset_object index \<Rightarrow> asset_id \<Rightarrow> obj_id option" where
  "asset_link ix a = map_option dynamic_asset_data_id (ix_get a ix)"

definition own_balance :: "asset_object index \<Rightarrow> asset_dynamic_data_object index \<Rightarrow> asset_id \<Rightarrow> int" where
  "own_balance ix dyn a =
     (case asset_link ix a of None \<Rightarrow> 0
      | Some i \<Rightarrow> (case ix_get i dyn of None \<Rightarrow> 0 | Some d \<Rightarrow> dyn_balance d))"

text \<open>Only a globally settled asset has a settlement fund.\<close>

definition fund_ok :: "asset_bitasset_data_object \<Rightarrow> bool" where
  "fund_ok b \<longleftrightarrow> (\<not> has_settlement b \<longrightarrow> settlement_fund b = 0)"

definition bit_fund :: "asset_id \<Rightarrow> asset_bitasset_data_object \<Rightarrow> int" where
  "bit_fund a b = part (mk_asset (settlement_fund b) (short_backing_asset (bd_options b))) a"

definition imbalance :: "asset_id \<Rightarrow> database \<Rightarrow> int" where
  "imbalance a db =
     ix_sum (\<lambda>b. part (mk_asset (ab_balance b) (ab_asset_type b)) a) (balances db)
   + ix_sum (\<lambda>s. part (fs_balance s) a) (settlements db)
   + ix_sum (\<lambda>b. part (base (inv_swan_price b)) a) (bids db)
   + ix_sum (\<lambda>s. core_part (pending_fees s + pending_vested_fees s) a) (account_stats db)
   + ix_sum (lo_holds a) (limit_orders db)
   + ix_sum (\<lambda>c. part (get_collateral c) a) (call_orders db)
   + ix_sum (bit_fund a) (bitassets db)
   + ix_sum (\<lambda>v. part (vb_balance v) a) (vestings db)
   + ix_sum (\<lambda>f. core_part (accumulated_fba_fees f) a) (fbas db)
   + ix_sum (\<lambda>b. part (bo_balance b) a) (balance_objects db)
   + ix_sum (\<lambda>h. part (mk_asset (htlc_amount h) (htlc_asset_id h)) a) (htlcs db)
   + ix_sum (\<lambda>d. core_part (fee_pool d) a) (dyn_data db)
   + core_part (witness_budget (dgp db)) a
   + own_balance (assets db) (dyn_data db) a"

text \<open>The deferred fees of limit orders are never negative.\<close>

definition lo_index_ok :: "limit_order_object index \<Rightarrow> bool" where
  "lo_index_ok ix \<longleftrightarrow> ix_ok ix \<and> (\<forall>p\<in>set (ix_tab ix). 0 \<le> deferred_fee (snd p) \<and> 0 \<le> amount (deferred_paid_fee (snd p)))"

lemma lo_index_ok_get: "lo_index_ok ix \<Longrightarrow> ix_get i ix = Some lo \<Longrightarrow> 0 \<le> deferred_fee lo \<and> 0 \<le> amount (deferred_paid_fee lo)"
  by (force simp: lo_index_ok_def ix_get_def dest: map_of_SomeD)

lemma lo_index_ok_remove: "lo_index_ok ix \<Longrightarrow> lo_index_ok (ix_remove i ix)"
  by (auto simp: lo_index_ok_def ix_ok_remove) (auto simp: ix_remove_def dest!: set_t_del)

lemma lo_index_ok_create:
  "lo_index_ok ix \<Longrightarrow> 0 \<le> deferred_fee lo \<Longrightarrow> 0 \<le> amount (deferred_paid_fee lo) \<Longrightarrow> lo_index_ok (ix_create lo ix)"
  by (auto simp: lo_index_ok_def ix_ok_create) (auto simp: ix_create_def)

lemma lo_index_ok_modify:
  assumes "lo_index_ok ix" "ix_modify i f ix = Inr ix'"
    "\<And>x y. f x = Inr y \<Longrightarrow> 0 \<le> deferred_fee x \<Longrightarrow> 0 \<le> deferred_fee y"
    "\<And>x y. f x = Inr y \<Longrightarrow> 0 \<le> amount (deferred_paid_fee x) \<Longrightarrow> 0 \<le> amount (deferred_paid_fee y)"
  shows "lo_index_ok ix'"
proof -
  from assms(2) obtain x y where xy: "ix_get i ix = Some x" "f x = Inr y" "ix_tab ix' = t_upd i (\<lambda>_. y) (ix_tab ix)"
    by (auto simp: ix_modify_def)
  have "p \<in> set (t_upd i (\<lambda>_. y) t) \<Longrightarrow> p \<in> set t \<or> snd p = y" for p and t :: "limit_order_object table"
    by (induction t) (auto split: if_splits)
  moreover have "0 \<le> deferred_fee y" "0 \<le> amount (deferred_paid_fee y)"
    using lo_index_ok_get [OF assms(1) xy(1)] assms(3,4) [OF xy(2)] by auto
  ultimately have "\<forall>p\<in>set (ix_tab ix'). 0 \<le> deferred_fee (snd p) \<and> 0 \<le> amount (deferred_paid_fee (snd p))"
    using assms(1) xy(3) unfolding lo_index_ok_def by metis
  then show ?thesis using ix_ok_modify [OF _ assms(2)] assms(1) by (simp add: lo_index_ok_def)
qed

text \<open>An asset refers to a dynamic data object that has been created.\<close>

definition links_ok :: "asset_object index \<Rightarrow> asset_dynamic_data_object index \<Rightarrow> bool" where
  "links_ok ix dyn \<longleftrightarrow> (\<forall>a i. asset_link ix a = Some i \<longrightarrow> i < ix_next dyn)"

text \<open>Each asset has its own dynamic data object, the cap of its market fee is not negative (\<open>asset_options::validate\<close>),
  and indexes are well formed.\<close>

definition db_ok :: "database \<Rightarrow> bool" where
  "db_ok db \<longleftrightarrow> inj_on (asset_link (assets db)) {a. asset_link (assets db) a \<noteq> None}
     \<and> (\<forall>a ao. ix_get a (assets db) = Some ao \<longrightarrow> 0 \<le> max_market_fee (options ao)) \<and> ix_ok (account_stats db) \<and> ix_ok (balances db)
     \<and> ix_ok (vestings db) \<and> lo_index_ok (limit_orders db) \<and> ix_ok (call_orders db)
     \<and> ix_ok (settlements db) \<and> ix_ok (bids db) \<and> ix_ok (fbas db) \<and> ix_ok (htlcs db) \<and> ix_ok (balance_objects db)
     \<and> (\<forall>i b. ix_get i (bitassets db) = Some b \<longrightarrow> fund_ok b)
     \<and> ix_ok (assets db) \<and> ix_ok (dyn_data db) \<and> ix_ok (bitassets db) \<and> links_ok (assets db) (dyn_data db)"

text \<open>A quantity indexed by keys that steps of a machine move around. A step \<open>moves d\<close> if it keeps the machine well formed
  and changes the quantity of every key \<open>k\<close> by \<open>d k\<close>.\<close>

locale quantity =
  fixes ok :: "'s \<Rightarrow> bool"
    and qty :: "'k \<Rightarrow> 's \<Rightarrow> int"
    and moves :: "('k \<Rightarrow> int) \<Rightarrow> 's \<Rightarrow> 's \<Rightarrow> bool"
  assumes moves_iff: "moves d s s' \<longleftrightarrow> (ok s \<longrightarrow> ok s' \<and> (\<forall>k. qty k s' = qty k s + d k))"
begin

lemma moves_refl: "moves (\<lambda>_. 0) s s"
  by (simp add: moves_iff)

lemma moves_trans: "moves d s s' \<Longrightarrow> moves e s' s'' \<Longrightarrow> moves (\<lambda>k. d k + e k) s s''"
  by (simp add: moves_iff)

lemma moves_weaken: "moves d s s' \<Longrightarrow> (\<And>k. d k = e k) \<Longrightarrow> moves e s s'"
  by (simp add: moves_iff)

lemma moves_fold:
  assumes "res_fold f xs s = Inr s'" "\<And>x s s'. x \<in> set xs \<Longrightarrow> f x s = Inr s' \<Longrightarrow> moves (\<lambda>_. 0) s s'"
  shows "moves (\<lambda>_. 0) s s'"
  using assms
proof (induction xs arbitrary: s)
  case Nil
  then show ?case by (simp add: moves_refl)
next
  case (Cons x xs)
  then obtain s1 where s1: "f x s = Inr s1" "res_fold f xs s1 = Inr s'" by auto
  have "moves (\<lambda>_. 0) s s1" using Cons.prems(2) [OF _ s1(1)] by simp
  moreover have "moves (\<lambda>_. 0) s1 s'" by (rule Cons.IH [OF s1(2)]) (rule Cons.prems(2), auto)
  ultimately show ?case using moves_trans by fastforce
qed

lemma moves_conserved: "moves (\<lambda>_. 0) s s' \<Longrightarrow> ok s \<Longrightarrow> qty k s' = qty k s"
  by (simp add: moves_iff)

end

definition moves :: "(asset_id \<Rightarrow> int) \<Rightarrow> database \<Rightarrow> database \<Rightarrow> bool" where
  "moves d db db' \<longleftrightarrow> (db_ok db \<longrightarrow> db_ok db' \<and> (\<forall>a. imbalance a db' = imbalance a db + d a))"

interpretation ledger: quantity db_ok imbalance moves
  by unfold_locales (simp add: moves_def)

text \<open>What a change of one index does.\<close>

lemmas accounting_defs = moves_def imbalance_def db_ok_def

lemma moves_balances:
  "(\<And>a. ix_sum (\<lambda>b. part (mk_asset (ab_balance b) (ab_asset_type b)) a) ix = ix_sum (\<lambda>b. part (mk_asset (ab_balance b) (ab_asset_type b)) a) (balances db) + d a) \<Longrightarrow> (ix_ok (balances db) \<Longrightarrow> ix_ok ix) \<Longrightarrow>
     moves d db (db\<lparr>balances := ix\<rparr>)"
  by (simp add: accounting_defs)

lemma moves_settlements:
  "(\<And>a. ix_sum (\<lambda>s. part (fs_balance s) a) ix = ix_sum (\<lambda>s. part (fs_balance s) a) (settlements db) + d a) \<Longrightarrow> (ix_ok (settlements db) \<Longrightarrow> ix_ok ix) \<Longrightarrow>
     moves d db (db\<lparr>settlements := ix\<rparr>)"
  by (simp add: accounting_defs)

lemma moves_bids:
  "(\<And>a. ix_sum (\<lambda>b. part (base (inv_swan_price b)) a) ix = ix_sum (\<lambda>b. part (base (inv_swan_price b)) a) (bids db) + d a) \<Longrightarrow> (ix_ok (bids db) \<Longrightarrow> ix_ok ix) \<Longrightarrow>
     moves d db (db\<lparr>bids := ix\<rparr>)"
  by (simp add: accounting_defs)

lemma moves_account_stats:
  "(\<And>a. ix_sum (\<lambda>s. core_part (pending_fees s + pending_vested_fees s) a) ix = ix_sum (\<lambda>s. core_part (pending_fees s + pending_vested_fees s) a) (account_stats db) + d a) \<Longrightarrow> (ix_ok (account_stats db) \<Longrightarrow> ix_ok ix) \<Longrightarrow>
     moves d db (db\<lparr>account_stats := ix\<rparr>)"
  by (simp add: accounting_defs)

lemma moves_limit_orders:
  "(\<And>a. ix_sum (lo_holds a) ix = ix_sum (lo_holds a) (limit_orders db) + d a) \<Longrightarrow> (lo_index_ok (limit_orders db) \<Longrightarrow> lo_index_ok ix) \<Longrightarrow>
     moves d db (db\<lparr>limit_orders := ix\<rparr>)"
  by (simp add: accounting_defs)

lemma moves_call_orders:
  "(\<And>a. ix_sum (\<lambda>c. part (get_collateral c) a) ix = ix_sum (\<lambda>c. part (get_collateral c) a) (call_orders db) + d a) \<Longrightarrow> (ix_ok (call_orders db) \<Longrightarrow> ix_ok ix) \<Longrightarrow>
     moves d db (db\<lparr>call_orders := ix\<rparr>)"
  by (simp add: accounting_defs)

lemma moves_vestings:
  "(\<And>a. ix_sum (\<lambda>v. part (vb_balance v) a) ix = ix_sum (\<lambda>v. part (vb_balance v) a) (vestings db) + d a) \<Longrightarrow> (ix_ok (vestings db) \<Longrightarrow> ix_ok ix) \<Longrightarrow>
     moves d db (db\<lparr>vestings := ix\<rparr>)"
  by (simp add: accounting_defs)

lemma moves_fbas:
  "(\<And>a. ix_sum (\<lambda>f. core_part (accumulated_fba_fees f) a) ix = ix_sum (\<lambda>f. core_part (accumulated_fba_fees f) a) (fbas db) + d a) \<Longrightarrow> (ix_ok (fbas db) \<Longrightarrow> ix_ok ix) \<Longrightarrow>
     moves d db (db\<lparr>fbas := ix\<rparr>)"
  by (simp add: accounting_defs)

lemma moves_balance_objects:
  "(\<And>a. ix_sum (\<lambda>b. part (bo_balance b) a) ix = ix_sum (\<lambda>b. part (bo_balance b) a) (balance_objects db) + d a) \<Longrightarrow> (ix_ok (balance_objects db) \<Longrightarrow> ix_ok ix) \<Longrightarrow>
     moves d db (db\<lparr>balance_objects := ix\<rparr>)"
  by (simp add: accounting_defs)

lemma moves_htlcs:
  "(\<And>a. ix_sum (\<lambda>h. part (mk_asset (htlc_amount h) (htlc_asset_id h)) a) ix = ix_sum (\<lambda>h. part (mk_asset (htlc_amount h) (htlc_asset_id h)) a) (htlcs db) + d a) \<Longrightarrow> (ix_ok (htlcs db) \<Longrightarrow> ix_ok ix) \<Longrightarrow>
     moves d db (db\<lparr>htlcs := ix\<rparr>)"
  by (simp add: accounting_defs)

lemma moves_bitassets:
  "(\<And>a. ix_sum (bit_fund a) ix = ix_sum (bit_fund a) (bitassets db) + d a) \<Longrightarrow>
   ((\<And>i b. ix_get i (bitassets db) = Some b \<Longrightarrow> fund_ok b) \<Longrightarrow> (\<And>i b. ix_get i ix = Some b \<Longrightarrow> fund_ok b)) \<Longrightarrow>
   (ix_ok (bitassets db) \<Longrightarrow> ix_ok ix) \<Longrightarrow> moves d db (db\<lparr>bitassets := ix\<rparr>)"
  by (auto simp: accounting_defs)

lemma moves_neutral:
  "moves (\<lambda>_. 0) db (db\<lparr>applied_ops := x\<rparr>)"
  "moves (\<lambda>_. 0) db (db\<lparr>withdraw_permissions := y\<rparr>)"
  "moves (\<lambda>_. 0) db (db\<lparr>witnesses := z\<rparr>)"
  "moves (\<lambda>_. 0) db (db\<lparr>accounts := w\<rparr>)"
  "moves (\<lambda>_. 0) db (db\<lparr>issue_453_affected_assets := v\<rparr>)"
  "moves (\<lambda>_. 0) db (db\<lparr>committee_members := cm\<rparr>)"
  "moves (\<lambda>_. 0) db (db\<lparr>workers := wk\<rparr>)"
  "moves (\<lambda>_. 0) db (db\<lparr>budget_records := br\<rparr>)"
  "moves (\<lambda>_. 0) db (db\<lparr>special_authorities := sa\<rparr>)"
  "moves (\<lambda>_. 0) db (db\<lparr>buybacks := bb\<rparr>)"
  "moves (\<lambda>_. 0) db (db\<lparr>active_witnesses := aw\<rparr>)"
  "moves (\<lambda>_. 0) db (db\<lparr>active_committee_members := acm\<rparr>)"
  "moves (\<lambda>_. 0) db (db\<lparr>next_available_vote_id := n\<rparr>)"
  "moves (\<lambda>_. 0) db (db\<lparr>pending_parameters := pp\<rparr>)"
  "moves (\<lambda>_. 0) db (db\<lparr>parameters := ps\<rparr>)"
  by (simp_all add: accounting_defs)

text \<open>Changes of the dynamic global properties move what they add to the witness budget.\<close>

lemma moves_dgp: "moves (core_part (witness_budget d - witness_budget (dgp db))) db (db\<lparr>dgp := d\<rparr>)"
  by (simp add: accounting_defs part_def)

lemma moves_push [simp]: "moves (\<lambda>_. 0) db (push_applied_operation vop db)"
  by (simp add: push_applied_operation_def moves_neutral)

text \<open>\<open>dyn_data_parts\<close> is what a change of the dynamic data of asset \<open>b\<close> moves: its own fees and supply in \<open>b\<close>, the fee pool in CORE.\<close>

definition dyn_data_move :: "asset_id \<Rightarrow> asset_dynamic_data_object \<Rightarrow> asset_dynamic_data_object \<Rightarrow> asset_id \<Rightarrow> int" where
  "dyn_data_move b d d' a = part (mk_asset (dyn_balance d' - dyn_balance d) b) a + core_part (fee_pool d' - fee_pool d) a"

lemma modify_dyn_dataE:
  assumes "modify_dyn_data b f db = Inr db'"
  obtains ao d d' where "ix_get b (assets db) = Some ao" "ix_get (dynamic_asset_data_id ao) (dyn_data db) = Some d"
    "f d = Inr d'" "moves (dyn_data_move b d d') db db'" "\<exists>ix. db' = db\<lparr>dyn_data := ix\<rparr>"
    "\<And>j. ix_get j (dyn_data db') = (if j = dynamic_asset_data_id ao then Some d' else ix_get j (dyn_data db))"
proof -
  from assms obtain ao ix where ao: "ix_get b (assets db) = Some ao"
    and ix: "ix_modify (dynamic_asset_data_id ao) f (dyn_data db) = Inr ix" and db': "db' = db\<lparr>dyn_data := ix\<rparr>"
    by (auto simp: modify_dyn_data_def get_asset_def)
  from ix obtain d d' where d: "ix_get (dynamic_asset_data_id ao) (dyn_data db) = Some d" "f d = Inr d'"
    and sum: "\<And>g. ix_sum g ix = ix_sum g (dyn_data db) - g d + g d'"
    and get: "\<And>j. ix_get j ix = (if j = dynamic_asset_data_id ao then Some d' else ix_get j (dyn_data db))"
    and nxt: "ix_next ix = ix_next (dyn_data db)"
    by (elim ix_modifyE) blast
  have "own_balance (assets db) ix a = own_balance (assets db) (dyn_data db) a + part (mk_asset (dyn_balance d' - dyn_balance d) b) a" if "db_ok db" for a
  proof -
    have "asset_link (assets db) a = asset_link (assets db) b \<longleftrightarrow> a = b"
      using that ao by (force simp: db_ok_def asset_link_def inj_on_def)
    then show ?thesis using ao d get
      by (auto simp: own_balance_def asset_link_def part_def split: option.splits)
  qed
  then have "moves (dyn_data_move b d d') db db'"
    by (auto simp: moves_def imbalance_def dyn_data_move_def db' sum part_def db_ok_def links_ok_def nxt intro: ix_ok_modify [OF _ ix])
  with ao d that db' get show thesis by auto
qed

lemma modify_statisticsE:
  assumes "modify_statistics acc f db = Inr db'"
  obtains i s s' where "ix_get i (account_stats db) = Some s" "f s = Inr s'"
    "moves (core_part (pending_fees s' + pending_vested_fees s' - pending_fees s - pending_vested_fees s)) db db'"
    "\<exists>ix. db' = db\<lparr>account_stats := ix\<rparr>"
proof -
  from assms obtain i ix where ix: "ix_modify i f (account_stats db) = Inr ix" and db': "db' = db\<lparr>account_stats := ix\<rparr>"
    by (auto simp: modify_statistics_def)
  from ix obtain s s' where s: "ix_get i (account_stats db) = Some s" "f s = Inr s'"
    and sum: "\<And>g. ix_sum g ix = ix_sum g (account_stats db) - g s + g s'" by (elim ix_modifyE) blast
  have "moves (core_part (pending_fees s' + pending_vested_fees s' - pending_fees s - pending_vested_fees s)) db db'"
    unfolding db' by (rule moves_account_stats) (auto simp: sum part_def intro: ix_ok_modify [OF _ ix])
  with s that db' show thesis by blast
qed

lemma modify_stats_by_ownerE:
  assumes "modify_stats_by_owner acc f db = Inr db'"
  obtains i s s' where "ix_get i (account_stats db) = Some s" "f s = Inr s'"
    "moves (core_part (pending_fees s' + pending_vested_fees s' - pending_fees s - pending_vested_fees s)) db db'"
    "\<exists>ix. db' = db\<lparr>account_stats := ix\<rparr>"
proof -
  from assms obtain i ix where ix: "ix_modify i f (account_stats db) = Inr ix" and db': "db' = db\<lparr>account_stats := ix\<rparr>"
    by (auto simp: modify_stats_by_owner_def split: option.splits prod.splits)
  from ix obtain s s' where s: "ix_get i (account_stats db) = Some s" "f s = Inr s'"
    and sum: "\<And>g. ix_sum g ix = ix_sum g (account_stats db) - g s + g s'" by (elim ix_modifyE) blast
  have "moves (core_part (pending_fees s' + pending_vested_fees s' - pending_fees s - pending_vested_fees s)) db db'"
    unfolding db' by (rule moves_account_stats) (auto simp: sum part_def intro: ix_ok_modify [OF _ ix])
  with s that db' show thesis by blast
qed

lemma modify_bitassetE:
  assumes "modify_bitasset a f db = Inr db'"
  obtains ao i b b' ix where "ix_get a (assets db) = Some ao" "bitasset_data_id ao = Some i" "ix_get i (bitassets db) = Some b" "f b = Inr b'"
    "fund_ok b' \<Longrightarrow> moves (\<lambda>c. bit_fund c b' - bit_fund c b) db db'" "db' = db\<lparr>bitassets := ix\<rparr>"
    "\<And>j. ix_get j ix = (if j = i then Some b' else ix_get j (bitassets db))"
proof -
  from assms obtain ao i ix where ao: "ix_get a (assets db) = Some ao" "bitasset_data_id ao = Some i"
    and ix: "ix_modify i f (bitassets db) = Inr ix" and db': "db' = db\<lparr>bitassets := ix\<rparr>"
    by (auto simp: modify_bitasset_def get_asset_def)
  from ix obtain b b' where b: "ix_get i (bitassets db) = Some b" "f b = Inr b'"
    and sum: "\<And>g. ix_sum g ix = ix_sum g (bitassets db) - g b + g b'"
    and get: "\<And>j. ix_get j ix = (if j = i then Some b' else ix_get j (bitassets db))"
    by (elim ix_modifyE) blast
  have "moves (\<lambda>c. bit_fund c b' - bit_fund c b) db db'" if "fund_ok b'"
    unfolding db' by (rule moves_bitassets) (auto simp: sum get that intro: ix_ok_modify [OF _ ix] split: if_splits)
  with ao b db' get that show thesis by blast
qed

end
