(* ===== verification/Balances.thy ===== *)
theory Balances
  imports Chain_State
begin

text \<open>
  Account balances and the fee machinery: \<open>libraries/chain/db_balance.cpp\<close>, the balance and statistics
  operations of \<open>account_object.cpp\<close>, the fee handling of \<open>evaluator.cpp\<close>, \<open>fba_object.cpp\<close>,
  \<open>is_authorized_asset.cpp\<close> and the scaling of \<open>fee_schedule.cpp\<close>.

  For every operation there is a lemma that says which shares it moves, in terms of \<open>moves\<close>: a deposit of \<open>x\<close> moves
  \<open>part x\<close> into the books, paying out pending fees moves nothing. The balance operations have in addition their exact
  functional behaviour.
\<close>

named_theorems moves_intros "which shares an operation moves"

subsection \<open>Account balances\<close>

definition find_account_balance :: "database \<Rightarrow> account_id \<Rightarrow> asset_id \<Rightarrow> (obj_id \<times> account_balance_object) option" where
  "find_account_balance db acc a = ix_find (\<lambda>b. ab_owner b = acc \<and> ab_asset_type b = a) (balances db)"

definition get_balance :: "database \<Rightarrow> account_id \<Rightarrow> asset_id \<Rightarrow> asset" where
  "get_balance db acc a =
     (case find_account_balance db acc a of None \<Rightarrow> mk_asset 0 a
      | Some (i, b) \<Rightarrow> mk_asset (ab_balance b) (ab_asset_type b))"

definition abo_adjust_balance :: "fc_lib \<Rightarrow> asset \<Rightarrow> account_balance_object \<Rightarrow> account_balance_object res" where
  "abo_adjust_balance lib delta b =
     res_bind (fc_safe lib (ab_balance b + amount delta)) (\<lambda>x.
       let b1 = b\<lparr>ab_balance := x\<rparr> in
       Inr (if ab_asset_type b1 = core_asset then b1\<lparr>ab_maintenance_flag := True\<rparr> else b1))"

definition adjust_balance :: "fc_lib \<Rightarrow> account_id \<Rightarrow> asset \<Rightarrow> database \<Rightarrow> database res" where
  "adjust_balance lib acc delta db =
     (if amount delta = 0 then Inr db
      else case find_account_balance db acc (asset_id delta) of
        None \<Rightarrow>
          FC_ASSERT (amount delta > 0) ''Insufficient Balance''
            (Inr (db\<lparr>balances := ix_create \<lparr>ab_owner = acc, ab_asset_type = asset_id delta, ab_balance = amount delta,
               ab_maintenance_flag = (asset_id delta = core_asset)\<rparr> (balances db)\<rparr>))
      | Some (i, b) \<Rightarrow>
          res_bind (if amount delta < 0
                    then res_bind (asset_neg (fc_safe lib) delta) (\<lambda>nd.
                         res_bind (asset_ge (mk_asset (ab_balance b) (ab_asset_type b)) nd) (\<lambda>enough.
                           FC_ASSERT enough ''Insufficient Balance'' (Inr ())))
                    else Inr ()) (\<lambda>_.
          res_bind (ix_modify i (abo_adjust_balance lib delta) (balances db)) (\<lambda>ix. Inr (db\<lparr>balances := ix\<rparr>))))"

declare ledger.moves_refl [simp]

lemma part_simps [simp]:
  "part (mk_asset 0 i) a = 0"
  "part (mk_asset (x + y) i) a = part (mk_asset x i) a + part (mk_asset y i) a"
  "part (mk_asset (x - y) i) a = part (mk_asset x i) a - part (mk_asset y i) a"
  "part (mk_asset (- x) i) a = - part (mk_asset x i) a"
  "part (mk_asset (amount z) (asset_id z)) a = part z a"
  by (simp_all add: part_def)

lemma asset_eta [simp]: "mk_asset (amount z) (asset_id z) = z"
  by simp

lemma part_zero [simp]: "part (mk_asset 0 i) = (\<lambda>_. 0)"
  by (simp add: fun_eq_iff)

lemma abo_adjust_balance_move:
  assumes "abo_adjust_balance lib delta b = Inr b'" "safe_exact (fc_safe lib)" "ab_asset_type b = asset_id delta"
  shows "part (mk_asset (ab_balance b') (ab_asset_type b')) a
       = part (mk_asset (ab_balance b) (ab_asset_type b)) a + part delta a"
    "ab_owner b' = ab_owner b" "ab_asset_type b' = ab_asset_type b" "ab_balance b' = ab_balance b + amount delta"
proof -
  from assms(1,2) have b': "b' = (if ab_asset_type b = core_asset
      then b\<lparr>ab_balance := ab_balance b + amount delta, ab_maintenance_flag := True\<rparr>
      else b\<lparr>ab_balance := ab_balance b + amount delta\<rparr>)"
    by (auto simp: abo_adjust_balance_def Let_def dest: safe_exactD)
  then show o: "ab_owner b' = ab_owner b" "ab_asset_type b' = ab_asset_type b" "ab_balance b' = ab_balance b + amount delta"
    by simp_all
  show "part (mk_asset (ab_balance b') (ab_asset_type b')) a
       = part (mk_asset (ab_balance b) (ab_asset_type b)) a + part delta a"
    by (simp add: o assms(3))
qed

lemma adjust_balanceE:
  assumes "adjust_balance lib acc delta db = Inr db'" "safe_exact (fc_safe lib)" "ix_ok (balances db)"
  obtains "amount delta = 0" "db' = db"
  | "find_account_balance db acc (asset_id delta) = None" "amount delta > 0"
    "db' = db\<lparr>balances := ix_create \<lparr>ab_owner = acc, ab_asset_type = asset_id delta, ab_balance = amount delta,
               ab_maintenance_flag = (asset_id delta = core_asset)\<rparr> (balances db)\<rparr>"
  | i b b' ix where "find_account_balance db acc (asset_id delta) = Some (i, b)" "ix_get i (balances db) = Some b"
    "ab_owner b = acc" "ab_asset_type b = asset_id delta"
    "ix_modify i (abo_adjust_balance lib delta) (balances db) = Inr ix" "abo_adjust_balance lib delta b = Inr b'"
    "db' = db\<lparr>balances := ix\<rparr>" "0 \<le> ab_balance b + amount delta \<or> 0 < amount delta"
proof (cases "amount delta = 0")
  case True
  with assms that(1) show thesis by (simp add: adjust_balance_def)
next
  case False
  show thesis
  proof (cases "find_account_balance db acc (asset_id delta)")
    case None
    with assms False that(2) show thesis by (simp add: adjust_balance_def)
  next
    case (Some p)
    obtain i b where p: "p = (i, b)" by (cases p)
    from Some assms(3) have b: "ix_get i (balances db) = Some b" "ab_owner b = acc" "ab_asset_type b = asset_id delta"
      by (auto simp: p find_account_balance_def dest: ix_find_Some)
    from assms(1) False Some obtain ix where ix: "ix_modify i (abo_adjust_balance lib delta) (balances db) = Inr ix"
      "db' = db\<lparr>balances := ix\<rparr>" by (auto simp: adjust_balance_def p)
    from ix(1) b(1) obtain b' where "abo_adjust_balance lib delta b = Inr b'" by (auto elim: ix_modifyE)
    moreover have "0 \<le> ab_balance b + amount delta \<or> 0 < amount delta"
      using assms(1,2) False Some b by (auto simp: adjust_balance_def p asset_neg_def asset_ge_def asset_less_def
          split: if_splits dest: safe_exactD)
    ultimately show thesis using that(3) Some b ix by (simp add: p)
  qed
qed

lemma moves_adjust_balance [moves_intros]:
  assumes "adjust_balance lib acc delta db = Inr db'" "safe_exact (fc_safe lib)"
  shows "moves (part delta) db db'"
proof (cases "db_ok db")
  case True
  then have ok: "ix_ok (balances db)" by (simp add: db_ok_def)
  show ?thesis
  proof (rule adjust_balanceE [OF assms ok])
    assume "amount delta = 0" "db' = db"
    then show ?thesis by (simp add: moves_def part_def)
  next
    assume "db' = db\<lparr>balances := ix_create \<lparr>ab_owner = acc, ab_asset_type = asset_id delta, ab_balance = amount delta,
               ab_maintenance_flag = (asset_id delta = core_asset)\<rparr> (balances db)\<rparr>"
    then show ?thesis by (auto intro!: moves_balances ix_ok_create simp: table_simps)
  next
    fix i b b' ix
    assume b: "ix_get i (balances db) = Some b" "ab_asset_type b = asset_id delta"
      and ix: "ix_modify i (abo_adjust_balance lib delta) (balances db) = Inr ix" "abo_adjust_balance lib delta b = Inr b'"
      and db': "db' = db\<lparr>balances := ix\<rparr>"
    from ix b have "\<And>g. ix_sum g ix = ix_sum g (balances db) - g b + g b'" by (auto elim!: ix_modifyE)
    then show ?thesis unfolding db' using abo_adjust_balance_move [OF ix(2) assms(2) b(2)]
      by (auto intro!: moves_balances ix_ok_modify [OF _ ix(1)])
  qed
qed (simp add: moves_def)

text \<open>What the books say afterwards.\<close>

lemma find_create:
  "List.find P (xs @ [y]) = (case List.find P xs of Some x \<Rightarrow> Some x | None \<Rightarrow> if P y then Some y else None)"
  by (induction xs) auto

lemma find_t_upd:
  assumes "distinct (map fst t)" "map_of t i = Some x" "P y = P x"
  shows "List.find (\<lambda>p. P (snd p)) (t_upd i (\<lambda>_. y) t)
    = map_option (\<lambda>p. if fst p = i then (i, y) else p) (List.find (\<lambda>p. P (snd p)) t)"
  using assms
proof (induction t)
  case (Cons p t)
  obtain j z where p: "p = (j, z)" by (cases p)
  show ?case
  proof (cases "j = i")
    case True
    have "List.find (\<lambda>p. P (snd p)) t = Some q \<Longrightarrow> fst q \<noteq> i" for q
      using Cons.prems(1) True by (force simp: p find_Some_iff)
    then have "map_option (\<lambda>p. if fst p = i then (i, y) else p) (List.find (\<lambda>p. P (snd p)) t) = List.find (\<lambda>p. P (snd p)) t"
      by (cases "List.find (\<lambda>p. P (snd p)) t") auto
    with True Cons.prems show ?thesis by (simp add: p)
  next
    case False
    with Cons show ?thesis by (simp add: p)
  qed
qed simp

lemma get_balance_adjust:
  assumes "adjust_balance lib acc delta db = Inr db'" "safe_exact (fc_safe lib)" "ix_ok (balances db)"
  shows "get_balance db' x a = mk_asset (amount (get_balance db x a) + (if x = acc then part delta a else 0)) a"
proof -
  have id: "get_balance db x a = mk_asset (amount (get_balance db x a)) a"
    using assms(3) by (auto simp: get_balance_def find_account_balance_def split: option.splits dest: ix_find_Some)
  show ?thesis
  proof (rule adjust_balanceE [OF assms])
    assume "amount delta = 0" "db' = db"
    moreover obtain m where "get_balance db x a = mk_asset m a" using id by blast
    ultimately show ?thesis by (cases "x = acc") (simp_all add: part_def)
  next
    assume n: "find_account_balance db acc (asset_id delta) = None"
      and db': "db' = db\<lparr>balances := ix_create \<lparr>ab_owner = acc, ab_asset_type = asset_id delta, ab_balance = amount delta,
               ab_maintenance_flag = (asset_id delta = core_asset)\<rparr> (balances db)\<rparr>"
    show ?thesis
    proof (cases "find_account_balance db x a")
      case None
      then show ?thesis
        by (auto simp: db' get_balance_def find_account_balance_def ix_find_def ix_create_def find_create part_def)
    next
      case (Some p)
      then have "\<not> (x = acc \<and> asset_id delta = a)" using n by auto
      with Some id show ?thesis
        by (auto simp: db' get_balance_def find_account_balance_def ix_find_def ix_create_def find_create part_def
            split: option.splits)
    qed
  next
    fix i b b' ix
    assume f: "find_account_balance db acc (asset_id delta) = Some (i, b)"
      and b: "ix_get i (balances db) = Some b" "ab_owner b = acc" "ab_asset_type b = asset_id delta"
      and ix: "ix_modify i (abo_adjust_balance lib delta) (balances db) = Inr ix" "abo_adjust_balance lib delta b = Inr b'"
      and db': "db' = db\<lparr>balances := ix\<rparr>"
    note b' = abo_adjust_balance_move [OF ix(2) assms(2) b(3)]
    let ?P = "\<lambda>b. ab_owner b = x \<and> ab_asset_type b = a"
    have "ix_tab ix = t_upd i (\<lambda>_. b') (ix_tab (balances db))" using ix b by (auto simp: ix_modify_def)
    then have "find_account_balance db' x a = map_option (\<lambda>p. if fst p = i then (i, b') else p) (find_account_balance db x a)"
      using find_t_upd [of "ix_tab (balances db)" i b ?P b'] b b' assms(3)
      by (simp add: find_account_balance_def ix_find_def db' ix_ok_def ix_get_def)
    moreover have "find_account_balance db x a = Some (j, c) \<Longrightarrow> ix_get j (balances db) = Some c \<and> ab_owner c = x \<and> ab_asset_type c = a" for j c
      using assms(3) by (auto simp: find_account_balance_def dest: ix_find_Some)
    ultimately show ?thesis using f b b' id
      by (cases "find_account_balance db x a") (auto simp: get_balance_def part_def split: if_splits)
  qed
qed

lemma adjust_balance_succeeds:
  assumes "fc_lib_ok lib" "ix_ok (balances db)" "- (2 ^ 63) < amount delta" "amount delta < 2 ^ 63"
    "0 \<le> amount (get_balance db acc (asset_id delta))"
    "amount (get_balance db acc (asset_id delta)) + amount delta < 2 ^ 63"
  shows "(\<exists>db'. adjust_balance lib acc delta db = Inr db') \<longleftrightarrow>
    0 \<le> amount (get_balance db acc (asset_id delta)) + amount delta"
proof (cases "find_account_balance db acc (asset_id delta)")
  case None
  then show ?thesis by (auto simp: adjust_balance_def get_balance_def)
next
  case (Some p)
  obtain i b where p: "p = (i, b)" by (cases p)
  with Some assms(2) have b: "ix_get i (balances db) = Some b" "ab_asset_type b = asset_id delta"
    by (auto simp: find_account_balance_def dest: ix_find_Some)
  have bal: "get_balance db acc (asset_id delta) = mk_asset (ab_balance b) (asset_id delta)"
    by (simp add: get_balance_def Some p b)
  have neg: "fc_safe lib (- amount delta) = Inr (- amount delta)"
    using assms by (intro fc_safe_in_range) auto
  have "0 \<le> ab_balance b + amount delta \<Longrightarrow> fc_safe lib (ab_balance b + amount delta) = Inr (ab_balance b + amount delta)"
    using assms bal by (intro fc_safe_in_range) auto
  then show ?thesis using neg b assms(5)
    by (auto simp: adjust_balance_def Some p bal ix_modify_def abo_adjust_balance_def asset_neg_def asset_ge_def asset_less_def
        FC_ASSERT_def Let_def res_bind_def opt_get_def split: sum.splits option.splits)
qed

subsection \<open>Vesting deposits of the database\<close>

text \<open>The updates of \<open>asset_dynamic_data_object\<close> that the code makes.\<close>

definition sub_current_supply :: "fc_lib \<Rightarrow> int \<Rightarrow> asset_dynamic_data_object \<Rightarrow> asset_dynamic_data_object res" where
  "sub_current_supply lib x d = res_bind (fc_safe lib (current_supply d - x)) (\<lambda>y. Inr (d\<lparr>current_supply := y\<rparr>))"

definition add_current_supply :: "fc_lib \<Rightarrow> int \<Rightarrow> asset_dynamic_data_object \<Rightarrow> asset_dynamic_data_object res" where
  "add_current_supply lib x d = res_bind (fc_safe lib (current_supply d + x)) (\<lambda>y. Inr (d\<lparr>current_supply := y\<rparr>))"

definition add_accumulated_fees :: "fc_lib \<Rightarrow> int \<Rightarrow> asset_dynamic_data_object \<Rightarrow> asset_dynamic_data_object res" where
  "add_accumulated_fees lib x d = res_bind (fc_safe lib (accumulated_fees d + x)) (\<lambda>y. Inr (d\<lparr>accumulated_fees := y\<rparr>))"

definition add_fee_pool :: "fc_lib \<Rightarrow> int \<Rightarrow> asset_dynamic_data_object \<Rightarrow> asset_dynamic_data_object res" where
  "add_fee_pool lib x d = res_bind (fc_safe lib (fee_pool d + x)) (\<lambda>y. Inr (d\<lparr>fee_pool := y\<rparr>))"

lemma moves_dyn_data [moves_intros]:
  assumes "safe_exact (fc_safe lib)"
  shows "modify_dyn_data b (sub_current_supply lib x) db = Inr db' \<Longrightarrow> moves (part (mk_asset x b)) db db'"
    "modify_dyn_data b (add_current_supply lib x) db = Inr db' \<Longrightarrow> moves (part (mk_asset (- x) b)) db db'"
    "modify_dyn_data b (add_accumulated_fees lib x) db = Inr db' \<Longrightarrow> moves (part (mk_asset x b)) db db'"
    "modify_dyn_data b (add_fee_pool lib x) db = Inr db' \<Longrightarrow> moves (core_part x) db db'"
proof -
  note defs = sub_current_supply_def add_current_supply_def add_accumulated_fees_def add_fee_pool_def dyn_data_move_def
    dyn_balance_def fun_eq_iff
  have m: "sub_current_supply lib x d = Inr d' \<Longrightarrow> dyn_data_move b d d' = part (mk_asset x b)"
    "add_current_supply lib x d = Inr d' \<Longrightarrow> dyn_data_move b d d' = part (mk_asset (- x) b)"
    "add_accumulated_fees lib x d = Inr d' \<Longrightarrow> dyn_data_move b d d' = part (mk_asset x b)"
    "add_fee_pool lib x d = Inr d' \<Longrightarrow> dyn_data_move b d d' = core_part x" for d d'
    by (auto simp: defs dest!: safe_exactD [OF assms])
  show "modify_dyn_data b (sub_current_supply lib x) db = Inr db' \<Longrightarrow> moves (part (mk_asset x b)) db db'"
    by (elim modify_dyn_dataE) (metis m(1))
  show "modify_dyn_data b (add_current_supply lib x) db = Inr db' \<Longrightarrow> moves (part (mk_asset (- x) b)) db db'"
    by (elim modify_dyn_dataE) (metis m(2))
  show "modify_dyn_data b (add_accumulated_fees lib x) db = Inr db' \<Longrightarrow> moves (part (mk_asset x b)) db db'"
    by (elim modify_dyn_dataE) (metis m(3))
  show "modify_dyn_data b (add_fee_pool lib x) db = Inr db' \<Longrightarrow> moves (core_part x) db db'"
    by (elim modify_dyn_dataE) (metis m(4))
qed

text \<open>The lookup in the unique index \<open>by_vesting_type\<close> with a \<open>vbo_mfs_key\<close>.\<close>

definition vbo_mfs_key :: "account_id \<Rightarrow> asset_id \<Rightarrow> vesting_balance_object \<Rightarrow> bool" where
  "vbo_mfs_key acc a vbo \<longleftrightarrow> vb_balance_type vbo = Market_fee_sharing \<and> a = asset_id (vb_balance vbo) \<and> acc = vb_owner vbo"

definition get_market_fee_vesting_balance :: "database \<Rightarrow> account_id \<Rightarrow> asset_id \<Rightarrow> asset" where
  "get_market_fee_vesting_balance db acc a =
     (case ix_find (vbo_mfs_key acc a) (vestings db) of None \<Rightarrow> mk_asset 0 a | Some (i, vbo) \<Rightarrow> vb_balance vbo)"

definition deposit_market_fee_vesting_balance :: "fc_lib \<Rightarrow> account_id \<Rightarrow> asset \<Rightarrow> database \<Rightarrow> database res" where
  "deposit_market_fee_vesting_balance lib acc delta db =
     FC_ASSERT (amount delta \<ge> 0) ''Invalid negative value for balance''
     (if amount delta = 0 then Inr db
      else case ix_find (vbo_mfs_key acc (asset_id delta)) (vestings db) of
        None \<Rightarrow> Inr (db\<lparr>vestings := ix_create \<lparr>vb_owner = acc, vb_balance = delta, vb_policy = Instant_vesting,
                          vb_balance_type = Market_fee_sharing\<rparr> (vestings db)\<rparr>)
      | Some (i, _) \<Rightarrow>
          res_bind (ix_modify i (\<lambda>vbo. vbo_deposit_vested lib vbo (head_block_time db) delta) (vestings db)) (\<lambda>ix.
            Inr (db\<lparr>vestings := ix\<rparr>)))"

definition lazy_vesting_target :: "obj_id option \<Rightarrow> nat \<Rightarrow> account_id \<Rightarrow> database \<Rightarrow> obj_id option res" where
  "lazy_vesting_target ovbid req_vesting_seconds req_owner db =
     (case ovbid of None \<Rightarrow> Inr None
      | Some i \<Rightarrow>
          res_bind (opt_get ''Unable to find Object'' (ix_get i (vestings db))) (\<lambda>vbo.
            Inr (if vb_owner vbo \<noteq> req_owner then None
                 else case vb_policy vbo of
                   Cdd_vesting p \<Rightarrow> if vesting_seconds p \<noteq> req_vesting_seconds then None else Some i
                 | _ \<Rightarrow> None)))"

definition deposit_lazy_vesting ::
  "fc_lib \<Rightarrow> obj_id option \<Rightarrow> int \<Rightarrow> nat \<Rightarrow> vesting_balance_type \<Rightarrow> account_id \<Rightarrow> bool \<Rightarrow> database \<Rightarrow> (obj_id option \<times> database) res" where
  "deposit_lazy_vesting lib ovbid amt req_vesting_seconds btype req_owner require_vesting db =
     (if amt = 0 then Inr (None, db)
      else let now = head_block_time db in
        res_bind (lazy_vesting_target ovbid req_vesting_seconds req_owner db) (\<lambda>target.
        case target of
          Some i \<Rightarrow>
            res_bind (ix_modify i (\<lambda>vbo. if require_vesting then vbo_deposit lib vbo now (mk_asset amt core_asset)
                                         else vbo_deposit_vested lib vbo now (mk_asset amt core_asset)) (vestings db)) (\<lambda>ix.
              Inr (None, db\<lparr>vestings := ix\<rparr>))
        | None \<Rightarrow>
            Inr (Some (ix_next (vestings db)),
              db\<lparr>vestings := ix_create \<lparr>vb_owner = req_owner, vb_balance = mk_asset amt core_asset,
                   vb_policy = Cdd_vesting \<lparr>vesting_seconds = req_vesting_seconds,
                     coin_seconds_earned = (if require_vesting then 0 else u128 (wrap_int64 (amt * int req_vesting_seconds))),
                     start_claim = 0, coin_seconds_earned_last_update = now\<rparr>,
                   vb_balance_type = btype\<rparr> (vestings db)\<rparr>)))"

definition deposit_cashback :: "fc_lib \<Rightarrow> account_id \<Rightarrow> int \<Rightarrow> bool \<Rightarrow> database \<Rightarrow> database res" where
  "deposit_cashback lib acc amt require_vesting db =
     (if amt = 0 then Inr db
      else if acc = GRAPHENE_COMMITTEE_ACCOUNT \<or> acc = GRAPHENE_WITNESS_ACCOUNT \<or> acc = GRAPHENE_RELAXED_COMMITTEE_ACCOUNT
              \<or> acc = GRAPHENE_NULL_ACCOUNT \<or> acc = GRAPHENE_TEMP_ACCOUNT
      then modify_dyn_data core_asset (sub_current_supply lib amt) db
      else res_bind (get_account db acc) (\<lambda>ao.
           res_bind (deposit_lazy_vesting lib (cashback_vb ao) amt (cashback_vesting_period_seconds (parameters db)) Cashback acc
                       require_vesting db) (\<lambda>(new_vbid, db1).
           case new_vbid of
             None \<Rightarrow> Inr db1
           | Some vb \<Rightarrow>
               res_bind (ix_modify acc (\<lambda>a. Inr (a\<lparr>cashback_vb := Some vb\<rparr>)) (accounts db1)) (\<lambda>ix.
                 modify_statistics acc (\<lambda>s. Inr (s\<lparr>has_cashback_vb := True\<rparr>)) (db1\<lparr>accounts := ix\<rparr>)))))"

definition deposit_witness_pay :: "fc_lib \<Rightarrow> obj_id \<Rightarrow> int \<Rightarrow> database \<Rightarrow> database res" where
  "deposit_witness_pay lib wid amt db =
     (if amt = 0 then Inr db
      else res_bind (opt_get ''Unable to find Object'' (ix_get wid (witnesses db))) (\<lambda>wit.
           res_bind (deposit_lazy_vesting lib (pay_vb wit) amt (witness_pay_vesting_seconds (parameters db)) Witness
                       (witness_account wit) True db) (\<lambda>(new_vbid, db1).
           case new_vbid of
             None \<Rightarrow> Inr db1
           | Some vb \<Rightarrow>
               res_bind (ix_modify wid (\<lambda>w. Inr (w\<lparr>pay_vb := Some vb\<rparr>)) (witnesses db1)) (\<lambda>ix. Inr (db1\<lparr>witnesses := ix\<rparr>)))))"

lemma asset_add_move: "asset_add sf x y = Inr z \<Longrightarrow> safe_exact sf \<Longrightarrow> part z a = part x a + part y a"
  by (auto simp: asset_add_def part_def dest: safe_exactD)

lemma asset_sub_move: "asset_sub sf x y = Inr z \<Longrightarrow> safe_exact sf \<Longrightarrow> part z a = part x a - part y a"
  by (auto simp: asset_sub_def part_def dest: safe_exactD)

lemma vbo_deposit_move:
  "vbo_deposit lib v now x = Inr v' \<Longrightarrow> safe_exact (fc_safe lib) \<Longrightarrow> part (vb_balance v') a = part (vb_balance v) a + part x a"
  "vbo_deposit_vested lib v now x = Inr v' \<Longrightarrow> safe_exact (fc_safe lib) \<Longrightarrow> part (vb_balance v') a = part (vb_balance v) a + part x a"
  by (auto simp: vbo_deposit_def vbo_deposit_vested_def asset_add_move)

lemma moves_modify_vesting:
  assumes "ix_modify i f (vestings db) = Inr ix"
    "\<And>v v' a. f v = Inr v' \<Longrightarrow> part (vb_balance v') a = part (vb_balance v) a + part x a"
  shows "moves (part x) db (db\<lparr>vestings := ix\<rparr>)"
proof -
  from assms(1) obtain v v' where "f v = Inr v'" "\<And>g. ix_sum g ix = ix_sum g (vestings db) - g v + g v'"
    by (elim ix_modifyE) blast
  with assms(2) show ?thesis by (auto intro!: moves_vestings ix_ok_modify [OF _ assms(1)])
qed

lemma moves_create_vesting:
  "vb_balance v = x \<Longrightarrow> moves (part x) db (db\<lparr>vestings := ix_create v (vestings db)\<rparr>)"
  by (auto intro!: moves_vestings ix_ok_create simp: table_simps)

lemma moves_zero [simp]: "amount x = 0 \<Longrightarrow> moves (part x) db db"
  by (simp add: moves_def part_def)

lemma moves_deposit_market_fee [moves_intros]:
  assumes "deposit_market_fee_vesting_balance lib acc delta db = Inr db'" "safe_exact (fc_safe lib)"
  shows "moves (part delta) db db'"
  using assms
  by (auto simp: deposit_market_fee_vesting_balance_def split: if_splits option.splits
      intro!: moves_create_vesting moves_modify_vesting vbo_deposit_move)

lemma moves_deposit_lazy_vesting [moves_intros]:
  assumes "deposit_lazy_vesting lib ovb amt secs bt owner req db = Inr (r, db')" "safe_exact (fc_safe lib)"
  shows "moves (core_part amt) db db'" "\<exists>ix. db' = db\<lparr>vestings := ix\<rparr>"
proof -
  show "moves (core_part amt) db db'"
    using assms by (auto simp: deposit_lazy_vesting_def Let_def split: if_splits option.splits
        intro!: moves_create_vesting moves_modify_vesting dest: vbo_deposit_move)
  show "\<exists>ix. db' = db\<lparr>vestings := ix\<rparr>"
    using assms by (auto simp: deposit_lazy_vesting_def Let_def split: if_splits option.splits)
      (metis (no_types) database.surjective database.update_convs(11))+
qed

text \<open>The pending fees of all accounts.\<close>

definition pending_of :: "database \<Rightarrow> obj_id \<Rightarrow> (int \<times> int) option" where
  "pending_of db i = map_option (\<lambda>s. (pending_fees s, pending_vested_fees s)) (ix_get i (account_stats db))"

lemma moves_deposit_cashback [moves_intros]:
  assumes "deposit_cashback lib acc amt req db = Inr db'" "safe_exact (fc_safe lib)"
  shows "moves (core_part amt) db db'" "pending_of db' = pending_of db"
proof -
  have "moves (core_part amt) db db' \<and> pending_of db' = pending_of db"
  proof (cases "amt = 0")
    case False
    note nz = this
    show ?thesis
    proof (cases "acc = GRAPHENE_COMMITTEE_ACCOUNT \<or> acc = GRAPHENE_WITNESS_ACCOUNT \<or> acc = GRAPHENE_RELAXED_COMMITTEE_ACCOUNT
              \<or> acc = GRAPHENE_NULL_ACCOUNT \<or> acc = GRAPHENE_TEMP_ACCOUNT")
      case True
      with assms(1) nz have "modify_dyn_data core_asset (sub_current_supply lib amt) db = Inr db'" by (simp add: deposit_cashback_def)
      with moves_dyn_data(1) [OF assms(2) this] show ?thesis by (auto simp: pending_of_def elim!: modify_dyn_dataE)
    next
      case False
      with assms(1) nz obtain ao :: account_object and r db1 where l: "deposit_lazy_vesting lib (cashback_vb ao) amt
          (cashback_vesting_period_seconds (parameters db)) Cashback acc req db = Inr (r, db1)"
        and rest: "(case r of None \<Rightarrow> Inr db1 | Some vb \<Rightarrow>
               res_bind (ix_modify acc (\<lambda>a. Inr (a\<lparr>cashback_vb := Some vb\<rparr>)) (accounts db1)) (\<lambda>ix.
                 modify_statistics acc (\<lambda>s. Inr (s\<lparr>has_cashback_vb := True\<rparr>)) (db1\<lparr>accounts := ix\<rparr>))) = Inr db'"
        by (auto simp: deposit_cashback_def simp del: res_bind_Inr elim!: res_bind_InrE intro: that)
      note l' = moves_deposit_lazy_vesting [OF l assms(2)]
      show ?thesis
      proof (cases r)
        case None
        with rest l' show ?thesis by (auto simp: pending_of_def)
      next
        case (Some vb)
        with rest obtain ix where ms: "modify_statistics acc (\<lambda>s. Inr (s\<lparr>has_cashback_vb := True\<rparr>)) (db1\<lparr>accounts := ix\<rparr>) = Inr db'"
          by auto
        then have "moves (\<lambda>_. 0) (db1\<lparr>accounts := ix\<rparr>) db'" by (elim modify_statisticsE) auto
        moreover have "pending_of db' = pending_of db1"
          using ms by (auto simp: modify_statistics_def pending_of_def get_account_def fun_eq_iff elim!: ix_modifyE)
        ultimately show ?thesis
          using l' ledger.moves_trans [OF l'(1) ledger.moves_trans [OF moves_neutral(4)]] by (fastforce simp: pending_of_def)
      qed
    qed
  qed (use assms in \<open>simp add: deposit_cashback_def\<close>)
  then show "moves (core_part amt) db db'" "pending_of db' = pending_of db" by simp_all
qed

lemma moves_deposit_witness_pay [moves_intros]:
  assumes "deposit_witness_pay lib wid amt db = Inr db'" "safe_exact (fc_safe lib)"
  shows "moves (core_part amt) db db'"
proof (cases "amt = 0")
  case False
  with assms(1) obtain wit :: witness_object and r db1 where
    l: "deposit_lazy_vesting lib (pay_vb wit) amt (witness_pay_vesting_seconds (parameters db)) Witness (witness_account wit) True db = Inr (r, db1)"
    and rest: "(case r of None \<Rightarrow> Inr db1 | Some vb \<Rightarrow>
         res_bind (ix_modify wid (\<lambda>w. Inr (w\<lparr>pay_vb := Some vb\<rparr>)) (witnesses db1)) (\<lambda>ix. Inr (db1\<lparr>witnesses := ix\<rparr>))) = Inr db'"
    by (auto simp: deposit_witness_pay_def simp del: res_bind_Inr elim!: res_bind_InrE intro: that)
  from rest have "moves (\<lambda>_. 0) db1 db'" by (auto split: option.splits simp: moves_neutral ledger.moves_refl)
  from ledger.moves_trans [OF moves_deposit_lazy_vesting(1) [OF l assms(2)] this] show ?thesis by simp
qed (use assms in \<open>simp add: deposit_witness_pay_def\<close>)

subsection \<open>Fees of an account\<close>

definition cut_fee :: "fc_lib \<Rightarrow> int \<Rightarrow> nat \<Rightarrow> int res" where
  "cut_fee lib a p =
     (if a = 0 \<or> p = 0 then Inr 0
      else if int p = GRAPHENE_100_PERCENT then Inr a
      else fc_to_share lib (u128 (u128 a * int p) div GRAPHENE_100_PERCENT))"

definition stats_pay_fee :: "fc_lib \<Rightarrow> int \<Rightarrow> int \<Rightarrow> account_statistics_object \<Rightarrow> account_statistics_object res" where
  "stats_pay_fee lib core_fee threshold s =
     (if core_fee > threshold
      then res_bind (fc_safe lib (pending_fees s + core_fee)) (\<lambda>x. Inr (s\<lparr>pending_fees := x\<rparr>))
      else res_bind (fc_safe lib (pending_vested_fees s + core_fee)) (\<lambda>x. Inr (s\<lparr>pending_vested_fees := x\<rparr>)))"

definition pay_out_fees :: "fc_lib \<Rightarrow> account_id \<Rightarrow> int \<Rightarrow> bool \<Rightarrow> database \<Rightarrow> database res" where
  "pay_out_fees lib acc core_fee_total require_vesting db =
     res_bind (get_account db acc) (\<lambda>account.
     res_bind (get_account db (referrer account)) (\<lambda>ref.
     res_bind (if is_basic_account ref (head_block_time db)
               then res_bind (ix_modify acc (\<lambda>a. Inr (a\<lparr>referrer := lifetime_referrer a\<rparr>)) (accounts db)) (\<lambda>ix. Inr (db\<lparr>accounts := ix\<rparr>))
               else Inr db) (\<lambda>db1.
     res_bind (get_account db1 acc) (\<lambda>account.
     res_bind (cut_fee lib core_fee_total (network_fee_percentage account)) (\<lambda>network_cut.
     res_bind (cut_fee lib core_fee_total (lifetime_referrer_fee_percentage account)) (\<lambda>lifetime_cut.
     res_bind (fc_safe lib (core_fee_total - network_cut)) (\<lambda>rest.
     res_bind (fc_safe lib (rest - lifetime_cut)) (\<lambda>referral.
     res_bind (modify_dyn_data core_asset (add_accumulated_fees lib network_cut) db1) (\<lambda>db2.
     res_bind (cut_fee lib referral (referrer_rewards_percentage account)) (\<lambda>referrer_cut.
     res_bind (fc_safe lib (referral - referrer_cut)) (\<lambda>registrar_cut.
     res_bind (get_account db2 (lifetime_referrer account)) (\<lambda>_.
     res_bind (deposit_cashback lib (lifetime_referrer account) lifetime_cut require_vesting db2) (\<lambda>db3.
     res_bind (get_account db3 (referrer account)) (\<lambda>_.
     res_bind (deposit_cashback lib (referrer account) referrer_cut require_vesting db3) (\<lambda>db4.
     res_bind (get_account db4 (registrar account)) (\<lambda>_.
       deposit_cashback lib (registrar account) registrar_cut require_vesting db4))))))))))))))))"

text \<open>\<open>sid\<close> is the statistics object itself, \<open>acc\<close> the account whose fees are paid out.\<close>

definition process_fees :: "fc_lib \<Rightarrow> obj_id \<Rightarrow> account_id \<Rightarrow> database \<Rightarrow> database res" where
  "process_fees lib sid acc db =
     res_bind (opt_get ''Unable to find Object'' (ix_get sid (account_stats db))) (\<lambda>s.
     if pending_fees s > 0 \<or> pending_vested_fees s > 0 then
       res_bind (pay_out_fees lib acc (pending_fees s) True db) (\<lambda>db1.
       res_bind (pay_out_fees lib acc (pending_vested_fees s) False db1) (\<lambda>db2.
       res_bind (ix_modify sid (\<lambda>s.
           res_bind (fc_safe lib (pending_fees s + pending_vested_fees s)) (\<lambda>total.
           res_bind (fc_safe lib (lifetime_fees_paid s + total)) (\<lambda>x.
             Inr (s\<lparr>lifetime_fees_paid := x, pending_fees := 0, pending_vested_fees := 0\<rparr>)))) (account_stats db2)) (\<lambda>ix.
         Inr (db2\<lparr>account_stats := ix\<rparr>))))
     else Inr db)"

lemma stats_pay_fee_move:
  "stats_pay_fee lib x t s = Inr s' \<Longrightarrow> safe_exact (fc_safe lib) \<Longrightarrow>
     pending_fees s' + pending_vested_fees s' = pending_fees s + pending_vested_fees s + x"
  by (auto simp: stats_pay_fee_def split: if_splits dest: safe_exactD)

lemma pay_out_fees_moves:
  assumes "pay_out_fees lib acc tot req db = Inr db'" "safe_exact (fc_safe lib)"
  shows "moves (core_part tot) db db'" "pending_of db' = pending_of db"
proof -
  from assms(1) obtain account ref :: account_object and db1 db2 db3 db4 network_cut lifetime_cut rest referral referrer_cut registrar_cut where
    d1: "(if is_basic_account ref (head_block_time db)
               then res_bind (ix_modify acc (\<lambda>a. Inr (a\<lparr>referrer := lifetime_referrer a\<rparr>)) (accounts db)) (\<lambda>ix. Inr (db\<lparr>accounts := ix\<rparr>))
               else Inr db) = Inr db1"
    and s: "fc_safe lib (tot - network_cut) = Inr rest" "fc_safe lib (rest - lifetime_cut) = Inr referral"
      "fc_safe lib (referral - referrer_cut) = Inr registrar_cut"
    and db2: "modify_dyn_data core_asset (add_accumulated_fees lib network_cut) db1 = Inr db2"
    and d: "deposit_cashback lib (lifetime_referrer account) lifetime_cut req db2 = Inr db3"
      "deposit_cashback lib (referrer account) referrer_cut req db3 = Inr db4"
      "deposit_cashback lib (registrar account) registrar_cut req db4 = Inr db'"
    unfolding pay_out_fees_def by (elim res_bind_InrE) (rule that)
  have db1: "db1 = db \<or> (\<exists>ix. db1 = db\<lparr>accounts := ix\<rparr>)" using d1 by (auto split: if_splits)
  have m1: "moves (\<lambda>_. 0) db db1" "pending_of db1 = pending_of db" using db1 by (auto simp: moves_neutral pending_of_def)
  have p2: "pending_of db2 = pending_of db1" using db2 by (auto simp: pending_of_def elim!: modify_dyn_dataE)
  note c = moves_deposit_cashback [OF d(1) assms(2)] moves_deposit_cashback [OF d(2) assms(2)] moves_deposit_cashback [OF d(3) assms(2)]
  note t = ledger.moves_trans [OF ledger.moves_trans [OF ledger.moves_trans [OF ledger.moves_trans [OF m1(1) moves_dyn_data(3) [OF assms(2) db2]] c(1)] c(3)] c(5)]
  have "registrar_cut = tot - network_cut - lifetime_cut - referrer_cut"
    using s safe_exactD [OF assms(2)] by metis
  then show "moves (core_part tot) db db'" using ledger.moves_weaken [OF t] by simp
  show "pending_of db' = pending_of db" using m1 p2 c by simp
qed

lemma process_fees_moves [moves_intros]:
  assumes "process_fees lib sid acc db = Inr db'" "safe_exact (fc_safe lib)"
  shows "moves (\<lambda>_. 0) db db'"
proof -
  obtain s where s: "ix_get sid (account_stats db) = Some s" using assms(1) by (auto simp: process_fees_def)
  show ?thesis
  proof (cases "pending_fees s > 0 \<or> pending_vested_fees s > 0")
    case True
    with assms(1) s obtain db1 db2 ix where p: "pay_out_fees lib acc (pending_fees s) True db = Inr db1"
      "pay_out_fees lib acc (pending_vested_fees s) False db1 = Inr db2" and db': "db' = db2\<lparr>account_stats := ix\<rparr>"
      and ix: "ix_modify sid (\<lambda>s.
           res_bind (fc_safe lib (pending_fees s + pending_vested_fees s)) (\<lambda>total.
           res_bind (fc_safe lib (lifetime_fees_paid s + total)) (\<lambda>x.
             Inr (s\<lparr>lifetime_fees_paid := x, pending_fees := 0, pending_vested_fees := 0\<rparr>)))) (account_stats db2) = Inr ix"
      by (auto simp: process_fees_def)
    note m = pay_out_fees_moves [OF p(1) assms(2)] pay_out_fees_moves [OF p(2) assms(2)]
    from ix obtain t where t: "ix_get sid (account_stats db2) = Some t"
      "\<And>a. ix_sum (\<lambda>s. core_part (pending_fees s + pending_vested_fees s) a) ix
         = ix_sum (\<lambda>s. core_part (pending_fees s + pending_vested_fees s) a) (account_stats db2) - core_part (pending_fees t + pending_vested_fees t) a"
      by (elim ix_modifyE) auto
    have "pending_of db2 sid = pending_of db sid" using m by simp
    then have "pending_fees t = pending_fees s" "pending_vested_fees t = pending_vested_fees s"
      using s t(1) by (auto simp: pending_of_def)
    then have "moves (core_part (- (pending_fees s + pending_vested_fees s))) db2 db'"
      unfolding db' using t(2) by (intro moves_account_stats) (auto intro: ix_ok_modify [OF _ ix])
    from ledger.moves_trans [OF ledger.moves_trans [OF m(1) m(3)] this] show ?thesis by (rule ledger.moves_weaken) simp
  qed (use assms s in \<open>auto simp: process_fees_def\<close>)
qed

subsection \<open>Asset authorization\<close>

definition slow_is_authorized_asset :: "account_object \<Rightarrow> asset_id \<Rightarrow> asset_object \<Rightarrow> bool" where
  "slow_is_authorized_asset acct aid ao =
     (if (case allowed_assets acct of None \<Rightarrow> False | Some al \<Rightarrow> aid \<notin> set al) then False
      else if \<exists>i\<in>set (blacklisting_accounts acct). i \<in> set (blacklist_authorities (options ao)) then False
      else if whitelist_authorities (options ao) = [] then True
      else \<exists>i\<in>set (whitelisting_accounts acct). i \<in> set (whitelist_authorities (options ao)))"

definition is_authorized_asset :: "account_object \<Rightarrow> asset_id \<Rightarrow> asset_object \<Rightarrow> bool" where
  "is_authorized_asset acct aid ao =
     (if \<not> has_flag (flags (options ao)) white_list \<and> allowed_assets acct = None then True
      else slow_is_authorized_asset acct aid ao)"

subsection \<open>The fee schedule\<close>

text \<open>\<open>required_fee\<close> is what the visitor computes for the operation from its own parameters; here it is scaled.\<close>

definition calculate_fee :: "fc_lib \<Rightarrow> fee_schedule \<Rightarrow> int \<Rightarrow> asset res" where
  "calculate_fee lib sched required_fee =
     (if fee_scale sched \<noteq> GRAPHENE_100_PERCENT then
        let scaled = u128 (u128 required_fee * fee_scale sched) div GRAPHENE_100_PERCENT in
        FC_ASSERT (scaled \<le> GRAPHENE_MAX_SHARE_SUPPLY) ''Required fee after scaling would exceed maximum possible supply''
          (res_bind (fc_to_share lib scaled) (\<lambda>x. Inr (mk_asset x core_asset)))
      else Inr (mk_asset required_fee core_asset))"

subsection \<open>Fee accumulators\<close>

definition fba_is_configured :: "database \<Rightarrow> fba_accumulator_object \<Rightarrow> bool res" where
  "fba_is_configured db fba =
     (case designated_asset fba of None \<Rightarrow> Inr False
      | Some da \<Rightarrow>
        (case ix_get da (assets db) of None \<Rightarrow> Inr False
         | Some dasset \<Rightarrow>
            if is_market_issued dasset then Inr False
            else if and (issuer_permissions (options dasset)) charge_market_fee \<noteq> issuer_permissions (options dasset) then Inr False
            else if and (flags (options dasset)) charge_market_fee \<noteq> flags (options dasset) then Inr False
            else if buyback_account dasset = None then Inr False
            else res_bind (get_account db (issuer dasset)) (\<lambda>issuer_acct.
              case (owner_special_authority issuer_acct, active_special_authority issuer_acct) of
                (Top_holders_special_authority oa _, Top_holders_special_authority aa _) \<Rightarrow>
                  Inr (oa = da \<and> aa = da \<and> top_n_control_flags issuer_acct = 3)
              | _ \<Rightarrow> Inr False)))"

subsection \<open>The fee part of an evaluator\<close>

record evaluator_state =
  fee_from_account :: asset
  core_fee_paid :: int
  fee_paying_account :: account_id
  fee_asset :: asset_id

definition prepare_fee :: "account_id \<Rightarrow> asset \<Rightarrow> database \<Rightarrow> evaluator_state res" where
  "prepare_fee acc fee db =
     FC_ASSERT (amount fee \<ge> 0) ''fee.amount >= 0''
     (res_bind (get_account db acc) (\<lambda>account.
      res_bind (opt_get ''Unable to find Object'' (ix_get (statistics account) (account_stats db))) (\<lambda>_.
      res_bind (get_asset db (asset_id fee)) (\<lambda>ao.
      res_bind (dynamic_data db ao) (\<lambda>dyn.
      FC_ASSERT (is_authorized_asset account (asset_id fee) ao) ''attempted to pay fee by using an unauthorized asset''
      (res_bind (if asset_id fee = core_asset then Inr (amount fee)
                 else res_bind (asset_times_price fee (core_exchange_rate (options ao))) (\<lambda>fee_from_pool.
                      FC_ASSERT (asset_id fee_from_pool = core_asset) ''fee_from_pool.asset_id == asset_id_type()''
                      (FC_ASSERT (amount fee_from_pool \<le> fee_pool dyn) ''Fee pool balance is less than required''
                        (Inr (amount fee_from_pool))))) (\<lambda>core_fee.
        Inr \<lparr>fee_from_account = fee, core_fee_paid = core_fee, fee_paying_account = acc, fee_asset = asset_id fee\<rparr>)))))))"

definition convert_fee :: "fc_lib \<Rightarrow> bool \<Rightarrow> evaluator_state \<Rightarrow> database \<Rightarrow> database res" where
  "convert_fee lib skip_fee st db =
     (if \<not> skip_fee \<and> fee_asset st \<noteq> core_asset
      then modify_dyn_data (fee_asset st) (\<lambda>d.
             res_bind (fc_safe lib (accumulated_fees d + amount (fee_from_account st))) (\<lambda>x.
             res_bind (fc_safe lib (fee_pool d - core_fee_paid st)) (\<lambda>y.
               Inr (d\<lparr>accumulated_fees := x, fee_pool := y\<rparr>)))) db
      else Inr db)"

definition pay_fee :: "fc_lib \<Rightarrow> bool \<Rightarrow> evaluator_state \<Rightarrow> database \<Rightarrow> database res" where
  "pay_fee lib skip_fee st db =
     (if \<not> skip_fee
      then modify_statistics (fee_paying_account st)
             (stats_pay_fee lib (core_fee_paid st) (cashback_vesting_threshold (parameters db))) db
      else Inr db)"

definition pay_fba_fee :: "fc_lib \<Rightarrow> bool \<Rightarrow> obj_id \<Rightarrow> evaluator_state \<Rightarrow> database \<Rightarrow> database res" where
  "pay_fba_fee lib skip_fee fba_id st db =
     res_bind (opt_get ''Unable to find Object'' (ix_get fba_id (fbas db))) (\<lambda>fba.
     res_bind (fba_is_configured db fba) (\<lambda>conf.
     if \<not> conf then pay_fee lib skip_fee st db
     else res_bind (ix_modify fba_id (\<lambda>f. res_bind (fc_safe lib (accumulated_fba_fees f + core_fee_paid st)) (\<lambda>x.
                      Inr (f\<lparr>accumulated_fba_fees := x\<rparr>))) (fbas db)) (\<lambda>ix. Inr (db\<lparr>fbas := ix\<rparr>))))"

text \<open>\<open>evaluate\<close> and \<open>apply\<close> of the evaluator template, with the virtual functions of the derived class as arguments;
  \<open>core_fee\<close> is the fee the operation itself computes from the schedule.\<close>

definition evaluator_evaluate ::
  "fc_lib \<Rightarrow> bool \<Rightarrow> account_id \<Rightarrow> asset \<Rightarrow> (fee_schedule \<Rightarrow> int res) \<Rightarrow> (database \<Rightarrow> unit res) \<Rightarrow> database \<Rightarrow> evaluator_state res" where
  "evaluator_evaluate lib skip_schedule_check payer fee core_fee do_evaluate db =
     res_bind (prepare_fee payer fee db) (\<lambda>st.
     res_bind (if skip_schedule_check then Inr ()
               else res_bind (core_fee (current_fees (parameters db))) (\<lambda>fee_value.
                    res_bind (calculate_fee lib (current_fees (parameters db)) fee_value) (\<lambda>required.
                    FC_ASSERT (core_fee_paid st \<ge> amount required) ''Insufficient Fee Paid'' (Inr ())))) (\<lambda>_.
     res_bind (do_evaluate db) (\<lambda>_. Inr st)))"

definition evaluator_apply ::
  "fc_lib \<Rightarrow> (evaluator_state \<Rightarrow> database \<Rightarrow> database res) \<Rightarrow> (evaluator_state \<Rightarrow> database \<Rightarrow> database res) \<Rightarrow>
   (evaluator_state \<Rightarrow> database \<Rightarrow> database res) \<Rightarrow> evaluator_state \<Rightarrow> database \<Rightarrow> database res" where
  "evaluator_apply lib convert pay do_apply st db =
     res_bind (convert st db) (\<lambda>db1.
     res_bind (pay st db1) (\<lambda>db2.
     res_bind (do_apply st db2) (\<lambda>db3.
     res_bind (asset_neg (fc_safe lib) (fee_from_account st)) (\<lambda>neg_fee.
       adjust_balance lib (fee_paying_account st) neg_fee db3))))"

definition start_evaluate ::
  "fc_lib \<Rightarrow> bool \<Rightarrow> account_id \<Rightarrow> asset \<Rightarrow> (fee_schedule \<Rightarrow> int res) \<Rightarrow> (database \<Rightarrow> unit res) \<Rightarrow>
   (evaluator_state \<Rightarrow> database \<Rightarrow> database res) \<Rightarrow> (evaluator_state \<Rightarrow> database \<Rightarrow> database res) \<Rightarrow>
   (evaluator_state \<Rightarrow> database \<Rightarrow> database res) \<Rightarrow> database \<Rightarrow> database res" where
  "start_evaluate lib skip_schedule_check payer fee core_fee do_evaluate convert pay do_apply db =
     res_bind (evaluator_evaluate lib skip_schedule_check payer fee core_fee do_evaluate db) (\<lambda>st.
       evaluator_apply lib convert pay do_apply st db)"

definition prepared :: "evaluator_state \<Rightarrow> bool" where
  "prepared st \<longleftrightarrow> fee_asset st = asset_id (fee_from_account st) \<and> 0 \<le> amount (fee_from_account st)
     \<and> (fee_asset st = core_asset \<longrightarrow> core_fee_paid st = amount (fee_from_account st)) \<and> 0 \<le> core_fee_paid st"

lemma prepare_fee_prepared: "prepare_fee acc fee db = Inr st \<Longrightarrow> prepared st \<and> fee_from_account st = fee \<and> fee_paying_account st = acc"
  by (auto simp: prepare_fee_def prepared_def dest: asset_times_price_nonneg split: if_splits)

lemma convert_fee_moves [moves_intros]:
  assumes "convert_fee lib False st db = Inr db'" "prepared st" "safe_exact (fc_safe lib)"
  shows "moves (\<lambda>a. part (fee_from_account st) a - core_part (core_fee_paid st) a) db db'"
proof (cases "fee_asset st = core_asset")
  case True
  with assms have "part (fee_from_account st) = core_part (core_fee_paid st)"
    by (auto simp: prepared_def part_def fun_eq_iff)
  with True assms show ?thesis by (simp add: convert_fee_def)
next
  case False
  with assms(1) have "modify_dyn_data (fee_asset st) (\<lambda>d.
             res_bind (fc_safe lib (accumulated_fees d + amount (fee_from_account st))) (\<lambda>x.
             res_bind (fc_safe lib (fee_pool d - core_fee_paid st)) (\<lambda>y.
               Inr (d\<lparr>accumulated_fees := x, fee_pool := y\<rparr>)))) db = Inr db'"
    by (simp add: convert_fee_def)
  then obtain d d' x y where d': "d' = d\<lparr>accumulated_fees := x, fee_pool := y\<rparr>" "moves (dyn_data_move (fee_asset st) d d') db db'"
    "fc_safe lib (accumulated_fees d + amount (fee_from_account st)) = Inr x" "fc_safe lib (fee_pool d - core_fee_paid st) = Inr y"
    by (elim modify_dyn_dataE) auto
  then have "x = accumulated_fees d + amount (fee_from_account st)" "y = fee_pool d - core_fee_paid st"
    using safe_exactD [OF assms(3)] by blast+
  with d' assms(2) show ?thesis
    by (auto elim!: ledger.moves_weaken simp: dyn_data_move_def dyn_balance_def prepared_def)
qed

lemma modify_statistics_pay_fee [moves_intros]:
  assumes "modify_statistics acc (stats_pay_fee lib x t) db = Inr db'" "safe_exact (fc_safe lib)"
  shows "moves (core_part x) db db'"
proof -
  from assms(1) obtain s s' where "stats_pay_fee lib x t s = Inr s'"
    "moves (core_part (pending_fees s' + pending_vested_fees s' - pending_fees s - pending_vested_fees s)) db db'"
    by (elim modify_statisticsE) auto
  with stats_pay_fee_move [OF this(1) assms(2)] show ?thesis by simp
qed

lemma pay_fee_moves [moves_intros]:
  "pay_fee lib False st db = Inr db' \<Longrightarrow> safe_exact (fc_safe lib) \<Longrightarrow> moves (core_part (core_fee_paid st)) db db'"
  by (auto simp: pay_fee_def intro: modify_statistics_pay_fee)

lemma pay_fba_fee_moves [moves_intros]:
  assumes "pay_fba_fee lib False i st db = Inr db'" "safe_exact (fc_safe lib)"
  shows "moves (core_part (core_fee_paid st)) db db'"
proof -
  from assms(1) obtain conf where "(if \<not> conf then pay_fee lib False st db
     else res_bind (ix_modify i (\<lambda>f. res_bind (fc_safe lib (accumulated_fba_fees f + core_fee_paid st)) (\<lambda>x.
                      Inr (f\<lparr>accumulated_fba_fees := x\<rparr>))) (fbas db)) (\<lambda>ix. Inr (db\<lparr>fbas := ix\<rparr>))) = Inr db'"
    unfolding pay_fba_fee_def by (elim res_bind_InrE) (rule that)
  then consider "pay_fee lib False st db = Inr db'"
    | ix where "ix_modify i (\<lambda>f. res_bind (fc_safe lib (accumulated_fba_fees f + core_fee_paid st)) (\<lambda>x.
                      Inr (f\<lparr>accumulated_fba_fees := x\<rparr>))) (fbas db) = Inr ix" "db' = db\<lparr>fbas := ix\<rparr>"
    by (auto split: if_splits)
  then show ?thesis
  proof cases
    case 2
    from 2(1) obtain f x where "fc_safe lib (accumulated_fba_fees f + core_fee_paid st) = Inr x"
      and sum: "\<And>g. ix_sum g ix = ix_sum g (fbas db) - g f + g (f\<lparr>accumulated_fba_fees := x\<rparr>)"
      by (elim ix_modifyE) auto
    then have "x = accumulated_fba_fees f + core_fee_paid st" using safe_exactD [OF assms(2)] by blast
    then show ?thesis unfolding 2(2) by (intro moves_fbas) (auto simp: sum intro: ix_ok_modify [OF _ 2(1)])
  qed (rule pay_fee_moves [OF _ assms(2)])
qed

lemma default_fee_routed:
  assumes "convert_fee lib False st db = Inr db1" "pay_fee lib False st db1 = Inr db2" "prepared st" "safe_exact (fc_safe lib)"
  shows "moves (part (fee_from_account st)) db db2"
  using ledger.moves_trans [OF convert_fee_moves [OF assms(1,3,4)] pay_fee_moves [OF assms(2,4)]]
  by (rule ledger.moves_weaken) simp

subsection \<open>What balance operations leave alone\<close>

text \<open>None of the operations above touches the market, the assets, the global properties or the accounts' data.\<close>

definition same_market :: "database \<Rightarrow> database \<Rightarrow> bool" where
  "same_market db db' \<longleftrightarrow> limit_orders db' = limit_orders db \<and> call_orders db' = call_orders db \<and> settlements db' = settlements db
     \<and> bids db' = bids db \<and> assets db' = assets db \<and> bitassets db' = bitassets db \<and> dgp db' = dgp db \<and> parameters db' = parameters db
     \<and> htlcs db' = htlcs db \<and> balance_objects db' = balance_objects db \<and> withdraw_permissions db' = withdraw_permissions db"

named_theorems frame_intros "operations that leave the market objects alone"

lemma same_market_refl [simp]: "same_market db db"
  by (simp add: same_market_def)

lemma same_market_trans: "same_market db db1 \<Longrightarrow> same_market db1 db2 \<Longrightarrow> same_market db db2"
  by (simp add: same_market_def)

lemma same_market_push [simp]: "same_market db (push_applied_operation vop db)"
  by (simp add: same_market_def push_applied_operation_def)

lemma same_market_adjust_balance [frame_intros]: "adjust_balance lib acc delta db = Inr db' \<Longrightarrow> same_market db db'"
  by (auto simp: adjust_balance_def same_market_def split: if_splits option.splits)

lemma same_market_modify_dyn_data [frame_intros]: "modify_dyn_data a f db = Inr db' \<Longrightarrow> same_market db db'"
  by (auto simp: modify_dyn_data_def same_market_def)

lemma same_market_modify_statistics [frame_intros]: "modify_statistics a f db = Inr db' \<Longrightarrow> same_market db db'"
  by (auto simp: modify_statistics_def same_market_def)

lemma same_market_modify_stats_by_owner [frame_intros]: "modify_stats_by_owner a f db = Inr db' \<Longrightarrow> same_market db db'"
  by (auto simp: modify_stats_by_owner_def same_market_def split: option.splits)

lemma same_market_deposit_market_fee [frame_intros]: "deposit_market_fee_vesting_balance lib acc delta db = Inr db' \<Longrightarrow> same_market db db'"
  by (auto simp: deposit_market_fee_vesting_balance_def same_market_def split: if_splits option.splits)

subsection \<open>The contract of an evaluator\<close>

text \<open>The contract of an evaluator: routing the fee and applying the operation together bring exactly the fee into
  the books, which \<open>apply\<close> then takes from the balance of the payer. \<open>kept\<close> is the part of the fee that the operation
  itself stores, \<open>pre\<close> what is required of the state before the operation, and \<open>guard\<close> what \<open>do_evaluate\<close> has made sure of when
  \<open>do_apply\<close> starts.\<close>

locale fee_paying_evaluator =
  fixes lib :: fc_lib
    and do_evaluate :: "database \<Rightarrow> unit res"
    and convert pay do_apply :: "evaluator_state \<Rightarrow> database \<Rightarrow> database res"
    and kept :: "evaluator_state \<Rightarrow> database \<Rightarrow> asset_id \<Rightarrow> int"
    and pre guard :: "database \<Rightarrow> bool"
  assumes routed: "convert st db = Inr db1 \<Longrightarrow> pay st db1 = Inr db2 \<Longrightarrow> prepared st \<Longrightarrow> safe_exact (fc_safe lib) \<Longrightarrow>
      moves (\<lambda>a. part (fee_from_account st) a - kept st db2 a) db db2"
    and checked: "do_evaluate db = Inr () \<Longrightarrow> pre db \<Longrightarrow> convert st db = Inr db1 \<Longrightarrow> pay st db1 = Inr db2 \<Longrightarrow> guard db2"
    and applied: "do_apply st db = Inr db' \<Longrightarrow> guard db \<Longrightarrow> prepared st \<Longrightarrow> safe_exact (fc_safe lib) \<Longrightarrow> moves (kept st db) db db'"
begin

lemma apply_conserves:
  assumes "evaluator_apply lib convert pay do_apply st db = Inr db'" "do_evaluate db = Inr ()" "pre db" "prepared st" "safe_exact (fc_safe lib)"
  shows "moves (\<lambda>_. 0) db db'"
proof -
  from assms(1) obtain db1 db2 db3 neg where s: "convert st db = Inr db1" "pay st db1 = Inr db2" "do_apply st db2 = Inr db3"
    "asset_neg (fc_safe lib) (fee_from_account st) = Inr neg" "adjust_balance lib (fee_paying_account st) neg db3 = Inr db'"
    unfolding evaluator_apply_def by (elim res_bind_InrE) (rule that)
  have g: "guard db2" by (rule checked [OF assms(2,3) s(1,2)])
  have "part neg a = - part (fee_from_account st) a" for a
    using s(4) safe_exactD [OF assms(5)] by (auto simp: asset_neg_def part_def)
  with ledger.moves_trans [OF ledger.moves_trans [OF routed [OF s(1,2) assms(4,5)] applied [OF s(3) g assms(4,5)]]
      moves_adjust_balance [OF s(5) assms(5)]]
  show ?thesis by (auto elim: ledger.moves_weaken)
qed

lemma start_evaluate_conserves:
  assumes "start_evaluate lib skip payer fee core_fee do_evaluate convert pay do_apply db = Inr db'" "pre db" "safe_exact (fc_safe lib)"
  shows "moves (\<lambda>_. 0) db db'"
proof -
  from assms(1) obtain st where "prepare_fee payer fee db = Inr st" "do_evaluate db = Inr ()"
    "evaluator_apply lib convert pay do_apply st db = Inr db'"
    by (auto simp: start_evaluate_def evaluator_evaluate_def)
  with prepare_fee_prepared assms(2,3) show ?thesis by (blast intro: apply_conserves)
qed

end

text \<open>Most operations pay their fee the default way and move nothing across the books themselves.\<close>

locale plain_evaluator =
  fixes lib :: fc_lib
    and do_evaluate :: "database \<Rightarrow> unit res"
    and do_apply :: "database \<Rightarrow> database res"
    and pre guard :: "database \<Rightarrow> bool"
  assumes market_checked: "do_evaluate db = Inr () \<Longrightarrow> pre db \<Longrightarrow> same_market db db' \<Longrightarrow> guard db'"
    and market_applied: "do_apply db = Inr db' \<Longrightarrow> guard db \<Longrightarrow> safe_exact (fc_safe lib) \<Longrightarrow> moves (\<lambda>_. 0) db db'"

lemma same_market_default_fee:
  "convert_fee lib False st db = Inr db1 \<Longrightarrow> pay_fee lib False st db1 = Inr db2 \<Longrightarrow> same_market db db2"
  by (auto simp: convert_fee_def pay_fee_def split: if_splits intro: frame_intros same_market_trans)

sublocale plain_evaluator \<subseteq> fee_paying_evaluator lib do_evaluate "convert_fee lib False" "pay_fee lib False" "\<lambda>_. do_apply" "\<lambda>_ _ _. 0" pre guard
proof
  show "moves (\<lambda>a. part (fee_from_account st) a - 0) db db2"
    if "convert_fee lib False st db = Inr db1" "pay_fee lib False st db1 = Inr db2" "prepared st" "safe_exact (fc_safe lib)" for st db db1 db2
    using default_fee_routed [OF that] by simp
qed (auto intro: market_checked same_market_default_fee market_applied)

end
