(* ===== verification/Margin_Calls.thy ===== *)
theory Margin_Calls
  imports Chain_State
begin

text \<open>
  How much debt a margin call covers: \<open>call_order_object::get_max_debt_to_cover\<close> of
  \<open>libraries/chain/market_object.cpp\<close>.

  The function first estimates the amount from the target collateral ratio, then searches: a binary search between
  the estimate and an upper bound (\<open>cover_search\<close>, which ends because every round strictly shrinks the interval), and, if
  rounding made even the upper bound too small, a search forward with Fibonacci steps (\<open>cover_forward\<close>, with fuel).
  \<open>int256_t\<close> values are integers; the steps of the forward search are unsigned 64-bit numbers.
\<close>

subsection \<open>Is the position good enough after the call?\<close>

text \<open>\<open>result_is_good\<close>: after core-1270 the new collateralization must exceed the target, before it the new call
  price must exceed the feed price.\<close>

definition result_is_good :: "fc_lib \<Rightarrow> call_order_object \<Rightarrow> bool \<Rightarrow> price \<Rightarrow> int \<Rightarrow> price \<Rightarrow> asset \<Rightarrow> asset \<Rightarrow> bool res" where
  "result_is_good lib co after_1270 target_collateralization tcr feed_price to_pay to_cover =
     res_bind (asset_sub (fc_safe lib) (get_collateral co) to_pay) (\<lambda>coll.
     res_bind (asset_sub (fc_safe lib) (get_debt co) to_cover) (\<lambda>dbt.
     if after_1270
     then res_bind (asset_div coll dbt) (\<lambda>new_collateralization.
            Inr (price_less target_collateralization new_collateralization))
     else res_bind (call_price_of dbt coll tcr) (\<lambda>new_call_price. Inr (price_less feed_price new_call_price))))"

subsection \<open>Binary search\<close>

datatype cover_result = Cover int | Search_forward asset asset

text \<open>One candidate between the bounds: the mean of the smaller step, stabilised by converting forth and back.\<close>

definition cover_mean :: "fc_lib \<Rightarrow> price \<Rightarrow> asset \<times> asset \<Rightarrow> asset \<times> asset \<Rightarrow> (asset \<times> asset) res" where
  "cover_mean lib mp lo hi =
     (let (min_to_pay, min_to_cover) = lo; (max_to_pay, max_to_cover) = hi in
      if amount (base mp) < amount (quote mp) then
        res_bind (fc_safe lib (amount min_to_pay + amount max_to_pay)) (\<lambda>s.
        res_bind (fc_safe lib (s + 1)) (\<lambda>s1.
        let to_pay = max_to_pay\<lparr>amount := s1 div 2\<rparr> in
        if amount to_pay = amount max_to_pay then Inr (to_pay, max_to_cover)
        else res_bind (asset_times_price to_pay mp) (\<lambda>to_cover.
          if amount to_cover \<ge> amount max_to_cover then Inr (max_to_pay, max_to_cover)
          else res_bind (multiply_and_round_up to_cover mp) (\<lambda>to_pay.
            FC_ASSERT (amount to_pay < amount max_to_pay) ''to_pay.amount < max_to_pay.amount'' (Inr (to_pay, to_cover))))))
      else
        res_bind (fc_safe lib (amount min_to_cover + amount max_to_cover)) (\<lambda>s.
        let to_cover = max_to_cover\<lparr>amount := s div 2\<rparr> in
        if amount to_cover = amount max_to_cover then Inr (max_to_pay, to_cover)
        else res_bind (multiply_and_round_up to_cover mp) (\<lambda>to_pay.
          if amount to_pay \<ge> amount max_to_pay then Inr (max_to_pay, max_to_cover)
          else res_bind (asset_times_price to_pay mp) (\<lambda>to_cover.
            if amount to_cover \<ge> amount max_to_cover then Inr (max_to_pay, max_to_cover)
            else Inr (to_pay, to_cover)))))"

text \<open>A candidate that did not move away from the minimum, or is beyond the maximum, is replaced by the maximum.\<close>

definition cover_clamp :: "asset \<times> asset \<Rightarrow> asset \<times> asset \<Rightarrow> asset \<times> asset \<Rightarrow> asset \<times> asset" where
  "cover_clamp lo hi c =
     (if amount (fst c) \<le> amount (fst lo) \<or> amount (snd c) \<le> amount (snd lo)
         \<or> amount (fst c) > amount (fst hi) \<or> amount (snd c) > amount (snd hi)
      then hi else c)"

function cover_search ::
  "(asset \<times> asset \<Rightarrow> asset \<times> asset \<Rightarrow> (asset \<times> asset) res) \<Rightarrow> (asset \<times> asset \<Rightarrow> bool res) \<Rightarrow> call_order_object \<Rightarrow>
   bool \<Rightarrow> asset \<times> asset \<Rightarrow> asset \<times> asset \<Rightarrow> cover_result res" where
  "cover_search mean good co max_is_ok lo hi =
     res_bind (mean lo hi) (\<lambda>m.
     let c = cover_clamp lo hi m in
     if amount (fst c) = amount (fst hi) \<and> (max_is_ok \<or> amount (fst c) = collateral co) then Inr (Cover (amount (snd c)))
     else FC_ASSERT (amount (fst c) < collateral co \<and> amount (snd c) < debt co) ''to_pay.amount < collateral && to_cover.amount < debt''
     (res_bind (good c) (\<lambda>g.
      if g then
        if amount (fst c) = amount (fst hi) then Inr (Cover (amount (snd c)))
        else cover_search mean good co True lo c
      else
        if amount (fst c) = amount (fst hi) then Inr (Search_forward (fst c) (snd c))
        else cover_search mean good co max_is_ok c hi)))"
  by pat_completeness auto
termination
  by (relation "measure (\<lambda>(mean, good, co, max_is_ok, lo, hi). nat (amount (fst hi) - amount (fst lo)))")
     (auto simp: cover_clamp_def split: if_splits)

declare cover_search.simps [simp del]

subsection \<open>Search forward\<close>

fun cover_forward :: "nat \<Rightarrow> fc_lib \<Rightarrow> (asset \<times> asset \<Rightarrow> bool res) \<Rightarrow> call_order_object \<Rightarrow> price \<Rightarrow> int \<Rightarrow> int \<Rightarrow> asset \<Rightarrow> asset \<Rightarrow> int res" where
  "cover_forward 0 lib good co mp d2 d3 to_pay to_cover = Inl (Throw_exn ''out of fuel'')"
| "cover_forward (Suc n) lib good co mp d2 d3 to_pay to_cover =
     res_bind
       (if amount (base mp) > amount (quote mp) then
          res_bind (fc_safe lib (amount to_pay + d2)) (\<lambda>p.
          if p \<ge> collateral co then Inr None
          else res_bind (asset_times_price (to_pay\<lparr>amount := p\<rparr>) mp) (\<lambda>to_cover.
               if amount to_cover \<ge> debt co then Inr None
               else res_bind (multiply_and_round_up to_cover mp) (\<lambda>to_pay.
                    if amount to_pay \<ge> collateral co then Inr None else Inr (Some (to_pay, to_cover)))))
        else
          res_bind (fc_safe lib (amount to_cover + d2)) (\<lambda>c.
          if c \<ge> debt co then Inr None
          else res_bind (multiply_and_round_up (to_cover\<lparr>amount := c\<rparr>) mp) (\<lambda>to_pay.
               if amount to_pay \<ge> collateral co then Inr None
               else res_bind (asset_times_price to_pay mp) (\<lambda>to_cover.
                    if amount to_cover \<ge> debt co then Inr None else Inr (Some (to_pay, to_cover)))))) (\<lambda>cand.
     case cand of
       None \<Rightarrow> Inr (debt co)
     | Some (to_pay, to_cover) \<Rightarrow>
         FC_ASSERT (amount to_pay < collateral co \<and> amount to_cover < debt co) ''to_pay.amount < collateral && to_cover.amount < debt''
         (res_bind (good (to_pay, to_cover)) (\<lambda>g.
          if g then Inr (amount to_cover)
          else cover_forward n lib good co mp d3 ((d2 + d3) mod 2 ^ 64) to_pay to_cover)))"

subsection \<open>The whole function\<close>

text \<open>The upper bound of the search: what it pays and what it covers.\<close>

definition cover_bound :: "call_order_object \<Rightarrow> price \<Rightarrow> int \<Rightarrow> int \<Rightarrow> (asset \<times> asset) res" where
  "cover_bound co mp numerator denominator =
     (let to_cover_i256 = min (numerator div denominator + 1) (debt co) in
      res_bind (if to_cover_i256 = debt co then Inr (get_collateral co)
                else multiply_and_round_up (mk_asset to_cover_i256 (debt_type co)) mp) (\<lambda>max_to_pay0.
      let max_to_pay1 = (if amount max_to_pay0 > collateral co then max_to_pay0\<lparr>amount := collateral co\<rparr> else max_to_pay0) in
      res_bind (if amount max_to_pay1 = collateral co then Inr (get_debt co) else asset_times_price max_to_pay1 mp) (\<lambda>max_to_cover0.
      Inr (if amount max_to_cover0 \<ge> debt co
           then (max_to_pay1\<lparr>amount := collateral co\<rparr>, max_to_cover0\<lparr>amount := debt co\<rparr>) else (max_to_pay1, max_to_cover0)))))"

text \<open>From the estimate on: the position is covered with the amounts of the estimate, or the searches run.\<close>

definition cover_refine :: "nat \<Rightarrow> fc_lib \<Rightarrow> (asset \<times> asset \<Rightarrow> bool res) \<Rightarrow> call_order_object \<Rightarrow> price \<Rightarrow> int \<Rightarrow> int \<Rightarrow> asset \<Rightarrow> asset \<Rightarrow> int res" where
  "cover_refine fuel lib good co mp numerator denominator to_pay to_cover =
     res_bind (cover_bound co mp numerator denominator) (\<lambda>(max_to_pay, max_to_cover).
     res_bind (asset_le max_to_pay to_pay) (\<lambda>le1.
     res_bind (if le1 then Inr True else asset_le max_to_cover to_cover) (\<lambda>le2.
     if le2 then Inr (debt co)
     else res_bind (cover_search (cover_mean lib mp) good co False (to_pay, to_cover) (max_to_pay, max_to_cover)) (\<lambda>r.
       case r of
         Cover x \<Rightarrow> Inr x
       | Search_forward p c \<Rightarrow> cover_forward fuel lib good co mp 1 1 p c))))"

text \<open>The two prices are read with the collateral as base, as the call price has it.\<close>

definition oriented :: "call_order_object \<Rightarrow> price \<Rightarrow> price" where
  "oriented co p = (if asset_id (base p) \<noteq> asset_id (base (call_price co)) then price_inv p else p)"

definition cover_to_target :: "nat \<Rightarrow> fc_lib \<Rightarrow> call_order_object \<Rightarrow> price \<Rightarrow> price \<Rightarrow> int \<Rightarrow> bool \<Rightarrow> price \<Rightarrow> int res" where
  "cover_to_target fuel lib co match_price feed_price tcr after_1270 target_collateralization =
     (let mp_debt = amount (quote match_price); mp_coll = amount (base match_price);
          fp_debt = amount (quote feed_price); fp_coll = amount (base feed_price);
          numerator = fp_coll * mp_debt * debt co * tcr - fp_debt * mp_debt * collateral co * GRAPHENE_COLLATERAL_RATIO_DENOM;
          denominator = fp_coll * mp_debt * tcr - fp_debt * mp_coll * GRAPHENE_COLLATERAL_RATIO_DENOM in
      if numerator < 0 then Inr 0
      else if denominator \<le> 0 then Inr (debt co)
      else if numerator div denominator \<ge> debt co then Inr (debt co)
      else
        res_bind (asset_times_price (mk_asset (numerator div denominator) (debt_type co)) match_price) (\<lambda>to_pay0.
        res_bind (asset_times_price to_pay0 match_price) (\<lambda>to_cover.
        res_bind (multiply_and_round_up to_cover match_price) (\<lambda>to_pay.
        if amount to_cover \<ge> debt co \<or> amount to_pay \<ge> collateral co then Inr (debt co)
        else
          let good = (\<lambda>(p, c). result_is_good lib co after_1270 target_collateralization tcr feed_price p c) in
          res_bind (good (to_pay, to_cover)) (\<lambda>g.
          if g then Inr (amount to_cover)
          else cover_refine fuel lib good co match_price (numerator + fp_coll * mp_debt * tcr) denominator to_pay to_cover)))))"

definition get_max_debt_to_cover :: "nat \<Rightarrow> fc_lib \<Rightarrow> call_order_object \<Rightarrow> price \<Rightarrow> price \<Rightarrow> nat \<Rightarrow> price option \<Rightarrow> int res" where
  "get_max_debt_to_cover fuel lib co match_price0 feed_price0 mcr maintenance =
     (let feed_price = oriented co feed_price0 in
      FC_ASSERT (asset_id (base feed_price) = asset_id (base (call_price co))
                 \<and> asset_id (quote feed_price) = asset_id (quote (call_price co))) ''feed_price''
     (FC_ASSERT (case maintenance of None \<Rightarrow> True
                 | Some mc \<Rightarrow> asset_id (base mc) = asset_id (base (call_price co))
                             \<and> asset_id (quote mc) = asset_id (quote (call_price co))) ''maintenance_collateralization''
     (res_bind (case maintenance of None \<Rightarrow> Inr (price_less feed_price (call_price co))
                | Some mc \<Rightarrow> res_bind (collateralization co) (\<lambda>cr. Inr (price_less mc cr))) (\<lambda>feed_protected.
      if feed_protected then Inr 0
      else case target_collateral_ratio co of
        None \<Rightarrow> Inr (debt co)
      | Some tcr0 \<Rightarrow>
        let tcr = int (max tcr0 mcr) in
        res_bind (case maintenance of None \<Rightarrow> Inr null_price
                  | Some _ \<Rightarrow> price_times_ratio_type feed_price tcr GRAPHENE_COLLATERAL_RATIO_DENOM) (\<lambda>target_collateralization.
        let match_price = oriented co match_price0 in
        FC_ASSERT (asset_id (base match_price) = asset_id (base (call_price co))
                   \<and> asset_id (quote match_price) = asset_id (quote (call_price co))) ''match_price''
        (cover_to_target fuel lib co match_price feed_price tcr (maintenance \<noteq> None) target_collateralization))))))"

subsection \<open>What the result guarantees\<close>

text \<open>A covered amount is enough: it is the whole debt, or after paying less than the collateral for it the position is good.\<close>

definition covers :: "(asset \<times> asset \<Rightarrow> bool res) \<Rightarrow> call_order_object \<Rightarrow> int \<Rightarrow> bool" where
  "covers good co x \<longleftrightarrow> x = debt co \<or>
     (\<exists>to_pay to_cover. amount to_cover = x \<and> amount to_pay < collateral co \<and> x < debt co \<and> good (to_pay, to_cover) = Inr True)"

lemma amount_update_id [simp]: "x\<lparr>amount := amount x\<rparr> = (x :: asset)"
  by simp

text \<open>A candidate that pays as much as the upper bound is the upper bound.\<close>

lemma cover_mean_at_max:
  assumes "cover_mean lib mp lo hi = Inr m" "amount (fst m) = amount (fst hi)"
  shows "m = hi"
proof -
  obtain lp lc hp hc where p: "lo = (lp, lc)" "hi = (hp, hc)" by (cases lo, cases hi) auto
  have eq: "hp\<lparr>amount := v\<rparr> = hp" if "v = amount hp" for v using that by simp
  have eq': "hc\<lparr>amount := v\<rparr> = hc" if "v = amount hc" for v using that by simp
  from assms show ?thesis unfolding cover_mean_def p
    by (auto simp: Let_def eq eq' simp del: res_bind_Inr elim!: res_bind_InrE split: if_splits)
qed

lemma cover_clamp_at_max:
  assumes "cover_mean lib mp lo hi = Inr m" "amount (fst (cover_clamp lo hi m)) = amount (fst hi)"
  shows "cover_clamp lo hi m = hi"
  using assms cover_mean_at_max [OF assms(1)] by (auto simp: cover_clamp_def split: if_splits)

lemma cover_search_step:
  "mean lo hi = Inr m \<Longrightarrow> cover_search mean good co ok lo hi =
     (if amount (fst (cover_clamp lo hi m)) = amount (fst hi) \<and> (ok \<or> amount (fst (cover_clamp lo hi m)) = collateral co)
      then Inr (Cover (amount (snd (cover_clamp lo hi m))))
      else FC_ASSERT (amount (fst (cover_clamp lo hi m)) < collateral co \<and> amount (snd (cover_clamp lo hi m)) < debt co)
         ''to_pay.amount < collateral && to_cover.amount < debt''
     (res_bind (good (cover_clamp lo hi m)) (\<lambda>g.
      if g then
        if amount (fst (cover_clamp lo hi m)) = amount (fst hi) then Inr (Cover (amount (snd (cover_clamp lo hi m))))
        else cover_search mean good co True lo (cover_clamp lo hi m)
      else
        if amount (fst (cover_clamp lo hi m)) = amount (fst hi) then Inr (Search_forward (fst (cover_clamp lo hi m)) (snd (cover_clamp lo hi m)))
        else cover_search mean good co ok (cover_clamp lo hi m) hi)))"
  by (subst cover_search.simps) (simp add: Let_def)

lemma cover_search_covers:
  assumes "cover_search mean good co ok lo hi = Inr (Cover x)" "mean = cover_mean lib mp"
    "ok \<Longrightarrow> good hi = Inr True \<and> amount (fst hi) < collateral co \<and> amount (snd hi) < debt co"
    "amount (fst hi) = collateral co \<Longrightarrow> amount (snd hi) = debt co"
  shows "covers good co x"
  using assms
proof (induction mean good co ok lo hi rule: cover_search.induct)
  case (1 mean good co ok lo hi)
  from 1(3) obtain m where m: "mean lo hi = Inr m" by (subst (asm) cover_search.simps) auto
  define c where "c = cover_clamp lo hi m"
  note step = 1(3) [unfolded cover_search_step [of mean, OF m], folded c_def]
  show ?case
  proof (cases "amount (fst c) = amount (fst hi) \<and> (ok \<or> amount (fst c) = collateral co)")
    case True
    then have "c = hi" using cover_clamp_at_max [OF m [unfolded 1(4)]] by (simp add: c_def)
    with True step have "x = amount (snd hi)" by simp
    with True \<open>c = hi\<close> 1(5,6) show ?thesis unfolding covers_def by (cases hi) fastforce
  next
    case False
    with step obtain g where b: "amount (fst c) < collateral co" "amount (snd c) < debt co" and g: "good c = Inr g"
      and r: "(if g then if amount (fst c) = amount (fst hi) then Inr (Cover (amount (snd c))) else cover_search mean good co True lo c
        else if amount (fst c) = amount (fst hi) then Inr (Search_forward (fst c) (snd c)) else cover_search mean good co ok c hi) = Inr (Cover x)"
      by (auto simp del: if_split res_bind_Inr simp: if_not_P elim!: res_bind_InrE)
    note ih = 1(1,2) [OF m c_def False]
    show ?thesis
    proof (cases "amount (fst c) = amount (fst hi)")
      case True
      with r have "g" "x = amount (snd c)" by (auto split: if_splits)
      with b g show ?thesis unfolding covers_def by (cases c) auto
    next
      case ne: False
      show ?thesis
      proof (cases g)
        case True
        with r ne have "cover_search mean good co True lo c = Inr (Cover x)" by simp
        from ih(1) [OF conjI [OF b] g True ne this 1(4)] b g True show ?thesis by auto
      next
        case gF: False
        with r ne have "cover_search mean good co ok c hi = Inr (Cover x)" by simp
        from ih(2) [OF conjI [OF b] g gF ne this 1(4)] 1(5,6) b show ?thesis by auto
      qed
    qed
  qed
qed

lemma cover_forward_covers:
  "cover_forward n lib good co mp d2 d3 p c = Inr x \<Longrightarrow> covers good co x"
proof (induction n arbitrary: d2 d3 p c)
  case (Suc n)
  from Suc.prems obtain cand where r: "(case cand of None \<Rightarrow> Inr (debt co)
     | Some (to_pay, to_cover) \<Rightarrow>
         FC_ASSERT (amount to_pay < collateral co \<and> amount to_cover < debt co) ''to_pay.amount < collateral && to_cover.amount < debt''
         (res_bind (good (to_pay, to_cover)) (\<lambda>g.
          if g then Inr (amount to_cover) else cover_forward n lib good co mp d3 ((d2 + d3) mod 2 ^ 64) to_pay to_cover))) = Inr x"
    unfolding cover_forward.simps by (elim res_bind_InrE) (rule that)
  show ?case
  proof (cases cand)
    case (Some pc)
    then show ?thesis using r Suc.IH
      by (cases pc) (auto simp: covers_def simp del: res_bind_Inr elim!: res_bind_InrE split: if_splits)
  qed (use r in \<open>simp add: covers_def\<close>)
qed simp

lemma cover_bound_whole:
  "cover_bound co mp n d = Inr hi \<Longrightarrow> amount (fst hi) = collateral co \<Longrightarrow> amount (snd hi) = debt co"
  by (auto simp: cover_bound_def Let_def get_debt_def simp del: res_bind_Inr elim!: res_bind_InrE split: if_splits)

lemma cover_refine_covers:
  assumes "cover_refine fuel lib good co mp num den to_pay to_cover = Inr x"
  shows "covers good co x"
proof -
  from assms obtain hi le2 where hi: "cover_bound co mp num den = Inr hi"
    and r: "(if le2 then Inr (debt co)
      else res_bind (cover_search (cover_mean lib mp) good co False (to_pay, to_cover) hi) (\<lambda>r.
        case r of Cover x \<Rightarrow> Inr x | Search_forward p c \<Rightarrow> cover_forward fuel lib good co mp 1 1 p c)) = Inr x"
    by (auto simp: cover_refine_def simp del: res_bind_Inr elim!: res_bind_InrE)
  show ?thesis
  proof (cases le2)
    case False
    with r obtain s where s: "cover_search (cover_mean lib mp) good co False (to_pay, to_cover) hi = Inr s"
      and t: "(case s of Cover x \<Rightarrow> Inr x | Search_forward p c \<Rightarrow> cover_forward fuel lib good co mp 1 1 p c) = Inr x"
      by (auto simp del: res_bind_Inr elim!: res_bind_InrE)
    show ?thesis
    proof (cases s)
      case (Cover y)
      with s t cover_search_covers [of "cover_mean lib mp" good co False "(to_pay, to_cover)" hi y lib mp] cover_bound_whole [OF hi] show ?thesis by auto
    next
      case (Search_forward p c)
      with t cover_forward_covers show ?thesis by auto
    qed
  qed (use r in \<open>simp add: covers_def\<close>)
qed

lemma cover_to_target_covers:
  assumes "cover_to_target fuel lib co mp fp tcr after target = Inr x"
  shows "x = 0 \<or> covers (\<lambda>(p, c). result_is_good lib co after target tcr fp p c) co x"
  using assms
  by (auto simp: cover_to_target_def Let_def covers_def simp del: res_bind_Inr elim!: res_bind_InrE split: if_splits
      dest!: cover_refine_covers)

text \<open>After core-1270: the collateralization that is left exceeds the target.\<close>

lemma result_is_good_after_1270:
  assumes "result_is_good lib co True target tcr fp p c = Inr True" "safe_exact (fc_safe lib)"
  shows "price_less target (mk_price (mk_asset (collateral co - amount p) (collateral_type co)) (mk_asset (debt co - amount c) (debt_type co)))"
proof -
  from assms(1) obtain x y where x: "fc_safe lib (collateral co - amount p) = Inr x" "fc_safe lib (debt co - amount c) = Inr y"
    and l: "price_less target (mk_price (mk_asset x (collateral_type co)) (mk_asset y (debt_type co)))"
    by (auto simp: result_is_good_def asset_sub_def asset_div_def get_collateral_def get_debt_def)
  with safe_exactD [OF assms(2) x(1)] safe_exactD [OF assms(2) x(2)] show ?thesis by simp
qed


text \<open>A position of 1000 debt on 1500 collateral at a feed of one to one, with a target ratio of 1.75.\<close>

definition example_position :: call_order_object where
  "example_position = \<lparr>borrower = 7, collateral = 1500, debt = 1000, call_price = mk_price (mk_asset 1 0) (mk_asset 1 2),
     target_collateral_ratio = Some 1750\<rparr>"

lemmas example_simps = example_position_def collateral_type_def debt_type_def get_collateral_def get_debt_def std_lib_def checked_int64_def
  asset_times_price_def multiply_and_round_up_def u128_def config_defs asset_sub_def asset_div_def price_less_def Let_def

lemma example_target:
  "price_times_ratio_type (mk_price (mk_asset 1 0) (mk_asset 1 2)) 1750 1000 = Inr (mk_price (mk_asset 7 0) (mk_asset 4 2))"
proof -
  have "Rat.normalize (1750, 1000) = (7, 4)" by (simp add: Rat.normalize_def Let_def gcd_non_0_int)
  moreover have "shrink_loop (7, 4) False = ((7, 4), False, False)"
    by (rule shrink_loop_fits) (simp_all add: max_nat_def GRAPHENE_MAX_SHARE_SUPPLY_def)
  ultimately show ?thesis
    by (simp add: price_times_ratio_type_def price_times_ratio_def price_validate_def mk_fraction_def asset_div_def Let_def gcd_non_0_nat)
qed

definition example_good :: "asset \<times> asset \<Rightarrow> bool res" where
  "example_good = (\<lambda>(p, c). result_is_good std_lib example_position True (mk_price (mk_asset 7 0) (mk_asset 4 2)) 1750
     (mk_price (mk_asset 1 0) (mk_asset 1 2)) p c)"

lemma example_search:
  "cover_search (cover_mean std_lib (mk_price (mk_asset 1 0) (mk_asset 1 2))) example_good example_position False
     (mk_asset 333 0, mk_asset 333 2) (mk_asset 336 0, mk_asset 336 2) = Inr (Cover 334)"
proof -
  let ?mean = "cover_mean std_lib (mk_price (mk_asset 1 0) (mk_asset 1 2))"
  have m1: "?mean (mk_asset 333 0, mk_asset 333 2) (mk_asset 336 0, mk_asset 336 2) = Inr (mk_asset 334 0, mk_asset 334 2)"
    and m2: "?mean (mk_asset 333 0, mk_asset 333 2) (mk_asset 334 0, mk_asset 334 2) = Inr (mk_asset 333 0, mk_asset 333 2)"
    by (simp_all add: cover_mean_def example_simps)
  have "example_good (mk_asset 334 0, mk_asset 334 2) = Inr True"
    by (simp add: example_good_def result_is_good_def example_simps)
  then show ?thesis
    by (simp add: cover_search_step [of ?mean, OF m1] cover_search_step [of ?mean, OF m2] cover_clamp_def) (simp add: example_position_def)
qed


subsection \<open>The searches end\<close>

lemma fuelled_conversion [simp]: "fuelled (asset_times_price x p)" "fuelled (multiply_and_round_up x p)"
  by (simp_all add: fuelled_def asset_times_price_def multiply_and_round_up_def FC_ASSERT_def Let_def)

lemma fuelled_compare [simp]: "fuelled (asset_le x y)" "fuelled (asset_less x y)" "fuelled (asset_div x y)"
  by (simp_all add: fuelled_def asset_le_def asset_less_def asset_div_def FC_ASSERT_def)

lemma cover_forward_step_fuelled:
  assumes "0 \<le> amount p" "0 \<le> amount c" "collateral co \<le> m" "debt co \<le> m"
    "\<And>x. fuelled (good x)" "\<And>x. fuelled (fc_safe lib x)" "safe_exact (fc_safe lib)"
    "\<And>p c. d2 < m \<Longrightarrow> 0 \<le> amount p \<Longrightarrow> 0 \<le> amount c \<Longrightarrow> fuelled (cover_forward n lib good co mp d3 ((d2 + d3) mod 2 ^ 64) p c)"
  shows "fuelled (cover_forward (Suc n) lib good co mp d2 d3 p c)"
proof -
  have stop: "d2 < m" if "fc_safe lib (x + d2) = Inr y" "\<not> b \<le> y" "0 \<le> x" "b \<le> m" for x y b
    using that safe_exactD [OF assms(7)] by fastforce
  let ?cand = "if amount (base mp) > amount (quote mp) then
          res_bind (fc_safe lib (amount p + d2)) (\<lambda>x.
          if x \<ge> collateral co then Inr None
          else res_bind (asset_times_price (p\<lparr>amount := x\<rparr>) mp) (\<lambda>to_cover.
               if amount to_cover \<ge> debt co then Inr None
               else res_bind (multiply_and_round_up to_cover mp) (\<lambda>to_pay.
                    if amount to_pay \<ge> collateral co then Inr None else Inr (Some (to_pay, to_cover)))))
        else
          res_bind (fc_safe lib (amount c + d2)) (\<lambda>x.
          if x \<ge> debt co then Inr None
          else res_bind (multiply_and_round_up (c\<lparr>amount := x\<rparr>) mp) (\<lambda>to_pay.
               if amount to_pay \<ge> collateral co then Inr None
               else res_bind (asset_times_price to_pay mp) (\<lambda>to_cover.
                    if amount to_cover \<ge> debt co then Inr None else Inr (Some (to_pay, to_cover)))))"
  have cand: "fuelled ?cand" by (auto intro!: fuelled_intros assms(6))
  have moved: "d2 < m \<and> 0 \<le> amount to_pay \<and> 0 \<le> amount to_cover" if "?cand = Inr (Some (to_pay, to_cover))" for to_pay to_cover
    using that by (auto intro: stop assms(1-4) simp del: res_bind_Inr elim!: res_bind_InrE split: if_splits)
      (metis asset_times_price_nonneg multiply_and_round_up_nonneg)+
  show ?thesis unfolding cover_forward.simps
  proof (rule fuelled_bind [OF cand])
    fix x assume x: "?cand = Inr x"
    show "fuelled (case x of None \<Rightarrow> Inr (debt co)
      | Some (to_pay, to_cover) \<Rightarrow>
         FC_ASSERT (amount to_pay < collateral co \<and> amount to_cover < debt co) ''to_pay.amount < collateral && to_cover.amount < debt''
         (res_bind (good (to_pay, to_cover)) (\<lambda>g.
          if g then Inr (amount to_cover)
          else cover_forward n lib good co mp d3 ((d2 + d3) mod 2 ^ 64) to_pay to_cover)))"
    proof (cases x)
      case (Some pc)
      then show ?thesis using x moved by (cases pc) (auto intro!: fuelled_intros assms(5,8))
    qed simp
  qed
qed

lemma cover_forward_fuelled:
  assumes "0 \<le> amount p" "0 \<le> amount c" "1 \<le> d2" "d2 \<le> d3" "d3 \<le> 2 * d2" "2 * (m * m) \<le> d2 * d3 * 2 ^ n"
    and m: "0 < m" "m < 2 ^ 60" "collateral co \<le> m" "debt co \<le> m"
    and lib: "\<And>x. fuelled (good x)" "\<And>x. fuelled (fc_safe lib x)" "safe_exact (fc_safe lib)"
  shows "fuelled (cover_forward (Suc n) lib good co mp d2 d3 p c)"
  using assms(1-6)
proof (induction n arbitrary: d2 d3 p c)
  case 0
  have "d2 * d3 \<le> d2 * (2 * d2)" using 0 by (intro mult_left_mono) auto
  with 0(6) have "2 * (m * m) \<le> 2 * (d2 * d2)" by (simp add: algebra_simps)
  then have "m * m \<le> d2 * d2" by linarith
  then have "\<not> d2 < m" using 0 m by (smt (verit) mult_strict_mono)
  then show ?case by (intro cover_forward_step_fuelled [OF 0(1,2) m(3,4) lib]) auto
next
  case (Suc n)
  show ?case
  proof (rule cover_forward_step_fuelled [OF Suc.prems(1,2) m(3,4) lib])
    fix p c :: asset assume "d2 < m" and pc: "0 \<le> amount p" "0 \<le> amount c"
    then have "(d2 + d3) mod 2 ^ 64 = d2 + d3" using Suc.prems m by simp
    moreover have "d2 * d3 * 2 ^ Suc n \<le> d3 * (d2 + d3) * 2 ^ n"
    proof -
      have "2 * d2 * d3 \<le> (d2 + d3) * d3" using Suc.prems by (intro mult_right_mono) auto
      then have "2 * d2 * d3 * 2 ^ n \<le> (d2 + d3) * d3 * 2 ^ n" by (rule mult_right_mono) simp
      then show ?thesis by (simp add: algebra_simps)
    qed
    then have "2 * (m * m) \<le> d3 * (d2 + d3) * 2 ^ n" using Suc.prems(6) by linarith
    ultimately show "fuelled (cover_forward (Suc n) lib good co mp d3 ((d2 + d3) mod 2 ^ 64) p c)"
      using Suc.IH [OF pc, of d3 "d2 + d3"] Suc.prems by auto
  qed
qed

lemma result_is_good_fuelled [fuelled_intros]: "(\<And>x. fuelled (fc_safe lib x)) \<Longrightarrow> fuelled (result_is_good lib co b t tcr fp p c)"
  unfolding result_is_good_def
  by (auto intro!: fuelled_intros simp: asset_sub_def call_price_of_def Let_def)

lemma cover_mean_fuelled: "(\<And>x. fuelled (fc_safe lib x)) \<Longrightarrow> fuelled (cover_mean lib mp lo hi)"
  unfolding cover_mean_def by (auto intro!: fuelled_intros simp: Let_def split: prod.splits)

lemma cover_search_fuelled:
  assumes "\<And>lo hi. fuelled (mean lo hi)" "\<And>x. fuelled (good x)"
  shows "fuelled (cover_search mean good co ok lo hi)"
  using assms
proof (induction mean good co ok lo hi rule: cover_search.induct)
  case (1 mean good co ok lo hi)
  show ?case
    by (subst cover_search.simps) (auto intro!: fuelled_intros simp: Let_def 1)
qed


text \<open>The forward search starts with amounts that are not negative.\<close>

lemma cover_search_forward_nonneg:
  assumes "cover_search mean good co ok lo hi = Inr (Search_forward p c)"
    "0 \<le> amount (fst lo)" "0 \<le> amount (snd lo)" "0 \<le> amount (fst hi)" "0 \<le> amount (snd hi)"
  shows "0 \<le> amount p \<and> 0 \<le> amount c"
  using assms
proof (induction mean good co ok lo hi rule: cover_search.induct)
  case (1 mean good co ok lo hi)
  from 1(3) obtain m where m: "mean lo hi = Inr m" by (subst (asm) cover_search.simps) auto
  define c' where "c' = cover_clamp lo hi m"
  have c': "0 \<le> amount (fst c')" "0 \<le> amount (snd c')" using 1(4-7) by (auto simp: c'_def cover_clamp_def)
  note step = 1(3) [unfolded cover_search_step [of mean, OF m], folded c'_def]
  have ne: "\<not> (amount (fst c') = amount (fst hi) \<and> (ok \<or> amount (fst c') = collateral co))" using step by auto
  with step obtain g where b: "amount (fst c') < collateral co \<and> amount (snd c') < debt co" and g: "good c' = Inr g"
    and r: "(if g then if amount (fst c') = amount (fst hi) then Inr (Cover (amount (snd c'))) else cover_search mean good co True lo c'
        else if amount (fst c') = amount (fst hi) then Inr (Search_forward (fst c') (snd c')) else cover_search mean good co ok c' hi) = Inr (Search_forward p c)"
    by (auto simp del: if_split res_bind_Inr simp: if_not_P elim!: res_bind_InrE)
  note ih = 1(1,2) [OF m c'_def ne b g]
  show ?case
  proof (cases "amount (fst c') = amount (fst hi)")
    case True
    with r c' show ?thesis by (auto split: if_splits)
  next
    case False
    show ?thesis
    proof (cases g)
      case True
      with r False have "cover_search mean good co True lo c' = Inr (Search_forward p c)" by simp
      from ih(1) [OF True False this 1(4,5) c'] show ?thesis .
    next
      case gF: False
      with r False have "cover_search mean good co ok c' hi = Inr (Search_forward p c)" by simp
      from ih(2) [OF gF False this c' 1(6,7)] show ?thesis .
    qed
  qed
qed

lemma cover_bound_nonneg:
  "cover_bound co mp n d = Inr hi \<Longrightarrow> 0 \<le> collateral co \<Longrightarrow> 0 \<le> debt co \<Longrightarrow> 0 \<le> amount (fst hi) \<and> 0 \<le> amount (snd hi)"
  by (auto simp: cover_bound_def Let_def get_debt_def get_collateral_def dest: asset_times_price_nonneg multiply_and_round_up_nonneg
      simp del: res_bind_Inr elim!: res_bind_InrE split: if_splits)

lemma cover_refine_fuelled:
  assumes "0 \<le> amount to_pay" "0 \<le> amount to_cover" "0 \<le> collateral co" "0 \<le> debt co"
    "collateral co \<le> GRAPHENE_MAX_SHARE_SUPPLY" "debt co \<le> GRAPHENE_MAX_SHARE_SUPPLY" "102 \<le> fuel"
    "\<And>x. fuelled (good x)" "\<And>x. fuelled (fc_safe lib x)" "safe_exact (fc_safe lib)"
  shows "fuelled (cover_refine fuel lib good co mp num den to_pay to_cover)"
proof -
  have bound: "fuelled (cover_bound co mp num den)" by (auto simp: cover_bound_def Let_def intro!: fuelled_intros)
  obtain n where n: "fuel = Suc n" "101 \<le> n" using assms(7) by (cases fuel) auto
  have "(2::int) ^ 101 \<le> 2 ^ n" using n(2) by (intro power_increasing) auto
  moreover have "2 * (GRAPHENE_MAX_SHARE_SUPPLY * GRAPHENE_MAX_SHARE_SUPPLY) \<le> 2 ^ 101" by (simp add: GRAPHENE_MAX_SHARE_SUPPLY_def)
  ultimately have "2 * (GRAPHENE_MAX_SHARE_SUPPLY * GRAPHENE_MAX_SHARE_SUPPLY) \<le> 1 * 1 * 2 ^ n" by linarith
  then have forward: "fuelled (cover_forward fuel lib good co mp 1 1 p c)" if "0 \<le> amount p" "0 \<le> amount c" for p c
    unfolding n(1) using that assms
    by (intro cover_forward_fuelled [where m = GRAPHENE_MAX_SHARE_SUPPLY]) (auto simp: GRAPHENE_MAX_SHARE_SUPPLY_def)
  have search: "fuelled (cover_search (cover_mean lib mp) good co False (to_pay, to_cover) hi)" for hi
    by (rule cover_search_fuelled) (auto intro: cover_mean_fuelled assms)
  show ?thesis unfolding cover_refine_def
    using bound search forward cover_bound_nonneg [of co mp num den] cover_search_forward_nonneg assms(1-4)
    by (auto intro!: fuelled_intros split: prod.splits cover_result.splits)
qed


text \<open>C25: The search for the debt to cover ends. For a position of at most the maximum supply of shares, 102 rounds of the forward search are
  enough whatever the prices and the ratios are, as its step grows like the Fibonacci numbers and reaches the collateral or the
  debt before it could wrap around; the binary search needs no bound at all.\<close>

theorem margin_call_search_terminates:
  assumes "102 \<le> fuel" "0 \<le> collateral co" "0 \<le> debt co" "collateral co \<le> GRAPHENE_MAX_SHARE_SUPPLY" "debt co \<le> GRAPHENE_MAX_SHARE_SUPPLY"
    "safe_exact (fc_safe lib)" "\<forall>x. fc_safe lib x \<noteq> Inl (Throw_exn ''out of fuel'')"
  shows "get_max_debt_to_cover fuel lib co mp fp mcr mc \<noteq> Inl (Throw_exn ''out of fuel'')"
proof -
  have lib: "fuelled (fc_safe lib x)" for x using assms(7) by (simp add: fuelled_def)
  have target: "fuelled (cover_to_target fuel lib co mp' fp' tcr after t)" for mp' fp' tcr after t
    unfolding cover_to_target_def
    by (auto intro!: fuelled_intros cover_refine_fuelled [OF _ _ assms(2-5,1) _ lib assms(6)] lib simp: Let_def split: prod.splits)
      (metis asset_times_price_nonneg multiply_and_round_up_nonneg)+
  have ratio: "fuelled (price_times_ratio_type p x y)" for p x y
    by (auto simp: fuelled_def price_times_ratio_type_def price_times_ratio_def price_validate_def asset_div_def FC_ASSERT_def Let_def res_bind_def split: sum.splits prod.splits)
  have "fuelled (get_max_debt_to_cover fuel lib co mp fp mcr mc)"
    unfolding get_max_debt_to_cover_def
    by (auto intro!: fuelled_intros target ratio simp: Let_def collateralization_def split: option.splits)
  then show ?thesis by (simp add: fuelled_def)
qed

theorem margin_call_search_terminates_witness:
  "get_max_debt_to_cover 102 std_lib example_position (mk_price (mk_asset 3 0) (mk_asset 7 2)) (mk_price (mk_asset 1 2) (mk_asset 1 0)) 1750
     (Some (mk_price (mk_asset 7 0) (mk_asset 4 2))) \<noteq> Inl (Throw_exn ''out of fuel'')"
  by (rule margin_call_search_terminates)
     (simp_all add: example_position_def GRAPHENE_MAX_SHARE_SUPPLY_def std_lib_def checked_int64_def safe_exact_def)

end
