(* ===== verification/Market.thy ===== *)
theory Market
  imports Balances Margin_Calls
begin

text \<open>
  The market: \<open>libraries/chain/db_market.cpp\<close> and \<open>check_for_blackswan\<close> of \<open>db_update.cpp\<close>.

  Orders are looked up by their instance number. The ordered indexes \<open>by_price\<close> and \<open>by_collateral\<close> are the tables sorted
  by the comparison of the index; a range between two bounds of such an index is a filtered sorted list. Loops that
  re-read the index after every step do so here too and carry fuel; loops over a fixed range fold over its identifiers.

  Each operation has a lemma stating which shares it moves. Filling an order takes what the order pays out of the books
  and puts what it receives into them, so a match, which gives one side what the other pays, moves nothing.
\<close>

subsection \<open>Market fees\<close>

definition calculate_percent :: "int \<Rightarrow> nat \<Rightarrow> int res" where
  "calculate_percent v percent =
     (let a = u128 (u128 v * int percent) div GRAPHENE_100_PERCENT in
      FC_ASSERT (a \<le> GRAPHENE_MAX_SHARE_SUPPLY) ''overflow when calculating percent'' (Inr a))"

definition calculate_market_fee :: "asset_id \<Rightarrow> asset_object \<Rightarrow> asset \<Rightarrow> asset res" where
  "calculate_market_fee aid trade_asset trade_amount =
     (if \<not> charges_market_fees trade_asset then Inr (mk_asset 0 aid)
      else if market_fee_percent (options trade_asset) = 0 then Inr (mk_asset 0 aid)
      else res_bind (calculate_percent (amount trade_amount) (market_fee_percent (options trade_asset))) (\<lambda>v.
           Inr (mk_asset (if v > max_market_fee (options trade_asset) then max_market_fee (options trade_asset) else v) aid)))"

definition pay_market_fees_before_1268 :: "fc_lib \<Rightarrow> asset_id \<Rightarrow> asset \<Rightarrow> database \<Rightarrow> (asset \<times> database) res" where
  "pay_market_fees_before_1268 lib recv_id receives db =
     res_bind (get_asset db recv_id) (\<lambda>recv_asset.
     res_bind (calculate_market_fee recv_id recv_asset receives) (\<lambda>issuer_fees.
     res_bind (asset_le issuer_fees receives) (\<lambda>le.
     FC_ASSERT le ''Market fee should not be greater than receives''
     (if amount issuer_fees > 0
      then res_bind (modify_dyn_data recv_id (add_accumulated_fees lib (amount issuer_fees)) db) (\<lambda>db1. Inr (issuer_fees, db1))
      else Inr (issuer_fees, db)))))"

text \<open>The shares of the market fee that go to the registrar and the referrer of the seller.\<close>

definition is_rewards_allowed :: "asset_object \<Rightarrow> account_object \<Rightarrow> bool" where
  "is_rewards_allowed recv_asset sel =
     (case whitelist_market_fee_sharing (options recv_asset) of None \<Rightarrow> True
      | Some wl \<Rightarrow> wl = [] \<or> registrar sel \<in> set wl)"

definition pay_referrer_reward :: "fc_lib \<Rightarrow> asset_id \<Rightarrow> asset_object \<Rightarrow> account_object \<Rightarrow> asset \<Rightarrow> database \<Rightarrow> (asset \<times> database) res" where
  "pay_referrer_reward lib recv_id recv_asset sel reward db =
     (if referrer sel \<noteq> registrar sel then
        res_bind (calculate_percent (amount reward) (referrer_rewards_percentage sel)) (\<lambda>v.
        res_bind (if v > 0 then res_bind (get_account db (referrer sel)) (\<lambda>ref. Inr (is_authorized_asset ref recv_id recv_asset))
                  else Inr False) (\<lambda>pay.
        if pay then
          FC_ASSERT (v \<le> amount reward) ''Referrer reward should not be greater than total reward''
          (res_bind (asset_sub (fc_safe lib) reward (mk_asset v recv_id)) (\<lambda>registrar_reward.
           res_bind (deposit_market_fee_vesting_balance lib (referrer sel) (mk_asset v recv_id) db) (\<lambda>db1.
             Inr (registrar_reward, db1))))
        else Inr (reward, db)))
      else Inr (reward, db))"

definition pay_rewards :: "fc_lib \<Rightarrow> asset_id \<Rightarrow> asset_object \<Rightarrow> account_object \<Rightarrow> asset \<Rightarrow> database \<Rightarrow> (asset \<times> database) res" where
  "pay_rewards lib recv_id recv_asset sel issuer_fees db =
     (case (is_rewards_allowed recv_asset sel, reward_percent (options recv_asset)) of
        (True, Some rp) \<Rightarrow>
          if rp = 0 then Inr (mk_asset 0 recv_id, db)
          else res_bind (calculate_percent (amount issuer_fees) rp) (\<lambda>reward_value.
               res_bind (if reward_value > 0
                         then res_bind (get_account db (registrar sel)) (\<lambda>reg. Inr (is_authorized_asset reg recv_id recv_asset))
                         else Inr False) (\<lambda>pay.
               if pay then
                 let reward = mk_asset reward_value recv_id in
                 res_bind (asset_less reward issuer_fees) (\<lambda>less.
                 FC_ASSERT less ''Market reward should be less than issuer fees''
                 (res_bind (pay_referrer_reward lib recv_id recv_asset sel reward db) (\<lambda>(registrar_reward, db1).
                  res_bind (deposit_market_fee_vesting_balance lib (registrar sel) registrar_reward db1) (\<lambda>db2.
                    Inr (reward, db2)))))
               else Inr (mk_asset 0 recv_id, db)))
      | _ \<Rightarrow> Inr (mk_asset 0 recv_id, db))"

definition pay_market_fees :: "fc_lib \<Rightarrow> account_object \<Rightarrow> asset_id \<Rightarrow> asset \<Rightarrow> database \<Rightarrow> (asset \<times> database) res" where
  "pay_market_fees lib sel recv_id receives db =
     res_bind (get_asset db recv_id) (\<lambda>recv_asset.
     res_bind (calculate_market_fee recv_id recv_asset receives) (\<lambda>issuer_fees.
     res_bind (asset_le issuer_fees receives) (\<lambda>le.
     FC_ASSERT le ''Market fee should not be greater than receives''
     (if amount issuer_fees > 0 then
        res_bind (pay_rewards lib recv_id recv_asset sel issuer_fees db) (\<lambda>(reward, db1).
        res_bind (fc_safe lib (amount issuer_fees - amount reward)) (\<lambda>x.
        res_bind (modify_dyn_data recv_id (add_accumulated_fees lib x) db1) (\<lambda>db2.
          Inr (issuer_fees, db2))))
      else Inr (issuer_fees, db)))))"

lemma calculate_market_fee_id: "calculate_market_fee aid ao x = Inr f \<Longrightarrow> asset_id f = aid"
  by (auto simp: calculate_market_fee_def split: if_splits)

lemma calculate_market_fee_nonneg:
  "calculate_market_fee aid ao x = Inr f \<Longrightarrow> 0 \<le> max_market_fee (options ao) \<Longrightarrow> 0 \<le> amount f"
  by (auto simp: calculate_market_fee_def calculate_percent_def Let_def u128_def config_defs pos_imp_zdiv_nonneg_iff split: if_splits)

lemma max_market_fee_nonneg: "db_ok db \<Longrightarrow> get_asset db a = Inr ao \<Longrightarrow> 0 \<le> max_market_fee (options ao)"
  by (auto simp: db_ok_def get_asset_def)

lemma moves_if_ok: "(db_ok db \<Longrightarrow> moves d db db') \<Longrightarrow> moves d db db'"
  by (auto simp: moves_def)

lemma pay_market_fees_before_1268_moves [moves_intros]:
  assumes "pay_market_fees_before_1268 lib recv_id receives db = Inr (fees, db')" "safe_exact (fc_safe lib)"
  shows "moves (part fees) db db'"
proof (rule moves_if_ok)
  assume ok: "db_ok db"
  from assms(1) obtain ao where ao: "get_asset db recv_id = Inr ao" and f: "calculate_market_fee recv_id ao receives = Inr fees"
    and c: "amount fees > 0 \<longrightarrow> modify_dyn_data recv_id (add_accumulated_fees lib (amount fees)) db = Inr db'"
    "\<not> amount fees > 0 \<longrightarrow> db' = db"
    by (auto simp: pay_market_fees_before_1268_def split: if_splits)
  have "0 \<le> amount fees" using calculate_market_fee_nonneg [OF f max_market_fee_nonneg [OF ok ao]] .
  moreover have "mk_asset (amount fees) recv_id = fees" using calculate_market_fee_id [OF f] by auto
  ultimately show "moves (part fees) db db'" using moves_dyn_data(3) [OF assms(2), of recv_id "amount fees" db db'] c
    by (cases "amount fees > 0") auto
qed

lemma pay_referrer_reward_moves:
  assumes "pay_referrer_reward lib recv_id ao sel reward db = Inr (r, db')" "safe_exact (fc_safe lib)"
  shows "moves (\<lambda>a. part reward a - part r a) db db'"
proof -
  from assms(1) consider "r = reward" "db' = db"
    | v where "asset_sub (fc_safe lib) reward (mk_asset v recv_id) = Inr r"
      "deposit_market_fee_vesting_balance lib (referrer sel) (mk_asset v recv_id) db = Inr db'"
    by (auto simp: pay_referrer_reward_def split: if_splits)
  then show ?thesis
  proof cases
    case 2
    from asset_sub_move [OF 2(1) assms(2)] moves_deposit_market_fee [OF 2(2) assms(2)] show ?thesis
      by (auto elim!: ledger.moves_weaken)
  qed simp
qed

lemma pay_rewards_moves:
  assumes "pay_rewards lib recv_id ao sel fees db = Inr (r, db')" "safe_exact (fc_safe lib)"
  shows "moves (part r) db db'" "asset_id r = recv_id"
proof -
  from assms(1) consider "r = mk_asset 0 recv_id" "db' = db"
    | rr db1 where "asset_id r = recv_id" "pay_referrer_reward lib recv_id ao sel r db = Inr (rr, db1)"
      "deposit_market_fee_vesting_balance lib (registrar sel) rr db1 = Inr db'"
    by (auto simp: pay_rewards_def Let_def split: if_splits option.splits bool.splits)
  then have "moves (part r) db db' \<and> asset_id r = recv_id"
  proof cases
    case 2
    from ledger.moves_trans [OF pay_referrer_reward_moves [OF 2(2) assms(2)] moves_deposit_market_fee [OF 2(3) assms(2)]] 2(1)
    show ?thesis by simp
  qed simp
  then show "moves (part r) db db'" "asset_id r = recv_id" by simp_all
qed

lemma pay_market_fees_moves [moves_intros]:
  assumes "pay_market_fees lib sel recv_id receives db = Inr (fees, db')" "safe_exact (fc_safe lib)"
  shows "moves (part fees) db db'"
proof (rule moves_if_ok)
  assume ok: "db_ok db"
  from assms(1) obtain ao where ao: "get_asset db recv_id = Inr ao" and f: "calculate_market_fee recv_id ao receives = Inr fees"
    and rest: "(if amount fees > 0 then
        res_bind (pay_rewards lib recv_id ao sel fees db) (\<lambda>(reward, db1).
        res_bind (fc_safe lib (amount fees - amount reward)) (\<lambda>x.
        res_bind (modify_dyn_data recv_id (add_accumulated_fees lib x) db1) (\<lambda>db2. Inr (fees, db2))))
      else Inr (fees, db)) = Inr (fees, db')"
    by (auto simp: pay_market_fees_def split: if_splits)
  have nn: "0 \<le> amount fees" using calculate_market_fee_nonneg [OF f max_market_fee_nonneg [OF ok ao]] .
  show "moves (part fees) db db'"
  proof (cases "amount fees > 0")
    case True
    with rest obtain r db1 x where p: "pay_rewards lib recv_id ao sel fees db = Inr (r, db1)"
      "fc_safe lib (amount fees - amount r) = Inr x" "modify_dyn_data recv_id (add_accumulated_fees lib x) db1 = Inr db'"
      by auto
    have x: "x = amount fees - amount r" using p(2) safe_exactD [OF assms(2)] by blast
    note r = pay_rewards_moves [OF p(1) assms(2)]
    have "part (mk_asset x recv_id) a = part fees a - part r a" for a
      using calculate_market_fee_id [OF f] r(2) by (simp add: x part_def)
    with ledger.moves_trans [OF r(1) moves_dyn_data(3) [OF assms(2) p(3)]] show ?thesis by simp
  next
    case False
    with rest nn show ?thesis by simp
  qed
qed

lemma same_market_pay_market_fees [frame_intros]:
  "pay_market_fees lib sel recv_id receives db = Inr (fees, db') \<Longrightarrow> same_market db db'"
  "pay_market_fees_before_1268 lib recv_id receives db = Inr (fees, db') \<Longrightarrow> same_market db db'"
proof -
  have r: "pay_referrer_reward lib recv_id ao sel reward db = Inr (r, db1) \<Longrightarrow> same_market db db1" for ao reward r db1 and db :: database
    by (auto simp: pay_referrer_reward_def split: if_splits dest: same_market_deposit_market_fee)
  have w: "pay_rewards lib recv_id ao sel f db = Inr (r, db1) \<Longrightarrow> same_market db db1" for ao f r db1
    unfolding pay_rewards_def Let_def
    by (auto split: if_splits option.splits bool.splits dest!: r same_market_deposit_market_fee intro: same_market_trans)
  show "pay_market_fees lib sel recv_id receives db = Inr (fees, db') \<Longrightarrow> same_market db db'"
    by (auto simp: pay_market_fees_def split: if_splits dest!: w same_market_modify_dyn_data intro: same_market_trans)
  show "pay_market_fees_before_1268 lib recv_id receives db = Inr (fees, db') \<Longrightarrow> same_market db db'"
    by (auto simp: pay_market_fees_before_1268_def split: if_splits dest!: same_market_modify_dyn_data)
qed

subsection \<open>Paying and cancelling orders\<close>

definition get_limit_order :: "database \<Rightarrow> obj_id \<Rightarrow> limit_order_object res" where
  "get_limit_order db i = opt_get ''Unable to find Object'' (ix_get i (limit_orders db))"

definition get_call_order :: "database \<Rightarrow> obj_id \<Rightarrow> call_order_object res" where
  "get_call_order db i = opt_get ''Unable to find Object'' (ix_get i (call_orders db))"

definition get_settlement :: "database \<Rightarrow> obj_id \<Rightarrow> force_settlement_object res" where
  "get_settlement db i = opt_get ''Unable to find Object'' (ix_get i (settlements db))"

definition sub_core_in_orders :: "fc_lib \<Rightarrow> int \<Rightarrow> account_statistics_object \<Rightarrow> account_statistics_object res" where
  "sub_core_in_orders lib x s = res_bind (fc_safe lib (total_core_in_orders s - x)) (\<lambda>y. Inr (s\<lparr>total_core_in_orders := y\<rparr>))"

definition add_core_in_orders :: "fc_lib \<Rightarrow> int \<Rightarrow> account_statistics_object \<Rightarrow> account_statistics_object res" where
  "add_core_in_orders lib x s = res_bind (fc_safe lib (total_core_in_orders s + x)) (\<lambda>y. Inr (s\<lparr>total_core_in_orders := y\<rparr>))"

definition pay_order :: "fc_lib \<Rightarrow> account_id \<Rightarrow> asset \<Rightarrow> asset \<Rightarrow> database \<Rightarrow> database res" where
  "pay_order lib receiver receives pays db =
     res_bind (modify_statistics receiver (\<lambda>s. if asset_id pays = core_asset then sub_core_in_orders lib (amount pays) s else Inr s) db)
       (adjust_balance lib receiver receives)"

text \<open>The fee of the cancel operation, whose \<open>calculate_fee\<close> cannot fail: the one of the schedule, or the default of zero.\<close>

definition limit_order_cancel_fee :: "fee_schedule \<Rightarrow> int" where
  "limit_order_cancel_fee sched = (case map_of (fee_params sched) 2 of Some p \<Rightarrow> param_fee p | None \<Rightarrow> 0)"

text \<open>The cancellation fee: capped by the deferred fee, credited to the referral program of the seller, and taken from the
  originally paid fee in proportion, rounded up. The result is what is left of the deferred fee and of the originally paid
  fee, and the fee of the virtual operation.\<close>

definition charge_cancel_fee :: "fc_lib \<Rightarrow> limit_order_object \<Rightarrow> database \<Rightarrow> (int \<times> asset \<times> asset \<times> database) res" where
  "charge_cancel_fee lib order db =
     res_bind (calculate_fee lib (current_fees (parameters db)) (limit_order_cancel_fee (current_fees (parameters db)))) (\<lambda>fee.
     let core_cancel_fee = (if amount fee > deferred_fee order then deferred_fee order else amount fee) in
     if core_cancel_fee > 0 then
       res_bind (modify_statistics (seller order) (stats_pay_fee lib core_cancel_fee (cashback_vesting_threshold (parameters db))) db) (\<lambda>db1.
       res_bind (fc_safe lib (deferred_fee order - core_cancel_fee)) (\<lambda>dfee.
       if amount (deferred_paid_fee order) = 0 then Inr (dfee, deferred_paid_fee order, mk_asset core_cancel_fee (asset_id fee), db1)
       else
         let cancel_fee_amount = u128 (u128 (u128 (amount (deferred_paid_fee order)) * core_cancel_fee) + deferred_fee order - 1)
                                   div deferred_fee order in
         res_bind (modify_dyn_data (asset_id (deferred_paid_fee order)) (add_accumulated_fees lib cancel_fee_amount) db1) (\<lambda>db2.
         res_bind (fc_safe lib (amount (deferred_paid_fee order) - cancel_fee_amount)) (\<lambda>x.
           Inr (dfee, (deferred_paid_fee order)\<lparr>amount := x\<rparr>,
                mk_asset cancel_fee_amount (asset_id (deferred_paid_fee order)), db2)))))
     else Inr (deferred_fee order, deferred_paid_fee order, mk_asset 0 core_asset, db))"

definition refund_limit_order :: "fc_lib \<Rightarrow> obj_id \<Rightarrow> limit_order_object \<Rightarrow> bool \<Rightarrow> int \<Rightarrow> asset \<Rightarrow> asset \<Rightarrow> database \<Rightarrow> database res" where
  "refund_limit_order lib oid order create_virtual_op dfee dpaid vfee db1 =
     (let refunded = amount_for_sale order in
      res_bind (if asset_id refunded = core_asset then modify_statistics (seller order) (sub_core_in_orders lib (amount refunded)) db1
                else Inr db1) (\<lambda>db2.
      res_bind (adjust_balance lib (seller order) refunded db2) (\<lambda>db3.
      res_bind (if amount (deferred_paid_fee order) = 0 then adjust_balance lib (seller order) (mk_asset dfee core_asset) db3
                else res_bind (adjust_balance lib (seller order) dpaid db3) (\<lambda>db4.
                     modify_dyn_data (asset_id dpaid) (add_fee_pool lib dfee) db4)) (\<lambda>db5.
      let db6 = (if create_virtual_op then push_applied_operation (Limit_order_cancel_vop oid (seller order) vfee) db5 else db5)
      in Inr (db6\<lparr>limit_orders := ix_remove oid (limit_orders db6)\<rparr>)))))"

definition cancel_limit_order :: "fc_lib \<Rightarrow> obj_id \<Rightarrow> bool \<Rightarrow> bool \<Rightarrow> database \<Rightarrow> database res" where
  "cancel_limit_order lib oid create_virtual_op skip_cancel_fee db =
     res_bind (get_limit_order db oid) (\<lambda>order.
     res_bind (if create_virtual_op \<and> \<not> skip_cancel_fee \<and> deferred_fee order > 0 then charge_cancel_fee lib order db
               else Inr (deferred_fee order, deferred_paid_fee order, mk_asset 0 core_asset, db)) (\<lambda>(dfee, dpaid, vfee, db1).
       refund_limit_order lib oid order create_virtual_op dfee dpaid vfee db1))"

definition cancel_settle_order :: "fc_lib \<Rightarrow> obj_id \<Rightarrow> bool \<Rightarrow> database \<Rightarrow> database res" where
  "cancel_settle_order lib sid create_virtual_op db =
     res_bind (get_settlement db sid) (\<lambda>order.
     res_bind (adjust_balance lib (fs_owner order) (fs_balance order) db) (\<lambda>db1.
     let db2 = (if create_virtual_op then push_applied_operation (Asset_settle_cancel_vop sid (fs_owner order) (fs_balance order)) db1 else db1)
     in Inr (db2\<lparr>settlements := ix_remove sid (settlements db2)\<rparr>)))"

definition cancel_bid :: "fc_lib \<Rightarrow> obj_id \<Rightarrow> bool \<Rightarrow> database \<Rightarrow> database res" where
  "cancel_bid lib bid_id create_virtual_op db =
     res_bind (opt_get ''Unable to find Object'' (ix_get bid_id (bids db))) (\<lambda>bid.
     res_bind (adjust_balance lib (bidder bid) (base (inv_swan_price bid)) db) (\<lambda>db1.
     let db2 = (if create_virtual_op
                then push_applied_operation (Bid_collateral_vop (bidder bid) (base (inv_swan_price bid))
                       (mk_asset 0 (asset_id (quote (inv_swan_price bid))))) db1 else db1)
     in Inr (db2\<lparr>bids := ix_remove bid_id (bids db2)\<rparr>)))"

lemma stats_neutral:
  "modify_statistics acc (sub_core_in_orders lib x) db = Inr db' \<Longrightarrow> moves (\<lambda>_. 0) db db'"
  "modify_statistics acc (add_core_in_orders lib x) db = Inr db' \<Longrightarrow> moves (\<lambda>_. 0) db db'"
  "modify_stats_by_owner acc (sub_core_in_orders lib x) db = Inr db' \<Longrightarrow> moves (\<lambda>_. 0) db db'"
  "modify_stats_by_owner acc (add_core_in_orders lib x) db = Inr db' \<Longrightarrow> moves (\<lambda>_. 0) db db'"
  by (elim modify_statisticsE modify_stats_by_ownerE; auto simp: sub_core_in_orders_def add_core_in_orders_def)+

lemma pay_order_moves [moves_intros]:
  assumes "pay_order lib receiver receives pays db = Inr db'" "safe_exact (fc_safe lib)"
  shows "moves (part receives) db db'" "same_market db db'"
proof -
  from assms(1) obtain db1 where m: "modify_statistics receiver (\<lambda>s. if asset_id pays = core_asset then sub_core_in_orders lib (amount pays) s else Inr s) db = Inr db1"
    and a: "adjust_balance lib receiver receives db1 = Inr db'" by (auto simp: pay_order_def)
  have "moves (\<lambda>_. 0) db db1" using m by (elim modify_statisticsE) (auto simp: sub_core_in_orders_def split: if_splits)
  from ledger.moves_trans [OF this moves_adjust_balance [OF a assms(2)]] show "moves (part receives) db db'" by simp
  from m a show "same_market db db'" by (blast intro: same_market_trans frame_intros)
qed

text \<open>Removing an order takes what it holds out of the books.\<close>

lemma moves_remove_limit_order:
  "ix_get oid (limit_orders db) = Some lo \<Longrightarrow> moves (\<lambda>a. - lo_holds a lo) db (db\<lparr>limit_orders := ix_remove oid (limit_orders db)\<rparr>)"
  by (rule moves_limit_orders) (auto simp: table_simps intro: lo_index_ok_remove)

lemma moves_remove_call_order:
  "ix_get oid (call_orders db) = Some co \<Longrightarrow> moves (\<lambda>a. - part (get_collateral co) a) db (db\<lparr>call_orders := ix_remove oid (call_orders db)\<rparr>)"
  by (rule moves_call_orders) (auto simp: table_simps intro: ix_ok_remove)

lemma moves_remove_settlement:
  "ix_get oid (settlements db) = Some so \<Longrightarrow> moves (\<lambda>a. - part (fs_balance so) a) db (db\<lparr>settlements := ix_remove oid (settlements db)\<rparr>)"
  by (rule moves_settlements) (auto simp: table_simps intro: ix_ok_remove)

lemma moves_remove_bid:
  "ix_get oid (bids db) = Some b \<Longrightarrow> moves (\<lambda>a. - part (base (inv_swan_price b)) a) db (db\<lparr>bids := ix_remove oid (bids db)\<rparr>)"
  by (rule moves_bids) (auto simp: table_simps intro: ix_ok_remove)

lemma charge_cancel_fee_moves:
  assumes "charge_cancel_fee lib order db = Inr (dfee, dpaid, vfee, db')" "safe_exact (fc_safe lib)"
  shows "moves (\<lambda>a. core_part (deferred_fee order - dfee) a + part (deferred_paid_fee order) a - part dpaid a) db db'"
    "same_market db db'" "asset_id dpaid = asset_id (deferred_paid_fee order)"
proof -
  note ex = safe_exactD [OF assms(2)]
  from assms(1) consider (none) "dfee = deferred_fee order" "dpaid = deferred_paid_fee order" "db' = db"
    | (core) x t where "modify_statistics (seller order) (stats_pay_fee lib x t) db = Inr db'"
      "fc_safe lib (deferred_fee order - x) = Inr dfee" "dpaid = deferred_paid_fee order"
    | (other) x t db1 y z where "modify_statistics (seller order) (stats_pay_fee lib x t) db = Inr db1"
      "fc_safe lib (deferred_fee order - x) = Inr dfee"
      "modify_dyn_data (asset_id (deferred_paid_fee order)) (add_accumulated_fees lib y) db1 = Inr db'"
      "fc_safe lib (amount (deferred_paid_fee order) - y) = Inr z" "dpaid = (deferred_paid_fee order)\<lparr>amount := z\<rparr>"
    by (auto simp: charge_cancel_fee_def Let_def split: if_splits)
  then have "moves (\<lambda>a. core_part (deferred_fee order - dfee) a + part (deferred_paid_fee order) a - part dpaid a) db db'
     \<and> same_market db db' \<and> asset_id dpaid = asset_id (deferred_paid_fee order)"
  proof cases
    case none
    then show ?thesis by simp
  next
    case core
    have "x = deferred_fee order - dfee" using ex [OF core(2)] by simp
    with modify_statistics_pay_fee [OF core(1) assms(2)] core show ?thesis
      by (auto intro: frame_intros elim!: ledger.moves_weaken)
  next
    case other
    have "x = deferred_fee order - dfee" "z = amount (deferred_paid_fee order) - y" using ex [OF other(2)] ex [OF other(4)] by simp_all
    moreover have "part (mk_asset y (asset_id (deferred_paid_fee order))) a = part (deferred_paid_fee order) a - part dpaid a" for a
      using calculation by (simp add: other(5) part_def)
    ultimately show ?thesis
      using ledger.moves_trans [OF modify_statistics_pay_fee [OF other(1) assms(2)] moves_dyn_data(3) [OF assms(2) other(3)]] other
      by (auto intro: frame_intros same_market_trans elim!: ledger.moves_weaken)
  qed
  then show "moves (\<lambda>a. core_part (deferred_fee order - dfee) a + part (deferred_paid_fee order) a - part dpaid a) db db'"
    "same_market db db'" "asset_id dpaid = asset_id (deferred_paid_fee order)" by simp_all
qed

lemma refund_limit_order_moves:
  assumes "refund_limit_order lib oid order vop dfee dpaid vfee db1 = Inr db'" "safe_exact (fc_safe lib)"
    "ix_get oid (limit_orders db1) = Some order" "amount (deferred_paid_fee order) = 0 \<Longrightarrow> amount dpaid = 0"
  shows "moves (\<lambda>a. core_part dfee a + part dpaid a - core_part (deferred_fee order) a - part (deferred_paid_fee order) a) db1 db'"
proof -
  from assms(1) obtain db2 db3 db5 where
    s2: "(if asset_id (amount_for_sale order) = core_asset
              then modify_statistics (seller order) (sub_core_in_orders lib (amount (amount_for_sale order))) db1 else Inr db1) = Inr db2"
    and s3: "adjust_balance lib (seller order) (amount_for_sale order) db2 = Inr db3"
    and s5: "(if amount (deferred_paid_fee order) = 0 then adjust_balance lib (seller order) (mk_asset dfee core_asset) db3
               else res_bind (adjust_balance lib (seller order) dpaid db3) (\<lambda>db4.
                    modify_dyn_data (asset_id dpaid) (add_fee_pool lib dfee) db4)) = Inr db5"
    and db': "(Inr :: _ \<Rightarrow> database res) ((if vop then push_applied_operation (Limit_order_cancel_vop oid (seller order) vfee) db5 else db5)
      \<lparr>limit_orders := ix_remove oid (limit_orders (if vop then push_applied_operation (Limit_order_cancel_vop oid (seller order) vfee) db5 else db5))\<rparr>)
      = Inr db'"
    unfolding refund_limit_order_def Let_def by (elim res_bind_InrE) (rule that)
  have m2: "moves (\<lambda>_. 0) db1 db2" "same_market db1 db2" using s2 by (auto split: if_splits intro: stats_neutral frame_intros)
  have m5: "moves (\<lambda>a. core_part dfee a + part dpaid a) db3 db5 \<and> same_market db3 db5"
  proof (cases "amount (deferred_paid_fee order) = 0")
    case True
    then have "part dpaid = (\<lambda>_. 0)" using assms(4) by (simp add: part_def fun_eq_iff)
    with True s5 moves_adjust_balance [OF _ assms(2)] show ?thesis by (auto intro: frame_intros)
  next
    case False
    with s5 obtain db4 where s: "adjust_balance lib (seller order) dpaid db3 = Inr db4"
      "modify_dyn_data (asset_id dpaid) (add_fee_pool lib dfee) db4 = Inr db5" by auto
    from ledger.moves_trans [OF moves_adjust_balance [OF s(1) assms(2)] moves_dyn_data(4) [OF assms(2) s(2)]] s
    show ?thesis by (auto simp: add.commute intro: same_market_trans frame_intros elim: ledger.moves_weaken)
  qed
  define db6 where "db6 = (if vop then push_applied_operation (Limit_order_cancel_vop oid (seller order) vfee) db5 else db5)"
  have m6: "moves (\<lambda>_. 0) db5 db6" "same_market db5 db6" by (simp_all add: db6_def)
  have "same_market db1 db6" using m2 m5 m6 same_market_adjust_balance [OF s3] by (blast intro: same_market_trans)
  then have g: "ix_get oid (limit_orders db6) = Some order" using assms(3) by (simp add: same_market_def)
  have "db' = db6\<lparr>limit_orders := ix_remove oid (limit_orders db6)\<rparr>" using db' by (simp add: db6_def Let_def)
  with ledger.moves_trans [OF ledger.moves_trans [OF ledger.moves_trans [OF ledger.moves_trans
    [OF m2(1) moves_adjust_balance [OF s3 assms(2)]] conjunct1 [OF m5]] m6(1)] moves_remove_limit_order [OF g]]
  show ?thesis by (auto elim!: ledger.moves_weaken simp: lo_holds_def)
qed

lemma cancel_limit_order_moves [moves_intros]:
  assumes "cancel_limit_order lib oid vop skip db = Inr db'" "safe_exact (fc_safe lib)"
  shows "moves (\<lambda>_. 0) db db'"
proof -
  from assms(1) obtain order dfee dpaid vfee db1 where order: "ix_get oid (limit_orders db) = Some order"
    and s1: "(if vop \<and> \<not> skip \<and> deferred_fee order > 0 then charge_cancel_fee lib order db
               else Inr (deferred_fee order, deferred_paid_fee order, mk_asset 0 core_asset, db)) = Inr (dfee, dpaid, vfee, db1)"
    and r: "refund_limit_order lib oid order vop dfee dpaid vfee db1 = Inr db'"
    by (auto simp: cancel_limit_order_def get_limit_order_def simp del: res_bind_Inr elim!: res_bind_InrE intro: that)
  have m1: "moves (\<lambda>a. core_part (deferred_fee order - dfee) a + part (deferred_paid_fee order) a - part dpaid a) db db1" "same_market db db1"
    using s1 charge_cancel_fee_moves [OF _ assms(2)] by (auto split: if_splits)
  have "amount (deferred_paid_fee order) = 0 \<Longrightarrow> amount dpaid = 0"
    using s1 by (auto simp: charge_cancel_fee_def Let_def split: if_splits)
  moreover have "ix_get oid (limit_orders db1) = Some order" using m1 order by (simp add: same_market_def)
  ultimately show ?thesis
    using ledger.moves_trans [OF m1(1) refund_limit_order_moves [OF r assms(2)]] by (auto elim: ledger.moves_weaken)
qed

lemma cancel_settle_order_moves [moves_intros]:
  assumes "cancel_settle_order lib sid vop db = Inr db'" "safe_exact (fc_safe lib)"
  shows "moves (\<lambda>_. 0) db db'"
proof -
  from assms(1) obtain so db1 db2 where so: "ix_get sid (settlements db) = Some so"
    and a: "adjust_balance lib (fs_owner so) (fs_balance so) db = Inr db1"
    and db2: "db2 = (if vop then push_applied_operation (Asset_settle_cancel_vop sid (fs_owner so) (fs_balance so)) db1 else db1)"
    and db': "db' = db2\<lparr>settlements := ix_remove sid (settlements db2)\<rparr>"
    by (auto simp: cancel_settle_order_def get_settlement_def Let_def)
  have "moves (\<lambda>_. 0) db1 db2" "same_market db1 db2" by (simp_all add: db2)
  moreover from this have "ix_get sid (settlements db2) = Some so"
    using so same_market_adjust_balance [OF a] by (simp add: same_market_def)
  ultimately show ?thesis unfolding db'
    using ledger.moves_trans [OF ledger.moves_trans [OF moves_adjust_balance [OF a assms(2)]] moves_remove_settlement] by fastforce
qed

lemma cancel_bid_moves [moves_intros]:
  assumes "cancel_bid lib i vop db = Inr db'" "safe_exact (fc_safe lib)"
  shows "moves (\<lambda>_. 0) db db'"
proof -
  from assms(1) obtain b db1 db2 where b: "ix_get i (bids db) = Some b"
    and a: "adjust_balance lib (bidder b) (base (inv_swan_price b)) db = Inr db1"
    and db2: "db2 = (if vop then push_applied_operation (Bid_collateral_vop (bidder b) (base (inv_swan_price b))
                       (mk_asset 0 (asset_id (quote (inv_swan_price b))))) db1 else db1)"
    and db': "db' = db2\<lparr>bids := ix_remove i (bids db2)\<rparr>"
    by (auto simp: cancel_bid_def Let_def)
  have "moves (\<lambda>_. 0) db1 db2" "same_market db1 db2" by (simp_all add: db2)
  moreover from this have "ix_get i (bids db2) = Some b"
    using b same_market_adjust_balance [OF a] by (simp add: same_market_def)
  ultimately show ?thesis unfolding db'
    using ledger.moves_trans [OF ledger.moves_trans [OF moves_adjust_balance [OF a assms(2)]] moves_remove_bid] by fastforce
qed

subsection \<open>Filling orders\<close>

definition maybe_cull_small_order :: "fc_lib \<Rightarrow> obj_id \<Rightarrow> database \<Rightarrow> (bool \<times> database) res" where
  "maybe_cull_small_order lib oid db =
     res_bind (get_limit_order db oid) (\<lambda>order.
     res_bind (lo_amount_to_receive order) (\<lambda>recv.
     if amount recv = 0 then
       res_bind (if deferred_fee order > 0 \<and> head_block_time db \<le> HARDFORK_CORE_604_TIME
                 then cancel_limit_order lib oid True True db
                 else cancel_limit_order lib oid True False db) (\<lambda>db1. Inr (True, db1))
     else Inr (False, db)))"

text \<open>Two parts of \<open>fill_limit_order\<close>: the deferred fees become final with the first fill, and the order is removed
  when it has paid everything it had for sale, otherwise reduced.\<close>

definition settle_deferred_fees :: "fc_lib \<Rightarrow> limit_order_object \<Rightarrow> database \<Rightarrow> database res" where
  "settle_deferred_fees lib order db =
     res_bind (if deferred_fee order > 0
               then modify_statistics (seller order) (stats_pay_fee lib (deferred_fee order) (cashback_vesting_threshold (parameters db))) db
               else Inr db) (\<lambda>db1.
     if amount (deferred_paid_fee order) > 0
     then modify_dyn_data (asset_id (deferred_paid_fee order)) (add_accumulated_fees lib (amount (deferred_paid_fee order))) db1
     else Inr db1)"

definition reduce_limit_order :: "fc_lib \<Rightarrow> obj_id \<Rightarrow> limit_order_object \<Rightarrow> asset \<Rightarrow> bool \<Rightarrow> database \<Rightarrow> (bool \<times> database) res" where
  "reduce_limit_order lib oid order pays cull_if_small db =
     (if pays = amount_for_sale order then Inr (True, db\<lparr>limit_orders := ix_remove oid (limit_orders db)\<rparr>)
      else res_bind (ix_modify oid (\<lambda>b. res_bind (fc_safe lib (for_sale b - amount pays)) (\<lambda>x.
                       Inr (b\<lparr>for_sale := x, deferred_fee := 0, deferred_paid_fee := (deferred_paid_fee b)\<lparr>amount := 0\<rparr>\<rparr>)))
                       (limit_orders db)) (\<lambda>ix.
           let db1 = db\<lparr>limit_orders := ix\<rparr> in
           if cull_if_small then maybe_cull_small_order lib oid db1 else Inr (False, db1)))"

definition fill_limit_order :: "fc_lib \<Rightarrow> obj_id \<Rightarrow> asset \<Rightarrow> asset \<Rightarrow> bool \<Rightarrow> price \<Rightarrow> bool \<Rightarrow> database \<Rightarrow> (bool \<times> database) res" where
  "fill_limit_order lib oid pays receives cull0 fill_price is_maker db =
     res_bind (get_limit_order db oid) (\<lambda>order.
     let cull_if_small = (cull0 \<or> head_block_time db < HARDFORK_555_TIME) in
     FC_ASSERT (asset_id (amount_for_sale order) = asset_id pays) ''order.amount_for_sale().asset_id == pays.asset_id''
     (FC_ASSERT (asset_id pays \<noteq> asset_id receives) ''pays.asset_id != receives.asset_id''
     (res_bind (get_account db (seller order)) (\<lambda>sel.
      res_bind (if head_block_time db < HARDFORK_1268_TIME then pay_market_fees_before_1268 lib (asset_id receives) receives db
                else pay_market_fees lib sel (asset_id receives) receives db) (\<lambda>(issuer_fees, db1).
      res_bind (asset_sub (fc_safe lib) receives issuer_fees) (\<lambda>net.
      res_bind (pay_order lib (seller order) net pays db1) (\<lambda>db2.
      let db3 = push_applied_operation (Fill_order_vop oid (seller order) pays receives issuer_fees fill_price is_maker) db2 in
      res_bind (settle_deferred_fees lib order db3) (\<lambda>db4.
        reduce_limit_order lib oid order pays cull_if_small db4))))))))"

text \<open>The change \<open>fill_call_order\<close> makes to the order, with the collateral it frees.\<close>

definition cover_debt :: "fc_lib \<Rightarrow> time_sec \<Rightarrow> int \<Rightarrow> asset \<Rightarrow> asset \<Rightarrow> call_order_object \<Rightarrow> (call_order_object \<times> asset option) res" where
  "cover_debt lib maint mcr pays receives o1 =
     res_bind (fc_safe lib (debt o1 - amount receives)) (\<lambda>d.
     res_bind (fc_safe lib (collateral o1 - amount pays)) (\<lambda>c.
     let o2 = o1\<lparr>debt := d, collateral := c\<rparr> in
     if d = 0 then Inr (o2\<lparr>collateral := 0\<rparr>, Some (get_collateral o2))
     else if maint \<le> HARDFORK_CORE_1270_TIME \<and> maint > HARDFORK_CORE_343_TIME
     then res_bind (call_price_of (get_debt o2) (get_collateral o2) mcr) (\<lambda>cp. Inr (o2\<lparr>call_price := cp\<rparr>, None))
     else Inr (o2, None)))"

definition fill_call_order :: "fc_lib \<Rightarrow> obj_id \<Rightarrow> asset \<Rightarrow> asset \<Rightarrow> price \<Rightarrow> bool \<Rightarrow> database \<Rightarrow> (bool \<times> database) res" where
  "fill_call_order lib oid pays receives fill_price is_maker db =
     res_bind (get_call_order db oid) (\<lambda>order.
     FC_ASSERT (debt_type order = asset_id receives) ''order.debt_type() == receives.asset_id''
     (FC_ASSERT (collateral_type order = asset_id pays) ''order.collateral_type() == pays.asset_id''
     (FC_ASSERT (collateral order \<ge> amount pays) ''order.collateral >= pays.amount''
     (res_bind (get_asset db (asset_id receives)) (\<lambda>mia.
      FC_ASSERT (is_market_issued mia) ''mia.is_market_issued()''
     (res_bind (bitasset_data db mia) (\<lambda>bd.
      res_bind (cover_debt lib (maint_time db) (maintenance_collateral_ratio (current_feed bd)) pays receives order) (\<lambda>(order', collateral_freed).
      res_bind (ix_modify oid (\<lambda>_. Inr order') (call_orders db)) (\<lambda>ix.
      let db1 = db\<lparr>call_orders := ix\<rparr> in
      res_bind (modify_dyn_data (asset_id receives) (sub_current_supply lib (amount receives)) db1) (\<lambda>db2.
      res_bind (case collateral_freed of None \<Rightarrow> Inr db2 | Some cf \<Rightarrow> adjust_balance lib (borrower order') cf db2) (\<lambda>db3.
      res_bind (if asset_id pays = core_asset
                then modify_stats_by_owner (borrower order') (\<lambda>s.
                       res_bind (sub_core_in_orders lib (amount pays) s) (\<lambda>s1.
                       case collateral_freed of None \<Rightarrow> Inr s1 | Some cf \<Rightarrow> sub_core_in_orders lib (amount cf) s1)) db3
                else Inr db3) (\<lambda>db4.
      let db5 = push_applied_operation (Fill_order_vop oid (borrower order') pays receives (mk_asset 0 (asset_id pays)) fill_price is_maker) db4 in
      Inr (collateral_freed \<noteq> None,
           if collateral_freed \<noteq> None then db5\<lparr>call_orders := ix_remove oid (call_orders db5)\<rparr> else db5)))))))))))))"

definition reduce_settlement :: "fc_lib \<Rightarrow> obj_id \<Rightarrow> asset \<Rightarrow> bool \<Rightarrow> database \<Rightarrow> database res" where
  "reduce_settlement lib sid pays partial db =
     (if partial then res_bind (ix_modify sid (\<lambda>s. res_bind (asset_sub (fc_safe lib) (fs_balance s) pays) (\<lambda>b.
                        Inr (s\<lparr>fs_balance := b\<rparr>))) (settlements db)) (\<lambda>ix. Inr (db\<lparr>settlements := ix\<rparr>))
      else Inr db)"

definition fill_settle_order :: "fc_lib \<Rightarrow> obj_id \<Rightarrow> asset \<Rightarrow> asset \<Rightarrow> price \<Rightarrow> bool \<Rightarrow> database \<Rightarrow> (bool \<times> database) res" where
  "fill_settle_order lib sid pays receives fill_price is_maker db =
     res_bind (get_settlement db sid) (\<lambda>settle.
     res_bind (pay_market_fees_before_1268 lib (asset_id receives) receives db) (\<lambda>(issuer_fees, db1).
     res_bind (asset_less pays (fs_balance settle)) (\<lambda>partial.
     res_bind (reduce_settlement lib sid pays partial db1) (\<lambda>db2.
     res_bind (asset_sub (fc_safe lib) receives issuer_fees) (\<lambda>net.
     res_bind (adjust_balance lib (fs_owner settle) net db2) (\<lambda>db3.
     let db4 = push_applied_operation (Fill_order_vop sid (fs_owner settle) pays receives issuer_fees fill_price is_maker) db3 in
     Inr (\<not> partial, if partial then db4 else db4\<lparr>settlements := ix_remove sid (settlements db4)\<rparr>)))))))"

lemma maybe_cull_moves [moves_intros]:
  "maybe_cull_small_order lib oid db = Inr (r, db') \<Longrightarrow> safe_exact (fc_safe lib) \<Longrightarrow> moves (\<lambda>_. 0) db db'"
  by (auto simp: maybe_cull_small_order_def split: if_splits intro: cancel_limit_order_moves)

lemma reduce_step_moves:
  assumes "ix_modify oid (\<lambda>b. res_bind (fc_safe lib (for_sale b - amount pays)) (\<lambda>x.
      Inr (b\<lparr>for_sale := x, deferred_fee := 0, deferred_paid_fee := (deferred_paid_fee b)\<lparr>amount := 0\<rparr>\<rparr>))) (limit_orders db) = Inr ix"
    "safe_exact (fc_safe lib)" "ix_get oid (limit_orders db) = Some order" "asset_id (amount_for_sale order) = asset_id pays"
  shows "moves (\<lambda>a. - part pays a - core_part (deferred_fee order) a - part (deferred_paid_fee order) a) db (db\<lparr>limit_orders := ix\<rparr>)"
proof (rule moves_limit_orders)
  from assms(1,3) obtain x where x: "fc_safe lib (for_sale order - amount pays) = Inr x"
    and sum: "\<And>g. ix_sum g ix = ix_sum g (limit_orders db) - g order
      + g (order\<lparr>for_sale := x, deferred_fee := 0, deferred_paid_fee := (deferred_paid_fee order)\<lparr>amount := 0\<rparr>\<rparr>)"
    by (elim ix_modifyE) auto
  have x': "x = for_sale order - amount pays" using x safe_exactD [OF assms(2)] by blast
  fix a
  have pz: "part ((deferred_paid_fee order)\<lparr>amount := 0\<rparr>) a = 0" by (simp add: part_def)
  have "part (mk_asset (amount pays) (asset_id pays)) a = part pays a" by simp
  then show "ix_sum (lo_holds a) ix = ix_sum (lo_holds a) (limit_orders db)
      + (- part pays a - core_part (deferred_fee order) a - part (deferred_paid_fee order) a)"
    using assms(4) by (simp add: sum lo_holds_def amount_for_sale_def x' pz)
  show "lo_index_ok (limit_orders db) \<Longrightarrow> lo_index_ok ix"
    by (rule lo_index_ok_modify [OF _ assms(1)]) auto
qed

lemma reduce_limit_order_moves:
  assumes "reduce_limit_order lib oid order pays cull db = Inr (r, db')" "safe_exact (fc_safe lib)"
    "ix_get oid (limit_orders db) = Some order" "asset_id (amount_for_sale order) = asset_id pays"
  shows "moves (\<lambda>a. - part pays a - core_part (deferred_fee order) a - part (deferred_paid_fee order) a) db db'"
proof (cases "pays = amount_for_sale order")
  case True
  with assms(1) moves_remove_limit_order [OF assms(3)] show ?thesis
    by (auto simp: reduce_limit_order_def lo_holds_def elim: ledger.moves_weaken)
next
  case False
  with assms(1) obtain ix where ix: "ix_modify oid (\<lambda>b. res_bind (fc_safe lib (for_sale b - amount pays)) (\<lambda>x.
                     Inr (b\<lparr>for_sale := x, deferred_fee := 0, deferred_paid_fee := (deferred_paid_fee b)\<lparr>amount := 0\<rparr>\<rparr>)))
                     (limit_orders db) = Inr ix"
    and c: "(if cull then maybe_cull_small_order lib oid (db\<lparr>limit_orders := ix\<rparr>) else Inr (False, db\<lparr>limit_orders := ix\<rparr>)) = Inr (r, db')"
    by (auto simp: reduce_limit_order_def Let_def simp del: res_bind_Inr elim!: res_bind_InrE)
  have "moves (\<lambda>_. 0) (db\<lparr>limit_orders := ix\<rparr>) db'" using c maybe_cull_moves [OF _ assms(2)] by (auto split: if_splits)
  from ledger.moves_trans [OF reduce_step_moves [OF ix assms(2-4)] this] show ?thesis by simp
qed

lemma settle_deferred_fees_moves:
  assumes "settle_deferred_fees lib order db = Inr db'" "safe_exact (fc_safe lib)"
    "0 \<le> deferred_fee order" "0 \<le> amount (deferred_paid_fee order)"
  shows "moves (\<lambda>a. core_part (deferred_fee order) a + part (deferred_paid_fee order) a) db db'" "same_market db db'"
proof -
  from assms(1) obtain db1 where s: "(if deferred_fee order > 0
               then modify_statistics (seller order) (stats_pay_fee lib (deferred_fee order) (cashback_vesting_threshold (parameters db))) db
               else Inr db) = Inr db1"
    and t: "(if amount (deferred_paid_fee order) > 0
     then modify_dyn_data (asset_id (deferred_paid_fee order)) (add_accumulated_fees lib (amount (deferred_paid_fee order))) db1
     else Inr db1) = Inr db'"
    unfolding settle_deferred_fees_def by (elim res_bind_InrE) (rule that)
  have m4: "moves (core_part (deferred_fee order)) db db1" "same_market db db1"
    using s assms(3) modify_statistics_pay_fee [OF _ assms(2)] by (auto split: if_splits intro: frame_intros)
  have m5: "moves (part (deferred_paid_fee order)) db1 db'" "same_market db1 db'"
    using t assms(4) moves_dyn_data(3) [OF assms(2), of "asset_id (deferred_paid_fee order)" "amount (deferred_paid_fee order)" db1 db']
    by (auto split: if_splits intro: frame_intros)
  show "moves (\<lambda>a. core_part (deferred_fee order) a + part (deferred_paid_fee order) a) db db'" "same_market db db'"
    using ledger.moves_trans [OF m4(1) m5(1)] same_market_trans [OF m4(2) m5(2)] by simp_all
qed

lemma fill_limit_order_moves [moves_intros]:
  assumes "fill_limit_order lib oid pays receives cull fp mk db = Inr (r, db')" "safe_exact (fc_safe lib)"
  shows "moves (\<lambda>a. part receives a - part pays a) db db'"
proof (rule moves_if_ok)
  assume ok: "db_ok db"
  from assms(1) obtain order :: limit_order_object and sel :: account_object and fees :: asset and db1 net db2 db4
    where order: "ix_get oid (limit_orders db) = Some order"
    and as: "asset_id (amount_for_sale order) = asset_id pays"
    and s1: "(if head_block_time db < HARDFORK_1268_TIME then pay_market_fees_before_1268 lib (asset_id receives) receives db
                else pay_market_fees lib sel (asset_id receives) receives db) = Inr (fees, db1)"
    and net: "asset_sub (fc_safe lib) receives fees = Inr net"
    and s2: "pay_order lib (seller order) net pays db1 = Inr db2"
    and s4: "settle_deferred_fees lib order (push_applied_operation (Fill_order_vop oid (seller order) pays receives fees fp mk) db2) = Inr db4"
    and s5: "reduce_limit_order lib oid order pays (cull \<or> head_block_time db < HARDFORK_555_TIME) db4 = Inr (r, db')"
    by (auto simp: fill_limit_order_def get_limit_order_def Let_def simp del: res_bind_Inr elim!: res_bind_InrE)
  have m1: "moves (part fees) db db1" "same_market db db1"
    using s1 pay_market_fees_moves [OF _ assms(2)] pay_market_fees_before_1268_moves [OF _ assms(2)]
    by (auto split: if_splits intro: frame_intros)
  note m2 = pay_order_moves [OF s2 assms(2)]
  have nn: "0 \<le> deferred_fee order" "0 \<le> amount (deferred_paid_fee order)"
    using lo_index_ok_get [OF _ order] ok by (auto simp: db_ok_def)
  note m4 = settle_deferred_fees_moves [OF s4 assms(2) nn]
  have "same_market db db4" using m1 m2 m4 by (meson same_market_trans same_market_push)
  then have g: "ix_get oid (limit_orders db4) = Some order" using order by (simp add: same_market_def)
  note t = ledger.moves_trans [OF ledger.moves_trans [OF ledger.moves_trans [OF ledger.moves_trans
    [OF m1(1) m2(1)] moves_push] m4(1)] reduce_limit_order_moves [OF s5 assms(2) g as]]
  from t show "moves (\<lambda>a. part receives a - part pays a) db db'"
    by (rule ledger.moves_weaken) (simp add: asset_sub_move [OF net assms(2)])
qed

lemma call_price_of_ids:
  "call_price_of d c r = Inr cp \<Longrightarrow> asset_id (base cp) = asset_id c \<and> asset_id (quote cp) = asset_id d"
  by (auto simp: call_price_of_def Let_def asset_div_def price_inv_def split: prod.splits if_splits)

text \<open>What covering debt does to the order: the collateral it had is what it pays, what is freed and what it keeps.\<close>

lemma cover_debt_spec:
  assumes "cover_debt lib mt mcr pays receives o1 = Inr (o2, cf)" "safe_exact (fc_safe lib)"
    "collateral_type o1 = asset_id pays" "debt_type o1 = asset_id receives"
  shows "part (get_collateral o1) a = part pays a + (case cf of None \<Rightarrow> 0 | Some f \<Rightarrow> part f a) + part (get_collateral o2) a"
    "borrower o2 = borrower o1" "debt o2 = debt o1 - amount receives" "cf \<noteq> None \<longleftrightarrow> debt o2 = 0"
    "collateral_type o2 = collateral_type o1" "debt_type o2 = debt_type o1"
    "\<And>f. cf = Some f \<Longrightarrow> collateral o2 = 0 \<and> f = mk_asset (collateral o1 - amount pays) (collateral_type o1)"
proof -
  let ?o = "o1\<lparr>debt := debt o1 - amount receives, collateral := collateral o1 - amount pays\<rparr>"
  from assms(1) safe_exactD [OF assms(2), of "debt o1 - amount receives"] safe_exactD [OF assms(2), of "collateral o1 - amount pays"]
  consider (closed) "debt ?o = 0" "o2 = ?o\<lparr>collateral := 0\<rparr>" "cf = Some (get_collateral ?o)"
    | (repriced) cp where "debt ?o \<noteq> 0" "call_price_of (get_debt ?o) (get_collateral ?o) mcr = Inr cp" "o2 = ?o\<lparr>call_price := cp\<rparr>" "cf = None"
    | (still) "debt ?o \<noteq> 0" "o2 = ?o" "cf = None"
    by (auto simp: cover_debt_def Let_def split: if_splits)
  then have "(part (get_collateral o1) a = part pays a + (case cf of None \<Rightarrow> 0 | Some f \<Rightarrow> part f a) + part (get_collateral o2) a)
    \<and> borrower o2 = borrower o1 \<and> debt o2 = debt o1 - amount receives \<and> (cf \<noteq> None \<longleftrightarrow> debt o2 = 0)
    \<and> collateral_type o2 = collateral_type o1 \<and> debt_type o2 = debt_type o1
    \<and> (\<forall>f. cf = Some f \<longrightarrow> collateral o2 = 0 \<and> f = mk_asset (collateral o1 - amount pays) (collateral_type o1))"
  proof cases
    case repriced
    then show ?thesis using call_price_of_ids [OF repriced(2)] assms(3,4)
      by (simp add: get_collateral_def get_debt_def part_def collateral_type_def debt_type_def)
  qed (use assms(3,4) in \<open>simp_all add: get_collateral_def get_debt_def part_def collateral_type_def debt_type_def\<close>)
  then show "part (get_collateral o1) a = part pays a + (case cf of None \<Rightarrow> 0 | Some f \<Rightarrow> part f a) + part (get_collateral o2) a"
    "borrower o2 = borrower o1" "debt o2 = debt o1 - amount receives" "cf \<noteq> None \<longleftrightarrow> debt o2 = 0"
    "collateral_type o2 = collateral_type o1" "debt_type o2 = debt_type o1"
    "\<And>f. cf = Some f \<Longrightarrow> collateral o2 = 0 \<and> f = mk_asset (collateral o1 - amount pays) (collateral_type o1)"
    by blast+
qed

lemma fill_call_orderE:
  assumes "fill_call_order lib oid pays receives fp mk db = Inr (r, db')"
  obtains co co' :: call_order_object and cf :: "asset option" and mcr mt ix db2 db3 db4 where "ix_get oid (call_orders db) = Some co"
    "debt_type co = asset_id receives" "collateral_type co = asset_id pays" "amount pays \<le> collateral co"
    "cover_debt lib mt mcr pays receives co = Inr (co', cf)"
    "ix_modify oid (\<lambda>_. Inr co') (call_orders db) = Inr ix"
    "modify_dyn_data (asset_id receives) (sub_current_supply lib (amount receives)) (db\<lparr>call_orders := ix\<rparr>) = Inr db2"
    "(case cf of None \<Rightarrow> Inr db2 | Some f \<Rightarrow> adjust_balance lib (borrower co') f db2) = Inr db3"
    "(if asset_id pays = core_asset
      then modify_stats_by_owner (borrower co') (\<lambda>s.
             res_bind (sub_core_in_orders lib (amount pays) s) (\<lambda>s1.
             case cf of None \<Rightarrow> Inr s1 | Some f \<Rightarrow> sub_core_in_orders lib (amount f) s1)) db3
      else Inr db3) = Inr db4"
    "r = (cf \<noteq> None)"
    "db' = (let db5 = push_applied_operation (Fill_order_vop oid (borrower co') pays receives (mk_asset 0 (asset_id pays)) fp mk) db4 in
            if cf \<noteq> None then db5\<lparr>call_orders := ix_remove oid (call_orders db5)\<rparr> else db5)"
  using assms unfolding fill_call_order_def get_call_order_def
  by (auto simp: Let_def simp del: res_bind_Inr elim!: res_bind_InrE intro: that)

lemma ix_modify_get:
  "ix_modify i f ix = Inr ix' \<Longrightarrow> ix_get i ix = Some x \<Longrightarrow> \<exists>y. f x = Inr y \<and> ix_get i ix' = Some y"
  by (elim ix_modifyE) auto

lemma moves_modify_call_order:
  assumes "ix_modify oid (\<lambda>_. Inr co') (call_orders db) = Inr ix" "ix_get oid (call_orders db) = Some co"
  shows "moves (\<lambda>a. part (get_collateral co') a - part (get_collateral co) a) db (db\<lparr>call_orders := ix\<rparr>)"
proof (rule moves_call_orders)
  from assms show "ix_sum (\<lambda>c. part (get_collateral c) a) ix =
      ix_sum (\<lambda>c. part (get_collateral c) a) (call_orders db) + (part (get_collateral co') a - part (get_collateral co) a)" for a
    by (elim ix_modifyE) auto
qed (rule ix_ok_modify [OF _ assms(1)])

lemma moves_push_remove:
  "ix_get oid (call_orders db) = Some co \<Longrightarrow> moves (\<lambda>a. - part (get_collateral co) a) db
     ((push_applied_operation v db)\<lparr>call_orders := ix_remove oid (call_orders (push_applied_operation v db))\<rparr>)"
  "ix_get oid (settlements db) = Some so \<Longrightarrow> moves (\<lambda>a. - part (fs_balance so) a) db
     ((push_applied_operation v db)\<lparr>settlements := ix_remove oid (settlements (push_applied_operation v db))\<rparr>)"
  using ledger.moves_trans [OF moves_push [of db v] moves_remove_call_order [of oid "push_applied_operation v db" co]]
    ledger.moves_trans [OF moves_push [of db v] moves_remove_settlement [of oid "push_applied_operation v db" so]]
  by (simp_all add: push_applied_operation_def)

lemma fill_call_order_moves [moves_intros]:
  assumes "fill_call_order lib oid pays receives fp mk db = Inr (r, db')" "safe_exact (fc_safe lib)"
  shows "moves (\<lambda>a. part receives a - part pays a) db db'"
  using assms(1)
proof (cases rule: fill_call_orderE)
  case (1 co co' cf mcr mt ix db2 db3 db4)
  note c = cover_debt_spec [OF 1(5) assms(2) 1(3,2)]
  have m2: "moves (part receives) (db\<lparr>call_orders := ix\<rparr>) db2" using moves_dyn_data(1) [OF assms(2) 1(7)] by simp
  have m3: "moves (\<lambda>a. case cf of None \<Rightarrow> 0 | Some f \<Rightarrow> part f a) db2 db3" "same_market db2 db3"
    using 1(8) moves_adjust_balance [OF _ assms(2)] by (auto split: option.splits intro: frame_intros)
  have m4: "moves (\<lambda>_. 0) db3 db4"
    using 1(9) by (auto simp: sub_core_in_orders_def split: if_splits option.splits elim!: modify_stats_by_ownerE)
  have "same_market (db\<lparr>call_orders := ix\<rparr>) db4"
    using 1(9) same_market_trans [OF same_market_trans [OF same_market_modify_dyn_data [OF 1(7)] m3(2)]] same_market_modify_stats_by_owner [of "borrower co'" _ db3 db4]
    by (auto split: if_splits)
  then have g: "ix_get oid (call_orders db4) = Some co'"
    using ix_modify_get [OF 1(6,1)] by (simp add: same_market_def)
  have m5: "moves (\<lambda>a. if cf \<noteq> None then - part (get_collateral co') a else 0) db4 db'"
    using 1(11) moves_push_remove(1) [OF g] by (auto simp: Let_def)
  have z: "part (get_collateral co') a = 0" if "cf \<noteq> None" for a
    using c(7) that by (auto simp: get_collateral_def part_def)
  from ledger.moves_trans [OF ledger.moves_trans [OF ledger.moves_trans [OF ledger.moves_trans
      [OF moves_modify_call_order [OF 1(6,1)] m2] m3(1)] m4] m5]
  show ?thesis
    by (rule ledger.moves_weaken) (use c(1) z in auto)
qed

lemma fill_settle_order_moves:
  assumes "fill_settle_order lib sid pays receives fp mk db = Inr (r, db')" "safe_exact (fc_safe lib)"
    "ix_get sid (settlements db) = Some so" "amount pays \<le> amount (fs_balance so)"
  shows "moves (\<lambda>a. part receives a - part pays a) db db'"
proof -
  from assms(1,3) obtain fees :: asset and db1 partial db2 net db3
    where s1: "pay_market_fees_before_1268 lib (asset_id receives) receives db = Inr (fees, db1)"
    and less: "asset_less pays (fs_balance so) = Inr partial"
    and s2: "reduce_settlement lib sid pays partial db1 = Inr db2"
    and net: "asset_sub (fc_safe lib) receives fees = Inr net"
    and s3: "adjust_balance lib (fs_owner so) net db2 = Inr db3"
    and db': "db' = (let db4 = push_applied_operation (Fill_order_vop sid (fs_owner so) pays receives fees fp mk) db3 in
                     if partial then db4 else db4\<lparr>settlements := ix_remove sid (settlements db4)\<rparr>)"
    by (auto simp: fill_settle_order_def get_settlement_def Let_def simp del: res_bind_Inr elim!: res_bind_InrE; blast)
  note m1 = pay_market_fees_before_1268_moves [OF s1 assms(2)]
  have g1: "ix_get sid (settlements db1) = Some so"
    using same_market_pay_market_fees(2) [OF s1] assms(3) by (simp add: same_market_def)
  have m2: "moves (\<lambda>a. if partial then - part pays a else 0) db1 db2"
  proof (cases partial)
    case True
    with s2 obtain ix where ix: "ix_modify sid (\<lambda>s. res_bind (asset_sub (fc_safe lib) (fs_balance s) pays) (\<lambda>b.
        Inr (s\<lparr>fs_balance := b\<rparr>))) (settlements db1) = Inr ix" and db2: "db2 = db1\<lparr>settlements := ix\<rparr>"
      by (auto simp: reduce_settlement_def)
    from ix g1 obtain b where b: "asset_sub (fc_safe lib) (fs_balance so) pays = Inr b"
      and sum: "\<And>g. ix_sum g ix = ix_sum g (settlements db1) - g so + g (so\<lparr>fs_balance := b\<rparr>)" by (elim ix_modifyE) auto
    show ?thesis unfolding db2 by (rule moves_settlements)
      (auto simp: sum True asset_sub_move [OF b assms(2)] intro: ix_ok_modify [OF _ ix])
  qed (use s2 in \<open>simp add: reduce_settlement_def\<close>)
  have g3: "ix_get sid (settlements db3) = Some so" if "\<not> partial"
    using s2 that g1 same_market_adjust_balance [OF s3] by (simp add: same_market_def reduce_settlement_def)
  have m5: "moves (\<lambda>a. if partial then 0 else - part (fs_balance so) a) db3 db'"
    using db' moves_push_remove(2) [OF g3] by (auto simp: Let_def)
  have p: "part (fs_balance so) a = part pays a" if "\<not> partial" for a
    using less assms(4) that by (auto simp: asset_less_def part_def)
  from ledger.moves_trans [OF ledger.moves_trans [OF ledger.moves_trans [OF m1 m2] moves_adjust_balance [OF s3 assms(2)]] m5]
  show ?thesis by (rule ledger.moves_weaken) (use p asset_sub_move [OF net assms(2)] in auto)
qed

subsection \<open>Matching\<close>

text \<open>The amounts of a match of two limit orders: what the taker and the maker receive, and whether the taker is culled when
  little is left of it. \<open>None\<close> is the early return with result 1, when the taker would receive nothing.\<close>

definition match_limit_amounts :: "time_sec \<Rightarrow> limit_order_object \<Rightarrow> limit_order_object \<Rightarrow> price \<Rightarrow> (asset \<times> asset \<times> bool) option res" where
  "match_limit_amounts maint usd core match_price =
     (let usd_for_sale = amount_for_sale usd; core_for_sale = amount_for_sale core in
      res_bind (asset_times_price core_for_sale match_price) (\<lambda>core_value.
      res_bind (asset_le usd_for_sale core_value) (\<lambda>le.
      if le then
        res_bind (asset_times_price usd_for_sale match_price) (\<lambda>usd_receives.
        if amount usd_receives = 0 \<and> maint > HARDFORK_CORE_184_TIME then Inr None
        else if maint \<le> HARDFORK_CORE_342_TIME then Inr (Some (usd_receives, usd_for_sale, False))
        else res_bind (multiply_and_round_up usd_receives match_price) (\<lambda>core_receives.
               Inr (Some (usd_receives, core_receives, True))))
      else
        res_bind (asset_times_price core_for_sale match_price) (\<lambda>core_receives.
        if maint \<le> HARDFORK_CORE_342_TIME then Inr (Some (core_for_sale, core_receives, False))
        else res_bind (multiply_and_round_up core_receives match_price) (\<lambda>usd_receives.
               Inr (Some (usd_receives, core_receives, False)))))))"

definition match_limit_limit :: "fc_lib \<Rightarrow> obj_id \<Rightarrow> obj_id \<Rightarrow> price \<Rightarrow> database \<Rightarrow> (nat \<times> database) res" where
  "match_limit_limit lib usd_id core_id match_price db =
     res_bind (get_limit_order db usd_id) (\<lambda>usd.
     res_bind (get_limit_order db core_id) (\<lambda>core.
     FC_ASSERT (asset_id (quote (sell_price usd)) = asset_id (base (sell_price core))) ''usd.sell_price.quote.asset_id == core.sell_price.base.asset_id''
     (FC_ASSERT (asset_id (base (sell_price usd)) = asset_id (quote (sell_price core))) ''usd.sell_price.base.asset_id == core.sell_price.quote.asset_id''
     (FC_ASSERT (for_sale usd > 0 \<and> for_sale core > 0) ''usd.for_sale > 0 && core.for_sale > 0''
     (res_bind (match_limit_amounts (maint_time db) usd core match_price) (\<lambda>amounts.
      case amounts of
        None \<Rightarrow> Inr (1, db)
      | Some (usd_receives, core_receives, cull_taker) \<Rightarrow>
          let core_pays = usd_receives; usd_pays = core_receives in
          FC_ASSERT (maint_time db \<le> HARDFORK_CORE_342_TIME \<longrightarrow> usd_pays = amount_for_sale usd \<or> core_pays = amount_for_sale core)
            ''usd_pays == usd.amount_for_sale() || core_pays == core.amount_for_sale()''
          (res_bind (fill_limit_order lib usd_id usd_pays usd_receives cull_taker match_price False db) (\<lambda>(f1, db1).
           res_bind (fill_limit_order lib core_id core_pays core_receives True match_price True db1) (\<lambda>(f2, db2).
           let result = (if f1 then 1 else 0) + (if f2 then 2 else 0) in
           FC_ASSERT (result \<noteq> 0) ''result != 0'' (Inr (result, db2)))))))))))"

text \<open>The amounts of a match of a limit order (taker) with a margin position: what the call and the limit order receive.\<close>

definition match_call_amounts :: "time_sec \<Rightarrow> limit_order_object \<Rightarrow> asset \<Rightarrow> price \<Rightarrow> (asset \<times> asset \<times> bool) option res" where
  "match_call_amounts maint bid usd_to_buy match_price =
     (let usd_for_sale = amount_for_sale bid in
      res_bind (asset_less usd_for_sale usd_to_buy) (\<lambda>more.
      if more then
        res_bind (asset_times_price usd_for_sale match_price) (\<lambda>order_receives.
        if amount order_receives = 0 \<and> \<not> maint \<le> HARDFORK_CORE_184_TIME then Inr None
        else if maint \<le> HARDFORK_CORE_342_TIME then Inr (Some (usd_for_sale, order_receives, False))
        else res_bind (multiply_and_round_up order_receives match_price) (\<lambda>call_receives.
               Inr (Some (call_receives, order_receives, True))))
      else if maint \<le> HARDFORK_CORE_342_TIME then
        res_bind (asset_times_price usd_to_buy match_price) (\<lambda>order_receives.
        if amount order_receives = 0 \<and> \<not> maint \<le> HARDFORK_CORE_184_TIME then Inr None
        else Inr (Some (usd_to_buy, order_receives, False)))
      else res_bind (multiply_and_round_up usd_to_buy match_price) (\<lambda>order_receives.
             Inr (Some (usd_to_buy, order_receives, False)))))"

definition match_limit_call :: "nat \<Rightarrow> fc_lib \<Rightarrow> obj_id \<Rightarrow> obj_id \<Rightarrow> price \<Rightarrow> price \<Rightarrow> nat \<Rightarrow> price option \<Rightarrow> database \<Rightarrow> (nat \<times> database) res" where
  "match_limit_call fuel lib bid_id ask_id match_price feed_price mcr maintenance db =
     res_bind (get_limit_order db bid_id) (\<lambda>bid.
     res_bind (get_call_order db ask_id) (\<lambda>ask.
     FC_ASSERT (sell_asset_id bid = debt_type ask) ''bid.sell_asset_id() == ask.debt_type()''
     (FC_ASSERT (receive_asset_id bid = collateral_type ask) ''bid.receive_asset_id() == ask.collateral_type()''
     (FC_ASSERT (for_sale bid > 0 \<and> debt ask > 0 \<and> collateral ask > 0) ''bid.for_sale > 0 && ask.debt > 0 && ask.collateral > 0''
     (res_bind (get_max_debt_to_cover fuel lib ask match_price feed_price mcr maintenance) (\<lambda>to_buy.
      res_bind (match_call_amounts (maint_time db) bid (mk_asset to_buy (debt_type ask)) match_price) (\<lambda>amounts.
      case amounts of
        None \<Rightarrow> Inr (1, db)
      | Some (call_receives, order_receives, cull_taker) \<Rightarrow>
          let call_pays = order_receives; order_pays = call_receives in
          res_bind (fill_limit_order lib bid_id order_pays order_receives cull_taker match_price False db) (\<lambda>(f1, db1).
          res_bind (fill_call_order lib ask_id call_pays call_receives match_price True db1) (\<lambda>(f2, db2).
          Inr ((if f1 then 1 else 0) + (if f2 then 2 else 0), db2))))))))))"

text \<open>The amounts of a match of a margin position with a forced settlement: what the call receives and pays and whether the
  settlement is culled, or how the match ends early.\<close>

datatype settle_amounts = Settle_amounts asset asset bool | Cancel_settlement | Leave_settlement

definition round_settle_amounts :: "time_sec \<Rightarrow> asset \<Rightarrow> asset \<Rightarrow> price \<Rightarrow> asset \<Rightarrow> settle_amounts res" where
  "round_settle_amounts maint call_debt settle_balance match_price call_receives =
     res_bind (asset_times_price call_receives match_price) (\<lambda>call_pays.
     if amount call_pays = 0 then
       if maint > HARDFORK_CORE_184_TIME then
         if call_receives = call_debt then Inr (Settle_amounts call_receives (call_pays\<lparr>amount := 1\<rparr>) False)
         else if call_receives = settle_balance then Inr Cancel_settlement else Inr Leave_settlement
       else Inr (Settle_amounts call_receives call_pays False)
     else if \<not> maint \<le> HARDFORK_CORE_342_TIME then
       if call_receives = call_debt
       then res_bind (multiply_and_round_up call_receives match_price) (\<lambda>pays. Inr (Settle_amounts call_receives pays False))
       else res_bind (multiply_and_round_up call_pays match_price) (\<lambda>receives.
              Inr (Settle_amounts receives call_pays (call_receives = settle_balance \<and> receives \<noteq> settle_balance)))
     else Inr (Settle_amounts call_receives call_pays False))"

definition match_settle_amounts :: "time_sec \<Rightarrow> call_order_object \<Rightarrow> asset \<Rightarrow> price \<Rightarrow> asset \<Rightarrow> settle_amounts res" where
  "match_settle_amounts maint call settle_balance match_price max_settlement =
     res_bind (asset_less max_settlement settle_balance) (\<lambda>c1.
     let settle_for_sale = (if c1 then max_settlement else settle_balance); call_debt = get_debt call in
     res_bind (asset_less call_debt settle_for_sale) (\<lambda>c2.
     let call_receives = (if c2 then call_debt else settle_for_sale) in
     round_settle_amounts maint call_debt settle_balance match_price call_receives))"

definition match_call_settle :: "fc_lib \<Rightarrow> obj_id \<Rightarrow> obj_id \<Rightarrow> price \<Rightarrow> asset \<Rightarrow> price \<Rightarrow> database \<Rightarrow> (asset \<times> database) res" where
  "match_call_settle lib call_id settle_id match_price max_settlement fill_price db =
     res_bind (get_call_order db call_id) (\<lambda>call.
     res_bind (get_settlement db settle_id) (\<lambda>settle.
     FC_ASSERT (asset_id (get_debt call) = asset_id (fs_balance settle)) ''call.get_debt().asset_id == settle.balance.asset_id''
     (FC_ASSERT (debt call > 0 \<and> collateral call > 0 \<and> amount (fs_balance settle) > 0) ''call.debt > 0 && call.collateral > 0 && settle.balance.amount > 0''
     (res_bind (match_settle_amounts (maint_time db) call (fs_balance settle) match_price max_settlement) (\<lambda>amounts.
      case amounts of
        Cancel_settlement \<Rightarrow> res_bind (cancel_settle_order lib settle_id True db) (\<lambda>db1. Inr (mk_asset 0 (asset_id (fs_balance settle)), db1))
      | Leave_settlement \<Rightarrow> Inr (mk_asset 0 (asset_id (fs_balance settle)), db)
      | Settle_amounts call_receives call_pays cull_settle_order \<Rightarrow>
          let settle_pays = call_receives; settle_receives = call_pays in
          res_bind (if maint_time db \<le> HARDFORK_CORE_342_TIME
                    then res_bind (asset_less call_pays (get_collateral call)) (\<lambda>less.
                         if less then Inr () else Inl Black_swan_exn)
                    else Inr ()) (\<lambda>_.
          res_bind (fill_call_order lib call_id call_pays call_receives fill_price True db) (\<lambda>(_, db1).
          res_bind (fill_settle_order lib settle_id settle_pays settle_receives fill_price False db1) (\<lambda>(_, db2).
          res_bind (if cull_settle_order then cancel_settle_order lib settle_id True db2 else Inr db2) (\<lambda>db3.
          Inr (call_receives, db3))))))))))"

text \<open>A match moves nothing: each side receives what the other pays.\<close>

lemma match_limit_limit_moves [moves_intros]:
  assumes "match_limit_limit lib i j mp db = Inr (r, db')" "safe_exact (fc_safe lib)"
  shows "moves (\<lambda>_. 0) db db'"
proof -
  from assms(1) consider "db' = db"
    | x y cull f1 db1 f2 where "fill_limit_order lib i y x cull mp False db = Inr (f1, db1)"
      "fill_limit_order lib j x y True mp True db1 = Inr (f2, db')"
    by (auto simp: match_limit_limit_def Let_def split: option.splits prod.splits if_splits)
  then show ?thesis
  proof cases
    case 2
    from ledger.moves_trans [OF fill_limit_order_moves [OF 2(1) assms(2)] fill_limit_order_moves [OF 2(2) assms(2)]]
    show ?thesis by simp
  qed simp
qed

lemma match_limit_call_moves [moves_intros]:
  assumes "match_limit_call fuel lib i j mp fp mcr mc db = Inr (r, db')" "safe_exact (fc_safe lib)"
  shows "moves (\<lambda>_. 0) db db'"
proof -
  from assms(1) consider "db' = db"
    | x y cull f1 db1 f2 where "fill_limit_order lib i y x cull mp False db = Inr (f1, db1)"
      "fill_call_order lib j x y mp True db1 = Inr (f2, db')"
    by (auto simp: match_limit_call_def Let_def split: option.splits prod.splits if_splits)
  then show ?thesis
  proof cases
    case 2
    from ledger.moves_trans [OF fill_limit_order_moves [OF 2(1) assms(2)] fill_call_order_moves [OF 2(2) assms(2)]]
    show ?thesis by simp
  qed simp
qed

text \<open>The amounts of a settlement never exceed the settlement, the debt or the volume allowed.\<close>

lemma match_settle_amounts_bounds:
  assumes "match_settle_amounts mt call bal mp ms = Inr (Settle_amounts r p c)"
    "price_ok mp" "amount_ok (amount ms)" "0 < debt call" "0 < amount bal" "debt_type call = asset_id bal"
  shows "asset_id r = asset_id bal" "amount r \<le> amount bal" "amount r \<le> debt call" "amount r \<le> amount ms" "c \<Longrightarrow> r \<noteq> bal"
proof -
  define sfs where "sfs = (if amount ms < amount bal then ms else bal)"
  define cr where "cr = (if debt call < amount sfs then get_debt call else sfs)"
  have ids: "asset_id ms = asset_id bal" using assms(1) by (auto simp: match_settle_amounts_def asset_less_def)
  have cr: "asset_id cr = asset_id bal" "amount cr \<le> amount bal" "amount cr \<le> debt call" "amount cr \<le> amount ms" "amount_ok (amount cr)"
    using ids assms(3-6) by (auto simp: cr_def sfs_def get_debt_def amount_ok_def)
  have "round_settle_amounts mt (get_debt call) bal mp cr = Inr (Settle_amounts r p c)"
  proof -
    have "asset_less ms bal = Inr (amount ms < amount bal)" using ids by (simp add: asset_less_def)
    moreover have "asset_less (get_debt call) sfs = Inr (debt call < amount sfs)"
      using ids assms(6) by (simp add: asset_less_def sfs_def get_debt_def)
    ultimately show ?thesis using assms(1) unfolding match_settle_amounts_def Let_def
      by (simp add: cr_def) (simp add: sfs_def split: if_splits)
  qed
  then consider "r = cr" "\<not> c" | cp where "asset_times_price cr mp = Inr cp" "multiply_and_round_up cp mp = Inr r" "c \<longrightarrow> r \<noteq> bal"
    by (auto simp: round_settle_amounts_def split: if_splits)
  then have "asset_id r = asset_id bal \<and> amount r \<le> amount bal \<and> amount r \<le> debt call \<and> amount r \<le> amount ms \<and> (c \<longrightarrow> r \<noteq> bal)"
  proof cases
    case 2
    with conversion_stable [OF assms(2) cr(5) 2(1,2)] cr show ?thesis by linarith
  qed (use cr in simp)
  then show "asset_id r = asset_id bal" "amount r \<le> amount bal" "amount r \<le> debt call" "amount r \<le> amount ms" "c \<Longrightarrow> r \<noteq> bal"
    by blast+
qed

lemma fill_call_order_settlements:
  assumes "fill_call_order lib oid pays receives fp mk db = Inr (r, db')"
  shows "settlements db' = settlements db"
  using assms
proof (cases rule: fill_call_orderE)
  case (1 co co' cf mcr mt ix db2 db3 db4)
  have "settlements db2 = settlements db" using same_market_modify_dyn_data [OF 1(7)] by (simp add: same_market_def)
  moreover have "settlements db3 = settlements db2" using 1(8) same_market_adjust_balance [of lib "borrower co'" _ db2 db3]
    by (auto simp: same_market_def split: option.splits)
  moreover have "settlements db4 = settlements db3" using 1(9) same_market_modify_stats_by_owner [of "borrower co'" _ db3 db4]
    by (auto simp: same_market_def split: if_splits)
  ultimately show ?thesis using 1(11) by (auto simp: Let_def push_applied_operation_def)
qed

lemma match_call_settle_moves:
  assumes "match_call_settle lib i j mp ms fp db = Inr (r, db')" "safe_exact (fc_safe lib)" "price_ok mp" "amount_ok (amount ms)"
  shows "moves (\<lambda>_. 0) db db'"
proof -
  from assms(1) obtain call :: call_order_object and so :: force_settlement_object
    where c: "ix_get i (call_orders db) = Some call" and s: "ix_get j (settlements db) = Some so"
    and pre: "asset_id (get_debt call) = asset_id (fs_balance so)" "0 < debt call" "0 < amount (fs_balance so)"
    by (auto simp: match_call_settle_def get_call_order_def get_settlement_def)
  from assms(1) c s obtain am where am: "match_settle_amounts (maint_time db) call (fs_balance so) mp ms = Inr am"
    and rest: "(case am of
        Cancel_settlement \<Rightarrow> res_bind (cancel_settle_order lib j True db) (\<lambda>db1. Inr (mk_asset 0 (asset_id (fs_balance so)), db1))
      | Leave_settlement \<Rightarrow> Inr (mk_asset 0 (asset_id (fs_balance so)), db)
      | Settle_amounts x p cull \<Rightarrow>
          res_bind (if maint_time db \<le> HARDFORK_CORE_342_TIME
                    then res_bind (asset_less p (get_collateral call)) (\<lambda>less. if less then Inr () else Inl Black_swan_exn)
                    else Inr ()) (\<lambda>_.
          res_bind (fill_call_order lib i p x fp True db) (\<lambda>(_, db1).
          res_bind (fill_settle_order lib j x p fp False db1) (\<lambda>(_, db2).
          res_bind (if cull then cancel_settle_order lib j True db2 else Inr db2) (\<lambda>db3. Inr (x, db3)))))) = Inr (r, db')"
    unfolding match_call_settle_def get_call_order_def get_settlement_def Let_def
    by (auto simp del: res_bind_Inr elim!: res_bind_InrE)
  show ?thesis
  proof (cases am)
    case (Settle_amounts x p cull)
    with rest obtain f1 db1 f2 db2 where fill: "fill_call_order lib i p x fp True db = Inr (f1, db1)"
      "fill_settle_order lib j x p fp False db1 = Inr (f2, db2)" "(if cull then cancel_settle_order lib j True db2 else Inr db2) = Inr db'"
      by (auto simp del: res_bind_Inr elim!: res_bind_InrE)
    have dt: "debt_type call = asset_id (fs_balance so)" using pre(1) by (simp add: get_debt_def)
    note b = match_settle_amounts_bounds [OF am [unfolded Settle_amounts] assms(3,4) pre(2,3) dt]
    have s1: "ix_get j (settlements db1) = Some so" using fill_call_order_settlements [OF fill(1)] s by simp
    have "moves (\<lambda>_. 0) db2 db'" using fill(3) cancel_settle_order_moves [OF _ assms(2)] by (auto split: if_splits)
    from ledger.moves_trans [OF ledger.moves_trans [OF fill_call_order_moves [OF fill(1) assms(2)]
        fill_settle_order_moves [OF fill(2) assms(2) s1 b(2)]] this]
    show ?thesis by simp
  qed (use rest cancel_settle_order_moves [OF _ assms(2)] in auto)
qed

text \<open>The amounts of a match of two limit orders after core-342. No side pays more than it offers; what the side that
  limits the trade receives is rounded down, and what it pays is then the least amount that still buys it.\<close>

definition rounded_trade :: "price \<Rightarrow> asset \<Rightarrow> asset \<Rightarrow> asset \<Rightarrow> bool" where
  "rounded_trade mp offered pays receives \<longleftrightarrow>
     asset_times_price offered mp = Inr receives \<and> multiply_and_round_up receives mp = Inr pays"

lemma price_le_conv:
  assumes "price_ok mp" "amount_ok (amount x)" "amount_ok (amount y)" "asset_times_price y mp = Inr y'" "asset_id x = asset_id y'"
    "amount x \<le> amount y'" "asset_times_price x mp = Inr x'"
  shows "asset_id x' = asset_id y" "amount x' \<le> amount y"
proof -
  define n d where "n = rate_num mp (asset_id y)" and "d = rate_den mp (asset_id y)"
  have pos: "0 < n" "0 < d" using rate_pos [OF assms(1)] by (simp_all add: n_def d_def)
  have y': "asset_id y \<in> {asset_id (base mp), asset_id (quote mp)}" "y' = mk_asset (amount y * n div d) (other_id mp (asset_id y))"
    using assms(4) asset_times_price_iff [OF assms(1,3)] by (auto simp: Let_def n_def d_def)
  have x': "x' = mk_asset (amount x * d div n) (asset_id y)"
    using assms(7) asset_times_price_iff [OF assms(1,2)] assms(5) rate_other [OF assms(1) y'(1)]
    by (auto simp: Let_def n_def d_def y'(2))
  have "amount x * d \<le> amount y * n"
    using order_trans [OF mult_right_mono [OF assms(6), of d], of "amount y * n"] int_floor_bounds(1) [OF pos(2), of "amount y * n"] pos(2)
    by (simp add: y'(2) del: mult_le_cancel_right_pos)
  then show "amount x' \<le> amount y" unfolding x' by (simp add: int_div_le_of_mult [OF pos(1)])
  show "asset_id x' = asset_id y" by (simp add: x')
qed

lemma match_limit_amounts_fair:
  assumes "match_limit_amounts mt usd core mp = Inr (Some (usd_receives, core_receives, cull))" "mt > HARDFORK_CORE_342_TIME"
    "price_ok mp" "amount_ok (for_sale usd)" "amount_ok (for_sale core)"
  shows "amount core_receives \<le> for_sale usd \<and> amount usd_receives \<le> for_sale core
    \<and> asset_id core_receives = sell_asset_id usd \<and> asset_id usd_receives = sell_asset_id core
    \<and> (if cull then rounded_trade mp (amount_for_sale usd) core_receives usd_receives
       else rounded_trade mp (amount_for_sale core) usd_receives core_receives)"
proof -
  have ok: "amount_ok (amount (amount_for_sale usd))" "amount_ok (amount (amount_for_sale core))"
    using assms(4,5) by (simp_all add: amount_for_sale_def)
  from assms(1) obtain cv le where cv: "asset_times_price (amount_for_sale core) mp = Inr cv"
    and le: "asset_le (amount_for_sale usd) cv = Inr le"
    and rest: "(if le then
        res_bind (asset_times_price (amount_for_sale usd) mp) (\<lambda>usd_receives.
        if amount usd_receives = 0 \<and> mt > HARDFORK_CORE_184_TIME then Inr None
        else if mt \<le> HARDFORK_CORE_342_TIME then Inr (Some (usd_receives, amount_for_sale usd, False))
        else res_bind (multiply_and_round_up usd_receives mp) (\<lambda>core_receives. Inr (Some (usd_receives, core_receives, True))))
      else
        res_bind (asset_times_price (amount_for_sale core) mp) (\<lambda>core_receives.
        if mt \<le> HARDFORK_CORE_342_TIME then Inr (Some (amount_for_sale core, core_receives, False))
        else res_bind (multiply_and_round_up core_receives mp) (\<lambda>usd_receives.
               Inr (Some (usd_receives, core_receives, False))))) = Inr (Some (usd_receives, core_receives, cull))"
    unfolding match_limit_amounts_def Let_def by (elim res_bind_InrE) (rule that)
  have ids: "asset_id (amount_for_sale usd) = asset_id cv" and le': "le \<longleftrightarrow> amount (amount_for_sale usd) \<le> amount cv"
    using le by (auto simp: asset_le_def asset_less_def)
  show ?thesis
  proof (cases le)
    case True
    with rest assms(2) have t: "asset_times_price (amount_for_sale usd) mp = Inr usd_receives" "multiply_and_round_up usd_receives mp = Inr core_receives"
      and c: cull by (auto split: if_splits)
    have "amount (amount_for_sale usd) \<le> amount cv" using True le' by simp
    from conversion_stable [OF assms(3) ok(1) t] price_le_conv [OF assms(3) ok cv ids this t(1)] c t show ?thesis
      by (simp add: amount_for_sale_def sell_asset_id_def rounded_trade_def)
  next
    case False
    with rest assms(2) have t: "asset_times_price (amount_for_sale core) mp = Inr core_receives" "multiply_and_round_up core_receives mp = Inr usd_receives"
      and c: "\<not> cull" by (auto split: if_splits)
    have "core_receives = cv" using t(1) cv by simp
    with conversion_stable [OF assms(3) ok(2) t] False le' ids c t show ?thesis
      by (simp add: amount_for_sale_def sell_asset_id_def rounded_trade_def)
  qed
qed

end
