(* ===== verification/Order_Books.thy ===== *)
theory Order_Books
  imports Market
begin

text \<open>
  The order books: iteration over the price-ordered indexes, global settlement and revival of a market issued asset,
  black swan detection, margin calls and the application of a new limit order
  (\<open>libraries/chain/db_market.cpp\<close>, \<open>check_for_blackswan\<close> of \<open>db_update.cpp\<close>, the index types of \<open>market_object.hpp\<close>).

  An ordered index is the table of the objects sorted by the comparison of the index, ties broken by the object
  identifier. \<open>lower_bound\<close> and \<open>upper_bound\<close> of two keys delimit the objects whose key is between them. An iterator that
  walks a range while the orders it passes are filled is the list of the identifiers still ahead of it; an iterator that
  the code re-reads with \<open>lower_bound\<close> after every step is computed anew from the current index.
\<close>

subsection \<open>Ordered indexes\<close>

definition comes_before :: "('k \<Rightarrow> 'k \<Rightarrow> bool) \<Rightarrow> ('o \<Rightarrow> 'k) \<Rightarrow> obj_id \<times> 'o \<Rightarrow> obj_id \<times> 'o \<Rightarrow> bool" where
  "comes_before lt key x y \<longleftrightarrow> lt (key (snd x)) (key (snd y)) \<or> \<not> lt (key (snd y)) (key (snd x)) \<and> fst x < fst y"

fun insert_sorted :: "('k \<Rightarrow> 'k \<Rightarrow> bool) \<Rightarrow> ('o \<Rightarrow> 'k) \<Rightarrow> obj_id \<times> 'o \<Rightarrow> 'o table \<Rightarrow> 'o table" where
  "insert_sorted lt key x [] = [x]"
| "insert_sorted lt key x (y # ys) = (if comes_before lt key x y then x # y # ys else y # insert_sorted lt key x ys)"

definition sorted_index :: "('k \<Rightarrow> 'k \<Rightarrow> bool) \<Rightarrow> ('o \<Rightarrow> 'k) \<Rightarrow> 'o index \<Rightarrow> 'o table" where
  "sorted_index lt key ix = foldr (insert_sorted lt key) (ix_tab ix) []"

text \<open>The objects from \<open>lower_bound(lo)\<close> up to \<open>upper_bound(hi)\<close>.\<close>

definition index_range :: "('k \<Rightarrow> 'k \<Rightarrow> bool) \<Rightarrow> ('o \<Rightarrow> 'k) \<Rightarrow> 'k \<Rightarrow> 'k \<Rightarrow> 'o index \<Rightarrow> 'o table" where
  "index_range lt key lo hi ix = filter (\<lambda>x. \<not> lt (key (snd x)) lo \<and> \<not> lt hi (key (snd x))) (sorted_index lt key ix)"

text \<open>The objects from \<open>lower_bound(lo)\<close> to the end of the index.\<close>

definition index_from :: "('k \<Rightarrow> 'k \<Rightarrow> bool) \<Rightarrow> ('o \<Rightarrow> 'k) \<Rightarrow> 'k \<Rightarrow> 'o index \<Rightarrow> 'o table" where
  "index_from lt key lo ix = filter (\<lambda>x. \<not> lt (key (snd x)) lo) (sorted_index lt key ix)"

definition price_greater :: "price \<Rightarrow> price \<Rightarrow> bool" where
  "price_greater a b \<longleftrightarrow> price_less b a"

definition limit_range :: "database \<Rightarrow> price \<Rightarrow> price \<Rightarrow> limit_order_object table" where
  "limit_range db max_price min_price = index_range price_greater sell_price max_price min_price (limit_orders db)"

definition collateralization_key :: "call_order_object \<Rightarrow> price" where
  "collateralization_key co = mk_price (get_collateral co) (get_debt co)"

text \<open>The ordering of margin positions: by \<open>call_price\<close> before core-1270, by collateralization after it.\<close>

definition call_key :: "bool \<Rightarrow> call_order_object \<Rightarrow> price" where
  "call_key before_1270 = (if before_1270 then call_price else collateralization_key)"

definition call_range :: "bool \<Rightarrow> database \<Rightarrow> price \<Rightarrow> price \<Rightarrow> call_order_object table" where
  "call_range before_1270 db call_min call_max = index_range price_less (call_key before_1270) call_min call_max (call_orders db)"

definition calls_from :: "bool \<Rightarrow> database \<Rightarrow> price \<Rightarrow> call_order_object table" where
  "calls_from before_1270 db call_min = index_from price_less (call_key before_1270) call_min (call_orders db)"

lemma set_insert_sorted [simp]: "set (insert_sorted lt key x t) = insert x (set t)"
  by (induction t) auto

lemma distinct_insert_sorted [simp]: "distinct (map fst (insert_sorted lt key x t)) \<longleftrightarrow> distinct (map fst (x # t))"
  by (induction t) auto

lemma set_sorted_index [simp]: "set (sorted_index lt key ix) = set (ix_tab ix)"
proof -
  have "set (foldr (insert_sorted lt key) t []) = set t" for t by (induction t) auto
  then show ?thesis by (simp add: sorted_index_def)
qed

lemma distinct_sorted_index: "ix_ok ix \<Longrightarrow> distinct (map fst (sorted_index lt key ix))"
proof -
  have "distinct (map fst t) \<Longrightarrow> distinct (map fst (foldr (insert_sorted lt key) t [])) \<and> set (foldr (insert_sorted lt key) t []) = set t" for t
    by (induction t) auto
  then show "ix_ok ix \<Longrightarrow> ?thesis" by (simp add: sorted_index_def ix_ok_def)
qed

lemma index_range_get:
  "ix_ok ix \<Longrightarrow> (i, x) \<in> set (index_range lt key lo hi ix) \<longleftrightarrow> ix_get i ix = Some x \<and> \<not> lt (key x) lo \<and> \<not> lt hi (key x)"
  by (auto simp: index_range_def ix_get_def ix_ok_def)

lemma distinct_index_range: "ix_ok ix \<Longrightarrow> distinct (map fst (index_range lt key lo hi ix))"
  unfolding index_range_def by (rule distinct_map_filter) (rule distinct_sorted_index)

text \<open>With a strict weak order of the keys the index is sorted: every object comes before the ones after it.\<close>

context strict_weak_order
begin

lemma comes_before_trans:
  assumes "comes_before lt key x y" "comes_before lt key y z" "ok (key (snd x))" "ok (key (snd y))" "ok (key (snd z))"
  shows "comes_before lt key x z"
  using assms trans [of "key (snd x)" "key (snd y)" "key (snd z)"] le_trans [of "key (snd x)" "key (snd y)" "key (snd z)"]
    asym lt_eqv_trans trichotomy unfolding comes_before_def by (meson order_less_trans)

lemma comes_before_total:
  "fst x \<noteq> fst y \<Longrightarrow> ok (key (snd x)) \<Longrightarrow> ok (key (snd y)) \<Longrightarrow> comes_before lt key x y \<or> comes_before lt key y x"
  unfolding comes_before_def by auto

lemma insert_sorted_sorted:
  assumes "sorted_wrt (comes_before lt key) t" "ok (key (snd x))" "\<And>y. y \<in> set t \<Longrightarrow> ok (key (snd y)) \<and> fst y \<noteq> fst x"
  shows "sorted_wrt (comes_before lt key) (insert_sorted lt key x t)"
  using assms
proof (induction t)
  case (Cons y t)
  show ?case
  proof (cases "comes_before lt key x y")
    case True
    with Cons.prems comes_before_trans [OF True] show ?thesis by auto
  next
    case False
    have "fst x \<noteq> fst y" "ok (key (snd y))" using Cons.prems(3) [of y] by auto
    with False comes_before_total [of x y key] Cons.prems(2) have "comes_before lt key y x" by blast
    with False Cons show ?thesis by simp
  qed
qed simp

lemma sorted_index_sorted:
  assumes "ix_ok ix" "\<And>i x. ix_get i ix = Some x \<Longrightarrow> ok (key x)"
  shows "sorted_wrt (comes_before lt key) (sorted_index lt key ix)"
proof -
  have "distinct (map fst t) \<Longrightarrow> (\<And>p. p \<in> set t \<Longrightarrow> ok (key (snd p))) \<Longrightarrow> sorted_wrt (comes_before lt key) (foldr (insert_sorted lt key) t [])
      \<and> set (foldr (insert_sorted lt key) t []) = set t" for t
  proof (induction t)
    case (Cons p t)
    have "\<And>y. y \<in> set t \<Longrightarrow> fst y \<noteq> fst p" using Cons.prems(1) by (metis distinct.simps(2) image_eqI list.simps(9) set_map)
    with Cons insert_sorted_sorted [of key "foldr (insert_sorted lt key) t []" p] show ?case by auto
  qed simp
  from this [of "ix_tab ix"] assms show ?thesis by (force simp: sorted_index_def ix_ok_def ix_get_def)
qed

lemma index_range_sorted:
  assumes "ix_ok ix" "\<And>i x. ix_get i ix = Some x \<Longrightarrow> ok (key x)"
  shows "sorted_wrt (comes_before lt key) (index_range lt key lo hi ix)"
  unfolding index_range_def by (rule sorted_wrt_filter [OF sorted_index_sorted [OF assms]])

end

interpretation greatest_first: strict_weak_order price_ok price_greater price_eq
  by unfold_locales (auto simp: price_greater_def price_less_iff price_eq_iff)

text \<open>Indexes ordered by a time, such as \<open>by_expiration\<close>: the objects that are due form an initial segment.\<close>

definition earlier :: "time_sec \<Rightarrow> time_sec \<Rightarrow> bool" where
  "earlier s t \<longleftrightarrow> s < t"

interpretation earliest_first: strict_weak_order "\<lambda>_. True" earlier "(=)"
  by unfold_locales (auto simp: earlier_def)

lemma set_takeWhile_sorted:
  assumes "sorted_wrt R xs" "\<And>x y. R x y \<Longrightarrow> P y \<Longrightarrow> P x"
  shows "set (takeWhile P xs) = {x \<in> set xs. P x}"
  using assms(1) by (induction xs) (auto dest: assms(2))

lemma due_objects:
  assumes "ix_ok ix"
  shows "set (takeWhile (\<lambda>x. key (snd x) \<le> t) (sorted_index earlier key ix)) = {x \<in> set (ix_tab ix). key (snd x) \<le> t}"
proof -
  have "sorted_wrt (comes_before earlier key) (sorted_index earlier key ix)" using assms by (rule earliest_first.sorted_index_sorted) simp
  moreover have "comes_before earlier key x y \<Longrightarrow> key (snd y) \<le> t \<Longrightarrow> key (snd x) \<le> t" for x y by (auto simp: comes_before_def earlier_def)
  ultimately have "set (takeWhile (\<lambda>x. key (snd x) \<le> t) (sorted_index earlier key ix)) = {x \<in> set (sorted_index earlier key ix). key (snd x) \<le> t}"
    by (rule set_takeWhile_sorted)
  then show ?thesis by simp
qed

text \<open>An object in a range between the least and the greatest price of a market belongs to that market.\<close>

lemma price_between_ids:
  assumes "\<not> price_less p lo" "\<not> price_less hi p" "price_min b q = Inr lo" "price_max b q = Inr hi"
  shows "asset_id (base p) = b" "asset_id (quote p) = q"
  using assms by (auto simp: price_less_def price_min_def price_max_def asset_div_def split: if_splits)

subsection \<open>Global settlement\<close>

text \<open>Close every margin position at the settlement price, adding what it pays to the gathered collateral.\<close>

definition settle_pays :: "bool \<Rightarrow> price \<Rightarrow> call_order_object \<Rightarrow> asset res" where
  "settle_pays before_342 sp co =
     res_bind (if before_342 then asset_times_price (get_debt co) sp else multiply_and_round_up (get_debt co) sp) (\<lambda>pays.
     res_bind (asset_less (get_collateral co) pays) (\<lambda>more. Inr (if more then get_collateral co else pays)))"

fun settle_calls :: "fc_lib \<Rightarrow> bool \<Rightarrow> price \<Rightarrow> obj_id list \<Rightarrow> asset \<Rightarrow> database \<Rightarrow> (asset \<times> database) res" where
  "settle_calls lib before_342 sp [] gathered db = Inr (gathered, db)"
| "settle_calls lib before_342 sp (i # is) gathered db =
     res_bind (get_call_order db i) (\<lambda>co.
     res_bind (settle_pays before_342 sp co) (\<lambda>pays.
     res_bind (asset_add (fc_safe lib) gathered pays) (\<lambda>gathered'.
     res_bind (fill_call_order lib i pays (get_debt co) sp True db) (\<lambda>(filled, db1).
     FC_ASSERT filled ''fill_call_order( order, pays, order.get_debt(), settlement_price, true )''
     (settle_calls lib before_342 sp is gathered' db1)))))"

definition globally_settle_asset :: "fc_lib \<Rightarrow> asset_id \<Rightarrow> price \<Rightarrow> database \<Rightarrow> database res" where
  "globally_settle_asset lib mia_id sp db =
     res_bind (get_asset db mia_id) (\<lambda>mia.
     res_bind (bitasset_data db mia) (\<lambda>bitasset.
     FC_ASSERT (\<not> has_settlement bitasset) ''black swan already occurred, it should not happen again''
     (let backing = short_backing_asset (bd_options bitasset) in
      res_bind (get_asset db backing) (\<lambda>_.
      res_bind (dynamic_data db mia) (\<lambda>mia_dyn.
      let original_mia_supply = current_supply mia_dyn; before_342 = (maint_time db \<le> HARDFORK_CORE_342_TIME) in
      res_bind (price_min backing mia_id) (\<lambda>call_min.
      res_bind (price_max backing mia_id) (\<lambda>call_max.
      res_bind (settle_calls lib before_342 sp (map fst (call_range True db call_min call_max)) (mk_asset 0 backing) db) (\<lambda>(gathered, db1).
      res_bind (modify_bitasset mia_id (\<lambda>obj. res_bind (asset_div (mk_asset original_mia_supply mia_id) gathered) (\<lambda>p.
                  Inr (obj\<lparr>bd_settlement_price := p, settlement_fund := amount gathered\<rparr>))) db1) (\<lambda>db2.
      modify_dyn_data mia_id (\<lambda>obj. Inr (obj\<lparr>current_supply := original_mia_supply\<rparr>)) db2)))))))))"

definition supply_of :: "database \<Rightarrow> asset_id \<Rightarrow> int res" where
  "supply_of db a = res_bind (get_asset db a) (\<lambda>ao. res_bind (dynamic_data db ao) (\<lambda>d. Inr (current_supply d)))"

text \<open>Filling a margin position leaves the other positions and the links of the assets alone and burns what it receives.\<close>

definition same_links :: "database \<Rightarrow> database \<Rightarrow> bool" where
  "same_links db db' \<longleftrightarrow> assets db' = assets db \<and> bitassets db' = bitassets db \<and> dgp db' = dgp db"

lemma same_links_market: "same_market db db' \<Longrightarrow> same_links db db'"
  by (simp add: same_links_def same_market_def)

lemma same_links_trans: "same_links a b \<Longrightarrow> same_links b c \<Longrightarrow> same_links a c"
  by (simp add: same_links_def)

lemma modify_dyn_data_supply:
  assumes "modify_dyn_data a f db = Inr db'" "\<And>d d'. f d = Inr d' \<Longrightarrow> current_supply d' = g (current_supply d)" "supply_of db a = Inr s"
  shows "supply_of db' a = Inr (g s)"
  using assms by (elim modify_dyn_dataE) (auto simp: supply_of_def dynamic_data_def get_asset_def)

lemma supply_of_cong: "assets db' = assets db \<Longrightarrow> dyn_data db' = dyn_data db \<Longrightarrow> supply_of db' a = supply_of db a"
  by (simp add: supply_of_def get_asset_def dynamic_data_def)

lemma adjust_balance_frame: "adjust_balance lib acc d db = Inr db' \<Longrightarrow> assets db' = assets db \<and> dyn_data db' = dyn_data db"
  by (auto simp: adjust_balance_def split: if_splits option.splits)

lemma modify_stats_by_owner_frame: "modify_stats_by_owner a f db = Inr db' \<Longrightarrow> assets db' = assets db \<and> dyn_data db' = dyn_data db"
  by (auto simp: modify_stats_by_owner_def split: option.splits)

lemma fill_call_order_frame_aux:
  assumes "fill_call_order lib oid pays receives fp mk db = Inr (r, db')" "safe_exact (fc_safe lib)"
  shows "same_links db db' \<and> (j \<noteq> oid \<longrightarrow> ix_get j (call_orders db') = ix_get j (call_orders db))
    \<and> (supply_of db (asset_id receives) = Inr s \<longrightarrow> supply_of db' (asset_id receives) = Inr (s - amount receives))
    \<and> (ix_ok (call_orders db) \<longrightarrow> r \<longrightarrow> ix_get oid (call_orders db') = None)"
  using assms(1)
proof (cases rule: fill_call_orderE)
  case (1 co co' cf mcr mt ix db2 db3 db4)
  have m: "same_market (db\<lparr>call_orders := ix\<rparr>) db4"
    using 1(8,9) same_market_modify_dyn_data [OF 1(7)] same_market_adjust_balance [of lib "borrower co'" _ db2 db3]
      same_market_modify_stats_by_owner [of "borrower co'" _ db3 db4] same_market_trans
    by (auto split: if_splits option.splits) blast+
  have co4: "call_orders db4 = ix" using m by (simp add: same_market_def)
  have db': "assets db' = assets db4" "bitassets db' = bitassets db4" "dgp db' = dgp db4" "dyn_data db' = dyn_data db4"
    "call_orders db' = (if cf \<noteq> None then ix_remove oid ix else ix)"
    using 1(11) co4 by (auto simp: Let_def push_applied_operation_def)
  have l: "same_links db db'" using same_links_market [OF m] db' by (simp add: same_links_def)
  have o: "ix_get j (call_orders db') = ix_get j (call_orders db)" if "j \<noteq> oid"
    using that db'(5) 1(6) by (auto simp: ix_get_def ix_remove_def table_simps elim!: ix_modifyE)
  have "supply_of db' (asset_id receives) = Inr (s - amount receives)" if s: "supply_of db (asset_id receives) = Inr s"
  proof -
    have "supply_of (db\<lparr>call_orders := ix\<rparr>) (asset_id receives) = Inr s" using s by (simp add: supply_of_def get_asset_def dynamic_data_def)
    then have "supply_of db2 (asset_id receives) = Inr (s - amount receives)"
      by (rule modify_dyn_data_supply [OF 1(7), rotated]) (auto simp: sub_current_supply_def dest: safe_exactD [OF assms(2)])
    moreover have "assets db4 = assets db2 \<and> dyn_data db4 = dyn_data db2"
      using 1(8,9) adjust_balance_frame [of lib "borrower co'" _ db2 db3] modify_stats_by_owner_frame [of "borrower co'" _ db3 db4]
      by (auto split: if_splits option.splits)
    ultimately show ?thesis using supply_of_cong [of db' db2] db' by simp
  qed
  moreover have "ix_get oid (call_orders db') = None" if "ix_ok (call_orders db)" r
    using that 1(10) db'(5) ix_ok_modify [OF _ 1(6)] by simp
  ultimately show ?thesis using l o by blast
qed

lemmas fill_call_order_frame =
  fill_call_order_frame_aux [THEN conjunct1]
  fill_call_order_frame_aux [THEN conjunct2, THEN conjunct1, rule_format]
  fill_call_order_frame_aux [THEN conjunct2, THEN conjunct2, THEN conjunct1, rule_format]
  fill_call_order_frame_aux [THEN conjunct2, THEN conjunct2, THEN conjunct2, rule_format]

text \<open>Closing a list of positions burns their debts and gathers what they pay.\<close>

lemma settle_calls_spec:
  assumes "settle_calls lib b sp is g db = Inr (g', db')" "safe_exact (fc_safe lib)" "distinct is" "db_ok db"
    "\<And>i. i \<in> set is \<Longrightarrow> \<exists>co. ix_get i (call_orders db) = Some co \<and> debt_type co = mia" "supply_of db mia = Inr s"
  shows "\<exists>D. moves (\<lambda>a. part (mk_asset D mia) a - part g' a + part g a) db db' \<and> supply_of db' mia = Inr (s - D) \<and> same_links db db'
    \<and> asset_id g' = asset_id g \<and> (\<forall>j. ix_get j (call_orders db') = (if j \<in> set is then None else ix_get j (call_orders db)))"
  using assms
proof (induction "is" arbitrary: g db s)
  case Nil
  then show ?case by (intro exI [of _ 0]) (simp add: same_links_def part_def ledger.moves_refl)
next
  case (Cons i "is")
  from Cons.prems(5) [of i] obtain co where co: "ix_get i (call_orders db) = Some co" "debt_type co = mia" by auto
  from Cons.prems(1) co(1) obtain p g1 db1 where p: "settle_pays b sp co = Inr p" and g1: "asset_add (fc_safe lib) g p = Inr g1"
    and f: "fill_call_order lib i p (get_debt co) sp True db = Inr (True, db1)" and rest: "settle_calls lib b sp is g1 db1 = Inr (g', db')"
    by (auto simp: get_call_order_def)
  have mia: "asset_id (get_debt co) = mia" using co(2) by (simp add: get_debt_def)
  note fr = fill_call_order_frame [OF f Cons.prems(2)]
  have ok1: "db_ok db1" using fill_call_order_moves [OF f Cons.prems(2)] Cons.prems(4) by (simp add: moves_def)
  have s1: "supply_of db1 mia = Inr (s - debt co)" using fr(3) [of s] Cons.prems(6) mia by (simp add: get_debt_def)
  have ix: "\<exists>co. ix_get j (call_orders db1) = Some co \<and> debt_type co = mia" if "j \<in> set is" for j
    using Cons.prems(3) Cons.prems(5) [of j] that fr(2) [of j] by (cases "j = i") auto
  from Cons.IH [OF rest Cons.prems(2) _ ok1 ix s1] Cons.prems(3) obtain D
    where D: "moves (\<lambda>a. part (mk_asset D mia) a - part g' a + part g1 a) db1 db'" "supply_of db' mia = Inr (s - debt co - D)"
      "same_links db1 db'" "asset_id g' = asset_id g1"
      "\<And>j. ix_get j (call_orders db') = (if j \<in> set is then None else ix_get j (call_orders db1))" by auto
  have "part g1 a = part g a + part p a" for a using g1 safe_exactD [OF Cons.prems(2)] by (auto simp: asset_add_def part_def)
  moreover have "asset_id g1 = asset_id g" using g1 by (auto simp: asset_add_def)
  moreover have "part (get_debt co) a + part (mk_asset D mia) a = part (mk_asset (debt co + D) mia) a" for a
    using co(2) by (simp add: part_def get_debt_def)
  ultimately have "moves (\<lambda>a. part (mk_asset (debt co + D) mia) a - part g' a + part g a) db db'" "asset_id g' = asset_id g"
    using D(4) by (auto intro!: ledger.moves_weaken [OF ledger.moves_trans [OF fill_call_order_moves [OF f Cons.prems(2)] D(1)]])
  moreover have "ix_ok (call_orders db)" using Cons.prems(4) by (simp add: db_ok_def)
  then have "ix_get j (call_orders db') = (if j \<in> set (i # is) then None else ix_get j (call_orders db))" for j
    using fr(2) [of j] fr(4) D(5) [of j] by auto
  ultimately show ?case using D(2) same_links_trans [OF fr(1) D(3)] by (intro exI [of _ "debt co + D"]) (simp add: algebra_simps)
qed

text \<open>Global settlement closes every position of the asset, keeps the supply and moves nothing.\<close>

lemma call_range_market:
  assumes "price_min b q = Inr lo" "price_max b q = Inr hi" "ix_ok (call_orders db)" "(i, co) \<in> set (call_range True db lo hi)"
  shows "ix_get i (call_orders db) = Some co" "collateral_type co = b" "debt_type co = q"
  using assms price_between_ids [OF _ _ assms(1,2), of "call_price co"]
  by (auto simp: call_range_def index_range_get call_key_def collateral_type_def debt_type_def)

lemma asset_div_not_null: "asset_div b q = Inr p \<Longrightarrow> \<not> price_is_null p"
  by (auto simp: asset_div_def price_is_null_def)

lemma globally_settle_assetE:
  assumes "globally_settle_asset lib mia sp db = Inr db'"
  obtains ao :: asset_object and bd :: asset_bitasset_data_object and d :: asset_dynamic_data_object
    and lo hi and g :: asset and db1 db2 where "get_asset db mia = Inr ao" "bitasset_data db ao = Inr bd" "\<not> has_settlement bd"
    "dynamic_data db ao = Inr d" "price_min (short_backing_asset (bd_options bd)) mia = Inr lo"
    "price_max (short_backing_asset (bd_options bd)) mia = Inr hi"
    "settle_calls lib (maint_time db \<le> HARDFORK_CORE_342_TIME) sp (map fst (call_range True db lo hi))
       (mk_asset 0 (short_backing_asset (bd_options bd))) db = Inr (g, db1)"
    "modify_bitasset mia (\<lambda>obj. res_bind (asset_div (mk_asset (current_supply d) mia) g) (\<lambda>p.
       Inr (obj\<lparr>bd_settlement_price := p, settlement_fund := amount g\<rparr>))) db1 = Inr db2"
    "modify_dyn_data mia (\<lambda>obj. Inr (obj\<lparr>current_supply := current_supply d\<rparr>)) db2 = Inr db'"
  using assms unfolding globally_settle_asset_def
  by (auto simp: Let_def simp del: res_bind_Inr elim!: res_bind_InrE intro: that)

lemma restore_supply_moves:
  assumes "modify_dyn_data mia (\<lambda>obj. Inr (obj\<lparr>current_supply := s\<rparr>)) db = Inr db'" "supply_of db mia = Inr (s - D)"
  shows "moves (\<lambda>a. - part (mk_asset D mia) a) db db'"
  using assms
  by (elim modify_dyn_dataE)
     (auto simp: supply_of_def get_asset_def dynamic_data_def dyn_data_move_def dyn_balance_def part_def elim!: ledger.moves_weaken)

lemma globally_settle_asset_spec:
  assumes "globally_settle_asset lib mia sp db = Inr db'" "safe_exact (fc_safe lib)" "db_ok db"
  obtains ao bd lo hi bd' where "moves (\<lambda>_. 0) db db'" "supply_of db' mia = supply_of db mia"
    "get_asset db mia = Inr ao" "bitasset_data db ao = Inr bd" "get_asset db' mia = Inr ao" "bitasset_data db' ao = Inr bd'" "has_settlement bd'"
    "price_min (short_backing_asset (bd_options bd)) mia = Inr lo" "price_max (short_backing_asset (bd_options bd)) mia = Inr hi"
    "\<And>i. ix_get i (call_orders db') = (if i \<in> set (map fst (call_range True db lo hi)) then None else ix_get i (call_orders db))"
  using assms(1)
proof (cases rule: globally_settle_assetE)
  case (1 ao bd d lo hi g db1 db2)
  have ok: "ix_ok (call_orders db)" using assms(3) by (simp add: db_ok_def)
  have s0: "supply_of db mia = Inr (current_supply d)" using 1(1,4) by (simp add: supply_of_def)
  obtain D where D: "moves (\<lambda>a. part (mk_asset D mia) a - part g a + part (mk_asset 0 (short_backing_asset (bd_options bd))) a) db db1"
      "supply_of db1 mia = Inr (current_supply d - D)" "same_links db db1" "asset_id g = short_backing_asset (bd_options bd)"
      "\<And>j. ix_get j (call_orders db1) = (if j \<in> set (map fst (call_range True db lo hi)) then None else ix_get j (call_orders db))"
    using settle_calls_spec [OF 1(7) assms(2) _ assms(3) _ s0] distinct_index_range [OF ok] call_range_market [OF 1(5,6) ok]
    by (force simp: call_range_def)
  from 1(8) obtain i b p ix where b: "bitasset_data_id ao = Some i" "ix_get i (bitassets db1) = Some b"
      "asset_div (mk_asset (current_supply d) mia) g = Inr p" "db2 = db1\<lparr>bitassets := ix\<rparr>"
      "ix_get i ix = Some (b\<lparr>bd_settlement_price := p, settlement_fund := amount g\<rparr>)"
    and m: "fund_ok (b\<lparr>bd_settlement_price := p, settlement_fund := amount g\<rparr>) \<Longrightarrow>
      moves (\<lambda>c. bit_fund c (b\<lparr>bd_settlement_price := p, settlement_fund := amount g\<rparr>) - bit_fund c b) db1 db2"
    using 1(1) D(3) by (elim modify_bitassetE) (auto simp: get_asset_def same_links_def)
  have bd: "b = bd" using 1(1,2) b(1,2) D(3) by (auto simp: bitasset_data_def same_links_def)
  let ?b = "b\<lparr>bd_settlement_price := p, settlement_fund := amount g\<rparr>"
  have hs: "has_settlement ?b" using asset_div_not_null [OF b(3)] by (simp add: has_settlement_def)
  have "settlement_fund bd = 0" using assms(3) 1(3) b(1) 1(2)
    by (auto simp: db_ok_def fund_ok_def bitasset_data_def split: option.splits)
  then have m2: "moves (part g) db1 db2" using m hs D(4) by (auto simp: fund_ok_def bit_fund_def bd part_def elim!: ledger.moves_weaken)
  have s2: "supply_of db2 mia = Inr (current_supply d - D)" using D(2) b(4) by (simp add: supply_of_def get_asset_def dynamic_data_def)
  note m3 = restore_supply_moves [OF 1(9) s2]
  have s3: "supply_of db' mia = Inr (current_supply d)"
    by (rule modify_dyn_data_supply [where g = "\<lambda>_. current_supply d", OF 1(9) _ s2]) auto
  have fr: "assets db' = assets db" "bitassets db' = ix" "call_orders db' = call_orders db1"
    using 1(9) D(3) b(4) by (auto simp: modify_dyn_data_def same_links_def)
  show ?thesis
  proof (rule that [of ao bd ?b lo hi])
    show "moves (\<lambda>_. 0) db db'"
      using ledger.moves_trans [OF ledger.moves_trans [OF D(1) m2] m3] by (rule ledger.moves_weaken) (simp add: part_def)
    show "bitasset_data db' ao = Inr ?b" using b(1,5) fr(2) by (simp add: bitasset_data_def)
  qed (use s0 s3 1 fr D(5) hs in \<open>auto simp: get_asset_def\<close>)
qed

subsection \<open>Collateral bids and revival\<close>

definition insert_call_order :: "call_order_object \<Rightarrow> database \<Rightarrow> database res" where
  "insert_call_order co db =
     FC_ASSERT (ix_find (\<lambda>c. borrower c = borrower co \<and> debt_type c = debt_type co) (call_orders db) = None)
       ''Could not insert object, most likely a uniqueness constraint was violated''
     (Inr (db\<lparr>call_orders := ix_create co (call_orders db)\<rparr>))"

definition insert_bid :: "collateral_bid_object \<Rightarrow> database \<Rightarrow> database res" where
  "insert_bid b db =
     FC_ASSERT (ix_find (\<lambda>c. bid_debt_type c = bid_debt_type b \<and> bidder c = bidder b) (bids db) = None)
       ''Could not insert object, most likely a uniqueness constraint was violated''
     (Inr (db\<lparr>bids := ix_create b (bids db)\<rparr>))"

definition execute_bid :: "fc_lib \<Rightarrow> obj_id \<Rightarrow> int \<Rightarrow> int \<Rightarrow> price_feed \<Rightarrow> database \<Rightarrow> database res" where
  "execute_bid lib bid_id debt_covered collateral_from_fund feed db =
     res_bind (opt_get ''Unable to find Object'' (ix_get bid_id (bids db))) (\<lambda>bid.
     let coll_id = asset_id (base (inv_swan_price bid)); debt_id = asset_id (quote (inv_swan_price bid)) in
     res_bind (fc_safe lib (amount (base (inv_swan_price bid)) + collateral_from_fund)) (\<lambda>coll.
     res_bind (if maint_time db > HARDFORK_CORE_1270_TIME then Inr (mk_price (mk_asset 1 coll_id) (mk_asset 1 debt_id))
               else call_price_of (mk_asset debt_covered debt_id) (mk_asset coll coll_id) (maintenance_collateral_ratio feed)) (\<lambda>cp.
     res_bind (insert_call_order \<lparr>borrower = bidder bid, collateral = coll, debt = debt_covered, call_price = cp,
                                  target_collateral_ratio = None\<rparr> db) (\<lambda>db1.
     res_bind (if coll_id = core_asset then modify_stats_by_owner (bidder bid) (add_core_in_orders lib coll) db1 else Inr db1) (\<lambda>db2.
     let db3 = push_applied_operation (Execute_bid_vop (bidder bid) (mk_asset coll coll_id) (mk_asset debt_covered debt_id)) db2 in
     Inr (db3\<lparr>bids := ix_remove bid_id (bids db3)\<rparr>))))))"

text \<open>The index \<open>by_price\<close> of the bids: by debt asset, then the best price first.\<close>

definition bid_before :: "asset_id \<times> price \<Rightarrow> asset_id \<times> price \<Rightarrow> bool" where
  "bid_before x y \<longleftrightarrow> fst x < fst y \<or> fst x = fst y \<and> price_less (snd y) (snd x)"

definition bid_key :: "collateral_bid_object \<Rightarrow> asset_id \<times> price" where
  "bid_key b = (bid_debt_type b, inv_swan_price b)"

definition cancel_bids_and_revive_mpa :: "fc_lib \<Rightarrow> asset_id \<Rightarrow> database \<Rightarrow> database res" where
  "cancel_bids_and_revive_mpa lib mia_id db =
     res_bind (get_asset db mia_id) (\<lambda>bitasset.
     FC_ASSERT (is_market_issued bitasset) ''bitasset.is_market_issued()''
     (res_bind (bitasset_data db bitasset) (\<lambda>bad.
      FC_ASSERT (has_settlement bad) ''bad.has_settlement()''
     (FC_ASSERT (\<not> is_prediction_market bad) ''!bad.is_prediction_market''
     (res_bind (price_max (short_backing_asset (bd_options bad)) mia_id) (\<lambda>max_price.
      let ids = map fst (takeWhile (\<lambda>b. asset_id (quote (inv_swan_price (snd b))) = mia_id)
                  (index_from bid_before bid_key (mia_id, max_price) (bids db))) in
      res_bind (res_fold (\<lambda>i. cancel_bid lib i True) ids db) (\<lambda>db1.
      modify_bitasset mia_id (\<lambda>obj. Inr (obj\<lparr>bd_settlement_price := null_price, settlement_fund := 0\<rparr>)) db1)))))))"

definition revive_bitasset :: "fc_lib \<Rightarrow> asset_id \<Rightarrow> database \<Rightarrow> database res" where
  "revive_bitasset lib mia_id db =
     res_bind (get_asset db mia_id) (\<lambda>bitasset.
     FC_ASSERT (is_market_issued bitasset) ''bitasset.is_market_issued()''
     (res_bind (bitasset_data db bitasset) (\<lambda>bad.
      FC_ASSERT (has_settlement bad) ''bad.has_settlement()''
     (res_bind (dynamic_data db bitasset) (\<lambda>bdd.
      FC_ASSERT (\<not> is_prediction_market bad) ''!bad.is_prediction_market''
     (FC_ASSERT (\<not> price_is_null (settlement_price (current_feed bad))) ''!bad.current_feed.settlement_price.is_null()''
     (res_bind
       (if current_supply bdd > 0 then
          let pseudo_id = ix_next (bids db) in
          res_bind (asset_div (mk_asset 0 (short_backing_asset (bd_options bad))) (mk_asset (current_supply bdd) mia_id)) (\<lambda>p.
          res_bind (insert_bid \<lparr>bidder = issuer bitasset, inv_swan_price = p\<rparr> db) (\<lambda>db1.
          execute_bid lib pseudo_id (current_supply bdd) (settlement_fund bad) (current_feed bad) db1))
        else FC_ASSERT (settlement_fund bad = 0) ''bad.settlement_fund == 0'' (Inr db))
       (cancel_bids_and_revive_mpa lib mia_id))))))))"

lemma execute_bid_moves:
  assumes "execute_bid lib i dc cf feed db = Inr db'" "safe_exact (fc_safe lib)" "ix_get i (bids db) = Some b"
  shows "moves (part (mk_asset cf (asset_id (base (inv_swan_price b))))) db db'" "same_links db db'"
proof -
  let ?c = "asset_id (base (inv_swan_price b))" and ?d = "asset_id (quote (inv_swan_price b))"
  from assms(1,3) obtain coll cp db1 db2 where c: "fc_safe lib (amount (base (inv_swan_price b)) + cf) = Inr coll"
    and cp: "(if maint_time db > HARDFORK_CORE_1270_TIME then Inr (mk_price (mk_asset 1 ?c) (mk_asset 1 ?d))
               else call_price_of (mk_asset dc ?d) (mk_asset coll ?c) (maintenance_collateral_ratio feed)) = Inr cp"
    and db1: "insert_call_order \<lparr>borrower = bidder b, collateral = coll, debt = dc, call_price = cp, target_collateral_ratio = None\<rparr> db = Inr db1"
    and db2: "(if ?c = core_asset then modify_stats_by_owner (bidder b) (add_core_in_orders lib coll) db1 else Inr db1) = Inr db2"
    and db': "db' = (push_applied_operation (Execute_bid_vop (bidder b) (mk_asset coll ?c) (mk_asset dc ?d)) db2)
       \<lparr>bids := ix_remove i (bids db2)\<rparr>"
    by (auto simp: execute_bid_def Let_def push_applied_operation_def simp del: res_bind_Inr elim!: res_bind_InrE)
  have coll: "coll = amount (base (inv_swan_price b)) + cf" using c safe_exactD [OF assms(2)] by blast
  have cpid: "asset_id (base cp) = ?c" using cp call_price_of_ids by (fastforce split: if_splits)
  have m1: "moves (part (mk_asset coll ?c)) db db1"
    using db1 by (auto simp: insert_call_order_def get_collateral_def collateral_type_def cpid table_simps intro!: moves_call_orders ix_ok_create)
  have m2: "moves (\<lambda>_. 0) db1 db2" "same_market db1 db2" using db2 stats_neutral(4) by (auto split: if_splits intro: frame_intros)
  have "ix_get i (bids db2) = Some b" using assms(3) db1 m2(2) by (auto simp: insert_call_order_def same_market_def)
  from ledger.moves_trans [OF moves_push moves_remove_bid] this
  have "moves (\<lambda>a. - part (base (inv_swan_price b)) a) db2 db'" unfolding db' push_applied_operation_def by fastforce
  from ledger.moves_trans [OF ledger.moves_trans [OF m1 m2(1)] this] show "moves (part (mk_asset cf ?c)) db db'"
    by (rule ledger.moves_weaken) (simp add: coll part_def)
  show "same_links db db'" using db1 m2(2) by (auto simp: db' insert_call_order_def push_applied_operation_def same_links_def same_market_def)
qed

lemma cancel_bid_links: "cancel_bid lib i v db = Inr db' \<Longrightarrow> same_links db db'"
  by (auto simp: cancel_bid_def Let_def push_applied_operation_def same_links_def dest!: same_market_adjust_balance simp: same_market_def)

lemma cancel_bids_links: "res_fold (\<lambda>i. cancel_bid lib i v) ids db = Inr db' \<Longrightarrow> same_links db db'"
proof (induction ids arbitrary: db)
  case (Cons i ids)
  then show ?case using cancel_bid_links same_links_trans by fastforce
qed (simp add: same_links_def)

lemma bit_fund_zero [simp]: "settlement_fund b = 0 \<Longrightarrow> bit_fund a b = 0"
  by (simp add: bit_fund_def part_def)

lemma cancel_bids_and_revive_moves:
  assumes "cancel_bids_and_revive_mpa lib mia db = Inr db'" "safe_exact (fc_safe lib)" "get_asset db mia = Inr ao" "bitasset_data db ao = Inr bd"
  shows "moves (\<lambda>a. - part (mk_asset (settlement_fund bd) (short_backing_asset (bd_options bd))) a) db db'"
proof -
  from assms(1,3,4) obtain ids db1 where f: "res_fold (\<lambda>i. cancel_bid lib i True) ids db = Inr db1"
    and m: "modify_bitasset mia (\<lambda>obj. Inr (obj\<lparr>bd_settlement_price := null_price, settlement_fund := 0\<rparr>)) db1 = Inr db'"
    by (auto simp: cancel_bids_and_revive_mpa_def Let_def)
  have l: "same_links db db1" by (rule cancel_bids_links [OF f])
  have m1: "moves (\<lambda>_. 0) db db1" by (rule ledger.moves_fold [OF f]) (rule cancel_bid_moves [OF _ assms(2)])
  from m obtain b where "moves (\<lambda>c. - bit_fund c b) db1 db'" "b = bd" using assms(3,4) l
    by (elim modify_bitassetE) (auto simp: get_asset_def bitasset_data_def same_links_def fund_ok_def)
  with ledger.moves_trans [OF m1] show ?thesis by (fastforce simp: bit_fund_def)
qed

lemma revive_bitasset_moves [moves_intros]:
  assumes "revive_bitasset lib mia db = Inr db'" "safe_exact (fc_safe lib)"
  shows "moves (\<lambda>_. 0) db db'"
proof (rule moves_if_ok)
  assume ok: "db_ok db"
  from assms(1) obtain ao :: asset_object and bd :: asset_bitasset_data_object and d :: asset_dynamic_data_object and db1
    where ao: "get_asset db mia = Inr ao" "bitasset_data db ao = Inr bd"
    and s: "(if current_supply d > 0 then
          let pseudo_id = ix_next (bids db) in
          res_bind (asset_div (mk_asset 0 (short_backing_asset (bd_options bd))) (mk_asset (current_supply d) mia)) (\<lambda>p.
          res_bind (insert_bid \<lparr>bidder = issuer ao, inv_swan_price = p\<rparr> db) (\<lambda>db1.
          execute_bid lib pseudo_id (current_supply d) (settlement_fund bd) (current_feed bd) db1))
        else FC_ASSERT (settlement_fund bd = 0) ''bad.settlement_fund == 0'' (Inr db)) = Inr db1"
    and r: "cancel_bids_and_revive_mpa lib mia db1 = Inr db'"
    by (auto simp: revive_bitasset_def simp del: res_bind_Inr elim!: res_bind_InrE)
  let ?fund = "mk_asset (settlement_fund bd) (short_backing_asset (bd_options bd))"
  have m: "moves (part ?fund) db db1 \<and> same_links db db1"
  proof (cases "current_supply d > 0")
    case True
    define b where "b = \<lparr>bidder = issuer ao, inv_swan_price = mk_price (mk_asset 0 (short_backing_asset (bd_options bd))) (mk_asset (current_supply d) mia)\<rparr>"
    define db0 where "db0 = db\<lparr>bids := ix_create b (bids db)\<rparr>"
    have e: "db0 = db\<lparr>bids := ix_create b (bids db)\<rparr>" "base (inv_swan_price b) = mk_asset 0 (short_backing_asset (bd_options bd))"
      "execute_bid lib (ix_next (bids db)) (current_supply d) (settlement_fund bd) (current_feed bd) db0 = Inr db1"
      using s True by (auto simp: b_def db0_def insert_bid_def asset_div_def Let_def)
    have "moves (\<lambda>_. 0) db db0" unfolding e(1) by (rule moves_bids) (auto simp: table_simps e(2) part_def intro: ix_ok_create)
    moreover have g: "ix_get (ix_next (bids db)) (bids db0) = Some b" using ok by (simp add: e(1) db_ok_def)
    note execute_bid_moves [OF e(3) assms(2) g]
    ultimately show ?thesis using ledger.moves_trans [of "\<lambda>_. 0" db db0] same_links_trans [of db db0]
      by (fastforce simp: e(1,2) same_links_def)
  next
    case False
    with s show ?thesis by (auto simp: same_links_def part_def ledger.moves_refl)
  qed
  have "get_asset db1 mia = Inr ao" "bitasset_data db1 ao = Inr bd" using m ao by (auto simp: same_links_def get_asset_def bitasset_data_def split: option.splits)
  from ledger.moves_trans [OF conjunct1 [OF m] cancel_bids_and_revive_moves [OF r assms(2) this]] show "moves (\<lambda>_. 0) db db'" by simp
qed

subsection \<open>Black swans\<close>

definition squeeze_price :: "bool \<Rightarrow> price_feed \<Rightarrow> price res" where
  "squeeze_price before_1270 feed = (if before_1270 then max_short_squeeze_price_before_hf_1270 feed else max_short_squeeze_price feed)"

text \<open>The highest price somebody pays for the collateral: the best bid of the book or the feed.\<close>

definition highest_bid :: "asset_id \<Rightarrow> asset_bitasset_data_object \<Rightarrow> database \<Rightarrow> price res" where
  "highest_bid mia_id bitasset db =
     res_bind (if maint_time db > HARDFORK_CORE_1270_TIME then max_short_squeeze_price (current_feed bitasset)
               else if maint_time db > HARDFORK_CORE_338_TIME then max_short_squeeze_price_before_hf_1270 (current_feed bitasset)
               else Inr (settlement_price (current_feed bitasset))) (\<lambda>highest.
     res_bind (price_max mia_id (short_backing_asset (bd_options bitasset))) (\<lambda>highest_possible_bid.
     res_bind (price_min mia_id (short_backing_asset (bd_options bitasset))) (\<lambda>lowest_possible_bid.
     FC_ASSERT (asset_id (base highest_possible_bid) = asset_id (base lowest_possible_bid))
       ''highest_possible_bid.base.asset_id == lowest_possible_bid.base.asset_id''
     (case limit_range db highest_possible_bid lowest_possible_bid of
        [] \<Rightarrow> Inr highest
      | (_, lo) # _ \<Rightarrow>
          FC_ASSERT (asset_id (base highest) = asset_id (base (sell_price lo))) ''highest.base.asset_id == limit_itr->sell_price.base.asset_id''
          (Inr (if price_less (sell_price lo) highest then highest else sell_price lo))))))"

text \<open>The test for the position with the least collateral, and the settlement it triggers.\<close>

definition blackswan_at :: "fc_lib \<Rightarrow> asset_id \<Rightarrow> bool \<Rightarrow> asset_bitasset_data_object \<Rightarrow> call_order_object \<Rightarrow> database \<Rightarrow> (bool \<times> database) res" where
  "blackswan_at lib mia_id enable_black_swan bitasset call db =
     (let settle_price = settlement_price (current_feed bitasset) in
      res_bind (highest_bid mia_id bitasset db) (\<lambda>highest.
      res_bind (collateralization call) (\<lambda>least_collateral.
      if \<not> price_less (price_inv least_collateral) highest then
        FC_ASSERT enable_black_swan ''Black swan was detected during a margin update which is not allowed to trigger a blackswan''
        (res_bind (if maint_time db > HARDFORK_CORE_338_TIME \<and> price_le (price_inv least_collateral) settle_price
                   then globally_settle_asset lib mia_id settle_price db
                   else globally_settle_asset lib mia_id (price_inv least_collateral) db) (\<lambda>db1. Inr (True, db1)))
      else Inr (False, db))))"

definition check_for_blackswan :: "fc_lib \<Rightarrow> asset_id \<Rightarrow> bool \<Rightarrow> database \<Rightarrow> (bool \<times> database) res" where
  "check_for_blackswan lib mia_id enable_black_swan db =
     res_bind (get_asset db mia_id) (\<lambda>mia.
     if \<not> is_market_issued mia then Inr (False, db)
     else res_bind (bitasset_data db mia) (\<lambda>bitasset.
     let settle_price = settlement_price (current_feed bitasset); before_1270 = (maint_time db \<le> HARDFORK_CORE_1270_TIME) in
     if has_settlement bitasset then Inr (True, db)
     else if price_is_null settle_price then Inr (False, db)
     else res_bind (price_min (short_backing_asset (bd_options bitasset)) mia_id) (\<lambda>call_min.
     case calls_from before_1270 db call_min of
       [] \<Rightarrow> Inr (False, db)
     | (_, call) # _ \<Rightarrow>
         if debt_type call \<noteq> mia_id then Inr (False, db)
         else blackswan_at lib mia_id enable_black_swan bitasset call db)))"

lemma globally_settle_moves [moves_intros]:
  "globally_settle_asset lib mia sp db = Inr db' \<Longrightarrow> safe_exact (fc_safe lib) \<Longrightarrow> moves (\<lambda>_. 0) db db'"
  by (rule moves_if_ok) (erule (2) globally_settle_asset_spec)

lemma blackswan_at_cases:
  "blackswan_at lib mia en bd co db = Inr (q, db') \<Longrightarrow> db' = db \<and> \<not> q \<or> q \<and> (\<exists>sp. globally_settle_asset lib mia sp db = Inr db')"
  by (auto simp: blackswan_at_def Let_def simp del: res_bind_Inr elim!: res_bind_InrE split: if_splits)

lemma check_for_blackswan_moves:
  assumes "check_for_blackswan lib mia en db = Inr (r, db')" "safe_exact (fc_safe lib)"
  shows "moves (\<lambda>_. 0) db db'" "\<not> r \<Longrightarrow> db' = db"
proof -
  from assms(1) have "db' = db \<or> r \<and> (\<exists>sp. globally_settle_asset lib mia sp db = Inr db')"
    by (auto simp: check_for_blackswan_def Let_def simp del: res_bind_Inr elim!: res_bind_InrE split: if_splits list.splits;
        use blackswan_at_cases in blast)
  then show "moves (\<lambda>_. 0) db db'" "\<not> r \<Longrightarrow> db' = db" using globally_settle_moves [OF _ assms(2)] by auto
qed

subsection \<open>Margin calls\<close>

text \<open>The amounts of one margin call: what the call and the limit order receive, whether the limit order is taken for
  filled, whether the position is, and whether the situation of issue 453 occurred.\<close>

definition margin_call_amounts :: "time_sec \<Rightarrow> bool \<Rightarrow> asset \<Rightarrow> asset \<Rightarrow> price \<Rightarrow> (asset \<times> asset \<times> bool \<times> bool \<times> bool) res" where
  "margin_call_amounts maint filled_limit usd_to_buy usd_for_sale match_price =
     (let before_342 = (maint \<le> HARDFORK_CORE_342_TIME) in
      res_bind (asset_less usd_for_sale usd_to_buy) (\<lambda>more.
      if more then
        res_bind (asset_times_price usd_for_sale match_price) (\<lambda>order_receives.
        res_bind (if before_342 then Inr usd_for_sale else multiply_and_round_up order_receives match_price) (\<lambda>call_receives.
        Inr (call_receives, order_receives, True, False, False)))
      else
        res_bind (if before_342 then asset_times_price usd_to_buy match_price else multiply_and_round_up usd_to_buy match_price) (\<lambda>order_receives.
        Inr (usd_to_buy, order_receives, usd_to_buy = usd_for_sale \<or> filled_limit, True,
             usd_to_buy \<noteq> usd_for_sale \<and> filled_limit \<and> maint \<le> HARDFORK_CORE_453_TIME))))"

text \<open>Whether the loop returns without calling the position: it is protected by the feed, or, before core-606, would buy low.\<close>

definition not_called :: "database \<Rightarrow> asset_bitasset_data_object \<Rightarrow> call_order_object \<Rightarrow> price \<Rightarrow> bool res" where
  "not_called db bitasset call match_price =
     res_bind (if \<not> maint_time db \<le> HARDFORK_CORE_1270_TIME
               then res_bind (collateralization call) (\<lambda>cr. Inr (price_less (current_maintenance_collateralization bitasset) cr))
               else Inr (head_block_time db > HARDFORK_436_TIME \<and> price_less (price_inv (call_price call)) (settlement_price (current_feed bitasset)))) (\<lambda>protected.
     Inr (protected \<or> maint_time db \<le> HARDFORK_CORE_606_TIME \<and> price_less (price_inv (call_price call)) match_price))"

definition debt_to_call :: "nat \<Rightarrow> fc_lib \<Rightarrow> database \<Rightarrow> asset_bitasset_data_object \<Rightarrow> call_order_object \<Rightarrow> price \<Rightarrow> asset res" where
  "debt_to_call fuel lib db bitasset call match_price =
     (let feed = current_feed bitasset; mcr = nat (maintenance_collateral_ratio feed) in
      if \<not> maint_time db \<le> HARDFORK_CORE_1270_TIME
      then res_bind (get_max_debt_to_cover fuel lib call match_price (settlement_price feed) mcr (Some (current_maintenance_collateralization bitasset)))
             (\<lambda>x. Inr (mk_asset x (debt_type call)))
      else if \<not> maint_time db \<le> HARDFORK_CORE_834_TIME
      then res_bind (get_max_debt_to_cover fuel lib call match_price (settlement_price feed) mcr None) (\<lambda>x. Inr (mk_asset x (debt_type call)))
      else Inr (get_debt call))"

text \<open>One round: the position and the limit order are filled against each other; the iterators advance.\<close>

datatype call_step =
    Calls_done bool database
  | Calls_more "obj_id list" "obj_id list" bool database

definition fill_margin_call :: "fc_lib \<Rightarrow> asset_id \<Rightarrow> bool \<Rightarrow> price \<Rightarrow> price \<Rightarrow> obj_id list \<Rightarrow> obj_id list \<Rightarrow> bool \<Rightarrow>
  asset \<Rightarrow> limit_order_object \<Rightarrow> database \<Rightarrow> call_step res" where
  "fill_margin_call lib bitasset_id for_new call_min call_max limits calls filled_limit usd_to_buy limit_order db0 =
     (let match_price = sell_price limit_order; before_1270 = (maint_time db0 \<le> HARDFORK_CORE_1270_TIME) in
      res_bind (margin_call_amounts (maint_time db0) filled_limit usd_to_buy (amount_for_sale limit_order) match_price)
        (\<lambda>(call_receives, order_receives, filled_limit', filled_call, issue_453).
      let db1 = (if issue_453 \<and> head_block_time db0 < HARDFORK_615_TIME
                 then db0\<lparr>issue_453_affected_assets := insert bitasset_id (issue_453_affected_assets db0)\<rparr> else db0);
          call_pays = order_receives; order_pays = call_receives in
      res_bind (fill_call_order lib (hd calls) call_pays call_receives match_price for_new db1) (\<lambda>(_, db2).
      let calls2 = (if \<not> before_1270 \<or> \<not> maint_time db0 \<le> HARDFORK_CORE_343_TIME then map fst (call_range before_1270 db2 call_min call_max)
                    else if filled_call then tl calls else calls) in
      res_bind (fill_limit_order lib (hd limits) order_pays order_receives True match_price (\<not> for_new) db2) (\<lambda>(really_filled, db3).
      let limits2 = (if really_filled \<or> filled_limit' \<and> maint_time db0 \<le> HARDFORK_CORE_453_TIME then tl limits else limits) in
      Inr (Calls_more limits2 calls2 filled_limit' db3)))))"

definition margin_call_step :: "nat \<Rightarrow> fc_lib \<Rightarrow> asset_id \<Rightarrow> bool \<Rightarrow> bool \<Rightarrow> price \<Rightarrow> price \<Rightarrow> obj_id list \<Rightarrow> obj_id list \<Rightarrow>
  bool \<Rightarrow> bool \<Rightarrow> database \<Rightarrow> call_step res" where
  "margin_call_step fuel lib mia_id en for_new call_min call_max limits calls filled_limit margin_called db =
     res_bind (check_for_blackswan lib mia_id en db) (\<lambda>(swan, db0).
     if swan \<or> limits = [] \<or> calls = [] then Inr (Calls_done margin_called db0)
     else
       res_bind (get_asset db0 mia_id) (\<lambda>mia.
       res_bind (bitasset_data db0 mia) (\<lambda>bitasset.
       res_bind (get_call_order db0 (hd calls)) (\<lambda>call.
       res_bind (get_limit_order db0 (hd limits)) (\<lambda>limit_order.
       res_bind (not_called db0 bitasset call (sell_price limit_order)) (\<lambda>stop.
       if stop then Inr (Calls_done margin_called db0)
       else res_bind (asset_times_price (get_debt call) (sell_price limit_order)) (\<lambda>cost.
       res_bind (asset_less (get_collateral call) cost) (\<lambda>swan2.
       if swan2 then FC_ASSERT en ''enable_black_swan''
         (res_bind (globally_settle_asset lib mia_id (settlement_price (current_feed bitasset)) db0) (\<lambda>db1. Inr (Calls_done True db1)))
       else res_bind (debt_to_call fuel lib db0 bitasset call (sell_price limit_order)) (\<lambda>usd_to_buy.
         fill_margin_call lib (bd_asset_id bitasset) for_new call_min call_max limits calls filled_limit usd_to_buy limit_order db0)))))))))"

fun margin_call_loop :: "nat \<Rightarrow> nat \<Rightarrow> fc_lib \<Rightarrow> asset_id \<Rightarrow> bool \<Rightarrow> bool \<Rightarrow> price \<Rightarrow> price \<Rightarrow> obj_id list \<Rightarrow> obj_id list \<Rightarrow>
  bool \<Rightarrow> bool \<Rightarrow> database \<Rightarrow> (bool \<times> database) res" where
  "margin_call_loop 0 fuel lib mia_id en for_new call_min call_max limits calls filled_limit margin_called db = Inl (Throw_exn ''out of fuel'')"
| "margin_call_loop (Suc n) fuel lib mia_id en for_new call_min call_max limits calls filled_limit margin_called db =
     res_bind (margin_call_step fuel lib mia_id en for_new call_min call_max limits calls filled_limit margin_called db) (\<lambda>step.
     case step of
       Calls_done r db1 \<Rightarrow> Inr (r, db1)
     | Calls_more limits2 calls2 filled_limit2 db1 \<Rightarrow>
         margin_call_loop n fuel lib mia_id en for_new call_min call_max limits2 calls2 filled_limit2 True db1)"

definition check_call_orders :: "nat \<Rightarrow> nat \<Rightarrow> fc_lib \<Rightarrow> asset_id \<Rightarrow> bool \<Rightarrow> bool \<Rightarrow> database \<Rightarrow> (bool \<times> database) res" where
  "check_call_orders n fuel lib mia_id enable_black_swan for_new_limit_order db =
     FC_ASSERT (for_new_limit_order \<longrightarrow> maint_time db \<le> HARDFORK_CORE_625_TIME) ''maint_time <= HARDFORK_CORE_625_TIME''
     (res_bind (get_asset db mia_id) (\<lambda>mia.
      if \<not> is_market_issued mia then Inr (False, db)
      else res_bind (bitasset_data db mia) (\<lambda>bitasset.
      res_bind (check_for_blackswan lib mia_id enable_black_swan db) (\<lambda>(swan, db1).
      if swan then Inr (False, db1)
      else if is_prediction_market bitasset then Inr (False, db1)
      else if price_is_null (settlement_price (current_feed bitasset)) then Inr (False, db1)
      else
        let before_1270 = (maint_time db \<le> HARDFORK_CORE_1270_TIME); backing = short_backing_asset (bd_options bitasset) in
        res_bind (price_max mia_id backing) (\<lambda>max_price.
        res_bind (squeeze_price before_1270 (current_feed bitasset)) (\<lambda>min_price.
        let limits = map fst (limit_range db1 max_price min_price) in
        if limits = [] then Inr (False, db1)
        else
          res_bind (price_min backing mia_id) (\<lambda>call_min.
          res_bind (price_max backing mia_id) (\<lambda>call_max.
          margin_call_loop n fuel lib mia_id enable_black_swan for_new_limit_order call_min call_max limits
            (map fst (call_range before_1270 db1 call_min call_max)) False False db1))))))))"

lemma fill_margin_call_moves:
  assumes "fill_margin_call lib bid fn cmin cmax limits calls fl buy lo db = Inr (Calls_more l c f db')" "safe_exact (fc_safe lib)"
  shows "moves (\<lambda>_. 0) db db'"
proof -
  from assms(1) obtain x y b db2 r1 r2 where s: "fill_call_order lib (hd calls) y x (sell_price lo) fn
      (if b then db\<lparr>issue_453_affected_assets := insert bid (issue_453_affected_assets db)\<rparr> else db) = Inr (r1, db2)"
    "fill_limit_order lib (hd limits) x y True (sell_price lo) (\<not> fn) db2 = Inr (r2, db')"
    by (auto simp: fill_margin_call_def Let_def simp del: res_bind_Inr elim!: res_bind_InrE)
  have "moves (\<lambda>_. 0) db (if b then db\<lparr>issue_453_affected_assets := insert bid (issue_453_affected_assets db)\<rparr> else db)"
    by (simp add: moves_neutral ledger.moves_refl)
  from ledger.moves_trans [OF this ledger.moves_trans [OF fill_call_order_moves [OF s(1) assms(2)] fill_limit_order_moves [OF s(2) assms(2)]]]
  show ?thesis by simp
qed

lemma fill_margin_call_more: "fill_margin_call lib bid fn cmin cmax limits calls fl buy lo db = Inr st \<Longrightarrow> \<exists>l c f db'. st = Calls_more l c f db'"
  by (auto simp: fill_margin_call_def Let_def simp del: res_bind_Inr elim!: res_bind_InrE)

definition step_db :: "call_step \<Rightarrow> database" where
  "step_db st = (case st of Calls_done _ db \<Rightarrow> db | Calls_more _ _ _ db \<Rightarrow> db)"

lemma margin_call_step_moves:
  assumes "margin_call_step fuel lib mia en fn cmin cmax limits calls fl mc db = Inr st" "safe_exact (fc_safe lib)"
  shows "moves (\<lambda>_. 0) db (step_db st)"
proof -
  from assms(1) obtain swan db0 where b: "check_for_blackswan lib mia en db = Inr (swan, db0)"
    and c: "step_db st = db0 \<or> (\<exists>sp. globally_settle_asset lib mia sp db0 = Inr (step_db st))
      \<or> (\<exists>bid buy lo. fill_margin_call lib bid fn cmin cmax limits calls fl buy lo db0 = Inr st)"
    by (auto simp: margin_call_step_def step_db_def simp del: res_bind_Inr elim!: res_bind_InrE split: if_splits; blast)
  have "moves (\<lambda>_. 0) db0 (step_db st)"
    using c globally_settle_moves [OF _ assms(2)] fill_margin_call_more fill_margin_call_moves [OF _ assms(2)]
    by (fastforce simp: step_db_def ledger.moves_refl)
  from ledger.moves_trans [OF check_for_blackswan_moves(1) [OF b assms(2)] this] show ?thesis by simp
qed

lemma margin_call_loop_moves:
  assumes "margin_call_loop n fuel lib mia en fn cmin cmax limits calls fl mc db = Inr (r, db')" "safe_exact (fc_safe lib)"
  shows "moves (\<lambda>_. 0) db db'"
  using assms(1)
proof (induction n arbitrary: limits calls fl mc db)
  case (Suc n)
  then obtain st where st: "margin_call_step fuel lib mia en fn cmin cmax limits calls fl mc db = Inr st"
    and r: "(case st of Calls_done r db1 \<Rightarrow> Inr (r, db1)
       | Calls_more limits2 calls2 fl2 db1 \<Rightarrow> margin_call_loop n fuel lib mia en fn cmin cmax limits2 calls2 fl2 True db1) = Inr (r, db')"
    by auto
  have m: "moves (\<lambda>_. 0) db (step_db st)" by (rule margin_call_step_moves [OF st assms(2)])
  have "moves (\<lambda>_. 0) (step_db st) db'" using r Suc.IH by (auto simp: step_db_def ledger.moves_refl split: call_step.splits)
  from ledger.moves_trans [OF m this] show ?case by simp
qed simp

lemma check_call_orders_moves [moves_intros]:
  assumes "check_call_orders n fuel lib mia en fn db = Inr (r, db')" "safe_exact (fc_safe lib)"
  shows "moves (\<lambda>_. 0) db db'"
proof -
  from assms(1) have "db' = db \<or> (\<exists>s db1. check_for_blackswan lib mia en db = Inr (s, db1) \<and>
      (db' = db1 \<or> (\<exists>cmin cmax limits calls. margin_call_loop n fuel lib mia en fn cmin cmax limits calls False False db1 = Inr (r, db'))))"
    by (auto simp: check_call_orders_def Let_def simp del: res_bind_Inr elim!: res_bind_InrE split: if_splits)
  then show ?thesis
    using ledger.moves_trans [OF check_for_blackswan_moves(1) [OF _ assms(2)] margin_call_loop_moves [OF _ assms(2)]]
      check_for_blackswan_moves(1) [OF _ assms(2)] by (fastforce simp: ledger.moves_refl)
qed

subsection \<open>A new limit order\<close>

text \<open>Match the new order with the orders of a range, best price first, until it is gone, the range is exhausted or
  \<open>stop\<close> holds. The result is whether the new order is gone, and what is left of the range.\<close>

fun match_limits :: "fc_lib \<Rightarrow> obj_id \<Rightarrow> (limit_order_object \<Rightarrow> bool) \<Rightarrow> obj_id list \<Rightarrow> database \<Rightarrow> (bool \<times> obj_id list \<times> database) res" where
  "match_limits lib order_id stop [] db = Inr (False, [], db)"
| "match_limits lib order_id stop (i # is) db =
     res_bind (get_limit_order db i) (\<lambda>old.
     if stop old then Inr (False, i # is, db)
     else res_bind (match_limit_limit lib order_id i (sell_price old) db) (\<lambda>(r, db1).
          if r \<noteq> 2 then Inr (True, is, db1) else match_limits lib order_id stop is db1))"

text \<open>The position with the least collateral, unless the feed protects it.\<close>

definition next_called_position :: "asset_id \<Rightarrow> price \<Rightarrow> asset_bitasset_data_object \<Rightarrow> database \<Rightarrow> obj_id option res" where
  "next_called_position sell_id call_min abd db =
     (let before_1270 = (maint_time db \<le> HARDFORK_CORE_1270_TIME) in
      case calls_from before_1270 db call_min of
        [] \<Rightarrow> Inr None
      | (cid, call) # _ \<Rightarrow>
          if debt_type call \<noteq> sell_id then Inr None
          else res_bind (if before_1270 then Inr (price_less (price_inv (settlement_price (current_feed abd))) (call_price call))
                         else res_bind (collateralization call) (\<lambda>cr. Inr (price_less (current_maintenance_collateralization abd) cr))) (\<lambda>protected.
               Inr (if protected then None else Some cid)))"

text \<open>Match the new order with margin calls, the position with the least collateral first.\<close>

fun match_calls :: "nat \<Rightarrow> nat \<Rightarrow> fc_lib \<Rightarrow> obj_id \<Rightarrow> asset_id \<Rightarrow> price \<Rightarrow> price \<Rightarrow> asset_bitasset_data_object \<Rightarrow> database \<Rightarrow> (bool \<times> database) res" where
  "match_calls 0 fuel lib order_id sell_id call_min call_match_price abd db = Inl (Throw_exn ''out of fuel'')"
| "match_calls (Suc n) fuel lib order_id sell_id call_min call_match_price abd db =
     res_bind (next_called_position sell_id call_min abd db) (\<lambda>pos.
     case pos of
       None \<Rightarrow> Inr (False, db)
     | Some cid \<Rightarrow>
         res_bind (match_limit_call fuel lib order_id cid call_match_price (settlement_price (current_feed abd))
                     (nat (maintenance_collateral_ratio (current_feed abd)))
                     (if maint_time db \<le> HARDFORK_CORE_1270_TIME then None else Some (current_maintenance_collateralization abd)) db) (\<lambda>(r, db1).
         if r = 1 \<or> r = 3 then Inr (True, db1)
         else match_calls n fuel lib order_id sell_id call_min call_match_price abd db1))"

text \<open>Whether the new order may be matched with margin calls, and at which price.\<close>

definition call_match :: "database \<Rightarrow> limit_order_object \<Rightarrow> (price \<times> asset_bitasset_data_object) option res" where
  "call_match db order =
     res_bind (get_asset db (sell_asset_id order)) (\<lambda>sell_asset.
     if \<not> is_market_issued sell_asset then Inr None
     else res_bind (bitasset_data db sell_asset) (\<lambda>abd.
     if short_backing_asset (bd_options abd) = receive_asset_id order \<and> \<not> is_prediction_market abd \<and> \<not> has_settlement abd
        \<and> \<not> price_is_null (settlement_price (current_feed abd))
     then res_bind (squeeze_price (maint_time db \<le> HARDFORK_CORE_1270_TIME) (current_feed abd)) (\<lambda>mssp.
          let call_match_price = price_inv mssp in
          if price_le (price_inv (sell_price order)) call_match_price then Inr (Some (call_match_price, abd)) else Inr None)
     else Inr None))"

text \<open>The new order is not at the front of the book: the order before it in the index is on the same side of the same market.\<close>

definition behind_in_book :: "database \<Rightarrow> obj_id \<Rightarrow> limit_order_object \<Rightarrow> bool" where
  "behind_in_book db order_id order =
     (let before = filter (\<lambda>x. comes_before price_greater sell_price x (order_id, order)) (sorted_index price_greater sell_price (limit_orders db)) in
      before \<noteq> [] \<and> sell_asset_id (snd (last before)) = sell_asset_id order \<and> receive_asset_id (snd (last before)) = receive_asset_id order)"

definition cull_new_order :: "fc_lib \<Rightarrow> obj_id \<Rightarrow> database \<Rightarrow> (bool \<times> database) res" where
  "cull_new_order lib order_id db =
     (case ix_get order_id (limit_orders db) of None \<Rightarrow> Inr (True, db) | Some _ \<Rightarrow> maybe_cull_small_order lib order_id db)"

definition apply_order :: "nat \<Rightarrow> nat \<Rightarrow> fc_lib \<Rightarrow> obj_id \<Rightarrow> database \<Rightarrow> (bool \<times> database) res" where
  "apply_order n fuel lib order_id db =
     res_bind (get_limit_order db order_id) (\<lambda>order.
     if behind_in_book db order_id order then Inr (False, db)
     else
       let max_price = price_inv (sell_price order) in
       res_bind (price_max (asset_id (base max_price)) (asset_id (quote max_price))) (\<lambda>best.
       let limits = map fst (limit_range db best max_price) in
       res_bind (call_match db order) (\<lambda>cm.
       res_bind (case cm of
           None \<Rightarrow> Inr (False, limits, db)
         | Some (call_match_price, abd) \<Rightarrow>
             res_bind (match_limits lib order_id (\<lambda>old. \<not> price_less call_match_price (sell_price old)) limits db) (\<lambda>(finished, limits1, db1).
             if finished then Inr (True, limits1, db1)
             else res_bind (price_min (receive_asset_id order) (sell_asset_id order)) (\<lambda>call_min.
                  res_bind (match_calls n fuel lib order_id (sell_asset_id order) call_min call_match_price abd db1) (\<lambda>(finished, db2).
                  Inr (finished, limits1, db2))))) (\<lambda>(finished, limits1, db1).
       res_bind (if finished then Inr (True, limits1, db1) else match_limits lib order_id (\<lambda>_. False) limits1 db1) (\<lambda>(_, _, db2).
       cull_new_order lib order_id db2)))))"

definition apply_order_before_hardfork_625 :: "nat \<Rightarrow> nat \<Rightarrow> fc_lib \<Rightarrow> obj_id \<Rightarrow> bool \<Rightarrow> database \<Rightarrow> (bool \<times> database) res" where
  "apply_order_before_hardfork_625 n fuel lib order_id allow_black_swan db =
     res_bind (get_limit_order db order_id) (\<lambda>new_order.
     let sell_id = asset_id (amount_for_sale new_order) in
     res_bind (lo_amount_to_receive new_order) (\<lambda>recv.
     let recv_id = asset_id recv in
     res_bind (check_call_orders n fuel lib sell_id allow_black_swan True db) (\<lambda>(called1, db1).
     res_bind (check_call_orders n fuel lib recv_id allow_black_swan True db1) (\<lambda>(called2, db2).
     if (called1 \<or> called2) \<and> ix_get order_id (limit_orders db2) = None then Inr (True, db2)
     else
       res_bind (get_limit_order db2 order_id) (\<lambda>order.
       let max_price = price_inv (sell_price order) in
       res_bind (price_max (asset_id (base max_price)) (asset_id (quote max_price))) (\<lambda>best.
       res_bind (match_limits lib order_id (\<lambda>_. False) (map fst (limit_range db2 best max_price)) db2) (\<lambda>(_, _, db3).
       res_bind (check_call_orders n fuel lib sell_id allow_black_swan False db3) (\<lambda>(_, db4).
       res_bind (check_call_orders n fuel lib recv_id allow_black_swan False db4) (\<lambda>(_, db5).
       if ix_get order_id (limit_orders db5) = None then Inr (True, db5)
       else if head_block_time db5 \<le> HARDFORK_555_TIME then Inr (False, db5)
       else maybe_cull_small_order lib order_id db5)))))))))"

lemma match_limits_moves:
  assumes "match_limits lib oid stop is db = Inr (f, rest, db')" "safe_exact (fc_safe lib)"
  shows "moves (\<lambda>_. 0) db db'"
  using assms(1)
proof (induction "is" arbitrary: db)
  case (Cons i "is")
  then obtain old where old: "get_limit_order db i = Inr old" by auto
  show ?case
  proof (cases "stop old")
    case False
    with Cons.prems old obtain r db1 where m: "match_limit_limit lib oid i (sell_price old) db = Inr (r, db1)"
      and c: "(if r \<noteq> 2 then Inr (True, is, db1) else match_limits lib oid stop is db1) = Inr (f, rest, db')" by auto
    have "moves (\<lambda>_. 0) db1 db'" using c Cons.IH by (auto split: if_splits simp: ledger.moves_refl)
    from ledger.moves_trans [OF match_limit_limit_moves [OF m assms(2)] this] show ?thesis by simp
  qed (use Cons.prems old in \<open>simp add: ledger.moves_refl\<close>)
qed (simp add: ledger.moves_refl)

lemma match_calls_moves:
  assumes "match_calls n fuel lib oid sid cmin cmp abd db = Inr (f, db')" "safe_exact (fc_safe lib)"
  shows "moves (\<lambda>_. 0) db db'"
  using assms(1)
proof (induction n arbitrary: db)
  case (Suc n)
  then obtain pos where pos: "next_called_position sid cmin abd db = Inr pos" by (auto simp del: res_bind_Inr elim: res_bind_InrE)
  show ?case
  proof (cases pos)
    case (Some cid)
    with Suc.prems pos obtain fp mcr mc r db1 where m: "match_limit_call fuel lib oid cid cmp fp mcr mc db = Inr (r, db1)"
      and c: "(if r = 1 \<or> r = 3 then Inr (True, db1) else match_calls n fuel lib oid sid cmin cmp abd db1) = Inr (f, db')"
      by (auto simp del: res_bind_Inr One_nat_def elim!: res_bind_InrE)
    have "moves (\<lambda>_. 0) db1 db'" using c Suc.IH by (auto split: if_splits simp: ledger.moves_refl)
    from ledger.moves_trans [OF match_limit_call_moves [OF m assms(2)] this] show ?thesis by simp
  qed (use Suc.prems pos in \<open>simp add: ledger.moves_refl\<close>)
qed simp

lemma cull_new_order_moves: "cull_new_order lib oid db = Inr (r, db') \<Longrightarrow> safe_exact (fc_safe lib) \<Longrightarrow> moves (\<lambda>_. 0) db db'"
  by (auto simp: cull_new_order_def ledger.moves_refl split: option.splits dest: maybe_cull_moves)

lemma moves_zero_trans: "moves (\<lambda>_. 0) a b \<Longrightarrow> moves (\<lambda>_. 0) b c \<Longrightarrow> moves (\<lambda>_. 0) a c"
  using ledger.moves_trans [of "\<lambda>_. 0" a b "\<lambda>_. 0" c] by simp

lemma apply_order_moves [moves_intros]:
  assumes "apply_order n fuel lib oid db = Inr (r, db')" "safe_exact (fc_safe lib)"
  shows "moves (\<lambda>_. 0) db db'"
proof (cases "\<exists>order. get_limit_order db oid = Inr order \<and> behind_in_book db oid order")
  case True
  with assms(1) show ?thesis by (auto simp: apply_order_def ledger.moves_refl)
next
  case False
  note step = match_limits_moves [OF _ assms(2)] match_calls_moves [OF _ assms(2)]
  from assms(1) False obtain limits cm and order :: limit_order_object and f l1 db1 x y db2
    where s1: "(case cm of
           None \<Rightarrow> Inr (False, limits, db)
         | Some (call_match_price, abd) \<Rightarrow>
             res_bind (match_limits lib oid (\<lambda>old. \<not> price_less call_match_price (sell_price old)) limits db) (\<lambda>(finished, limits1, db1).
             if finished then Inr (True, limits1, db1)
             else res_bind (price_min (receive_asset_id order) (sell_asset_id order)) (\<lambda>call_min.
                  res_bind (match_calls n fuel lib oid (sell_asset_id order) call_min call_match_price abd db1) (\<lambda>(finished, db2).
                  Inr (finished, limits1, db2))))) = Inr (f, l1, db1)"
      and s2: "(if f then Inr (True, l1, db1) else match_limits lib oid (\<lambda>_. False) l1 db1) = Inr (x, y, db2)"
      and s3: "cull_new_order lib oid db2 = Inr (r, db')"
    by (auto simp: apply_order_def Let_def simp del: res_bind_Inr elim!: res_bind_InrE)
  have "moves (\<lambda>_. 0) db db1"
    using s1 step moves_zero_trans by (auto simp: ledger.moves_refl split: option.splits if_splits) blast+
  moreover have "moves (\<lambda>_. 0) db1 db2" using s2 step by (auto simp: ledger.moves_refl split: if_splits)
  ultimately show ?thesis using cull_new_order_moves [OF s3 assms(2)] moves_zero_trans by blast
qed

lemma apply_order_before_hardfork_625_moves [moves_intros]:
  assumes "apply_order_before_hardfork_625 n fuel lib oid en db = Inr (r, db')" "safe_exact (fc_safe lib)"
  shows "moves (\<lambda>_. 0) db db'"
proof -
  note step = check_call_orders_moves [OF _ assms(2)] match_limits_moves [OF _ assms(2)] maybe_cull_moves [OF _ assms(2)]
  from assms(1) obtain a b c1 db1 c2 db2 where s: "check_call_orders n fuel lib a en True db = Inr (c1, db1)"
    "check_call_orders n fuel lib b en True db1 = Inr (c2, db2)"
    and c: "db' = db2 \<or> (\<exists>ids f l db3 c3 db4 c4 db5. match_limits lib oid (\<lambda>_. False) ids db2 = Inr (f, l, db3)
      \<and> check_call_orders n fuel lib a en False db3 = Inr (c3, db4) \<and> check_call_orders n fuel lib b en False db4 = Inr (c4, db5)
      \<and> (db' = db5 \<or> maybe_cull_small_order lib oid db5 = Inr (r, db')))"
    by (auto simp: apply_order_before_hardfork_625_def Let_def simp del: res_bind_Inr elim!: res_bind_InrE split: if_splits; blast)
  have m: "moves (\<lambda>_. 0) db db2" using step(1) [OF s(1)] step(1) [OF s(2)] moves_zero_trans by blast
  have "moves (\<lambda>_. 0) db2 db'" using c
  proof (elim disjE exE conjE)
    fix ids f l db3 c3 db4 c4 db5
    assume a: "match_limits lib oid (\<lambda>_. False) ids db2 = Inr (f, l, db3)"
      "check_call_orders n fuel lib a en False db3 = Inr (c3, db4)" "check_call_orders n fuel lib b en False db4 = Inr (c4, db5)"
    have "moves (\<lambda>_. 0) db2 db5" using step(2) [OF a(1)] step(1) [OF a(2)] step(1) [OF a(3)] moves_zero_trans by blast
    then show "db' = db5 \<Longrightarrow> moves (\<lambda>_. 0) db2 db'" "maybe_cull_small_order lib oid db5 = Inr (r, db') \<Longrightarrow> moves (\<lambda>_. 0) db2 db'"
      using step(3) moves_zero_trans by blast+
  qed (simp add: ledger.moves_refl)
  with m show ?thesis by (rule moves_zero_trans)
qed

end
