(* ===== verification/Sample_Chain.thy ===== *)
theory Sample_Chain
  imports Chain_State "HOL-Library.Code_Target_Numeral"
begin

text \<open>
  A small well-formed chain state at which properties of the ledger and of the market are exercised. Numbers are
  represented by binary numerals when definitions are evaluated (\<open>Code_Target_Numeral\<close>), as times and amounts are large.
\<close>



text \<open>Three accounts, CORE (0) and a market issued asset (1) backed by CORE that charges a market fee of one percent; account 1 sells
  100 CORE for 200 of the asset, account 2 sells 100 of the asset for 40 CORE, and holds a margin position of 300 on 900.\<close>

definition sample_account :: "account_id \<Rightarrow> account_object" where
  "sample_account i = \<lparr>membership_expiration_date = time_maximum, registrar = 0, referrer = 0, lifetime_referrer = 0,
     network_fee_percentage = 2000, lifetime_referrer_fee_percentage = 3000, referrer_rewards_percentage = 0, account_name = ''sample'',
     owner_auth = \<lparr>weight_threshold = 1, account_auths = [], key_auths = [(i, 1)], address_auths = []\<rparr>,
     active_auth = \<lparr>weight_threshold = 1, account_auths = [(0, 1)], key_auths = [(i, 1)], address_auths = []\<rparr>,
     statistics = i, whitelisting_accounts = [], whitelisted_accounts = [], blacklisted_accounts = [], blacklisting_accounts = [],
     cashback_vb = None, owner_special_authority = No_special_authority, active_special_authority = No_special_authority,
     top_n_control_flags = 0, allowed_assets = None,
     acc_options = \<lparr>memo_key = 0, voting_account = GRAPHENE_PROXY_TO_SELF_ACCOUNT, num_witness = 0, num_committee = 0, votes = []\<rparr>\<rparr>"

definition sample_stats :: "account_id \<Rightarrow> int \<Rightarrow> int \<Rightarrow> account_statistics_object" where
  "sample_stats i orders bal = \<lparr>st_owner = i, st_name = ''sample'', total_core_in_orders = orders, core_in_balance = bal, has_cashback_vb = False, is_voting = False,
     lifetime_fees_paid = 0, pending_fees = 0, pending_vested_fees = 0, last_vote_time = 0\<rparr>"

definition sample_options :: "nat \<Rightarrow> nat \<Rightarrow> asset_options" where
  "sample_options percent fl = \<lparr>max_supply = 1000000, market_fee_percent = percent, max_market_fee = 1000, issuer_permissions = fl, flags = fl,
     core_exchange_rate = mk_price (mk_asset 1 1) (mk_asset 1 0), whitelist_authorities = [], blacklist_authorities = [], whitelist_markets = [],
     blacklist_markets = [], reward_percent = None, whitelist_market_fee_sharing = None\<rparr>"

definition sample_asset :: "string \<Rightarrow> asset_options \<Rightarrow> obj_id \<Rightarrow> obj_id option \<Rightarrow> asset_object" where
  "sample_asset sy opts dyn bd = \<lparr>symbol = sy, precision = 5, issuer = 0, options = opts, dynamic_asset_data_id = dyn,
     bitasset_data_id = bd, buyback_account = None\<rparr>"

definition sample_bitasset :: asset_bitasset_data_object where
  "sample_bitasset = \<lparr>bd_asset_id = 1, bd_options = \<lparr>feed_lifetime_sec = 86400, minimum_feeds = 1, force_settlement_delay_sec = 86400,
       force_settlement_offset_percent = 0, maximum_force_settlement_volume = 2000, short_backing_asset = 0\<rparr>,
     feeds = [], current_feed = null_feed, current_feed_publication_time = 0, current_maintenance_collateralization = null_price,
     is_prediction_market = False, force_settled_volume = 0, bd_settlement_price = null_price, settlement_fund = 0,
     asset_cer_updated = False, feed_cer_updated = False\<rparr>"

definition sample_order :: "account_id \<Rightarrow> price \<Rightarrow> limit_order_object" where
  "sample_order s p = \<lparr>lo_expiration = 2100000000, seller = s, for_sale = amount (base p), sell_price = p, deferred_fee = 0,
     deferred_paid_fee = mk_asset 0 0\<rparr>"

definition sample_position :: call_order_object where
  "sample_position = \<lparr>borrower = 2, collateral = 900, debt = 300, call_price = mk_price (mk_asset 1 0) (mk_asset 1 1),
     target_collateral_ratio = None\<rparr>"

definition sample_witness :: "account_id \<Rightarrow> nat \<Rightarrow> witness_object" where
  "sample_witness acc confirmed = \<lparr>witness_account = acc, last_aslot = 0, pay_vb = None, total_votes = 0, total_missed = 0, last_confirmed_block_num = confirmed,
     signing_key = acc, witness_vote_id = make_vote_id vote_witness acc, witness_url = []\<rparr>"

definition sample_db :: database where
  "sample_db = \<lparr>
     accounts = \<lparr>ix_tab = [(0, sample_account 0), (1, sample_account 1), (2, sample_account 2)], ix_next = 3\<rparr>,
     account_stats = \<lparr>ix_tab = [(0, sample_stats 0 0 0), (1, sample_stats 1 100 0), (2, sample_stats 2 900 0)], ix_next = 3\<rparr>,
     balances = \<lparr>ix_tab = [(0, \<lparr>ab_owner = 2, ab_asset_type = 1, ab_balance = 200, ab_maintenance_flag = False\<rparr>)], ix_next = 1\<rparr>,
     assets = \<lparr>ix_tab = [(0, sample_asset ''CORE'' (sample_options 0 0) 0 None), (1, sample_asset ''USD'' (sample_options 100 charge_market_fee) 1 (Some 0))], ix_next = 2\<rparr>,
     dyn_data = \<lparr>ix_tab = [(0, \<lparr>current_supply = 1000, confidential_supply = 0, accumulated_fees = 0, fee_pool = 0\<rparr>),
                          (1, \<lparr>current_supply = 300, confidential_supply = 0, accumulated_fees = 0, fee_pool = 0\<rparr>)], ix_next = 2\<rparr>,
     bitassets = \<lparr>ix_tab = [(0, sample_bitasset)], ix_next = 1\<rparr>,
     limit_orders = \<lparr>ix_tab = [(0, sample_order 1 (mk_price (mk_asset 100 0) (mk_asset 200 1))),
                              (1, sample_order 2 (mk_price (mk_asset 100 1) (mk_asset 40 0)))], ix_next = 2\<rparr>,
     call_orders = \<lparr>ix_tab = [(0, sample_position)], ix_next = 1\<rparr>,
     settlements = \<lparr>ix_tab = [], ix_next = 0\<rparr>, bids = \<lparr>ix_tab = [], ix_next = 0\<rparr>, vestings = \<lparr>ix_tab = [], ix_next = 0\<rparr>,
     fbas = \<lparr>ix_tab = [], ix_next = 0\<rparr>, htlcs = \<lparr>ix_tab = [], ix_next = 0\<rparr>, balance_objects = \<lparr>ix_tab = [], ix_next = 0\<rparr>,
     withdraw_permissions = \<lparr>ix_tab = [], ix_next = 0\<rparr>, witnesses = \<lparr>ix_tab = [(0, sample_witness 0 5), (1, sample_witness 1 4), (2, sample_witness 2 3)], ix_next = 3\<rparr>,
     active_witnesses = [0, 1, 2], current_shuffled_witnesses = [0, 1, 2],
     committee_members = \<lparr>ix_tab = [], ix_next = 0\<rparr>, workers = \<lparr>ix_tab = [], ix_next = 0\<rparr>, budget_records = \<lparr>ix_tab = [], ix_next = 0\<rparr>,
     special_authorities = \<lparr>ix_tab = [], ix_next = 0\<rparr>, buybacks = \<lparr>ix_tab = [], ix_next = 0\<rparr>, active_committee_members = [],
     next_available_vote_id = 3, pending_parameters = None, min_witness_count = 1, min_committee_member_count = 1,
     parameters = \<lparr>current_fees = \<lparr>fee_scale = 10000, fee_params = [(2, Fee 0)]\<rparr>, block_interval = 5, maintenance_interval = 86400,
       maintenance_skip_slots = 3, committee_proposal_review_period = 1209600, maximum_transaction_size = 2048, maximum_block_size = 2000000,
       maximum_time_until_expiration = 86400, maximum_proposal_lifetime = 2419200, maximum_asset_whitelist_authorities = 10,
       maximum_asset_feed_publishers = 10, maximum_witness_count = 1001, maximum_committee_count = 1001, maximum_authority_membership = 10,
       reserve_percent_of_fee = 0, network_percent_of_fee = 2000, lifetime_referrer_percent_of_fee = 3000,
       cashback_vesting_period_seconds = 31536000, cashback_vesting_threshold = 10000000, count_non_member_votes = True,
       allow_non_member_whitelists = False, witness_pay_per_block = 0, witness_pay_vesting_seconds = 86400, worker_budget_per_day = 0,
       max_predicate_opcode = 1, accounts_per_fee_scale = 1000, account_fee_scale_bitshifts = 4, max_authority_depth = 2,
       updatable_htlc_options = Some (2592000, 1024)\<rparr>,
     dgp = \<lparr>head_block_number = 1, dgp_time = 2000000000, next_maintenance_time = 2000086400, witness_budget = 0, current_witness = 0, recently_missed_count = 0, current_aslot = 1,
       recent_slots_filled = 1, maintenance_flag = False, last_irreversible_block_num = 0, last_budget_time = 0, accounts_registered_this_interval = 0\<rparr>,
     applied_ops = [], issue_453_affected_assets = {}\<rparr>"

lemma sample_db_ok: "db_ok sample_db"
  by (auto simp: db_ok_def sample_db_def asset_link_def ix_get_def ix_ok_def lo_index_ok_def inj_on_def sample_asset_def sample_options_def
      sample_order_def sample_bitasset_def fund_ok_def links_ok_def split: if_splits)

lemma sample_db_balanced: "imbalance 0 sample_db = 0" "imbalance 1 sample_db = 0"
  by code_simp+

text \<open>The same chain with a price feed of one unit of the asset for two CORE, at which the margin position is called.\<close>

definition sample_feed :: price_feed where
  "sample_feed = \<lparr>settlement_price = mk_price (mk_asset 1 1) (mk_asset 2 0), core_exchange_rate = mk_price (mk_asset 1 1) (mk_asset 2 0),
     maintenance_collateral_ratio = 1750, maximum_short_squeeze_ratio = 1000\<rparr>"

definition sample_feed_db :: database where
  "sample_feed_db = sample_db\<lparr>bitassets := \<lparr>ix_tab = [(0, sample_bitasset\<lparr>current_feed := sample_feed,
     current_maintenance_collateralization := mk_price (mk_asset 7 0) (mk_asset 2 1)\<rparr>)], ix_next = 1\<rparr>\<rparr>"

lemma sample_feed_db_ok: "db_ok sample_feed_db"
  by (auto simp: sample_feed_db_def db_ok_def sample_db_def asset_link_def ix_get_def ix_ok_def lo_index_ok_def inj_on_def sample_asset_def sample_options_def
      sample_order_def sample_bitasset_def fund_ok_def links_ok_def split: if_splits)

lemma sample_feed_db_balanced: "imbalance 0 sample_feed_db = 0" "imbalance 1 sample_feed_db = 0"
  by code_simp+

end
