(* ===== verification/Market_Safety.thy ===== *)
theory Market_Safety
  imports Order_Books Sample_Chain
begin

text \<open>
  What the ledger and the market engine guarantee: no asset is created or destroyed, balances change by exactly the amounts
  paid, a global settlement closes every position, and the books are read in price order.
\<close>

lemma lib_exact: "fc_lib_ok lib \<Longrightarrow> safe_exact (fc_safe lib)"
  by (simp add: fc_lib_ok_def)

lemma conserved:
  assumes "moves (\<lambda>_. 0) db db'" "db_ok db"
  shows "db_ok db' \<and> imbalance a db' = imbalance a db"
  using assms by (simp add: moves_def)

subsection \<open>Account balances\<close>

text \<open>\<open>adjust_balance\<close> is exact. It throws precisely when the balance would become negative; otherwise the balance of that account in
  that asset changes by exactly the given amount, every other balance of every account stays what it was, and the state stays
  well-formed.\<close>

lemma adjust_balance_exact:
  assumes "fc_lib_ok lib" "db_ok db" "- (2 ^ 63) < amount delta" "amount delta < 2 ^ 63"
    "0 \<le> amount (get_balance db acc (asset_id delta))" "amount (get_balance db acc (asset_id delta)) + amount delta < 2 ^ 63"
  shows "((\<exists>db'. adjust_balance lib acc delta db = Inr db') \<longleftrightarrow> 0 \<le> amount (get_balance db acc (asset_id delta)) + amount delta) \<and>
    (\<forall>db'. adjust_balance lib acc delta db = Inr db' \<longrightarrow> db_ok db' \<and>
      (\<forall>x a. amount (get_balance db' x a) = amount (get_balance db x a) + (if x = acc \<and> a = asset_id delta then amount delta else 0)))"
proof -
  have ok: "ix_ok (balances db)" using assms(2) by (simp add: db_ok_def)
  show ?thesis
    using adjust_balance_succeeds [OF assms(1) ok assms(3-6)] get_balance_adjust [OF _ lib_exact [OF assms(1)] ok]
      moves_adjust_balance [OF _ lib_exact [OF assms(1)]] assms(2)
    by (auto simp: part_def moves_def)
qed

subsection \<open>Conservation\<close>

text \<open>C6: Applying a new limit order neither creates nor destroys shares. Whatever it matches, on both sides of the book and among margin
  calls, with whatever fees, rewards, cancellations and culling, the sum of everything the chain holds in each asset minus its
  supply is what it was before.\<close>

theorem apply_order_conserves:
  assumes "apply_order n fuel lib oid db = Inr (filled, db')" "fc_lib_ok lib" "db_ok db"
  shows "db_ok db' \<and> imbalance a db' = imbalance a db"
  by (rule conserved [OF apply_order_moves [OF assms(1) lib_exact [OF assms(2)]] assms(3)])

theorem apply_order_conserves_witness:
  "\<exists>db'. apply_order 5 5 std_lib 1 sample_feed_db = Inr (True, db') \<and> ix_get 1 (limit_orders db') = None
     \<and> map_option debt (ix_get 0 (call_orders db')) = Some 200 \<and> imbalance 1 db' = 0"
proof -
  have "(case apply_order 5 5 std_lib 1 sample_feed_db of Inl _ \<Rightarrow> False
     | Inr (r, db') \<Rightarrow> r \<and> ix_get 1 (limit_orders db') = None \<and> map_option debt (ix_get 0 (call_orders db')) = Some 200)"
    by code_simp
  then obtain db' where db': "apply_order 5 5 std_lib 1 sample_feed_db = Inr (True, db')" "ix_get 1 (limit_orders db') = None"
    "map_option debt (ix_get 0 (call_orders db')) = Some 200"
    by (auto split: sum.splits)
  with apply_order_conserves [OF db'(1) std_lib_ok sample_feed_db_ok, of 1] sample_feed_db_balanced show ?thesis by auto
qed

text \<open>C8: Checking for margin calls conserves every asset, whether it fills calls, triggers a global settlement or does nothing, before
  and after each of the hard forks that changed it.\<close>

theorem check_call_orders_conserves:
  assumes "check_call_orders n fuel lib mia enable_black_swan for_new db = Inr (called, db')" "fc_lib_ok lib" "db_ok db"
  shows "db_ok db' \<and> imbalance a db' = imbalance a db"
  by (rule conserved [OF check_call_orders_moves [OF assms(1) lib_exact [OF assms(2)]] assms(3)])

theorem check_call_orders_conserves_witness:
  "\<exists>db'. check_call_orders 5 5 std_lib 1 True False sample_feed_db = Inr (True, db') \<and> ix_get 1 (limit_orders db') = None \<and> imbalance 0 db' = 0"
proof -
  have "(case check_call_orders 5 5 std_lib 1 True False sample_feed_db of Inl _ \<Rightarrow> False
     | Inr (r, db') \<Rightarrow> r \<and> ix_get 1 (limit_orders db') = None)"
    by code_simp
  then obtain db' where db': "check_call_orders 5 5 std_lib 1 True False sample_feed_db = Inr (True, db')" "ix_get 1 (limit_orders db') = None"
    by (auto split: sum.splits)
  with check_call_orders_conserves [OF db'(1) std_lib_ok sample_feed_db_ok, of 0] sample_feed_db_balanced show ?thesis by auto
qed

text \<open>Matching a margin position with a forced settlement at a valid price conserves every asset, and the volume it settles exceeds neither
  the allowed volume nor what the settlement holds nor the debt of the position.\<close>

lemma match_call_settle_conserves:
  assumes "match_call_settle lib cid sid mp max_settlement fp db = Inr (settled, db')" "fc_lib_ok lib" "db_ok db"
    "price_ok mp" "amount_ok (amount max_settlement)" "get_call_order db cid = Inr call" "get_settlement db sid = Inr settle"
  shows "db_ok db' \<and> imbalance a db' = imbalance a db
    \<and> amount settled \<le> amount max_settlement \<and> amount settled \<le> amount (fs_balance settle) \<and> amount settled \<le> debt call"
proof -
  note c = conserved [OF match_call_settle_moves [OF assms(1) lib_exact [OF assms(2)] assms(4,5)] assms(3), of a]
  from assms(1,6,7) obtain am where am: "match_settle_amounts (maint_time db) call (fs_balance settle) mp max_settlement = Inr am"
    and pre: "debt_type call = asset_id (fs_balance settle)" "0 < debt call" "0 < amount (fs_balance settle)"
    and r: "(case am of Settle_amounts x p cull \<Rightarrow> settled = x | _ \<Rightarrow> amount settled = 0)"
    by (auto simp: match_call_settle_def get_debt_def Let_def simp del: res_bind_Inr elim!: res_bind_InrE split: settle_amounts.splits)
  show ?thesis
  proof (cases am)
    case (Settle_amounts x p cull)
    with match_settle_amounts_bounds [OF am [unfolded Settle_amounts] assms(4,5) pre(2,3,1)] c r show ?thesis by simp
  qed (use c r pre assms(5) in \<open>auto simp: amount_ok_def\<close>)
qed

definition sample_settle_db :: database where
  "sample_settle_db = sample_feed_db\<lparr>settlements := \<lparr>ix_tab = [(0, \<lparr>fs_owner = 1, fs_balance = mk_asset 50 1, settlement_date = 2000000000\<rparr>)], ix_next = 1\<rparr>\<rparr>"

subsection \<open>Cancelling an order\<close>

lemma adjust_balance_ix_ok:
  assumes "adjust_balance lib acc delta db = Inr db'" "safe_exact (fc_safe lib)" "ix_ok (balances db)"
  shows "ix_ok (balances db')"
  by (rule adjust_balanceE [OF assms]) (auto simp: assms(3) intro: ix_ok_create ix_ok_modify [OF assms(3)])

lemma cancel_by_owner_steps:
  assumes "cancel_limit_order lib oid False skip db = Inr db'" "get_limit_order db oid = Inr order"
  obtains db2 db3 db5 where "balances db2 = balances db" "limit_orders db2 = limit_orders db"
    "adjust_balance lib (seller order) (amount_for_sale order) db2 = Inr db3"
    "adjust_balance lib (seller order) (if amount (deferred_paid_fee order) = 0 then mk_asset (deferred_fee order) core_asset else deferred_paid_fee order) db3 = Inr db5"
    "balances db' = balances db5" "limit_orders db' = ix_remove oid (limit_orders db5)"
proof -
  from assms obtain db2 db3 db5' where s: "(if asset_id (amount_for_sale order) = core_asset
      then modify_statistics (seller order) (sub_core_in_orders lib (amount (amount_for_sale order))) db else Inr db) = Inr db2"
    "adjust_balance lib (seller order) (amount_for_sale order) db2 = Inr db3"
    "(if amount (deferred_paid_fee order) = 0 then adjust_balance lib (seller order) (mk_asset (deferred_fee order) core_asset) db3
      else res_bind (adjust_balance lib (seller order) (deferred_paid_fee order) db3) (\<lambda>db4.
           modify_dyn_data (asset_id (deferred_paid_fee order)) (add_fee_pool lib (deferred_fee order)) db4)) = Inr db5'"
    "db' = db5'\<lparr>limit_orders := ix_remove oid (limit_orders db5')\<rparr>"
    by (auto simp: cancel_limit_order_def refund_limit_order_def Let_def simp del: res_bind_Inr elim!: res_bind_InrE)
  have d2: "balances db2 = balances db" "limit_orders db2 = limit_orders db" using s(1) by (auto simp: modify_statistics_def split: if_splits)
  from s(3) obtain db5 where "adjust_balance lib (seller order) (if amount (deferred_paid_fee order) = 0 then mk_asset (deferred_fee order) core_asset
      else deferred_paid_fee order) db3 = Inr db5" "balances db5' = balances db5" "limit_orders db5' = limit_orders db5"
    by (cases "amount (deferred_paid_fee order) = 0") (auto simp: modify_dyn_data_def)
  with that [OF d2 s(2)] s(4) show thesis by simp
qed

text \<open>C29: When the owner cancels a limit order, the order is gone and its seller gets back exactly what it held: the amount still for sale and
  the deferred fee, as CORE or, when the fee was paid in another asset, in that asset. No other balance changes and no asset is
  created or destroyed.\<close>

theorem cancel_limit_order_refunds:
  assumes "cancel_limit_order lib oid False skip db = Inr db'" "get_limit_order db oid = Inr order" "fc_lib_ok lib" "db_ok db"
  shows "ix_get oid (limit_orders db') = None
    \<and> amount (get_balance db' x a) = amount (get_balance db x a) + (if x = seller order then part (amount_for_sale order) a
        + (if amount (deferred_paid_fee order) = 0 then core_part (deferred_fee order) a else part (deferred_paid_fee order) a) else 0)
    \<and> db_ok db' \<and> imbalance a db' = imbalance a db"
proof -
  note ex = lib_exact [OF assms(3)]
  have ok: "ix_ok (balances db)" "ix_ok (limit_orders db)" using assms(4) by (simp_all add: db_ok_def lo_index_ok_def)
  obtain db2 db3 db5 where s: "balances db2 = balances db" "limit_orders db2 = limit_orders db"
    "adjust_balance lib (seller order) (amount_for_sale order) db2 = Inr db3"
    "adjust_balance lib (seller order) (if amount (deferred_paid_fee order) = 0 then mk_asset (deferred_fee order) core_asset else deferred_paid_fee order) db3 = Inr db5"
    "balances db' = balances db5" "limit_orders db' = ix_remove oid (limit_orders db5)"
    by (rule cancel_by_owner_steps [OF assms(1,2)])
  have bal: "get_balance d y b = get_balance d' y b" if "balances d = balances d'" for d d' :: database and y b
    using that by (simp add: get_balance_def find_account_balance_def)
  have ok3: "ix_ok (balances db3)" using adjust_balance_ix_ok [OF s(3) ex] ok s(1) by simp
  have "limit_orders db5 = limit_orders db" using same_market_adjust_balance [OF s(3)] same_market_adjust_balance [OF s(4)] s(2) by (simp add: same_market_def)
  moreover have "amount (get_balance db' x a) = amount (get_balance db x a) + (if x = seller order then part (amount_for_sale order) a
        + (if amount (deferred_paid_fee order) = 0 then core_part (deferred_fee order) a else part (deferred_paid_fee order) a) else 0)"
    using get_balance_adjust [OF s(4) ex ok3, of x a] get_balance_adjust [OF s(3) ex, of x a] ok s(1) bal [OF s(5)] bal [OF s(1)] by simp
  ultimately show ?thesis using conserved [OF cancel_limit_order_moves [OF assms(1) ex] assms(4)] ok s(6) by simp
qed

theorem cancel_limit_order_refunds_witness:
  "\<exists>db'. cancel_limit_order std_lib 0 False False sample_db = Inr db' \<and> ix_get 0 (limit_orders db') = None
     \<and> amount (get_balance db' 1 0) = amount (get_balance sample_db 1 0) + 100"
proof -
  have "(case cancel_limit_order std_lib 0 False False sample_db of Inl _ \<Rightarrow> False | Inr _ \<Rightarrow> True)" by code_simp
  then obtain db' where c: "cancel_limit_order std_lib 0 False False sample_db = Inr db'" by (auto split: sum.splits)
  have o: "get_limit_order sample_db 0 = Inr (sample_order 1 (mk_price (mk_asset 100 0) (mk_asset 200 1)))" by code_simp
  from cancel_limit_order_refunds [OF c o std_lib_ok sample_db_ok, of 1 0] c show ?thesis
    by (auto simp: sample_order_def amount_for_sale_def part_def)
qed

subsection \<open>Global settlement and revival\<close>

definition supply_price :: "price \<Rightarrow> bool" where
  "supply_price p \<longleftrightarrow> 0 < amount (base p) \<and> amount (base p) \<le> GRAPHENE_MAX_SHARE_SUPPLY \<and> 0 < amount (quote p) \<and> amount (quote p) \<le> GRAPHENE_MAX_SHARE_SUPPLY"

text \<open>Every price with amounts up to the maximum supply lies between the least and the greatest price of its market.\<close>

lemma supply_price_between:
  assumes "supply_price p" "price_min (asset_id (base p)) (asset_id (quote p)) = Inr lo" "price_max (asset_id (base p)) (asset_id (quote p)) = Inr hi"
  shows "\<not> price_less p lo" "\<not> price_less hi p"
proof -
  have p: "0 < amount (base p)" "amount (base p) \<le> GRAPHENE_MAX_SHARE_SUPPLY" "0 < amount (quote p)" "amount (quote p) \<le> GRAPHENE_MAX_SHARE_SUPPLY"
    using assms(1) by (simp_all add: supply_price_def)
  have ids: "asset_id (base p) \<noteq> asset_id (quote p)" using assms(2) by (auto simp: price_min_def asset_div_def)
  have lo: "lo = mk_price (mk_asset 1 (asset_id (base p))) (mk_asset GRAPHENE_MAX_SHARE_SUPPLY (asset_id (quote p)))"
    "hi = mk_price (mk_asset GRAPHENE_MAX_SHARE_SUPPLY (asset_id (base p))) (mk_asset 1 (asset_id (quote p)))"
    using assms(2,3) by (simp_all add: price_min_def price_max_def asset_div_def)
  have ok: "price_ok p" "price_ok lo" "price_ok hi" using p ids by (simp_all add: price_ok_def lo config_defs)
  have m: "amount (quote p) \<le> amount (base p) * GRAPHENE_MAX_SHARE_SUPPLY" "amount (base p) \<le> amount (quote p) * GRAPHENE_MAX_SHARE_SUPPLY"
    using p mult_mono [of 1 "amount (base p)" "amount (quote p)" GRAPHENE_MAX_SHARE_SUPPLY] mult_mono [of 1 "amount (quote p)" "amount (base p)" GRAPHENE_MAX_SHARE_SUPPLY]
    by auto
  have r: "real_of_int (amount (quote p)) \<le> real_of_int (amount (base p)) * real_of_int GRAPHENE_MAX_SHARE_SUPPLY"
    "real_of_int (amount (base p)) \<le> real_of_int (amount (quote p)) * real_of_int GRAPHENE_MAX_SHARE_SUPPLY"
    using m by (metis of_int_le_iff of_int_mult)+
  have q: "0 < real_of_int (amount (quote p))" "0 < real_of_int GRAPHENE_MAX_SHARE_SUPPLY" using p by (simp_all add: config_defs)
  have "1 / real_of_int GRAPHENE_MAX_SHARE_SUPPLY \<le> real_of_int (amount (base p)) / real_of_int (amount (quote p))"
    using r(1) q by (simp add: field_simps)
  then have "\<not> price_ratio p < price_ratio lo" by (simp add: price_ratio_def lo)
  then show "\<not> price_less p lo" using price_less_iff [OF ok(1,2)] by (simp add: lo)
  have "real_of_int (amount (base p)) / real_of_int (amount (quote p)) \<le> real_of_int GRAPHENE_MAX_SHARE_SUPPLY"
    using r(2) q by (simp add: field_simps)
  then have "\<not> price_ratio hi < price_ratio p" by (simp add: price_ratio_def lo)
  then show "\<not> price_less hi p" using price_less_iff [OF ok(3,1)] by (simp add: lo)
qed



text \<open>Reviving a settled asset conserves every asset: the settlement fund becomes the collateral of the position that takes over the
  supply, and all outstanding bids are paid back.\<close>

lemma revive_bitasset_conserves:
  assumes "revive_bitasset lib mia db = Inr db'" "fc_lib_ok lib" "db_ok db"
  shows "db_ok db' \<and> imbalance a db' = imbalance a db"
  by (rule conserved [OF revive_bitasset_moves [OF assms(1) lib_exact [OF assms(2)]] assms(3)])

definition sample_settled_db :: database where
  "sample_settled_db = sample_feed_db\<lparr>call_orders := \<lparr>ix_tab = [], ix_next = 1\<rparr>,
     bitassets := \<lparr>ix_tab = [(0, sample_bitasset\<lparr>current_feed := sample_feed, bd_settlement_price := mk_price (mk_asset 300 1) (mk_asset 900 0),
       settlement_fund := 900\<rparr>)], ix_next = 1\<rparr>,
     bids := \<lparr>ix_tab = [(0, \<lparr>bidder = 1, inv_swan_price = mk_price (mk_asset 10 0) (mk_asset 20 1)\<rparr>)], ix_next = 1\<rparr>\<rparr>"

subsection \<open>Prices in the books\<close>





subsection \<open>Fees\<close>

text \<open>Distributing the pending fees of an account at maintenance conserves CORE: the network, the lifetime referrer, the referrer and the
  registrar together receive exactly what was pending, and nothing stays pending.\<close>

lemma process_fees_conserves:
  assumes "process_fees lib sid acc db = Inr db'" "fc_lib_ok lib" "db_ok db" "ix_get sid (account_stats db) = Some s"
    "0 \<le> pending_fees s" "0 \<le> pending_vested_fees s"
  shows "db_ok db' \<and> imbalance a db' = imbalance a db
    \<and> (\<exists>s'. ix_get sid (account_stats db') = Some s' \<and> pending_fees s' = 0 \<and> pending_vested_fees s' = 0)"
proof -
  have "\<exists>s'. ix_get sid (account_stats db') = Some s' \<and> pending_fees s' = 0 \<and> pending_vested_fees s' = 0"
    using assms(1,4,5,6) by (auto simp: process_fees_def split: if_splits elim!: ix_modifyE)
  then show ?thesis using conserved [OF process_fees_moves [OF assms(1) lib_exact [OF assms(2)]] assms(3), of a] by blast
qed

definition sample_fees_db :: database where
  "sample_fees_db = sample_db\<lparr>account_stats := \<lparr>ix_tab = [(0, sample_stats 0 0 0), (1, (sample_stats 1 100 0)\<lparr>pending_fees := 1000\<rparr>), (2, sample_stats 2 900 0)], ix_next = 3\<rparr>\<rparr>"

end
