(* ===== verification/Market_Evaluators.thy ===== *)
theory Market_Evaluators
  imports Order_Books
begin

text \<open>
  The evaluators of transfers (\<open>transfer_evaluator.cpp\<close>), vesting balances (\<open>vesting_balance_evaluator.cpp\<close>) and of the market
  (\<open>market_evaluator.cpp\<close>). For each operation there is the check \<open>do_evaluate\<close> and the change \<open>do_apply\<close>; pointers that \<open>do_evaluate\<close> stores for
  \<open>do_apply\<close> are looked up again, as nothing in between removes or replaces an object. Each of them is an interpretation of the contract of
  evaluators: applying the operation and paying its fee conserves every asset.
\<close>

definition find_account :: "database \<Rightarrow> account_id \<Rightarrow> unit res" where
  "find_account db i = res_bind (get_account db i) (\<lambda>_. Inr ())"

subsection \<open>Transfers\<close>

definition transfer_evaluate :: "transfer_operation \<Rightarrow> database \<Rightarrow> unit res" where
  "transfer_evaluate x db =
     res_bind (get_account db (tr_from x)) (\<lambda>from_account.
     res_bind (get_account db (tr_to x)) (\<lambda>to_account.
     res_bind (get_asset db (asset_id (tr_amount x))) (\<lambda>asset_type.
     FC_ASSERT (is_authorized_asset from_account (asset_id (tr_amount x)) asset_type) ''transfer_from_account_not_whitelisted''
    (FC_ASSERT (is_authorized_asset to_account (asset_id (tr_amount x)) asset_type) ''transfer_to_account_not_whitelisted''
    (FC_ASSERT (is_transfer_restricted asset_type \<longrightarrow> tr_from x = issuer asset_type \<or> tr_to x = issuer asset_type) ''transfer_restricted_transfer_asset''
    (FC_ASSERT (amount (get_balance db (tr_from x) (asset_id (tr_amount x))) \<ge> amount (tr_amount x)) ''Insufficient Balance'' (Inr ())))))))"

definition transfer_apply :: "fc_lib \<Rightarrow> transfer_operation \<Rightarrow> database \<Rightarrow> database res" where
  "transfer_apply lib x db =
     res_bind (asset_neg (fc_safe lib) (tr_amount x)) (\<lambda>neg.
     res_bind (adjust_balance lib (tr_from x) neg db) (\<lambda>db1.
       adjust_balance lib (tr_to x) (tr_amount x) db1))"

definition override_transfer_evaluate :: "override_transfer_operation \<Rightarrow> database \<Rightarrow> unit res" where
  "override_transfer_evaluate x db =
     res_bind (get_asset db (asset_id (ot_amount x))) (\<lambda>asset_type.
     FC_ASSERT (can_override asset_type) ''override_transfer_not_permitted''
    (FC_ASSERT (issuer asset_type = ot_issuer x) ''asset_type.issuer == op.issuer''
    (res_bind (get_account db (ot_from x)) (\<lambda>from_account.
     res_bind (get_account db (ot_to x)) (\<lambda>to_account.
     FC_ASSERT (is_authorized_asset to_account (asset_id (ot_amount x)) asset_type) ''is_authorized_asset( d, to_account, asset_type )''
    (FC_ASSERT (is_authorized_asset from_account (asset_id (ot_amount x)) asset_type) ''is_authorized_asset( d, from_account, asset_type )''
    (FC_ASSERT (amount (get_balance db (ot_from x) (asset_id (ot_amount x))) \<ge> amount (ot_amount x)) ''balance'' (Inr ()))))))))"

definition override_transfer_apply :: "fc_lib \<Rightarrow> override_transfer_operation \<Rightarrow> database \<Rightarrow> database res" where
  "override_transfer_apply lib x db =
     res_bind (asset_neg (fc_safe lib) (ot_amount x)) (\<lambda>neg.
     res_bind (adjust_balance lib (ot_from x) neg db) (\<lambda>db1.
       adjust_balance lib (ot_to x) (ot_amount x) db1))"

subsection \<open>Vesting balances\<close>

definition check_vesting_balance_policy_hf_1268 :: "time_sec \<Rightarrow> vesting_policy_initializer \<Rightarrow> unit res" where
  "check_vesting_balance_policy_hf_1268 block_time policy =
     FC_ASSERT (block_time < HARDFORK_1268_TIME \<longrightarrow> policy \<noteq> Instant_init)
       ''Instant vesting policy is only available after HARDFORK_1268_TIME!'' (Inr ())"

definition vesting_balance_create_evaluate :: "vesting_balance_create_operation \<Rightarrow> database \<Rightarrow> unit res" where
  "vesting_balance_create_evaluate x db =
     res_bind (find_account db (vc_creator x)) (\<lambda>_.
     res_bind (find_account db (vc_owner x)) (\<lambda>_.
     FC_ASSERT (amount (vc_amount x) > 0) ''op.amount.amount > 0''
    (res_bind (asset_ge (get_balance db (vc_creator x) (asset_id (vc_amount x))) (vc_amount x)) (\<lambda>enough.
     FC_ASSERT enough ''d.get_balance( creator_account.id, op.amount.asset_id ) >= op.amount''
    (res_bind (get_asset db (asset_id (vc_amount x))) (\<lambda>ao.
     FC_ASSERT (\<not> is_transfer_restricted ao) ''!op.amount.asset_id(d).is_transfer_restricted()''
    (check_vesting_balance_policy_hf_1268 (head_block_time db) (vc_policy x))))))))"

text \<open>A new object must not clash with another one in the unique index \<open>by_vesting_type\<close>; the type of a created balance is \<open>unspecified\<close>.\<close>

definition vesting_balance_create_apply :: "fc_lib \<Rightarrow> vesting_balance_create_operation \<Rightarrow> database \<Rightarrow> database res" where
  "vesting_balance_create_apply lib x db =
     res_bind (asset_ge (get_balance db (vc_creator x) (asset_id (vc_amount x))) (vc_amount x)) (\<lambda>enough.
     FC_ASSERT enough ''d.get_balance( op.creator, op.amount.asset_id ) >= op.amount''
    (res_bind (asset_neg (fc_safe lib) (vc_amount x)) (\<lambda>neg.
     res_bind (adjust_balance lib (vc_creator x) neg db) (\<lambda>db1.
     Inr (db1\<lparr>vestings := ix_create \<lparr>vb_owner = vc_owner x, vb_balance = vc_amount x,
       vb_policy = init_policy_visitor (amount (vc_amount x)) (head_block_time db) (vc_policy x),
       vb_balance_type = Unspecified\<rparr> (vestings db1)\<rparr>)))))"

definition vesting_balance_withdraw_evaluate :: "fc_lib \<Rightarrow> vesting_balance_withdraw_operation \<Rightarrow> database \<Rightarrow> unit res" where
  "vesting_balance_withdraw_evaluate lib x db =
     res_bind (opt_get ''Unable to find Object'' (ix_get (vw_vesting_balance x) (vestings db))) (\<lambda>vbo.
     FC_ASSERT (vw_owner x = vb_owner vbo) ''op.owner == vbo.owner''
    (res_bind (vbo_is_withdraw_allowed lib vbo (head_block_time db) (vw_amount x)) (\<lambda>ok.
     FC_ASSERT ok ''vbo.is_withdraw_allowed( now, op.amount )''
    (find_account db (vw_owner x)))))"

definition vesting_balance_withdraw_apply :: "fc_lib \<Rightarrow> vesting_balance_withdraw_operation \<Rightarrow> database \<Rightarrow> database res" where
  "vesting_balance_withdraw_apply lib x db =
     res_bind (ix_modify (vw_vesting_balance x) (\<lambda>vbo. vbo_withdraw lib vbo (head_block_time db) (vw_amount x)) (vestings db)) (\<lambda>ix.
       adjust_balance lib (vw_owner x) (vw_amount x) (db\<lparr>vestings := ix\<rparr>))"

subsection \<open>Limit orders\<close>

definition limit_order_create_evaluate :: "limit_order_create_operation \<Rightarrow> database \<Rightarrow> unit res" where
  "limit_order_create_evaluate x db =
     FC_ASSERT (lc_expiration x \<ge> head_block_time db) ''op.expiration >= d.head_block_time()''
    (res_bind (get_account db (lc_seller x)) (\<lambda>sel.
     let si = asset_id (amount_to_sell x); ri = asset_id (min_to_receive x) in
     res_bind (get_asset db si) (\<lambda>sell_asset.
     res_bind (get_asset db ri) (\<lambda>receive_asset.
     FC_ASSERT (whitelist_markets (options sell_asset) \<noteq> [] \<longrightarrow> ri \<in> set (whitelist_markets (options sell_asset))) ''This market has not been whitelisted.''
    (FC_ASSERT (blacklist_markets (options sell_asset) \<noteq> [] \<longrightarrow> ri \<notin> set (blacklist_markets (options sell_asset))) ''This market has been blacklisted.''
    (FC_ASSERT (is_authorized_asset sel si sell_asset) ''is_authorized_asset( d, *_seller, *_sell_asset )''
    (FC_ASSERT (is_authorized_asset sel ri receive_asset) ''is_authorized_asset( d, *_seller, *_receive_asset )''
    (res_bind (asset_ge (get_balance db (lc_seller x) si) (amount_to_sell x)) (\<lambda>enough.
     FC_ASSERT enough ''insufficient balance'' (Inr ()))))))))))"

definition limit_order_convert_fee :: "fc_lib \<Rightarrow> bool \<Rightarrow> evaluator_state \<Rightarrow> database \<Rightarrow> database res" where
  "limit_order_convert_fee lib skip_fee st db =
     (if head_block_time db \<le> HARDFORK_CORE_604_TIME then convert_fee lib skip_fee st db
      else if \<not> skip_fee \<and> fee_asset st \<noteq> core_asset
      then modify_dyn_data (fee_asset st) (add_fee_pool lib (- core_fee_paid st)) db
      else Inr db)"

text \<open>After hard fork 445 the fee is not paid but deferred: kept in the order, with what was originally paid for it after core-604.\<close>

definition deferred_fees :: "evaluator_state \<Rightarrow> database \<Rightarrow> int \<times> asset" where
  "deferred_fees st db =
     (if head_block_time db \<le> HARDFORK_445_TIME then (0, mk_asset 0 core_asset)
      else (core_fee_paid st,
            if head_block_time db > HARDFORK_CORE_604_TIME \<and> fee_asset st \<noteq> core_asset then fee_from_account st else mk_asset 0 core_asset))"

definition limit_order_pay_fee :: "fc_lib \<Rightarrow> bool \<Rightarrow> evaluator_state \<Rightarrow> database \<Rightarrow> database res" where
  "limit_order_pay_fee lib skip_fee st db =
     (if head_block_time db \<le> HARDFORK_445_TIME then pay_fee lib skip_fee st db else Inr db)"

definition insert_limit_order :: "fc_lib \<Rightarrow> limit_order_create_operation \<Rightarrow> evaluator_state \<Rightarrow> database \<Rightarrow> database res" where
  "insert_limit_order lib x st db =
     res_bind (if asset_id (amount_to_sell x) = core_asset
               then modify_statistics (lc_seller x) (add_core_in_orders lib (amount (amount_to_sell x))) db else Inr db) (\<lambda>db1.
     res_bind (asset_neg (fc_safe lib) (amount_to_sell x)) (\<lambda>neg.
     res_bind (adjust_balance lib (lc_seller x) neg db1) (\<lambda>db2.
     res_bind (asset_div (amount_to_sell x) (min_to_receive x)) (\<lambda>p.
     Inr (db2\<lparr>limit_orders := ix_create \<lparr>lo_expiration = lc_expiration x, seller = lc_seller x, for_sale = amount (amount_to_sell x),
       sell_price = p, deferred_fee = fst (deferred_fees st db), deferred_paid_fee = snd (deferred_fees st db)\<rparr> (limit_orders db2)\<rparr>)))))"

definition limit_order_create_apply :: "nat \<Rightarrow> nat \<Rightarrow> fc_lib \<Rightarrow> limit_order_create_operation \<Rightarrow> evaluator_state \<Rightarrow> database \<Rightarrow> database res" where
  "limit_order_create_apply n fuel lib x st db =
     res_bind (insert_limit_order lib x st db) (\<lambda>db1.
     res_bind (if maint_time db1 \<le> HARDFORK_CORE_625_TIME
               then apply_order_before_hardfork_625 n fuel lib (ix_next (limit_orders db)) True db1
               else apply_order n fuel lib (ix_next (limit_orders db)) db1) (\<lambda>(filled, db2).
     FC_ASSERT (fill_or_kill x \<longrightarrow> filled) ''!op.fill_or_kill || filled'' (Inr db2)))"

definition limit_order_cancel_evaluate :: "limit_order_cancel_operation \<Rightarrow> database \<Rightarrow> unit res" where
  "limit_order_cancel_evaluate x db =
     res_bind (get_limit_order db (lx_order x)) (\<lambda>order.
     FC_ASSERT (seller order = lx_fee_paying_account x) ''_order->seller == o.fee_paying_account'' (Inr ()))"

definition limit_order_cancel_apply :: "nat \<Rightarrow> nat \<Rightarrow> fc_lib \<Rightarrow> limit_order_cancel_operation \<Rightarrow> database \<Rightarrow> database res" where
  "limit_order_cancel_apply n fuel lib x db =
     res_bind (get_limit_order db (lx_order x)) (\<lambda>order.
     res_bind (cancel_limit_order lib (lx_order x) False False db) (\<lambda>db1.
     if maint_time db1 \<le> HARDFORK_CORE_606_TIME
     then res_bind (check_call_orders n fuel lib (asset_id (base (sell_price order))) True False db1) (\<lambda>(_, db2).
          res_bind (check_call_orders n fuel lib (asset_id (quote (sell_price order))) True False db2) (\<lambda>(_, db3). Inr db3))
     else Inr db1))"

subsection \<open>Margin positions\<close>

definition call_order_update_evaluate :: "fc_lib \<Rightarrow> call_order_update_operation \<Rightarrow> database \<Rightarrow> unit res" where
  "call_order_update_evaluate lib x db =
     res_bind (find_account db (funding_account x)) (\<lambda>_.
     res_bind (get_asset db (asset_id (delta_debt x))) (\<lambda>debt_asset.
     FC_ASSERT (is_market_issued debt_asset) ''Unable to cover as it is not a collateralized asset.''
    (res_bind (dynamic_data db debt_asset) (\<lambda>dyn.
     res_bind (fc_safe lib (current_supply dyn + amount (delta_debt x))) (\<lambda>new_supply.
     FC_ASSERT (maint_time db \<le> SOFTFORK_CORE_1465_TIME \<or> new_supply \<le> max_supply (options debt_asset)) ''Borrowing this quantity would exceed MAX_SUPPLY''
    (FC_ASSERT (new_supply \<ge> 0) ''This transaction would bring current supply below zero.''
    (res_bind (bitasset_data db debt_asset) (\<lambda>bd.
     FC_ASSERT (\<not> has_settlement bd) ''Cannot update debt position when the asset has been globally settled''
    (FC_ASSERT (asset_id (delta_collateral x) = short_backing_asset (bd_options bd)) ''Collateral asset type should be same as backing asset of debt asset''
    (if is_prediction_market bd
     then FC_ASSERT (amount (delta_collateral x) = amount (delta_debt x)) ''Debt amount and collateral amount should be same'' (Inr ())
     else if price_is_null (settlement_price (current_feed bd)) then Inl (Throw_exn ''Cannot borrow asset with no price feed.'')
     else Inr ()))))))))))"

definition exchange_debt :: "fc_lib \<Rightarrow> call_order_update_operation \<Rightarrow> database \<Rightarrow> database res" where
  "exchange_debt lib x db =
     (if amount (delta_debt x) \<noteq> 0
      then res_bind (adjust_balance lib (funding_account x) (delta_debt x) db) (\<lambda>db1.
           modify_dyn_data (asset_id (delta_debt x)) (add_current_supply lib (amount (delta_debt x))) db1)
      else Inr db)"

definition exchange_collateral :: "fc_lib \<Rightarrow> call_order_update_operation \<Rightarrow> database \<Rightarrow> database res" where
  "exchange_collateral lib x db =
     (if amount (delta_collateral x) \<noteq> 0
      then res_bind (asset_neg (fc_safe lib) (delta_collateral x)) (\<lambda>neg.
           res_bind (adjust_balance lib (funding_account x) neg db) (\<lambda>db1.
           if asset_id (delta_collateral x) = core_asset
           then modify_statistics (funding_account x) (add_core_in_orders lib (amount (delta_collateral x))) db1
           else Inr db1))
      else Inr db)"

text \<open>The position after the update: its identifier, its old collateralization and debt if it existed before, or nothing if it has been closed.\<close>

definition find_position :: "call_order_update_operation \<Rightarrow> database \<Rightarrow> (obj_id \<times> call_order_object) option" where
  "find_position x db = ix_find (\<lambda>c. borrower c = funding_account x \<and> debt_type c = asset_id (delta_debt x)) (call_orders db)"

definition open_position :: "call_order_update_operation \<Rightarrow> int \<Rightarrow> database \<Rightarrow> database res" where
  "open_position x mcr db =
     FC_ASSERT (amount (delta_collateral x) > 0) ''Delta collateral amount of new debt position should be positive''
    (FC_ASSERT (amount (delta_debt x) > 0) ''Delta debt amount of new debt position should be positive''
    (res_bind (if maint_time db \<le> HARDFORK_CORE_1270_TIME then call_price_of (delta_debt x) (delta_collateral x) mcr
               else Inr (mk_price (mk_asset 1 (asset_id (delta_collateral x))) (mk_asset 1 (asset_id (delta_debt x))))) (\<lambda>cp.
     Inr (db\<lparr>call_orders := ix_create \<lparr>borrower = funding_account x, collateral = amount (delta_collateral x), debt = amount (delta_debt x),
       call_price = cp, target_collateral_ratio = cu_target_collateral_ratio x\<rparr> (call_orders db)\<rparr>))))"

definition change_position :: "call_order_update_operation \<Rightarrow> int \<Rightarrow> time_sec \<Rightarrow> int \<Rightarrow> int \<Rightarrow> call_order_object \<Rightarrow> call_order_object res" where
  "change_position x mcr maint new_collateral new_debt call =
     (let c1 = call\<lparr>collateral := new_collateral, debt := new_debt\<rparr> in
      res_bind (if maint \<le> HARDFORK_CORE_1270_TIME then call_price_of (get_debt c1) (get_collateral c1) mcr else Inr (call_price c1)) (\<lambda>cp.
      Inr (c1\<lparr>call_price := cp, target_collateral_ratio := cu_target_collateral_ratio x\<rparr>)))"

definition update_position ::
  "fc_lib \<Rightarrow> call_order_update_operation \<Rightarrow> int \<Rightarrow> database \<Rightarrow> ((obj_id \<times> (price \<times> int) option) option \<times> database) res" where
  "update_position lib x mcr db =
     (case find_position x db of
        None \<Rightarrow> res_bind (open_position x mcr db) (\<lambda>db1. Inr (Some (ix_next (call_orders db), None), db1))
      | Some (i, call) \<Rightarrow>
          res_bind (fc_safe lib (collateral call + amount (delta_collateral x))) (\<lambda>new_collateral.
          res_bind (fc_safe lib (debt call + amount (delta_debt x))) (\<lambda>new_debt.
          if new_debt = 0
          then FC_ASSERT (new_collateral = 0) ''Should claim all collateral when closing debt position''
                 (Inr (None, db\<lparr>call_orders := ix_remove i (call_orders db)\<rparr>))
          else FC_ASSERT (new_collateral > 0 \<and> new_debt > 0) ''Both collateral and debt should be positive after updated a debt position if not to close it''
              (res_bind (collateralization call) (\<lambda>old.
               res_bind (ix_modify i (change_position x mcr (maint_time db) new_collateral new_debt) (call_orders db)) (\<lambda>ix.
               Inr (Some (i, Some (old, debt call)), db\<lparr>call_orders := ix\<rparr>)))))))"

text \<open>The margin calls of the asset are executed at once; a position that is still there must be collateralized well enough, or better than before.\<close>

definition position_acceptable :: "database \<Rightarrow> asset_bitasset_data_object \<Rightarrow> (price \<times> int) option \<Rightarrow> call_order_object \<Rightarrow> bool res" where
  "position_acceptable db bd old call =
     (let feed_ok = price_less (price_inv (call_price call)) (settlement_price (current_feed bd)) in
      if head_block_time db \<le> HARDFORK_CORE_583_TIME then Inr feed_ok
      else res_bind (collateralization call) (\<lambda>cr.
        Inr (maint_time db > HARDFORK_CORE_1270_TIME \<and> price_less (current_maintenance_collateralization bd) cr
             \<or> maint_time db \<le> HARDFORK_CORE_1270_TIME \<and> feed_ok
             \<or> (case old of None \<Rightarrow> False | Some (old_cr, old_debt) \<Rightarrow> debt call \<le> old_debt \<and> price_less old_cr cr))))"

definition check_updated_position ::
  "nat \<Rightarrow> nat \<Rightarrow> fc_lib \<Rightarrow> asset_id \<Rightarrow> obj_id \<Rightarrow> (price \<times> int) option \<Rightarrow> database \<Rightarrow> database res" where
  "check_updated_position n fuel lib debt_id i old db =
     res_bind (check_call_orders n fuel lib debt_id False False db) (\<lambda>(called, db1).
     if called then FC_ASSERT (ix_get i (call_orders db1) = None) ''call_order_update_unfilled_margin_call'' (Inr db1)
     else res_bind (get_call_order db1 i) (\<lambda>call.
          res_bind (get_asset db1 debt_id) (\<lambda>ao.
          res_bind (bitasset_data db1 ao) (\<lambda>bd.
          res_bind (position_acceptable db1 bd old call) (\<lambda>fine.
          FC_ASSERT fine ''call_order_update_unfilled_margin_call'' (Inr db1))))))"

definition call_order_update_apply :: "nat \<Rightarrow> nat \<Rightarrow> fc_lib \<Rightarrow> call_order_update_operation \<Rightarrow> database \<Rightarrow> database res" where
  "call_order_update_apply n fuel lib x db =
     res_bind (exchange_debt lib x db) (\<lambda>db1.
     res_bind (exchange_collateral lib x db1) (\<lambda>db2.
     res_bind (get_asset db2 (asset_id (delta_debt x))) (\<lambda>debt_asset.
     res_bind (bitasset_data db2 debt_asset) (\<lambda>bd.
     res_bind (update_position lib x (maintenance_collateral_ratio (current_feed bd)) db2) (\<lambda>(updated, db3).
     case updated of
       None \<Rightarrow> Inr db3
     | Some (i, old) \<Rightarrow>
         if is_prediction_market bd then Inr db3 else check_updated_position n fuel lib (asset_id (delta_debt x)) i old db3)))))"

subsection \<open>Collateral bids\<close>

definition find_bid :: "bid_collateral_operation \<Rightarrow> database \<Rightarrow> (obj_id \<times> collateral_bid_object) option" where
  "find_bid x db = ix_find (\<lambda>b. bid_debt_type b = asset_id (bc_debt_covered x) \<and> bidder b = bc_bidder x) (bids db)"

definition bid_collateral_evaluate :: "bid_collateral_operation \<Rightarrow> database \<Rightarrow> unit res" where
  "bid_collateral_evaluate x db =
     FC_ASSERT (head_block_time db > HARDFORK_CORE_216_TIME) ''Not yet!''
    (res_bind (find_account db (bc_bidder x)) (\<lambda>_.
     res_bind (get_asset db (asset_id (bc_debt_covered x))) (\<lambda>debt_asset.
     FC_ASSERT (is_market_issued debt_asset) ''Unable to cover as it is not a collateralized asset.''
    (res_bind (bitasset_data db debt_asset) (\<lambda>bd.
     FC_ASSERT (has_settlement bd) ''_bitasset_data->has_settlement()''
    (FC_ASSERT (asset_id (bc_additional_collateral x) = short_backing_asset (bd_options bd)) ''o.additional_collateral.asset_id''
    (FC_ASSERT (\<not> is_prediction_market bd) ''Cannot bid on a prediction market!''
    (res_bind (if amount (bc_additional_collateral x) > 0
               then res_bind (get_asset db (short_backing_asset (bd_options bd))) (\<lambda>_.
                    res_bind (asset_ge (get_balance db (bc_bidder x) (short_backing_asset (bd_options bd))) (bc_additional_collateral x)) (\<lambda>enough.
                    FC_ASSERT enough ''Cannot bid collateral when payer only has less'' (Inr ())))
               else Inr ()) (\<lambda>_.
     FC_ASSERT (find_bid x db \<noteq> None \<or> amount (bc_debt_covered x) > 0) ''Can't find bid to cancel?!'' (Inr ()))))))))))"

definition bid_collateral_apply :: "fc_lib \<Rightarrow> bid_collateral_operation \<Rightarrow> database \<Rightarrow> database res" where
  "bid_collateral_apply lib x db =
     res_bind (case find_bid x db of None \<Rightarrow> Inr db | Some (i, _) \<Rightarrow> cancel_bid lib i False db) (\<lambda>db1.
     if amount (bc_debt_covered x) = 0 then Inr db1
     else res_bind (asset_neg (fc_safe lib) (bc_additional_collateral x)) (\<lambda>neg.
          res_bind (adjust_balance lib (bc_bidder x) neg db1) (\<lambda>db2.
          res_bind (asset_div (bc_additional_collateral x) (bc_debt_covered x)) (\<lambda>p.
          insert_bid \<lparr>bidder = bc_bidder x, inv_swan_price = p\<rparr> db2))))"

subsection \<open>What the operations move\<close>

lemma asset_neg_move: "asset_neg sf x = Inr z \<Longrightarrow> safe_exact sf \<Longrightarrow> part z a = - part x a"
  by (auto simp: asset_neg_def part_def dest: safe_exactD)

text \<open>Taking an amount from one account and giving it to another moves nothing.\<close>

lemma pay_over_moves:
  assumes "asset_neg (fc_safe lib) x = Inr neg" "adjust_balance lib from neg db = Inr db1" "adjust_balance lib to x db1 = Inr db'"
    "safe_exact (fc_safe lib)"
  shows "moves (\<lambda>_. 0) db db'"
  using ledger.moves_trans [OF moves_adjust_balance [OF assms(2,4)] moves_adjust_balance [OF assms(3,4)]]
  by (rule ledger.moves_weaken) (simp add: asset_neg_move [OF assms(1,4)])

lemma transfer_apply_moves [moves_intros]: "transfer_apply lib x db = Inr db' \<Longrightarrow> safe_exact (fc_safe lib) \<Longrightarrow> moves (\<lambda>_. 0) db db'"
  unfolding transfer_apply_def by (elim res_bind_InrE) (rule pay_over_moves)

lemma override_transfer_apply_moves [moves_intros]:
  "override_transfer_apply lib x db = Inr db' \<Longrightarrow> safe_exact (fc_safe lib) \<Longrightarrow> moves (\<lambda>_. 0) db db'"
  unfolding override_transfer_apply_def by (elim res_bind_InrE) (rule pay_over_moves)

text \<open>Storing an amount that has been taken from an account.\<close>

lemma store_moves:
  assumes "asset_neg (fc_safe lib) x = Inr neg" "adjust_balance lib from neg db = Inr db1" "moves (part x) db1 db'" "safe_exact (fc_safe lib)"
  shows "moves (\<lambda>_. 0) db db'"
  using ledger.moves_trans [OF moves_adjust_balance [OF assms(2,4)] assms(3)]
  by (rule ledger.moves_weaken) (simp add: asset_neg_move [OF assms(1,4)])

lemma moves_create:
  "moves (part (vb_balance v)) db (db\<lparr>vestings := ix_create v (vestings db)\<rparr>)"
  "moves (part (fs_balance s)) db (db\<lparr>settlements := ix_create s (settlements db)\<rparr>)"
  "moves (part (base (inv_swan_price b))) db (db\<lparr>bids := ix_create b (bids db)\<rparr>)"
  "moves (part (mk_asset (htlc_amount h) (htlc_asset_id h))) db (db\<lparr>htlcs := ix_create h (htlcs db)\<rparr>)"
  "moves (part (get_collateral c)) db (db\<lparr>call_orders := ix_create c (call_orders db)\<rparr>)"
  "0 \<le> deferred_fee lo \<Longrightarrow> 0 \<le> amount (deferred_paid_fee lo) \<Longrightarrow>
     moves (\<lambda>a. lo_holds a lo) db (db\<lparr>limit_orders := ix_create lo (limit_orders db)\<rparr>)"
  by (auto intro!: moves_vestings moves_settlements moves_bids moves_htlcs moves_call_orders moves_limit_orders ix_ok_create lo_index_ok_create
      simp: table_simps)

lemma vesting_balance_create_apply_moves [moves_intros]:
  assumes "vesting_balance_create_apply lib x db = Inr db'" "safe_exact (fc_safe lib)"
  shows "moves (\<lambda>_. 0) db db'"
proof -
  let ?v = "\<lparr>vb_owner = vc_owner x, vb_balance = vc_amount x,
       vb_policy = init_policy_visitor (amount (vc_amount x)) (head_block_time db) (vc_policy x), vb_balance_type = Unspecified\<rparr>"
  from assms(1) obtain neg db1 where s: "asset_neg (fc_safe lib) (vc_amount x) = Inr neg" "adjust_balance lib (vc_creator x) neg db = Inr db1"
    and db': "db' = db1\<lparr>vestings := ix_create ?v (vestings db1)\<rparr>"
    by (auto simp: vesting_balance_create_apply_def)
  show ?thesis using store_moves [OF s _ assms(2)] moves_create(1) [of ?v db1] by (simp add: db')
qed

lemma vbo_withdraw_move:
  assumes "vbo_withdraw lib vbo now x = Inr vbo'" "safe_exact (fc_safe lib)"
  shows "part (vb_balance vbo') a = part (vb_balance vbo) a - part x a"
  using assms asset_sub_move by (auto simp: vbo_withdraw_def)

lemma vesting_balance_withdraw_apply_moves [moves_intros]:
  assumes "vesting_balance_withdraw_apply lib x db = Inr db'" "safe_exact (fc_safe lib)"
  shows "moves (\<lambda>_. 0) db db'"
proof -
  from assms(1) obtain ix where ix: "ix_modify (vw_vesting_balance x) (\<lambda>vbo. vbo_withdraw lib vbo (head_block_time db) (vw_amount x)) (vestings db) = Inr ix"
    and a: "adjust_balance lib (vw_owner x) (vw_amount x) (db\<lparr>vestings := ix\<rparr>) = Inr db'"
    by (auto simp: vesting_balance_withdraw_apply_def)
  from ix obtain v v' where v: "vbo_withdraw lib v (head_block_time db) (vw_amount x) = Inr v'"
    and sum: "\<And>g. ix_sum g ix = ix_sum g (vestings db) - g v + g v'" by (elim ix_modifyE) blast
  have "moves (\<lambda>a. - part (vw_amount x) a) db (db\<lparr>vestings := ix\<rparr>)"
    by (rule moves_vestings) (auto simp: sum vbo_withdraw_move [OF v assms(2)] intro: ix_ok_modify [OF _ ix])
  from ledger.moves_trans [OF this moves_adjust_balance [OF a assms(2)]] show ?thesis by simp
qed

lemma limit_order_cancel_apply_moves [moves_intros]:
  assumes "limit_order_cancel_apply n fuel lib x db = Inr db'" "safe_exact (fc_safe lib)"
  shows "moves (\<lambda>_. 0) db db'"
proof -
  note m = check_call_orders_moves [OF _ assms(2)] cancel_limit_order_moves [OF _ assms(2)]
  show ?thesis using assms(1) unfolding limit_order_cancel_apply_def
    by (auto simp del: res_bind_Inr elim!: res_bind_InrE split: if_splits prod.splits dest!: m) (blast intro: moves_zero_trans)
qed

lemma same_market_time: "same_market db db' \<Longrightarrow> head_block_time db' = head_block_time db"
  by (simp add: same_market_def head_block_time_def)

lemma same_market_limit_order_fee:
  "limit_order_convert_fee lib skip st db = Inr db1 \<Longrightarrow> same_market db db1"
  "limit_order_pay_fee lib skip st db = Inr db1 \<Longrightarrow> same_market db db1"
  by (auto simp: limit_order_convert_fee_def limit_order_pay_fee_def convert_fee_def pay_fee_def split: if_splits intro: frame_intros)

lemma core_in_orders_moves:
  assumes "modify_statistics acc (add_core_in_orders lib x) db = Inr db'"
  shows "moves (\<lambda>_. 0) db db'"
  using assms by (elim modify_statisticsE) (auto simp: add_core_in_orders_def elim!: ledger.moves_weaken)

lemma limit_order_fee_routed:
  assumes "limit_order_convert_fee lib False st db = Inr db1" "limit_order_pay_fee lib False st db1 = Inr db2" "prepared st" "safe_exact (fc_safe lib)"
  shows "moves (\<lambda>a. part (fee_from_account st) a - (core_part (fst (deferred_fees st db2)) a + part (snd (deferred_fees st db2)) a)) db db2"
proof -
  note time = same_market_time [OF same_market_limit_order_fee(1) [OF assms(1)]] same_market_time [OF same_market_limit_order_fee(2) [OF assms(2)]]
  consider "head_block_time db \<le> HARDFORK_445_TIME" | "HARDFORK_445_TIME < head_block_time db" "head_block_time db \<le> HARDFORK_CORE_604_TIME"
    | "HARDFORK_CORE_604_TIME < head_block_time db" by linarith
  then show ?thesis
  proof cases
    case 1
    then have le: "head_block_time db \<le> HARDFORK_CORE_604_TIME" by (simp add: hardfork_defs)
    have "deferred_fees st db2 = (0, mk_asset 0 core_asset)" using 1 by (simp add: deferred_fees_def time)
    moreover have "convert_fee lib False st db = Inr db1" "pay_fee lib False st db1 = Inr db2"
      using assms(1,2) 1 le unfolding limit_order_convert_fee_def limit_order_pay_fee_def time by simp_all
    note default_fee_routed [OF this assms(3,4)]
    ultimately show ?thesis by simp
  next
    case 2
    then have "deferred_fees st db2 = (core_fee_paid st, mk_asset 0 core_asset)" by (simp add: deferred_fees_def time)
    moreover have c: "convert_fee lib False st db = Inr db1" "db2 = db1"
      using assms(1,2) 2 unfolding limit_order_convert_fee_def limit_order_pay_fee_def time by simp_all
    note convert_fee_moves [OF c(1) assms(3,4)]
    ultimately show ?thesis by (simp add: c(2))
  next
    case 3
    then have late: "\<not> head_block_time db \<le> HARDFORK_445_TIME" "\<not> head_block_time db \<le> HARDFORK_CORE_604_TIME" by (simp_all add: hardfork_defs)
    then have db2: "db2 = db1" using assms(2) by (simp add: limit_order_pay_fee_def time)
    show ?thesis
    proof (cases "fee_asset st = core_asset")
      case True
      then have "deferred_fees st db2 = (core_fee_paid st, mk_asset 0 core_asset)" using late by (simp add: deferred_fees_def time)
      moreover have "db1 = db" "part (fee_from_account st) = core_part (core_fee_paid st)"
        using assms(1,3) True late by (auto simp: limit_order_convert_fee_def prepared_def part_def fun_eq_iff)
      ultimately show ?thesis by (simp add: db2)
    next
      case False
      then have "deferred_fees st db2 = (core_fee_paid st, fee_from_account st)" using late by (simp add: deferred_fees_def time)
      moreover have "modify_dyn_data (fee_asset st) (add_fee_pool lib (- core_fee_paid st)) db = Inr db1"
        using assms(1) late False by (simp add: limit_order_convert_fee_def)
      note moves_dyn_data(4) [OF assms(4) this]
      ultimately show ?thesis by (simp add: db2) (auto elim: ledger.moves_weaken)
    qed
  qed
qed

lemma insert_limit_order_moves:
  assumes "insert_limit_order lib x st db = Inr db'" "prepared st" "safe_exact (fc_safe lib)"
  shows "moves (\<lambda>a. core_part (fst (deferred_fees st db)) a + part (snd (deferred_fees st db)) a) db db'"
proof -
  let ?lo = "\<lambda>p. \<lparr>lo_expiration = lc_expiration x, seller = lc_seller x, for_sale = amount (amount_to_sell x),
       sell_price = p, deferred_fee = fst (deferred_fees st db), deferred_paid_fee = snd (deferred_fees st db)\<rparr>"
  from assms(1) obtain db1 neg db2 p where s: "(if asset_id (amount_to_sell x) = core_asset
               then modify_statistics (lc_seller x) (add_core_in_orders lib (amount (amount_to_sell x))) db else Inr db) = Inr db1"
    "asset_neg (fc_safe lib) (amount_to_sell x) = Inr neg" "adjust_balance lib (lc_seller x) neg db1 = Inr db2"
    "asset_div (amount_to_sell x) (min_to_receive x) = Inr p"
    and db': "db' = db2\<lparr>limit_orders := ix_create (?lo p) (limit_orders db2)\<rparr>"
    unfolding insert_limit_order_def by (elim res_bind_InrE) (rule that, assumption+, rule Inr_inject [symmetric])
  have m1: "moves (\<lambda>_. 0) db db1" using s(1) core_in_orders_moves by (auto split: if_splits)
  have nn: "0 \<le> deferred_fee (?lo p)" "0 \<le> amount (deferred_paid_fee (?lo p))"
    using assms(2) by (auto simp: deferred_fees_def prepared_def)
  have "part (amount_for_sale (?lo p)) a = part (amount_to_sell x) a" for a
    using s(4) by (auto simp: amount_for_sale_def asset_div_def)
  with ledger.moves_trans [OF ledger.moves_trans [OF m1 moves_adjust_balance [OF s(3) assms(3)]] moves_create(6) [OF nn, of db2]]
  show ?thesis unfolding db' by (elim ledger.moves_weaken) (simp add: lo_holds_def asset_neg_move [OF s(2) assms(3)])
qed

lemma limit_order_create_apply_moves:
  assumes "limit_order_create_apply n fuel lib x st db = Inr db'" "prepared st" "safe_exact (fc_safe lib)"
  shows "moves (\<lambda>a. core_part (fst (deferred_fees st db)) a + part (snd (deferred_fees st db)) a) db db'"
proof -
  from assms(1) obtain db1 b where s: "insert_limit_order lib x st db = Inr db1"
    "(if maint_time db1 \<le> HARDFORK_CORE_625_TIME
      then apply_order_before_hardfork_625 n fuel lib (ix_next (limit_orders db)) True db1
      else apply_order n fuel lib (ix_next (limit_orders db)) db1) = Inr (b, db')"
    by (auto simp: limit_order_create_apply_def)
  have "moves (\<lambda>_. 0) db1 db'"
    using s(2) apply_order_moves [OF _ assms(3)] apply_order_before_hardfork_625_moves [OF _ assms(3)] by (auto split: if_splits)
  from ledger.moves_trans [OF insert_limit_order_moves [OF s(1) assms(2,3)] this] show ?thesis by (rule ledger.moves_weaken) simp
qed

lemma exchange_debt_moves:
  assumes "exchange_debt lib x db = Inr db'" "safe_exact (fc_safe lib)"
  shows "moves (\<lambda>_. 0) db db'" "same_market db db'"
proof -
  have "db' = db \<or> (\<exists>db1. adjust_balance lib (funding_account x) (delta_debt x) db = Inr db1 \<and>
      modify_dyn_data (asset_id (delta_debt x)) (add_current_supply lib (amount (delta_debt x))) db1 = Inr db')"
    using assms(1) by (auto simp: exchange_debt_def split: if_splits)
  then show "moves (\<lambda>_. 0) db db'"
    by (auto dest!: ledger.moves_trans [OF moves_adjust_balance [OF _ assms(2)] moves_dyn_data(2) [OF assms(2)]])
  show "same_market db db'" using assms(1) unfolding exchange_debt_def
    by (auto split: if_splits intro: frame_intros same_market_trans)
qed

lemma exchange_collateral_moves:
  assumes "exchange_collateral lib x db = Inr db'" "safe_exact (fc_safe lib)"
  shows "moves (\<lambda>a. - part (delta_collateral x) a) db db'" "same_market db db'"
proof -
  have "amount (delta_collateral x) = 0 \<and> db' = db \<or> (\<exists>neg db1. asset_neg (fc_safe lib) (delta_collateral x) = Inr neg
      \<and> adjust_balance lib (funding_account x) neg db = Inr db1
      \<and> (db' = db1 \<or> modify_statistics (funding_account x) (add_core_in_orders lib (amount (delta_collateral x))) db1 = Inr db'))"
    using assms(1) by (auto simp: exchange_collateral_def split: if_splits)
  then show "moves (\<lambda>a. - part (delta_collateral x) a) db db'"
  proof (elim disjE exE conjE)
    assume "amount (delta_collateral x) = 0" "db' = db"
    then have "part (delta_collateral x) = (\<lambda>_. 0)" by (simp add: part_def fun_eq_iff)
    then show ?thesis using \<open>db' = db\<close> by simp
  next
    fix neg db1
    assume n: "asset_neg (fc_safe lib) (delta_collateral x) = Inr neg" and a: "adjust_balance lib (funding_account x) neg db = Inr db1"
    have m: "moves (\<lambda>a. - part (delta_collateral x) a) db db1"
      using moves_adjust_balance [OF a assms(2)] by (rule ledger.moves_weaken) (rule asset_neg_move [OF n assms(2)])
    { assume "db' = db1" then show ?thesis using m by simp }
    assume "modify_statistics (funding_account x) (add_core_in_orders lib (amount (delta_collateral x))) db1 = Inr db'"
    from ledger.moves_trans [OF m core_in_orders_moves [OF this]] show ?thesis by simp
  qed
  show "same_market db db'" using assms(1) unfolding exchange_collateral_def
    by (auto split: if_splits intro: frame_intros same_market_trans)
qed

text \<open>The collateral of an existing position is in the asset of the operation, the backing asset of the debt.\<close>

definition position_matches :: "call_order_update_operation \<Rightarrow> database \<Rightarrow> bool" where
  "position_matches x db \<longleftrightarrow> (\<forall>i co. find_position x db = Some (i, co) \<longrightarrow> collateral_type co = asset_id (delta_collateral x))"

lemma change_position_move:
  assumes "change_position x mcr maint c d co = Inr co'"
  shows "collateral co' = c" "collateral_type co' = collateral_type co"
  using assms by (auto simp: change_position_def Let_def call_price_of_def asset_div_def collateral_type_def get_collateral_def get_debt_def split: if_splits)

lemma update_position_moves:
  assumes "update_position lib x mcr db = Inr (r, db')" "position_matches x db" "safe_exact (fc_safe lib)" "db_ok db"
  shows "moves (part (delta_collateral x)) db db'"
proof (cases "find_position x db")
  case None
  with assms(1) obtain cp where db': "db' = db\<lparr>call_orders := ix_create \<lparr>borrower = funding_account x, collateral = amount (delta_collateral x),
      debt = amount (delta_debt x), call_price = cp, target_collateral_ratio = cu_target_collateral_ratio x\<rparr> (call_orders db)\<rparr>"
    and cp: "asset_id (base cp) = asset_id (delta_collateral x)"
    by (auto simp: update_position_def open_position_def call_price_of_def asset_div_def Let_def split: if_splits)
  show ?thesis unfolding db' using moves_create(5) by (rule ledger.moves_weaken) (simp add: get_collateral_def collateral_type_def cp)
next
  case (Some p)
  obtain i co where p: "p = (i, co)" by (cases p)
  have ok: "ix_ok (call_orders db)" using assms(4) by (simp add: db_ok_def)
  have co: "ix_get i (call_orders db) = Some co" using ix_find_Some [OF _ ok] Some by (simp add: find_position_def p)
  have ct: "collateral_type co = asset_id (delta_collateral x)" using assms(2) Some p by (simp add: position_matches_def)
  from assms(1) Some obtain nc nd where nc: "fc_safe lib (collateral co + amount (delta_collateral x)) = Inr nc"
    and r: "nc = 0 \<and> db' = db\<lparr>call_orders := ix_remove i (call_orders db)\<rparr> \<or>
      (\<exists>ix. ix_modify i (change_position x mcr (maint_time db) nc nd) (call_orders db) = Inr ix \<and> db' = db\<lparr>call_orders := ix\<rparr>)"
    by (auto simp: update_position_def p split: if_splits)
  have nc: "nc = collateral co + amount (delta_collateral x)" by (rule safe_exactD [OF assms(3) nc])
  from r show ?thesis
  proof (elim disjE exE conjE)
    assume "nc = 0" and db': "db' = db\<lparr>call_orders := ix_remove i (call_orders db)\<rparr>"
    then have "part (delta_collateral x) a = - part (get_collateral co) a" for a using nc by (auto simp: get_collateral_def ct part_def)
    then show ?thesis unfolding db' by (intro moves_call_orders) (auto simp: table_simps co intro: ix_ok_remove)
  next
    fix ix assume ix: "ix_modify i (change_position x mcr (maint_time db) nc nd) (call_orders db) = Inr ix" and db': "db' = db\<lparr>call_orders := ix\<rparr>"
    from ix co obtain co' where ch: "change_position x mcr (maint_time db) nc nd co = Inr co'"
      and sum: "\<And>g. ix_sum g ix = ix_sum g (call_orders db) - g co + g co'" by (elim ix_modifyE) auto
    have "part (get_collateral co') a = part (get_collateral co) a + part (delta_collateral x) a" for a
      using change_position_move [OF ch] by (simp add: get_collateral_def ct nc)
    then show ?thesis unfolding db' by (intro moves_call_orders) (auto simp: sum intro: ix_ok_modify [OF _ ix])
  qed
qed

lemma check_updated_position_moves:
  assumes "check_updated_position n fuel lib d i old db = Inr db'" "safe_exact (fc_safe lib)"
  shows "moves (\<lambda>_. 0) db db'"
proof -
  from assms(1) obtain c where "check_call_orders n fuel lib d False False db = Inr (c, db')"
    by (auto simp: check_updated_position_def split: if_splits)
  then show ?thesis by (rule check_call_orders_moves [OF _ assms(2)])
qed

lemma call_order_update_apply_moves [moves_intros]:
  assumes "call_order_update_apply n fuel lib x db = Inr db'" "position_matches x db" "safe_exact (fc_safe lib)"
  shows "moves (\<lambda>_. 0) db db'"
proof (rule moves_if_ok)
  assume ok: "db_ok db"
  from assms(1) obtain db1 db2 db3 mcr u where s: "exchange_debt lib x db = Inr db1" "exchange_collateral lib x db1 = Inr db2"
    "update_position lib x mcr db2 = Inr (u, db3)"
    and r: "db' = db3 \<or> (\<exists>d i old. check_updated_position n fuel lib d i old db3 = Inr db')"
    unfolding call_order_update_apply_def by (elim res_bind_InrE) (simp split: option.splits prod.splits if_splits, blast+)
  have pos: "position_matches x db2"
    using assms(2) same_market_trans [OF exchange_debt_moves(2) [OF s(1) assms(3)] exchange_collateral_moves(2) [OF s(2) assms(3)]]
    by (simp add: position_matches_def find_position_def same_market_def)
  note m = ledger.moves_trans [OF exchange_debt_moves(1) [OF s(1) assms(3)] exchange_collateral_moves(1) [OF s(2) assms(3)]]
  have "db_ok db2" using m ok by (simp add: moves_def)
  from ledger.moves_trans [OF m update_position_moves [OF s(3) pos assms(3) this]] have "moves (\<lambda>_. 0) db db3" by simp
  with r show "moves (\<lambda>_. 0) db db'" using check_updated_position_moves [OF _ assms(3)] moves_zero_trans by blast
qed

lemma bid_collateral_apply_moves [moves_intros]:
  assumes "bid_collateral_apply lib x db = Inr db'" "safe_exact (fc_safe lib)"
  shows "moves (\<lambda>_. 0) db db'"
proof -
  from assms(1) obtain db1 where c: "(case find_bid x db of None \<Rightarrow> Inr db | Some (i, _) \<Rightarrow> cancel_bid lib i False db) = Inr db1"
    and r: "(if amount (bc_debt_covered x) = 0 then Inr db1
     else res_bind (asset_neg (fc_safe lib) (bc_additional_collateral x)) (\<lambda>neg.
          res_bind (adjust_balance lib (bc_bidder x) neg db1) (\<lambda>db2.
          res_bind (asset_div (bc_additional_collateral x) (bc_debt_covered x)) (\<lambda>p.
          insert_bid \<lparr>bidder = bc_bidder x, inv_swan_price = p\<rparr> db2)))) = Inr db'"
    unfolding bid_collateral_apply_def by (elim res_bind_InrE) (rule that)
  have "moves (\<lambda>_. 0) db db1" using c cancel_bid_moves [OF _ assms(2)] by (auto split: option.splits)
  moreover have "moves (\<lambda>_. 0) db1 db'"
  proof (cases "amount (bc_debt_covered x) = 0")
    case False
    let ?b = "\<lparr>bidder = bc_bidder x, inv_swan_price = mk_price (bc_additional_collateral x) (bc_debt_covered x)\<rparr>"
    from r False obtain neg db2 where s: "asset_neg (fc_safe lib) (bc_additional_collateral x) = Inr neg"
      "adjust_balance lib (bc_bidder x) neg db1 = Inr db2" and i: "insert_bid ?b db2 = Inr db'"
      by (auto simp: asset_div_def)
    have "moves (part (bc_additional_collateral x)) db2 db'"
      using i moves_create(3) [of ?b db2] by (auto simp: insert_bid_def)
    with s show ?thesis by (rule store_moves [OF _ _ _ assms(2)])
  qed (use r in simp)
  ultimately show ?thesis by (rule moves_zero_trans)
qed

subsection \<open>The contract holds for each of them\<close>

interpretation transfer: plain_evaluator lib "transfer_evaluate x" "transfer_apply lib x" "\<lambda>_. True" "\<lambda>_. True" for lib x
  by unfold_locales (auto intro: moves_intros)

interpretation override_transfer: plain_evaluator lib "override_transfer_evaluate x" "override_transfer_apply lib x" "\<lambda>_. True" "\<lambda>_. True" for lib x
  by unfold_locales (auto intro: moves_intros)

interpretation vesting_balance_create: plain_evaluator lib "vesting_balance_create_evaluate x" "vesting_balance_create_apply lib x" "\<lambda>_. True" "\<lambda>_. True" for lib x
  by unfold_locales (auto intro: moves_intros)

interpretation vesting_balance_withdraw: plain_evaluator lib "vesting_balance_withdraw_evaluate lib x" "vesting_balance_withdraw_apply lib x" "\<lambda>_. True" "\<lambda>_. True" for lib x
  by unfold_locales (auto intro: moves_intros)

interpretation limit_order_create: fee_paying_evaluator lib "limit_order_create_evaluate x" "limit_order_convert_fee lib False" "limit_order_pay_fee lib False"
  "limit_order_create_apply n fuel lib x" "\<lambda>st db a. core_part (fst (deferred_fees st db)) a + part (snd (deferred_fees st db)) a" "\<lambda>_. True" "\<lambda>_. True"
  for lib x n fuel
  by unfold_locales (auto intro: limit_order_fee_routed limit_order_create_apply_moves)

interpretation limit_order_cancel: plain_evaluator lib "limit_order_cancel_evaluate x" "limit_order_cancel_apply n fuel lib x" "\<lambda>_. True" "\<lambda>_. True" for lib x n fuel
  by unfold_locales (auto intro: moves_intros)

interpretation call_order_update: plain_evaluator lib "call_order_update_evaluate lib x" "call_order_update_apply n fuel lib x" "position_matches x" "position_matches x" for lib x n fuel
  by unfold_locales (auto intro: moves_intros simp: position_matches_def find_position_def same_market_def)

interpretation bid_collateral: plain_evaluator lib "bid_collateral_evaluate x" "bid_collateral_apply lib x" "\<lambda>_. True" "\<lambda>_. True" for lib x
  by unfold_locales (auto intro: moves_intros)

end
