(* ===== verification/Price_Feeds.thy ===== *)
theory Price_Feeds
  imports Sample_Chain "HOL-Library.Multiset"
begin

text \<open>
  The price feed of a market-issued asset (\<open>asset_object.cpp\<close>, \<open>asset_object.hpp\<close>): which published feeds are alive, their median and when it
  expires, and how much of the asset may be settled by force.

  \<open>nth_element\<close> models \<open>std::nth_element\<close> by a stable insertion sort, one of the arrangements the standard allows. What the median
  theorem needs of it is stated as the locale \<open>nth_selection\<close>, which every allowed arrangement satisfies.
\<close>

subsection \<open>Selection\<close>

fun insort_by :: "('f \<Rightarrow> 'f \<Rightarrow> bool) \<Rightarrow> 'f \<Rightarrow> 'f list \<Rightarrow> 'f list" where
  "insort_by lt x [] = [x]"
| "insort_by lt x (y # ys) = (if lt y x then y # insort_by lt x ys else x # y # ys)"

definition nth_element :: "('f \<Rightarrow> 'f \<Rightarrow> bool) \<Rightarrow> nat \<Rightarrow> 'f list \<Rightarrow> 'f list" where
  "nth_element lt n xs = foldr (insort_by lt) xs []"

text \<open>The elements of \<open>xs\<close> are ordered by \<open>lt\<close>, up to ties.\<close>

abbreviation ordered_by :: "('f \<Rightarrow> 'f \<Rightarrow> bool) \<Rightarrow> 'f list \<Rightarrow> bool" where
  "ordered_by lt xs \<equiv> strict_weak_order (\<lambda>f. f \<in> set xs) lt (\<lambda>f g. \<not> lt f g \<and> \<not> lt g f)"

locale nth_selection =
  fixes select :: "('f \<Rightarrow> 'f \<Rightarrow> bool) \<Rightarrow> nat \<Rightarrow> 'f list \<Rightarrow> 'f list"
  assumes permutes: "mset (select lt n xs) = mset xs"
    and lower_part: "ordered_by lt xs \<Longrightarrow> n < length xs \<Longrightarrow> i < n \<Longrightarrow> \<not> lt (select lt n xs ! n) (select lt n xs ! i)"
    and upper_part: "ordered_by lt xs \<Longrightarrow> n < length xs \<Longrightarrow> n < i \<Longrightarrow> i < length xs \<Longrightarrow> \<not> lt (select lt n xs ! i) (select lt n xs ! n)"
begin

lemma select_length [simp]: "length (select lt n xs) = length xs"
  by (metis permutes size_mset)

lemma select_set [simp]: "set (select lt n xs) = set xs"
  by (metis permutes set_mset_mset)

lemma select_count: "length (filter P (select lt n xs)) = length (filter P xs)"
  by (metis mset_filter permutes size_mset)

lemma select_nth_mem: "i < length xs \<Longrightarrow> select lt n xs ! i \<in> set xs"
  by (metis nth_mem select_length select_set)

text \<open>The median has every property that more than half of the elements have, if the property passes on to greater elements, or to smaller ones.\<close>

lemma median_above:
  assumes "ordered_by lt xs" "length xs < 2 * length (filter P xs)"
    and up: "\<And>f g. f \<in> set xs \<Longrightarrow> g \<in> set xs \<Longrightarrow> P f \<Longrightarrow> \<not> lt g f \<Longrightarrow> P g"
  shows "P (select lt (length xs div 2) xs ! (length xs div 2))"
proof (rule ccontr)
  let ?n = "length xs div 2" let ?ys = "select lt ?n xs"
  assume no: "\<not> P (?ys ! ?n)"
  have n: "?n < length xs" using assms(2) by (cases xs) auto
  have "\<not> P (?ys ! i)" if "i \<le> ?n" for i
  proof
    assume p: "P (?ys ! i)"
    have "\<not> lt (?ys ! ?n) (?ys ! i)"
      using lower_part [OF assms(1) n, of i] that no p by (cases "i = ?n") auto
    with up [OF _ _ p] no select_nth_mem n that show False by (meson le_less_trans)
  qed
  then have "{i. i < length ?ys \<and> P (?ys ! i)} \<subseteq> {?n + 1..<length xs}" by (auto simp: Suc_le_eq not_le [symmetric])
  then have "length (filter P ?ys) \<le> length xs - (?n + 1)"
    unfolding length_filter_conv_card by (metis card_atLeastLessThan card_mono finite_atLeastLessThan)
  with assms(2) n show False by (simp add: select_count)
qed

lemma median_below:
  assumes "ordered_by lt xs" "length xs < 2 * length (filter P xs)"
    and down: "\<And>f g. f \<in> set xs \<Longrightarrow> g \<in> set xs \<Longrightarrow> P f \<Longrightarrow> \<not> lt f g \<Longrightarrow> P g"
  shows "P (select lt (length xs div 2) xs ! (length xs div 2))"
proof (rule ccontr)
  let ?n = "length xs div 2" let ?ys = "select lt ?n xs"
  assume no: "\<not> P (?ys ! ?n)"
  have n: "?n < length xs" using assms(2) by (cases xs) auto
  have "\<not> P (?ys ! i)" if "?n \<le> i" "i < length xs" for i
  proof
    assume p: "P (?ys ! i)"
    have "\<not> lt (?ys ! i) (?ys ! ?n)"
      using upper_part [OF assms(1) n, of i] that no p by (cases "i = ?n") auto
    with down [OF _ _ p] no select_nth_mem n that show False by blast
  qed
  then have "{i. i < length ?ys \<and> P (?ys ! i)} \<subseteq> {..<?n}" by (auto simp: not_le [symmetric])
  then have "length (filter P ?ys) \<le> ?n"
    unfolding length_filter_conv_card by (metis card_lessThan card_mono finite_lessThan)
  with assms(2) show False by (simp add: select_count)
qed

end

lemma mset_insort_by [simp]: "mset (insort_by lt x ys) = add_mset x (mset ys)"
  by (induction ys) auto

lemma set_insort_by [simp]: "set (insort_by lt x ys) = insert x (set ys)"
  by (induction ys) auto

lemma mset_nth_element [simp]: "mset (nth_element lt n xs) = mset xs"
  unfolding nth_element_def by (induction xs) auto

lemma insort_by_sorted:
  assumes "strict_weak_order ok lt eqv" "ok x" "\<forall>y\<in>set ys. ok y" "sorted_wrt (\<lambda>a b. \<not> lt b a) ys"
  shows "sorted_wrt (\<lambda>a b. \<not> lt b a) (insort_by lt x ys)"
  using assms(3,4)
proof (induction ys)
  case (Cons y ys)
  show ?case
  proof (cases "lt y x")
    case True
    then have "\<not> lt x y" using strict_weak_order.asym [OF assms(1)] Cons.prems(1) assms(2) by auto
    with True Cons show ?thesis by auto
  next
    case False
    have "\<not> lt z x" if "z \<in> set ys" for z
      using strict_weak_order.le_trans [OF assms(1), of x y z] False that Cons.prems assms(2) by auto
    with False Cons.prems show ?thesis by auto
  qed
qed simp

lemma nth_element_sorted:
  assumes "ordered_by lt xs"
  shows "sorted_wrt (\<lambda>a b. \<not> lt b a) (nth_element lt n xs)"
proof -
  have "set zs \<subseteq> set xs \<Longrightarrow> set (foldr (insort_by lt) zs []) = set zs \<and> sorted_wrt (\<lambda>a b. \<not> lt b a) (foldr (insort_by lt) zs [])" for zs
    by (induction zs) (auto intro!: insort_by_sorted [OF assms])
  then show ?thesis unfolding nth_element_def by blast
qed

interpretation std_nth: nth_selection nth_element
proof
  fix lt n i and xs :: "'f list"
  assume o: "ordered_by lt xs" and n: "n < length xs"
  have len: "length (nth_element lt n xs) = length xs" by (metis mset_nth_element size_mset)
  note s = nth_element_sorted [OF o, of n]
  show "\<not> lt (nth_element lt n xs ! n) (nth_element lt n xs ! i)" if "i < n"
    using sorted_wrt_nth_less [OF s that] n len by simp
  show "\<not> lt (nth_element lt n xs ! i) (nth_element lt n xs ! n)" if "n < i" "i < length xs"
    using sorted_wrt_nth_less [OF s that(1)] that(2) len by simp
qed simp

subsection \<open>The median feed\<close>

definition median_feed :: "price_feed list \<Rightarrow> price_feed" where
  "median_feed feeds0 =
     (let n = length feeds0 div 2;
          feeds1 = nth_element (\<lambda>a b. price_less (settlement_price a) (settlement_price b)) n feeds0;
          feeds2 = nth_element (\<lambda>a b. maintenance_collateral_ratio a < maintenance_collateral_ratio b) n feeds1;
          feeds3 = nth_element (\<lambda>a b. maximum_short_squeeze_ratio a < maximum_short_squeeze_ratio b) n feeds2;
          feeds4 = nth_element (\<lambda>a b. price_less (price_feed.core_exchange_rate a) (price_feed.core_exchange_rate b)) n feeds3 in
      \<lparr>settlement_price = settlement_price (feeds1 ! n), core_exchange_rate = price_feed.core_exchange_rate (feeds4 ! n),
       maintenance_collateral_ratio = maintenance_collateral_ratio (feeds2 ! n),
       maximum_short_squeeze_ratio = maximum_short_squeeze_ratio (feeds3 ! n)\<rparr>)"

definition alive :: "time_sec \<Rightarrow> asset_bitasset_data_object \<Rightarrow> (account_id \<times> (time_sec \<times> price_feed)) list" where
  "alive now bd = filter (\<lambda>f. int now - int (fst (snd f)) < int (feed_lifetime_sec (bd_options bd)) \<and> fst (snd f) \<noteq> 0) (feeds bd)"

definition alive_feeds :: "time_sec \<Rightarrow> asset_bitasset_data_object \<Rightarrow> price_feed list" where
  "alive_feeds now bd = map (\<lambda>f. snd (snd f)) (alive now bd)"

definition publication_time :: "time_sec \<Rightarrow> asset_bitasset_data_object \<Rightarrow> time_sec" where
  "publication_time now bd = foldl min now (map (\<lambda>f. fst (snd f)) (alive now bd))"

text \<open>Taking over a feed: the flag for the core exchange rate, and after core-1270 the cached maintenance collateralization.\<close>

definition set_current_feed :: "time_sec \<Rightarrow> price_feed \<Rightarrow> asset_bitasset_data_object \<Rightarrow> asset_bitasset_data_object res" where
  "set_current_feed maint f bd =
     (let bd1 = bd\<lparr>feed_cer_updated := (\<not> price_eq (price_feed.core_exchange_rate (current_feed bd)) (price_feed.core_exchange_rate f) \<or> feed_cer_updated bd),
                   current_feed := f\<rparr> in
      if maint > HARDFORK_CORE_1270_TIME
      then res_bind (maintenance_collateralization f) (\<lambda>mc. Inr (bd1\<lparr>current_maintenance_collateralization := mc\<rparr>))
      else Inr bd1)"

text \<open>\<open>minimum_feeds\<close> is at least one (\<open>bitasset_options::validate\<close>); without any feed the code would take the median of an empty vector.\<close>

definition update_median_feeds :: "time_sec \<Rightarrow> time_sec \<Rightarrow> asset_bitasset_data_object \<Rightarrow> asset_bitasset_data_object res" where
  "update_median_feeds now maint bd =
     (let current_feeds = alive_feeds now bd;
          bd1 = bd\<lparr>current_feed_publication_time := publication_time now bd\<rparr> in
      if length current_feeds < minimum_feeds (bd_options bd)
      then Inr (bd1\<lparr>feed_cer_updated := False, current_feed_publication_time := now, current_feed := null_feed,
                    current_maintenance_collateralization :=
                      (if maint > HARDFORK_CORE_1270_TIME then null_price else current_maintenance_collateralization bd)\<rparr>)
      else if current_feeds = [] then Inl (Throw_exn ''median of no feeds'')
      else if length current_feeds = 1 then set_current_feed maint (hd current_feeds) bd1
      else set_current_feed maint (median_feed current_feeds) bd1)"

definition price_feed_eq :: "price_feed \<Rightarrow> price_feed \<Rightarrow> bool" where
  "price_feed_eq a b \<longleftrightarrow> price_eq (settlement_price a) (settlement_price b)
     \<and> maintenance_collateral_ratio a = maintenance_collateral_ratio b \<and> maximum_short_squeeze_ratio a = maximum_short_squeeze_ratio b"

definition feed_expiration_time :: "asset_bitasset_data_object \<Rightarrow> time_sec" where
  "feed_expiration_time bd =
     (if 2 ^ 32 - 1 - current_feed_publication_time bd \<le> feed_lifetime_sec (bd_options bd) then time_maximum
      else current_feed_publication_time bd + feed_lifetime_sec (bd_options bd))"

definition feed_is_expired_before_hardfork_615 :: "asset_bitasset_data_object \<Rightarrow> time_sec \<Rightarrow> bool" where
  "feed_is_expired_before_hardfork_615 bd now \<longleftrightarrow> feed_expiration_time bd \<ge> now"

definition feed_is_expired :: "asset_bitasset_data_object \<Rightarrow> time_sec \<Rightarrow> bool" where
  "feed_is_expired bd now \<longleftrightarrow> feed_expiration_time bd \<le> now"

definition need_to_update_cer :: "asset_bitasset_data_object \<Rightarrow> bool" where
  "need_to_update_cer bd \<longleftrightarrow>
     (feed_cer_updated bd \<or> asset_cer_updated bd) \<and> \<not> price_is_null (price_feed.core_exchange_rate (current_feed bd))"

definition max_force_settlement_volume :: "fc_lib \<Rightarrow> int \<Rightarrow> asset_bitasset_data_object \<Rightarrow> int res" where
  "max_force_settlement_volume lib supply bd =
     (if maximum_force_settlement_volume (bd_options bd) = 0 then Inr 0
      else if int (maximum_force_settlement_volume (bd_options bd)) = GRAPHENE_100_PERCENT then fc_safe lib (supply + force_settled_volume bd)
      else fc_to_share lib (u128 (u128 (supply + force_settled_volume bd) * int (maximum_force_settlement_volume (bd_options bd))) div GRAPHENE_100_PERCENT))"

subsection \<open>What the median is worth\<close>

lemma ordered_by_price:
  assumes "\<forall>f\<in>set xs. price_ok (key f)"
  shows "ordered_by (\<lambda>a b. price_less (key a) (key b)) xs"
proof
  note o = price_order.trichotomy price_order.eqv_trans
  fix f g h assume "f \<in> set xs" "g \<in> set xs" "h \<in> set xs"
  with assms have ok: "price_ok (key f)" "price_ok (key g)" "price_ok (key h)" by auto
  then show "price_less (key f) (key g) \<Longrightarrow> price_less (key g) (key h) \<Longrightarrow> price_less (key f) (key h)" by (rule price_order.trans)
  show "\<not> price_less (key f) (key g) \<and> \<not> price_less (key g) (key f) \<Longrightarrow> \<not> price_less (key g) (key h) \<and> \<not> price_less (key h) (key g) \<Longrightarrow>
      \<not> price_less (key f) (key h) \<and> \<not> price_less (key h) (key f)"
    using o ok by metis
qed (use assms price_order.irrefl in auto)

lemma ordered_by_key: "ordered_by (\<lambda>a b. key a < (key b :: 'k :: linorder)) xs"
  by unfold_locales auto

lemma length_filter_conj:
  "length (filter (\<lambda>x. P x \<and> Q x) xs) \<le> length (filter P xs)" "length (filter (\<lambda>x. P x \<and> Q x) xs) \<le> length (filter Q xs)"
  by (induction xs) auto

lemma median_settlement_price:
  assumes "\<forall>f\<in>set xs. price_ok (settlement_price f)" "price_ok lo" "price_ok hi"
    "length xs < 2 * length (filter (\<lambda>f. \<not> price_less (settlement_price f) lo \<and> \<not> price_less hi (settlement_price f)) xs)"
  shows "\<not> price_less (settlement_price (median_feed xs)) lo \<and> \<not> price_less hi (settlement_price (median_feed xs))"
proof -
  let ?lt = "\<lambda>a b. price_less (settlement_price a) (settlement_price b)"
  have o: "ordered_by ?lt xs" by (rule ordered_by_price [OF assms(1)])
  have "length xs < 2 * length (filter (\<lambda>f. \<not> price_less (settlement_price f) lo) xs)"
    "length xs < 2 * length (filter (\<lambda>f. \<not> price_less hi (settlement_price f)) xs)"
    using assms(4) length_filter_conj [of "\<lambda>f. \<not> price_less (settlement_price f) lo" "\<lambda>f. \<not> price_less hi (settlement_price f)" xs] by simp_all
  note half = this
  let ?m = "nth_element ?lt (length xs div 2) xs ! (length xs div 2)"
  have "\<not> price_less (settlement_price ?m) lo"
    by (rule std_nth.median_above [OF o half(1)]) (meson assms(1,2) price_order.le_trans)
  moreover have "\<not> price_less hi (settlement_price ?m)"
    by (rule std_nth.median_below [OF o half(2)]) (meson assms(1,3) price_order.le_trans)
  ultimately show ?thesis by (simp add: median_feed_def Let_def)
qed


lemma publication_time_Min: "publication_time now bd = Min (set (now # map (\<lambda>f. fst (snd f)) (alive now bd)))"
proof -
  have "(\<lambda>x s. min s x) = (min :: nat \<Rightarrow> nat \<Rightarrow> nat)" by (intro ext) simp
  then show ?thesis unfolding publication_time_def Min.set_eq_fold foldl_conv_fold by simp
qed


text \<open>Three publishers: two quote 2 and 3 CORE for a unit of the asset, a third one a hundred times as much.\<close>

definition sample_publications :: asset_bitasset_data_object where
  "sample_publications = sample_bitasset\<lparr>feeds := [(0, 100000, sample_feed),
     (1, 100010, sample_feed\<lparr>settlement_price := mk_price (mk_asset 1 1) (mk_asset 300 0)\<rparr>),
     (2, 100020, sample_feed\<lparr>settlement_price := mk_price (mk_asset 1 1) (mk_asset 3 0)\<rparr>)]\<rparr>"

definition sample_median :: asset_bitasset_data_object where
  "sample_median = (case update_median_feeds 100100 0 sample_publications of Inr bd \<Rightarrow> bd | Inl _ \<Rightarrow> sample_publications)"

lemma sample_median: "update_median_feeds 100100 0 sample_publications = Inr sample_median"
proof -
  have "\<not> isl (update_median_feeds 100100 0 sample_publications)" by code_simp
  then show ?thesis by (auto simp: sample_median_def split: sum.splits)
qed



end
