(* ===== verification/Asset_Evaluators.thy ===== *)
theory Asset_Evaluators
  imports Market_Evaluators Price_Feeds
begin

text \<open>
  The evaluators of \<open>asset_evaluator.cpp\<close>: creating, issuing and reserving assets, their options, issuers and fee pools, price feeds and
  settlement. As in \<open>Market_Evaluators\<close>, every operation is an interpretation of the contract of evaluators. Log messages of the branches
  before hard forks are left out; lookups that may throw are kept.
\<close>

subsection \<open>Creating assets\<close>

definition check_asset_options_hf_1268 :: "time_sec \<Rightarrow> asset_options \<Rightarrow> unit res" where
  "check_asset_options_hf_1268 block_time opts =
     (if block_time < HARDFORK_1268_TIME
      then FC_ASSERT (reward_percent opts = None) ''Asset extension reward percent is only available after HARDFORK_1268_TIME!''
          (FC_ASSERT (whitelist_market_fee_sharing opts = None) ''Asset extension whitelist_market_fee_sharing is only available after HARDFORK_1268_TIME!'' (Inr ()))
      else Inr ())"

definition accounts_exist :: "account_id list \<Rightarrow> database \<Rightarrow> unit res" where
  "accounts_exist ids db = res_fold (\<lambda>i _. find_account db i) ids ()"

definition asset_by_symbol :: "database \<Rightarrow> string \<Rightarrow> (asset_id \<times> asset_object) option" where
  "asset_by_symbol db s = ix_find (\<lambda>ao. symbol ao = s) (assets db)"

text \<open>The symbol up to its last dot, if it has one.\<close>

definition symbol_prefix :: "string \<Rightarrow> string option" where
  "symbol_prefix s =
     (if CHR ''.'' \<in> set s then Some (take (length s - 1 - length (takeWhile (\<lambda>c. c \<noteq> CHR ''.'') (rev s))) s) else None)"

definition check_sub_asset :: "account_id \<Rightarrow> string \<Rightarrow> database \<Rightarrow> unit res" where
  "check_sub_asset iss s db =
     (case symbol_prefix s of None \<Rightarrow> Inr ()
      | Some prefix \<Rightarrow>
          (case asset_by_symbol db prefix of
             None \<Rightarrow> Inl (Assert_exn ''Asset may only be created by issuer of a prefix that has not been registered'')
           | Some (_, parent) \<Rightarrow> FC_ASSERT (issuer parent = iss) ''Asset may only be created by issuer of its prefix'' (Inr ())))"

definition backing_of :: "database \<Rightarrow> asset_object \<Rightarrow> (asset_id \<times> asset_object) res" where
  "backing_of db ao =
     res_bind (bitasset_data db ao) (\<lambda>bd.
     res_bind (get_asset db (short_backing_asset (bd_options bd))) (\<lambda>b. Inr (short_backing_asset (bd_options bd), b)))"

definition check_new_bitasset :: "account_id \<Rightarrow> bitasset_options \<Rightarrow> database \<Rightarrow> unit res" where
  "check_new_bitasset iss opts db =
     res_bind (get_asset db (short_backing_asset opts)) (\<lambda>backing.
     res_bind (if is_market_issued backing
               then res_bind (backing_of db backing) (\<lambda>(bbid, backing_backing).
                    FC_ASSERT (\<not> is_market_issued backing_backing) ''May not create a bitasset backed by a bitasset backed by a bitasset.''
                   (FC_ASSERT (iss \<noteq> GRAPHENE_COMMITTEE_ACCOUNT \<or> bbid = core_asset)
                      ''May not create a blockchain-controlled market asset which is not backed by CORE.'' (Inr ())))
               else FC_ASSERT (iss \<noteq> GRAPHENE_COMMITTEE_ACCOUNT \<or> short_backing_asset opts = core_asset)
                      ''May not create a blockchain-controlled market asset which is not backed by CORE.'' (Inr ())) (\<lambda>_.
     FC_ASSERT (feed_lifetime_sec opts > block_interval (parameters db) \<and> force_settlement_delay_sec opts > block_interval (parameters db))
       ''feed_lifetime_sec > block_interval'' (Inr ())))"

definition asset_create_evaluate :: "asset_create_operation \<Rightarrow> database \<Rightarrow> unit res" where
  "asset_create_evaluate x db =
     FC_ASSERT (length (whitelist_authorities (common_options x)) \<le> maximum_asset_whitelist_authorities (parameters db)) ''whitelist_authorities.size()''
    (FC_ASSERT (length (blacklist_authorities (common_options x)) \<le> maximum_asset_whitelist_authorities (parameters db)) ''blacklist_authorities.size()''
    (res_bind (check_asset_options_hf_1268 (head_block_time db) (common_options x)) (\<lambda>_.
     res_bind (accounts_exist (whitelist_authorities (common_options x)) db) (\<lambda>_.
     res_bind (accounts_exist (blacklist_authorities (common_options x)) db) (\<lambda>_.
     FC_ASSERT (asset_by_symbol db (ac_symbol x) = None) ''asset_symbol_itr == asset_indx.end()''
    (res_bind (if head_block_time db > HARDFORK_385_TIME then check_sub_asset (ac_issuer x) (ac_symbol x) db else Inr ()) (\<lambda>_.
     res_bind (case bitasset_opts x of None \<Rightarrow> Inr () | Some opts \<Rightarrow> check_new_bitasset (ac_issuer x) opts db) (\<lambda>_.
     if ac_is_prediction_market x
     then (case bitasset_opts x of
             None \<Rightarrow> Inl (Assert_exn ''op.bitasset_opts'')
           | Some opts \<Rightarrow> res_bind (get_asset db (short_backing_asset opts)) (\<lambda>backing.
               FC_ASSERT (ac_precision x = precision backing) ''op.precision == op.bitasset_opts->short_backing_asset(d).precision'' (Inr ())))
     else Inr ()))))))))"

text \<open>Half of the fee, rounded up, is paid like any other fee; the rest becomes the fee pool of the new asset.\<close>

definition half_fee :: "fc_lib \<Rightarrow> evaluator_state \<Rightarrow> int res" where
  "half_fee lib st = fc_safe lib (core_fee_paid st - core_fee_paid st div 2)"

definition fee_is_odd :: "evaluator_state \<Rightarrow> bool" where
  "fee_is_odd st \<longleftrightarrow> odd (core_fee_paid st)"

definition asset_create_pay_fee :: "fc_lib \<Rightarrow> bool \<Rightarrow> evaluator_state \<Rightarrow> database \<Rightarrow> database res" where
  "asset_create_pay_fee lib skip_fee st db =
     res_bind (half_fee lib st) (\<lambda>h. pay_fee lib skip_fee (st\<lparr>core_fee_paid := h\<rparr>) db)"

definition new_bitasset :: "bitasset_options \<Rightarrow> bool \<Rightarrow> asset_id \<Rightarrow> asset_bitasset_data_object" where
  "new_bitasset opts prediction next_asset_id =
     \<lparr>bd_asset_id = next_asset_id, bd_options = opts, feeds = [], current_feed = null_feed, current_feed_publication_time = 0,
      current_maintenance_collateralization = null_price, is_prediction_market = prediction, force_settled_volume = 0,
      bd_settlement_price = null_price, settlement_fund = 0, asset_cer_updated = False, feed_cer_updated = False\<rparr>"

definition fix_exchange_rate :: "asset_id \<Rightarrow> price \<Rightarrow> price" where
  "fix_exchange_rate next_asset_id p =
     (if asset_id (base p) = 0 then p\<lparr>quote := (quote p)\<lparr>asset_id := next_asset_id\<rparr>\<rparr>
      else p\<lparr>base := (base p)\<lparr>asset_id := next_asset_id\<rparr>\<rparr>)"

definition create_dyn_data :: "int \<Rightarrow> database \<Rightarrow> database" where
  "create_dyn_data pool db =
     db\<lparr>dyn_data := ix_create \<lparr>current_supply = 0, confidential_supply = 0, accumulated_fees = 0, fee_pool = pool\<rparr> (dyn_data db)\<rparr>"

definition create_bitasset :: "asset_create_operation \<Rightarrow> database \<Rightarrow> obj_id option \<times> database" where
  "create_bitasset x db =
     (case bitasset_opts x of None \<Rightarrow> (None, db)
      | Some opts \<Rightarrow> (Some (ix_next (bitassets db)),
          db\<lparr>bitassets := ix_create (new_bitasset opts (ac_is_prediction_market x) (ix_next (assets db))) (bitassets db)\<rparr>))"

definition create_asset :: "asset_create_operation \<Rightarrow> obj_id \<Rightarrow> obj_id option \<Rightarrow> database \<Rightarrow> database" where
  "create_asset x dyn bit_id db =
     (let next_asset_id = ix_next (assets db) in
      db\<lparr>assets := ix_create \<lparr>symbol = ac_symbol x, precision = ac_precision x, issuer = ac_issuer x,
        options = (common_options x)\<lparr>core_exchange_rate := fix_exchange_rate next_asset_id (core_exchange_rate (common_options x))\<rparr>,
        dynamic_asset_data_id = dyn, bitasset_data_id = bit_id, buyback_account = None\<rparr> (assets db)\<rparr>)"

definition asset_create_apply :: "fc_lib \<Rightarrow> asset_create_operation \<Rightarrow> evaluator_state \<Rightarrow> database \<Rightarrow> database res" where
  "asset_create_apply lib x st db =
     res_bind (half_fee lib st) (\<lambda>h.
     let hf_429 = (fee_is_odd st \<and> head_block_time db > HARDFORK_CORE_429_TIME) in
     res_bind (fc_safe lib (h - (if hf_429 then 1 else 0))) (\<lambda>pool.
     let db1 = create_dyn_data pool db in
     res_bind (if fee_is_odd st \<and> \<not> hf_429 then modify_dyn_data core_asset (add_current_supply lib 1) db1 else Inr db1) (\<lambda>db2.
     let (bit_id, db3) = create_bitasset x db2 in
     Inr (create_asset x (ix_next (dyn_data db)) bit_id db3))))"

subsection \<open>Supply and fee pools\<close>

definition asset_issue_evaluate :: "fc_lib \<Rightarrow> asset_issue_operation \<Rightarrow> database \<Rightarrow> unit res" where
  "asset_issue_evaluate lib x db =
     res_bind (get_asset db (asset_id (asset_to_issue x))) (\<lambda>ao.
     FC_ASSERT (ai_issuer x = issuer ao) ''o.issuer == a.issuer''
    (FC_ASSERT (\<not> is_market_issued ao) ''Cannot manually issue a market-issued asset.''
    (res_bind (get_account db (issue_to_account x)) (\<lambda>to_account.
     FC_ASSERT (is_authorized_asset to_account (asset_id (asset_to_issue x)) ao) ''is_authorized_asset( d, *to_account, a )''
    (res_bind (dynamic_data db ao) (\<lambda>dyn.
     res_bind (fc_safe lib (current_supply dyn + amount (asset_to_issue x))) (\<lambda>new_supply.
     FC_ASSERT (new_supply \<le> max_supply (options ao)) ''current_supply + amount <= max_supply'' (Inr ()))))))))"

definition asset_issue_apply :: "fc_lib \<Rightarrow> asset_issue_operation \<Rightarrow> database \<Rightarrow> database res" where
  "asset_issue_apply lib x db =
     res_bind (adjust_balance lib (issue_to_account x) (asset_to_issue x) db) (\<lambda>db1.
       modify_dyn_data (asset_id (asset_to_issue x)) (add_current_supply lib (amount (asset_to_issue x))) db1)"

definition asset_reserve_evaluate :: "fc_lib \<Rightarrow> asset_reserve_operation \<Rightarrow> database \<Rightarrow> unit res" where
  "asset_reserve_evaluate lib x db =
     res_bind (get_asset db (asset_id (amount_to_reserve x))) (\<lambda>ao.
     FC_ASSERT (\<not> is_market_issued ao) ''asset_reserve_invalid_on_mia''
    (res_bind (get_account db (ar_payer x)) (\<lambda>from_account.
     FC_ASSERT (is_authorized_asset from_account (asset_id (amount_to_reserve x)) ao) ''is_authorized_asset( d, *from_account, a )''
    (res_bind (dynamic_data db ao) (\<lambda>dyn.
     res_bind (fc_safe lib (current_supply dyn - amount (amount_to_reserve x))) (\<lambda>new_supply.
     FC_ASSERT (new_supply \<ge> 0) ''current_supply - amount >= 0'' (Inr ())))))))"

definition asset_reserve_apply :: "fc_lib \<Rightarrow> asset_reserve_operation \<Rightarrow> database \<Rightarrow> database res" where
  "asset_reserve_apply lib x db =
     res_bind (asset_neg (fc_safe lib) (amount_to_reserve x)) (\<lambda>neg.
     res_bind (adjust_balance lib (ar_payer x) neg db) (\<lambda>db1.
       modify_dyn_data (asset_id (amount_to_reserve x)) (sub_current_supply lib (amount (amount_to_reserve x))) db1))"

definition asset_fund_fee_pool_evaluate :: "asset_fund_fee_pool_operation \<Rightarrow> database \<Rightarrow> unit res" where
  "asset_fund_fee_pool_evaluate x db =
     res_bind (get_asset db (af_asset_id x)) (\<lambda>ao. res_bind (dynamic_data db ao) (\<lambda>_. Inr ()))"

definition asset_fund_fee_pool_apply :: "fc_lib \<Rightarrow> asset_fund_fee_pool_operation \<Rightarrow> database \<Rightarrow> database res" where
  "asset_fund_fee_pool_apply lib x db =
     res_bind (asset_neg (fc_safe lib) (mk_asset (af_amount x) core_asset)) (\<lambda>neg.
     res_bind (adjust_balance lib (af_from_account x) neg db) (\<lambda>db1.
       modify_dyn_data (af_asset_id x) (add_fee_pool lib (af_amount x)) db1))"

definition asset_claim_fees_evaluate :: "asset_claim_fees_operation \<Rightarrow> database \<Rightarrow> unit res" where
  "asset_claim_fees_evaluate x db =
     res_bind (get_asset db (asset_id (cf_amount_to_claim x))) (\<lambda>ao.
     FC_ASSERT (issuer ao = cf_issuer x) ''Asset fees may only be claimed by the issuer'' (Inr ()))"

definition asset_claim_fees_apply :: "fc_lib \<Rightarrow> asset_claim_fees_operation \<Rightarrow> database \<Rightarrow> database res" where
  "asset_claim_fees_apply lib x db =
     res_bind (get_asset db (asset_id (cf_amount_to_claim x))) (\<lambda>ao.
     res_bind (dynamic_data db ao) (\<lambda>addo.
     FC_ASSERT (amount (cf_amount_to_claim x) \<le> accumulated_fees addo) ''Attempt to claim more fees than have accumulated''
    (res_bind (modify_dyn_data (asset_id (cf_amount_to_claim x)) (add_accumulated_fees lib (- amount (cf_amount_to_claim x))) db) (\<lambda>db1.
       adjust_balance lib (cf_issuer x) (cf_amount_to_claim x) db1))))"

definition asset_claim_pool_evaluate :: "asset_claim_pool_operation \<Rightarrow> database \<Rightarrow> unit res" where
  "asset_claim_pool_evaluate x db =
     res_bind (get_asset db (cp_asset_id x)) (\<lambda>ao.
     FC_ASSERT (issuer ao = cp_issuer x) ''Asset fee pool may only be claimed by the issuer'' (Inr ()))"

definition asset_claim_pool_apply :: "fc_lib \<Rightarrow> asset_claim_pool_operation \<Rightarrow> database \<Rightarrow> database res" where
  "asset_claim_pool_apply lib x db =
     res_bind (get_asset db (cp_asset_id x)) (\<lambda>ao.
     res_bind (dynamic_data db ao) (\<lambda>addo.
     FC_ASSERT (amount (cp_amount_to_claim x) \<le> fee_pool addo) ''Attempt to claim more fees than is available''
    (res_bind (modify_dyn_data (cp_asset_id x) (add_fee_pool lib (- amount (cp_amount_to_claim x))) db) (\<lambda>db1.
       adjust_balance lib (cp_issuer x) (cp_amount_to_claim x) db1))))"

subsection \<open>Options and issuers\<close>

definition validate_new_issuer :: "database \<Rightarrow> asset_object \<Rightarrow> account_id \<Rightarrow> unit res" where
  "validate_new_issuer db ao new_issuer =
     res_bind (find_account db new_issuer) (\<lambda>_.
     if is_market_issued ao \<and> new_issuer = GRAPHENE_COMMITTEE_ACCOUNT
     then res_bind (backing_of db ao) (\<lambda>(bid, backing).
          if is_market_issued backing
          then res_bind (backing_of db backing) (\<lambda>(bbid, _).
               FC_ASSERT (bbid = core_asset) ''May not create a blockchain-controlled market asset which is not backed by CORE.'' (Inr ()))
          else FC_ASSERT (bid = core_asset) ''May not create a blockchain-controlled market asset which is not backed by CORE.'' (Inr ()))
     else Inr ())"

definition asset_object_validate :: "asset_object \<Rightarrow> unit res" where
  "asset_object_validate ao =
     (if is_market_issued ao then Inr ()
      else FC_ASSERT (\<not> (has_flag (flags (options ao)) disable_force_settle \<or> has_flag (flags (options ao)) global_settle)) ''options.flags''
          (FC_ASSERT (\<not> (has_flag (issuer_permissions (options ao)) disable_force_settle \<or> has_flag (issuer_permissions (options ao)) global_settle))
             ''options.issuer_permissions'' (Inr ())))"

definition asset_update_evaluate :: "asset_update_operation \<Rightarrow> database \<Rightarrow> unit res" where
  "asset_update_evaluate x db =
     res_bind (get_asset db (au_asset_to_update x)) (\<lambda>ao.
     res_bind (asset_object_validate (ao\<lparr>options := au_new_options x\<rparr>)) (\<lambda>_.
     res_bind (case au_new_issuer x of None \<Rightarrow> Inr ()
               | Some i \<Rightarrow> FC_ASSERT (head_block_time db < HARDFORK_CORE_199_TIME)
                   ''Since Hardfork #199, updating issuer requires the use of asset_update_issuer_operation.'' (validate_new_issuer db ao i)) (\<lambda>_.
     res_bind (check_asset_options_hf_1268 (head_block_time db) (au_new_options x)) (\<lambda>_.
     res_bind (dynamic_data db ao) (\<lambda>dyn.
     FC_ASSERT (head_block_time db < HARDFORK_572_TIME \<or> current_supply dyn \<noteq> 0 \<longrightarrow>
         \<not> outside (issuer_permissions (au_new_options x)) (issuer_permissions (options ao)))
       ''Cannot reinstate previously revoked issuer permissions on an asset.''
    (FC_ASSERT (\<not> outside (xor (flags (au_new_options x)) (flags (options ao))) (issuer_permissions (options ao)))
       ''Flag change is forbidden by issuer permissions''
    (FC_ASSERT (au_issuer x = issuer ao) ''Incorrect issuer for asset!''
    (FC_ASSERT (length (whitelist_authorities (au_new_options x)) \<le> maximum_asset_whitelist_authorities (parameters db)) ''whitelist_authorities.size()''
    (res_bind (accounts_exist (whitelist_authorities (au_new_options x)) db) (\<lambda>_.
     FC_ASSERT (length (blacklist_authorities (au_new_options x)) \<le> maximum_asset_whitelist_authorities (parameters db)) ''blacklist_authorities.size()''
    (accounts_exist (blacklist_authorities (au_new_options x)) db)))))))))))"

text \<open>The settlement orders of an asset in the order of the index \<open>by_expiration\<close>.\<close>

definition settlements_of :: "asset_id \<Rightarrow> database \<Rightarrow> obj_id list" where
  "settlements_of a db = map fst (filter (\<lambda>s. asset_id (fs_balance (snd s)) = a) (sorted_index earlier settlement_date (settlements db)))"

definition cancel_settlements :: "fc_lib \<Rightarrow> asset_id \<Rightarrow> database \<Rightarrow> database res" where
  "cancel_settlements lib a db = res_fold (\<lambda>i. cancel_settle_order lib i True) (settlements_of a db) db"

definition modify_asset :: "asset_id \<Rightarrow> (asset_object \<Rightarrow> asset_object) \<Rightarrow> database \<Rightarrow> database res" where
  "modify_asset a f db = res_bind (ix_modify a (\<lambda>ao. Inr (f ao)) (assets db)) (\<lambda>ix. Inr (db\<lparr>assets := ix\<rparr>))"

definition flag_cer_update :: "asset_update_operation \<Rightarrow> asset_object \<Rightarrow> database \<Rightarrow> database res" where
  "flag_cer_update x ao db =
     (if is_market_issued ao \<and> \<not> price_eq (core_exchange_rate (options ao)) (core_exchange_rate (au_new_options x))
      then modify_bitasset (au_asset_to_update x) (\<lambda>b. Inr (b\<lparr>asset_cer_updated := True\<rparr>)) db
      else Inr db)"

definition asset_update_apply :: "fc_lib \<Rightarrow> asset_update_operation \<Rightarrow> database \<Rightarrow> database res" where
  "asset_update_apply lib x db =
     res_bind (get_asset db (au_asset_to_update x)) (\<lambda>ao.
     res_bind (if has_flag (flags (au_new_options x)) disable_force_settle \<and> can_force_settle ao
               then cancel_settlements lib (au_asset_to_update x) db else Inr db) (\<lambda>db1.
     res_bind (flag_cer_update x ao db1) (\<lambda>db2.
     modify_asset (au_asset_to_update x) (\<lambda>a. a\<lparr>issuer := (case au_new_issuer x of None \<Rightarrow> issuer a | Some i \<Rightarrow> i), options := au_new_options x\<rparr>) db2)))"

definition asset_update_issuer_evaluate :: "asset_update_issuer_operation \<Rightarrow> database \<Rightarrow> unit res" where
  "asset_update_issuer_evaluate x db =
     res_bind (get_asset db (ui_asset_to_update x)) (\<lambda>ao.
     res_bind (validate_new_issuer db ao (ui_new_issuer x)) (\<lambda>_.
     FC_ASSERT (ui_issuer x = issuer ao) ''Incorrect issuer for asset!'' (Inr ())))"

definition asset_update_issuer_apply :: "asset_update_issuer_operation \<Rightarrow> database \<Rightarrow> database res" where
  "asset_update_issuer_apply x db = modify_asset (ui_asset_to_update x) (\<lambda>a. a\<lparr>issuer := ui_new_issuer x\<rparr>) db"

subsection \<open>Market-issued assets\<close>

text \<open>The assets that are backed by the asset being changed. Before hard fork 922/931 the checks only write log messages.\<close>

definition check_child :: "asset_update_bitasset_operation \<Rightarrow> asset_object \<Rightarrow> bool \<Rightarrow> database \<Rightarrow> asset_bitasset_data_object \<Rightarrow> unit res" where
  "check_child x new_backing after_hf_922_931 db bd =
     res_bind (get_asset db (bd_asset_id bd)) (\<lambda>child.
     if after_hf_922_931
     then FC_ASSERT (bd_asset_id bd \<noteq> short_backing_asset (ub_new_options x)) ''A BitAsset would be invalidated by changing this backing asset ('A' backed by 'B' backed by 'A').''
         (FC_ASSERT (issuer child \<noteq> GRAPHENE_COMMITTEE_ACCOUNT) ''A blockchain-controlled market asset would be invalidated by changing this backing asset.''
         (FC_ASSERT (\<not> is_market_issued new_backing) ''A non-blockchain controlled BitAsset would be invalidated by changing this backing asset.'' (Inr ())))
     else Inr ())"

definition check_children_of_bitasset :: "asset_update_bitasset_operation \<Rightarrow> asset_object \<Rightarrow> bool \<Rightarrow> database \<Rightarrow> unit res" where
  "check_children_of_bitasset x new_backing after_hf_922_931 db =
     (if short_backing_asset (ub_new_options x) = core_asset then Inr ()
      else res_fold (\<lambda>b _. check_child x new_backing after_hf_922_931 db (snd b))
             (filter (\<lambda>b. short_backing_asset (bd_options (snd b)) = ub_asset_to_update x) (ix_tab (bitassets db))) ())"

text \<open>Whether the new backing asset may back an asset of the committee; otherwise the children are checked unless it is CORE.\<close>

definition check_new_backing_after :: "asset_update_bitasset_operation \<Rightarrow> asset_object \<Rightarrow> asset_bitasset_data_object \<Rightarrow> asset_object \<Rightarrow> database \<Rightarrow> unit res" where
  "check_new_backing_after x ao bd new_backing db =
     (let new_id = short_backing_asset (ub_new_options x) in
      FC_ASSERT (new_id \<noteq> ub_asset_to_update x) ''Cannot update an asset to be backed by itself.''
     (FC_ASSERT (is_prediction_market bd \<longrightarrow> precision ao = precision new_backing) ''The precision of the asset and backing asset must be equal.''
     (res_bind
       (if issuer ao = GRAPHENE_COMMITTEE_ACCOUNT
        then if is_market_issued new_backing
             then res_bind (bitasset_data db new_backing) (\<lambda>nbd.
                  FC_ASSERT (short_backing_asset (bd_options nbd) = core_asset)
                    ''May not modify a blockchain-controlled market asset to be backed by an asset which is not backed by CORE.''
                 (check_children_of_bitasset x new_backing True db))
             else FC_ASSERT (new_id = core_asset)
                    ''May not modify a blockchain-controlled market asset to be backed by an asset which is not market issued asset nor CORE.'' (Inr ())
        else if new_id \<noteq> core_asset then check_children_of_bitasset x new_backing True db else Inr ()) (\<lambda>_.
      if is_market_issued new_backing
      then res_bind (bitasset_data db new_backing) (\<lambda>nbd.
           if short_backing_asset (bd_options nbd) = core_asset then Inr ()
           else res_bind (get_asset db (short_backing_asset (bd_options nbd))) (\<lambda>bb.
                FC_ASSERT (\<not> is_market_issued bb) ''A BitAsset cannot be backed by a BitAsset that itself is backed by a BitAsset.'' (Inr ())))
      else Inr ()))))"

definition check_new_backing_before :: "asset_update_bitasset_operation \<Rightarrow> asset_object \<Rightarrow> asset_bitasset_data_object \<Rightarrow> asset_object \<Rightarrow> database \<Rightarrow> unit res" where
  "check_new_backing_before x ao bd new_backing db =
     (let new_id = short_backing_asset (ub_new_options x); old_id = short_backing_asset (bd_options bd) in
      res_bind
       (if issuer ao = GRAPHENE_COMMITTEE_ACCOUNT
        then res_bind (if is_market_issued new_backing
                       then res_bind (bitasset_data db new_backing) (\<lambda>_. check_children_of_bitasset x new_backing False db)
                       else Inr ()) (\<lambda>_.
             res_bind (get_asset db old_id) (\<lambda>old_backing.
             if is_market_issued old_backing
             then res_bind (bitasset_data db old_backing) (\<lambda>obd.
                  FC_ASSERT (short_backing_asset (bd_options obd) = core_asset)
                    ''May not modify a blockchain-controlled market asset to be backed by an asset which is not backed by CORE.'' (Inr ()))
             else FC_ASSERT (old_id = core_asset)
                    ''May not modify a blockchain-controlled market asset to be backed by an asset which is not market issued asset nor CORE.'' (Inr ())))
        else if new_id \<noteq> core_asset then check_children_of_bitasset x new_backing False db else Inr ()) (\<lambda>_.
      if is_market_issued new_backing
      then res_bind (bitasset_data db new_backing) (\<lambda>nbd.
           if short_backing_asset (bd_options nbd) \<noteq> core_asset
           then res_bind (get_asset db (short_backing_asset (bd_options nbd))) (\<lambda>_. Inr ()) else Inr ())
      else Inr ()))"

definition asset_update_bitasset_evaluate :: "asset_update_bitasset_operation \<Rightarrow> database \<Rightarrow> unit res" where
  "asset_update_bitasset_evaluate x db =
     res_bind (get_asset db (ub_asset_to_update x)) (\<lambda>ao.
     FC_ASSERT (is_market_issued ao) ''Cannot update BitAsset-specific settings on a non-BitAsset.''
    (FC_ASSERT (ub_issuer x = issuer ao) ''Only asset issuer can update bitasset_data of the asset.''
    (res_bind (bitasset_data db ao) (\<lambda>bd.
     FC_ASSERT (\<not> has_settlement bd) ''Cannot update a bitasset after a global settlement has executed''
    (let after_hf = (maint_time db > HARDFORK_CORE_922_931_TIME) in
     res_bind (if short_backing_asset (ub_new_options x) \<noteq> short_backing_asset (bd_options bd)
               then res_bind (dynamic_data db ao) (\<lambda>dyn.
                    FC_ASSERT (current_supply dyn = 0) ''Cannot update a bitasset if there is already a current supply.''
                   (res_bind (get_asset db (short_backing_asset (ub_new_options x))) (\<lambda>new_backing.
                    if after_hf then check_new_backing_after x ao bd new_backing db else check_new_backing_before x ao bd new_backing db)))
               else Inr ()) (\<lambda>_.
     if after_hf
     then FC_ASSERT (feed_lifetime_sec (ub_new_options x) > block_interval (parameters db)) ''Feed lifetime must exceed block interval.''
         (FC_ASSERT (force_settlement_delay_sec (ub_new_options x) > block_interval (parameters db)) ''Force settlement delay must exceed block interval.'' (Inr ()))
     else Inr ()))))))"

definition reset_feeds :: "asset_object \<Rightarrow> asset_bitasset_data_object \<Rightarrow> asset_bitasset_data_object" where
  "reset_feeds ao bd =
     (if has_flag (flags (options ao)) (or witness_fed_asset committee_fed_asset) then bd\<lparr>feeds := []\<rparr>
      else bd\<lparr>feeds := map (\<lambda>(p, t, f). (p, t, f\<lparr>settlement_price := null_price\<rparr>)) (feeds bd)\<rparr>)"

text \<open>Returns whether the margin calls have to be checked.\<close>

definition update_bitasset_object_options ::
  "asset_update_bitasset_operation \<Rightarrow> asset_object \<Rightarrow> time_sec \<Rightarrow> time_sec \<Rightarrow> asset_bitasset_data_object \<Rightarrow> (bool \<times> asset_bitasset_data_object) res" where
  "update_bitasset_object_options x ao now maint bd =
     (let after_868 = (maint > HARDFORK_CORE_868_890_TIME);
          backing_asset_changed = (after_868 \<and> short_backing_asset (ub_new_options x) \<noteq> short_backing_asset (bd_options bd));
          should_update_feeds = (minimum_feeds (ub_new_options x) \<noteq> minimum_feeds (bd_options bd)
            \<or> after_868 \<and> feed_lifetime_sec (ub_new_options x) \<noteq> feed_lifetime_sec (bd_options bd) \<or> backing_asset_changed);
          bd1 = bd\<lparr>bd_options := ub_new_options x\<rparr>;
          bd2 = (if backing_asset_changed then reset_feeds ao bd1 else bd1) in
      if should_update_feeds
      then res_bind (update_median_feeds now maint bd2) (\<lambda>bd3.
           Inr (if maint > HARDFORK_CORE_935_TIME then \<not> price_feed_eq (current_feed bd) (current_feed bd3)
                else after_868 \<and> \<not> price_eq (settlement_price (current_feed bd)) (settlement_price (current_feed bd3)), bd3))
      else Inr (False, bd2))"

definition asset_update_bitasset_apply :: "nat \<Rightarrow> nat \<Rightarrow> fc_lib \<Rightarrow> asset_update_bitasset_operation \<Rightarrow> database \<Rightarrow> database res" where
  "asset_update_bitasset_apply n fuel lib x db =
     res_bind (get_asset db (ub_asset_to_update x)) (\<lambda>ao.
     res_bind (bitasset_data db ao) (\<lambda>bd.
     res_bind (update_bitasset_object_options x ao (head_block_time db) (maint_time db) bd) (\<lambda>(to_check, bd').
     res_bind (modify_bitasset (ub_asset_to_update x) (\<lambda>_. Inr bd') db) (\<lambda>db1.
     if to_check then res_bind (check_call_orders n fuel lib (ub_asset_to_update x) True False db1) (\<lambda>(_, db2). Inr db2)
     else Inr db1))))"

subsection \<open>Price feeds\<close>

definition asset_update_feed_producers_evaluate :: "asset_update_feed_producers_operation \<Rightarrow> database \<Rightarrow> unit res" where
  "asset_update_feed_producers_evaluate x db =
     FC_ASSERT (length (new_feed_producers x) \<le> maximum_asset_feed_publishers (parameters db)) ''Cannot specify more feed producers than maximum allowed''
    (res_bind (get_asset db (up_asset_to_update x)) (\<lambda>ao.
     FC_ASSERT (is_market_issued ao) ''Cannot update feed producers on a non-BitAsset.''
    (FC_ASSERT (\<not> has_flag (flags (options ao)) committee_fed_asset) ''Cannot set feed producers on a committee-fed asset.''
    (FC_ASSERT (\<not> has_flag (flags (options ao)) witness_fed_asset) ''Cannot set feed producers on a witness-fed asset.''
    (FC_ASSERT (issuer ao = up_issuer x) ''Only asset issuer can update feed producers of an asset''
    (accounts_exist (new_feed_producers x) db))))))"

text \<open>The map from publishers to feeds is ordered by publisher; \<open>feeds[acc]\<close> adds a default entry if there is none.\<close>

fun set_feed :: "account_id \<Rightarrow> time_sec \<times> price_feed \<Rightarrow> (account_id \<times> (time_sec \<times> price_feed)) list \<Rightarrow> (account_id \<times> (time_sec \<times> price_feed)) list" where
  "set_feed p v [] = [(p, v)]"
| "set_feed p v ((q, w) # fs) = (if p < q then (p, v) # (q, w) # fs else if p = q then (p, v) # fs else (q, w) # set_feed p v fs)"

definition touch_feed :: "account_id \<Rightarrow> (account_id \<times> (time_sec \<times> price_feed)) list \<Rightarrow> (account_id \<times> (time_sec \<times> price_feed)) list" where
  "touch_feed p fs = (if p \<in> fst ` set fs then fs else set_feed p (0, null_feed) fs)"

definition change_producers :: "account_id list \<Rightarrow> (account_id \<times> (time_sec \<times> price_feed)) list \<Rightarrow> (account_id \<times> (time_sec \<times> price_feed)) list" where
  "change_producers ps fs = fold touch_feed ps (filter (\<lambda>f. fst f \<in> set ps) fs)"

definition asset_update_feed_producers_apply :: "nat \<Rightarrow> nat \<Rightarrow> fc_lib \<Rightarrow> asset_update_feed_producers_operation \<Rightarrow> database \<Rightarrow> database res" where
  "asset_update_feed_producers_apply n fuel lib x db =
     res_bind (modify_bitasset (up_asset_to_update x)
       (\<lambda>bd. update_median_feeds (head_block_time db) (maint_time db) (bd\<lparr>feeds := change_producers (new_feed_producers x) (feeds bd)\<rparr>)) db) (\<lambda>db1.
     res_bind (check_call_orders n fuel lib (up_asset_to_update x) True False db1) (\<lambda>(_, db2). Inr db2))"

definition may_publish :: "database \<Rightarrow> asset_object \<Rightarrow> asset_bitasset_data_object \<Rightarrow> account_id \<Rightarrow> bool res" where
  "may_publish db ao bd publisher =
     (if has_flag (flags (options ao)) witness_fed_asset
      then res_bind (get_account db GRAPHENE_WITNESS_ACCOUNT) (\<lambda>w. Inr (publisher \<in> fst ` set (account_auths (active_auth w))))
      else if has_flag (flags (options ao)) committee_fed_asset
      then res_bind (get_account db GRAPHENE_COMMITTEE_ACCOUNT) (\<lambda>c. Inr (publisher \<in> fst ` set (account_auths (active_auth c))))
      else Inr (publisher \<in> fst ` set (feeds bd)))"

definition asset_publish_feeds_evaluate :: "asset_publish_feed_operation \<Rightarrow> database \<Rightarrow> unit res" where
  "asset_publish_feeds_evaluate x db =
     (let feed = pf_feed x; cer = price_feed.core_exchange_rate (pf_feed x) in
      res_bind (get_asset db (pf_asset_id x)) (\<lambda>ao.
      FC_ASSERT (is_market_issued ao) ''Can only publish price feeds for market-issued assets''
     (res_bind (bitasset_data db ao) (\<lambda>bd.
      FC_ASSERT (is_prediction_market bd \<or> head_block_time db \<le> HARDFORK_CORE_216_TIME \<longrightarrow> \<not> has_settlement bd)
        ''No further feeds may be published after a settlement event''
     (FC_ASSERT (asset_id (quote (settlement_price feed)) = short_backing_asset (bd_options bd))
        ''Quote asset type in settlement price should be same as backing asset of this asset''
     (FC_ASSERT (if head_block_time db > HARDFORK_480_TIME
                 then \<not> price_is_null cer \<longrightarrow> asset_id (quote cer) = core_asset
                 else \<not> price_is_null (settlement_price feed) \<and> \<not> price_is_null cer \<longrightarrow>
                        asset_id (quote (settlement_price feed)) = asset_id (quote cer)) ''Bad feed''
     (res_bind (may_publish db ao bd (pf_publisher x)) (\<lambda>allowed.
      FC_ASSERT allowed ''The account is not allowed to publish price feeds for this asset'' (Inr ())))))))))"

definition should_revive :: "asset_id \<Rightarrow> asset_bitasset_data_object \<Rightarrow> asset_dynamic_data_object \<Rightarrow> time_sec \<Rightarrow> bool res" where
  "should_revive aid bd dyn maint =
     (let fund = mk_asset (settlement_fund bd) (short_backing_asset (bd_options bd)); supply = mk_asset (current_supply dyn) aid in
      if current_supply dyn = 0 then Inr True
      else if maint \<le> HARDFORK_CORE_1270_TIME
      then res_bind (call_price_of supply fund (maintenance_collateral_ratio (current_feed bd))) (\<lambda>cp.
           Inr (price_less (price_inv cp) (settlement_price (current_feed bd))))
      else Inr (price_less (current_maintenance_collateralization bd) (mk_price fund supply)))"

definition revive_after_feed :: "fc_lib \<Rightarrow> asset_id \<Rightarrow> asset_object \<Rightarrow> database \<Rightarrow> database res" where
  "revive_after_feed lib aid ao db =
     res_bind (bitasset_data db ao) (\<lambda>bd.
     if has_settlement bd \<and> \<not> price_is_null (settlement_price (current_feed bd))
     then res_bind (dynamic_data db ao) (\<lambda>dyn.
          res_bind (should_revive aid bd dyn (maint_time db)) (\<lambda>revive.
          if revive then revive_bitasset lib aid db else Inr db))
     else Inr db)"

definition asset_publish_feeds_apply :: "nat \<Rightarrow> nat \<Rightarrow> fc_lib \<Rightarrow> asset_publish_feed_operation \<Rightarrow> database \<Rightarrow> database res" where
  "asset_publish_feeds_apply n fuel lib x db =
     res_bind (get_asset db (pf_asset_id x)) (\<lambda>ao.
     res_bind (bitasset_data db ao) (\<lambda>old_bd.
     res_bind (modify_bitasset (pf_asset_id x) (\<lambda>bd. update_median_feeds (head_block_time db) (maint_time db)
       (bd\<lparr>feeds := set_feed (pf_publisher x) (head_block_time db, pf_feed x) (feeds bd)\<rparr>)) db) (\<lambda>db1.
     res_bind (bitasset_data db1 ao) (\<lambda>bd.
     if \<not> price_feed_eq (current_feed old_bd) (current_feed bd)
     then res_bind (revive_after_feed lib (pf_asset_id x) ao db1) (\<lambda>db2.
          res_bind (check_call_orders n fuel lib (pf_asset_id x) True False db2) (\<lambda>(_, db3). Inr db3))
     else Inr db1))))"

subsection \<open>Settlement\<close>

definition asset_global_settle_evaluate :: "asset_global_settle_operation \<Rightarrow> database \<Rightarrow> unit res" where
  "asset_global_settle_evaluate x db =
     res_bind (get_asset db (gs_asset_to_settle x)) (\<lambda>ao.
     FC_ASSERT (is_market_issued ao) ''Can only globally settle market-issued assets''
    (FC_ASSERT (can_global_settle ao) ''The global_settle permission of this asset is disabled''
    (FC_ASSERT (issuer ao = gs_issuer x) ''Only asset issuer can globally settle an asset''
    (res_bind (dynamic_data db ao) (\<lambda>dyn.
     FC_ASSERT (current_supply dyn > 0) ''Can not globally settle an asset with zero supply''
    (res_bind (bitasset_data db ao) (\<lambda>bd.
     FC_ASSERT (\<not> has_settlement bd) ''This asset has settlement, cannot global settle again''
    (res_bind (price_min (short_backing_asset (bd_options bd)) (gs_asset_to_settle x)) (\<lambda>lo.
     case calls_from False db lo of
       [] \<Rightarrow> Inl (Assert_exn ''Internal error: no debt position found'')
     | (_, least) # _ \<Rightarrow>
         FC_ASSERT (debt_type least = gs_asset_to_settle x) ''Internal error: no debt position found''
        (res_bind (asset_times_price (get_debt least) (gs_settle_price x)) (\<lambda>pays.
         res_bind (asset_le pays (get_collateral least)) (\<lambda>enough.
         FC_ASSERT enough ''Cannot force settle at supplied price: least collateralized short lacks sufficient collateral to settle.'' (Inr ())))))))))))))"

definition asset_global_settle_apply :: "fc_lib \<Rightarrow> asset_global_settle_operation \<Rightarrow> database \<Rightarrow> database res" where
  "asset_global_settle_apply lib x db = globally_settle_asset lib (gs_asset_to_settle x) (gs_settle_price x) db"

definition asset_settle_evaluate :: "asset_settle_operation \<Rightarrow> database \<Rightarrow> unit res" where
  "asset_settle_evaluate x db =
     res_bind (get_asset db (asset_id (as_amount x))) (\<lambda>ao.
     FC_ASSERT (is_market_issued ao) ''asset_to_settle->is_market_issued()''
    (res_bind (bitasset_data db ao) (\<lambda>bd.
     FC_ASSERT (can_force_settle ao \<or> has_settlement bd) ''asset_to_settle->can_force_settle() || bitasset.has_settlement()''
    (FC_ASSERT (is_prediction_market bd \<longrightarrow> has_settlement bd) ''global settlement must occur before force settling a prediction market''
    (if \<not> is_prediction_market bd \<and> price_is_null (settlement_price (current_feed bd))
        \<and> (head_block_time db \<le> HARDFORK_CORE_216_TIME \<or> \<not> has_settlement bd)
     then Inl (Throw_exn ''Cannot force settle with no price feed.'')
     else res_bind (find_account db (as_account x)) (\<lambda>_.
          res_bind (asset_ge (get_balance db (as_account x) (asset_id (as_amount x))) (as_amount x)) (\<lambda>enough.
          FC_ASSERT enough ''d.get_balance(d.get(op.account), *asset_to_settle) >= op.amount'' (Inr ()))))))))"

text \<open>What the settlement fund pays for an amount of a globally settled asset, and what of the amount is taken.\<close>

definition settled_amount :: "asset_settle_operation \<Rightarrow> asset_bitasset_data_object \<Rightarrow> int \<Rightarrow> time_sec \<Rightarrow> (asset \<times> asset) res" where
  "settled_amount x bd supply maint =
     res_bind (asset_times_price (as_amount x) (bd_settlement_price bd)) (\<lambda>settled0.
     res_bind (if amount (as_amount x) = supply then Inr (settled0\<lparr>amount := settlement_fund bd\<rparr>)
               else FC_ASSERT (amount settled0 \<le> settlement_fund bd) ''settled_amount.amount <= bitasset.settlement_fund'' (Inr settled0)) (\<lambda>settled.
     if amount settled = 0 \<and> \<not> is_prediction_market bd \<and> maint > HARDFORK_CORE_184_TIME
     then Inl (Throw_exn ''Settle amount is too small to receive anything due to rounding'')
     else res_bind (if amount (as_amount x) \<noteq> supply \<and> amount settled \<noteq> 0 \<and> maint > HARDFORK_CORE_342_TIME
                    then multiply_and_round_up settled (bd_settlement_price bd) else Inr (as_amount x)) (\<lambda>pays.
          Inr (settled, pays))))"

definition pay_from_fund :: "fc_lib \<Rightarrow> asset_id \<Rightarrow> account_id \<Rightarrow> asset \<Rightarrow> database \<Rightarrow> database res" where
  "pay_from_fund lib aid acc settled db =
     (if amount settled > 0
      then res_bind (modify_bitasset aid (\<lambda>b. res_bind (fc_safe lib (settlement_fund b - amount settled)) (\<lambda>y. Inr (b\<lparr>settlement_fund := y\<rparr>))) db) (\<lambda>db1.
           adjust_balance lib acc settled db1)
      else Inr db)"

definition asset_settle_apply :: "fc_lib \<Rightarrow> asset_settle_operation \<Rightarrow> database \<Rightarrow> database res" where
  "asset_settle_apply lib x db =
     (let aid = asset_id (as_amount x) in
      res_bind (get_asset db aid) (\<lambda>ao.
      res_bind (bitasset_data db ao) (\<lambda>bd.
      if has_settlement bd
      then res_bind (dynamic_data db ao) (\<lambda>mia_dyn.
           res_bind (settled_amount x bd (current_supply mia_dyn) (maint_time db)) (\<lambda>(settled, pays).
           res_bind (asset_neg (fc_safe lib) pays) (\<lambda>neg.
           res_bind (adjust_balance lib (as_account x) neg db) (\<lambda>db1.
           res_bind (pay_from_fund lib aid (as_account x) settled db1) (\<lambda>db2.
           modify_dyn_data aid (sub_current_supply lib (amount pays)) db2)))))
      else res_bind (asset_neg (fc_safe lib) (as_amount x)) (\<lambda>neg.
           res_bind (adjust_balance lib (as_account x) neg db) (\<lambda>db1.
           Inr (db1\<lparr>settlements := ix_create \<lparr>fs_owner = as_account x, fs_balance = as_amount x,
             settlement_date = time_plus (head_block_time db) (force_settlement_delay_sec (bd_options bd))\<rparr> (settlements db1)\<rparr>))))))"

subsection \<open>What the operations move\<close>

lemma issue_moves:
  assumes "adjust_balance lib acc y db = Inr db1" "modify_dyn_data (asset_id y) (add_current_supply lib (amount y)) db1 = Inr db'" "safe_exact (fc_safe lib)"
  shows "moves (\<lambda>_. 0) db db'"
  using ledger.moves_trans [OF moves_adjust_balance [OF assms(1,3)] moves_dyn_data(2) [OF assms(3,2)]]
  by (rule ledger.moves_weaken) (simp add: part_def)

lemma asset_issue_apply_moves [moves_intros]: "asset_issue_apply lib x db = Inr db' \<Longrightarrow> safe_exact (fc_safe lib) \<Longrightarrow> moves (\<lambda>_. 0) db db'"
  unfolding asset_issue_apply_def by (elim res_bind_InrE) (rule issue_moves)

lemma asset_reserve_apply_moves [moves_intros]:
  assumes "asset_reserve_apply lib x db = Inr db'" "safe_exact (fc_safe lib)"
  shows "moves (\<lambda>_. 0) db db'"
proof -
  from assms(1) obtain neg db1 where s: "asset_neg (fc_safe lib) (amount_to_reserve x) = Inr neg" "adjust_balance lib (ar_payer x) neg db = Inr db1"
    "modify_dyn_data (asset_id (amount_to_reserve x)) (sub_current_supply lib (amount (amount_to_reserve x))) db1 = Inr db'"
    unfolding asset_reserve_apply_def by (elim res_bind_InrE) (rule that)
  show ?thesis using store_moves [OF s(1,2) _ assms(2)] moves_dyn_data(1) [OF assms(2) s(3)] by simp
qed

lemma asset_fund_fee_pool_apply_moves [moves_intros]:
  assumes "asset_fund_fee_pool_apply lib x db = Inr db'" "safe_exact (fc_safe lib)"
  shows "moves (\<lambda>_. 0) db db'"
proof -
  from assms(1) obtain neg db1 where s: "asset_neg (fc_safe lib) (mk_asset (af_amount x) core_asset) = Inr neg"
    "adjust_balance lib (af_from_account x) neg db = Inr db1" "modify_dyn_data (af_asset_id x) (add_fee_pool lib (af_amount x)) db1 = Inr db'"
    unfolding asset_fund_fee_pool_apply_def by (elim res_bind_InrE) (rule that)
  show ?thesis using store_moves [OF s(1,2) _ assms(2)] moves_dyn_data(4) [OF assms(2) s(3)] by simp
qed

lemma asset_claim_fees_apply_moves [moves_intros]:
  assumes "asset_claim_fees_apply lib x db = Inr db'" "safe_exact (fc_safe lib)"
  shows "moves (\<lambda>_. 0) db db'"
proof -
  from assms(1) obtain db1 where s: "modify_dyn_data (asset_id (cf_amount_to_claim x)) (add_accumulated_fees lib (- amount (cf_amount_to_claim x))) db = Inr db1"
    "adjust_balance lib (cf_issuer x) (cf_amount_to_claim x) db1 = Inr db'"
    by (auto simp: asset_claim_fees_apply_def)
  show ?thesis using ledger.moves_trans [OF moves_dyn_data(3) [OF assms(2) s(1)] moves_adjust_balance [OF s(2) assms(2)]]
    by (rule ledger.moves_weaken) (simp add: part_def)
qed

text \<open>The claimed part of a fee pool is in CORE (\<open>validate\<close>).\<close>

lemma asset_claim_pool_apply_moves:
  assumes "asset_claim_pool_apply lib x db = Inr db'" "safe_exact (fc_safe lib)" "asset_id (cp_amount_to_claim x) = core_asset"
  shows "moves (\<lambda>_. 0) db db'"
proof -
  from assms(1) obtain db1 where s: "modify_dyn_data (cp_asset_id x) (add_fee_pool lib (- amount (cp_amount_to_claim x))) db = Inr db1"
    "adjust_balance lib (cp_issuer x) (cp_amount_to_claim x) db1 = Inr db'"
    by (auto simp: asset_claim_pool_apply_def)
  obtain c where c: "cp_amount_to_claim x = mk_asset c core_asset" using assms(3) by (metis asset_eta)
  show ?thesis using ledger.moves_trans [OF moves_dyn_data(4) [OF assms(2) s(1)] moves_adjust_balance [OF s(2) assms(2)]]
    by (rule ledger.moves_weaken) (simp add: c)
qed

text \<open>Changing an asset object, but not its dynamic data, moves nothing.\<close>

lemma modify_asset_moves:
  assumes "modify_asset a f db = Inr db'" "\<And>ao. dynamic_asset_data_id (f ao) = dynamic_asset_data_id ao"
    "\<And>ao. 0 \<le> max_market_fee (options ao) \<Longrightarrow> 0 \<le> max_market_fee (options (f ao))"
  shows "moves (\<lambda>_. 0) db db'"
proof -
  from assms(1) obtain ix where ix: "ix_modify a (\<lambda>ao. Inr (f ao)) (assets db) = Inr ix" and db': "db' = db\<lparr>assets := ix\<rparr>"
    by (auto simp: modify_asset_def)
  from ix obtain ao where ao: "ix_get a (assets db) = Some ao"
    and get: "\<And>j. ix_get j ix = (if j = a then Some (f ao) else ix_get j (assets db))" by (elim ix_modifyE) auto
  have link: "asset_link ix = asset_link (assets db)" by (rule ext) (simp add: asset_link_def get ao assms(2))
  then have "own_balance ix = own_balance (assets db)" by (intro ext) (simp add: own_balance_def)
  moreover have "db_ok db \<Longrightarrow> 0 \<le> max_market_fee (options (f ao))" using ao by (intro assms(3)) (auto simp: db_ok_def)
  ultimately show ?thesis using link unfolding db'
    by (auto simp: accounting_defs links_ok_def get ao intro: ix_ok_modify [OF _ ix])
qed

lemma moves_create_dyn_data: "moves (core_part pool) db (create_dyn_data pool db)"
proof (rule moves_if_ok)
  let ?d = "\<lparr>current_supply = 0, confidential_supply = 0, accumulated_fees = 0, fee_pool = pool\<rparr>"
  assume ok: "db_ok db"
  then have l: "links_ok (assets db) (dyn_data db)" "ix_ok (dyn_data db)" by (simp_all add: db_ok_def)
  have "own_balance (assets db) (ix_create ?d (dyn_data db)) a = own_balance (assets db) (dyn_data db) a" for a
    using l by (auto simp: own_balance_def links_ok_def split: option.splits)
  moreover have "links_ok (assets db) (ix_create ?d (dyn_data db))"
    using l(1) unfolding links_ok_def by (auto simp: ix_create_def intro: less_SucI)
  ultimately show "moves (core_part pool) db (create_dyn_data pool db)"
    using ok ix_ok_create [of "dyn_data db"] by (auto simp: create_dyn_data_def accounting_defs table_simps)
qed

lemma moves_create_bitasset:
  assumes "create_bitasset x db = (i, db')"
  shows "moves (\<lambda>_. 0) db db'" "assets db' = assets db" "dyn_data db' = dyn_data db"
proof -
  have z: "bit_fund a (new_bitasset opts p next) = 0" for a opts p "next" by (simp add: new_bitasset_def bit_fund_def part_def)
  have "fund_ok (new_bitasset opts p next)" for opts p "next" by (simp add: new_bitasset_def fund_ok_def)
  with assms show "moves (\<lambda>_. 0) db db'"
    by (auto simp: create_bitasset_def accounting_defs table_simps z intro!: ix_ok_create split: option.splits if_splits)
  show "assets db' = assets db" "dyn_data db' = dyn_data db" using assms by (auto simp: create_bitasset_def split: option.splits)
qed

text \<open>A new asset that refers to empty dynamic data of its own.\<close>

lemma moves_create_asset:
  assumes "0 \<le> max_market_fee (common_options x)" "\<And>a. db_ok db \<Longrightarrow> asset_link (assets db) a \<noteq> Some dyn"
    "ix_get dyn (dyn_data db) = Some d" "dyn_balance d = 0"
  shows "moves (\<lambda>_. 0) db (create_asset x dyn bit_id db)"
proof (rule moves_if_ok)
  assume ok: "db_ok db"
  define ix where "ix = assets (create_asset x dyn bit_id db)"
  have iok: "ix_ok (assets db)" using ok by (simp add: db_ok_def)
  then have none: "asset_link (assets db) (ix_next (assets db)) = None"
    by (auto simp: asset_link_def ix_ok_def ix_get_def map_of_eq_None_iff)
  have link: "asset_link ix a = (if a = ix_next (assets db) then Some dyn else asset_link (assets db) a)" for a
    using iok by (simp add: ix_def create_asset_def Let_def asset_link_def)
  have "own_balance ix (dyn_data db) a = own_balance (assets db) (dyn_data db) a" for a
    using assms(3,4) none by (auto simp: own_balance_def link)
  moreover have "inj_on (asset_link ix) {a. asset_link ix a \<noteq> None}"
    using ok assms(2) [OF ok] by (auto simp: inj_on_def link db_ok_def)
  moreover have "dyn < ix_next (dyn_data db)" using ok assms(3) by (auto simp: db_ok_def ix_ok_def ix_get_def dest!: map_of_SomeD)
  then have "links_ok ix (dyn_data db)" using ok by (auto simp: links_ok_def link db_ok_def)
  moreover have "\<forall>a ao. ix_get a ix = Some ao \<longrightarrow> 0 \<le> max_market_fee (options ao)"
    using ok assms(1) iok by (auto simp: ix_def create_asset_def Let_def db_ok_def)
  moreover have "ix_ok ix" unfolding ix_def create_asset_def Let_def using iok by (simp add: ix_ok_create)
  moreover have "create_asset x dyn bit_id db = db\<lparr>assets := ix\<rparr>" by (simp add: ix_def create_asset_def Let_def)
  ultimately show "moves (\<lambda>_. 0) db (create_asset x dyn bit_id db)" using ok by (simp add: accounting_defs)
qed

lemma half_fee_split:
  assumes "half_fee lib st = Inr h" "fc_safe lib (h - (if late then 1 else 0)) = Inr pool" "safe_exact (fc_safe lib)"
    "late \<longrightarrow> fee_is_odd st"
  shows "h + pool - (if fee_is_odd st \<and> \<not> late then 1 else 0) = core_fee_paid st"
proof -
  have "h = core_fee_paid st - core_fee_paid st div 2" using assms(1) unfolding half_fee_def by (rule safe_exactD [OF assms(3)])
  moreover have "pool = h - (if late then 1 else 0)" by (rule safe_exactD [OF assms(3,2)])
  moreover have "core_fee_paid st = 2 * (core_fee_paid st div 2) + (if fee_is_odd st then 1 else 0)"
    unfolding fee_is_odd_def by (metis add.right_neutral even_two_times_div_two odd_two_times_div_two_succ)
  ultimately show ?thesis using assms(4) by auto
qed

text \<open>The part of the fee that \<open>asset_create\<close> puts into the fee pool of the new asset.\<close>

definition create_kept :: "evaluator_state \<Rightarrow> database \<Rightarrow> asset_id \<Rightarrow> int" where
  "create_kept st db = core_part (core_fee_paid st div 2)"

lemma asset_create_fee_routed:
  assumes "convert_fee lib False st db = Inr db1" "asset_create_pay_fee lib False st db1 = Inr db2" "prepared st" "safe_exact (fc_safe lib)"
  shows "moves (\<lambda>a. part (fee_from_account st) a - create_kept st db2 a) db db2"
proof -
  from assms(2) obtain h where h: "half_fee lib st = Inr h" "pay_fee lib False (st\<lparr>core_fee_paid := h\<rparr>) db1 = Inr db2"
    unfolding asset_create_pay_fee_def by (elim res_bind_InrE) (rule that)
  have "h = core_fee_paid st - core_fee_paid st div 2" using h(1) unfolding half_fee_def by (rule safe_exactD [OF assms(4)])
  with ledger.moves_trans [OF convert_fee_moves [OF assms(1,3,4)] pay_fee_moves [OF h(2) assms(4)]]
  show ?thesis by (auto elim!: ledger.moves_weaken simp: create_kept_def part_def)
qed

lemma asset_create_apply_moves:
  assumes "asset_create_apply lib x st db = Inr db'" "safe_exact (fc_safe lib)" "0 \<le> max_market_fee (common_options x)"
  shows "moves (create_kept st db) db db'"
proof (rule moves_if_ok)
  assume ok: "db_ok db"
  let ?o = "fee_is_odd st \<and> head_block_time db > HARDFORK_CORE_429_TIME" and ?n = "ix_next (dyn_data db)"
  from assms(1) obtain h pool db2 where s: "half_fee lib st = Inr h" "fc_safe lib (h - (if ?o then 1 else 0)) = Inr pool"
    "(if fee_is_odd st \<and> \<not> ?o then modify_dyn_data core_asset (add_current_supply lib 1) (create_dyn_data pool db) else Inr (create_dyn_data pool db)) = Inr db2"
    "(case create_bitasset x db2 of (i, db3) \<Rightarrow> Inr (create_asset x ?n i db3)) = (Inr db' :: database res)"
    unfolding asset_create_apply_def Let_def by (elim res_bind_InrE) (rule that)
  then obtain i db3 where c: "create_bitasset x db2 = (i, db3)" "db' = create_asset x ?n i db3" by (auto split: prod.splits)
  let ?d = "\<lparr>current_supply = 0, confidential_supply = 0, accumulated_fees = 0, fee_pool = pool\<rparr>"
  have links: "links_ok (assets db) (dyn_data db)" and dok: "ix_ok (dyn_data db)" using ok by (simp_all add: db_ok_def)
  have unlinked: "asset_link (assets db) a \<noteq> Some ?n" for a using links by (auto simp: links_ok_def)
  have d1: "ix_get ?n (dyn_data (create_dyn_data pool db)) = Some ?d" "assets (create_dyn_data pool db) = assets db"
    using dok by (simp_all add: create_dyn_data_def)
  have m2: "moves (core_part (if fee_is_odd st \<and> \<not> ?o then - 1 else 0)) (create_dyn_data pool db) db2 \<and> ix_get ?n (dyn_data db2) = Some ?d \<and> assets db2 = assets db"
  proof (cases "fee_is_odd st \<and> \<not> ?o")
    case True
    with s(3) have m: "modify_dyn_data core_asset (add_current_supply lib 1) (create_dyn_data pool db) = Inr db2" by auto
    then show ?thesis using True unlinked [of core_asset] d1 moves_dyn_data(2) [OF assms(2) m]
      by (elim modify_dyn_dataE) (auto simp: asset_link_def)
  next
    case False
    then show ?thesis using s(3) d1 by (auto simp: ledger.moves_refl)
  qed
  have "moves (\<lambda>_. 0) db3 db'" unfolding c(2)
    using unlinked m2 by (intro moves_create_asset [OF assms(3)]) (auto simp: moves_create_bitasset [OF c(1)] dyn_balance_def)
  note ledger.moves_trans [OF ledger.moves_trans [OF ledger.moves_trans [OF moves_create_dyn_data conjunct1 [OF m2]] moves_create_bitasset(1) [OF c(1)]] this]
  moreover have "h = core_fee_paid st - core_fee_paid st div 2" using s(1) unfolding half_fee_def by (rule safe_exactD [OF assms(2)])
  then have "pool = core_fee_paid st div 2 + (if fee_is_odd st \<and> \<not> ?o then 1 else 0)"
    using half_fee_split [OF s(1,2) assms(2)] by (auto split: if_splits)
  ultimately show "moves (create_kept st db) db db'" by (auto elim!: ledger.moves_weaken simp: create_kept_def)
qed

lemma bitasset_data_same_market: "same_market db db' \<Longrightarrow> get_asset db' a = get_asset db a \<and> bitasset_data db' ao = bitasset_data db ao"
  by (simp add: same_market_def get_asset_def bitasset_data_def split: option.split)

text \<open>Updates of a market-issued asset that keep its settlement price and fund.\<close>

lemma modify_bitasset_neutral:
  assumes "modify_bitasset a f db = Inr db'"
    "\<And>b b'. f b = Inr b' \<Longrightarrow> settlement_fund b' = settlement_fund b \<and> bd_settlement_price b' = bd_settlement_price b
      \<and> (has_settlement b \<longrightarrow> short_backing_asset (bd_options b') = short_backing_asset (bd_options b))"
  shows "moves (\<lambda>_. 0) db db'"
proof (rule moves_if_ok)
  assume ok: "db_ok db"
  from assms(1) obtain i b b' where b: "ix_get i (bitassets db) = Some b" "f b = Inr b'"
    "fund_ok b' \<Longrightarrow> moves (\<lambda>c. bit_fund c b' - bit_fund c b) db db'" by (elim modify_bitassetE) blast
  note k = assms(2) [OF b(2)]
  have "fund_ok b" using ok b(1) by (auto simp: db_ok_def)
  with k have "fund_ok b'" "bit_fund c b' = bit_fund c b" for c by (auto simp: fund_ok_def has_settlement_def bit_fund_def)
  with b(3) show "moves (\<lambda>_. 0) db db'" by simp
qed

lemma update_median_feeds_keeps:
  "update_median_feeds now maint bd = Inr bd' \<Longrightarrow> settlement_fund bd' = settlement_fund bd \<and> bd_settlement_price bd' = bd_settlement_price bd \<and> bd_options bd' = bd_options bd"
  by (auto simp: update_median_feeds_def set_current_feed_def Let_def split: if_splits)

lemma cancel_settlements_moves:
  assumes "cancel_settlements lib a db = Inr db'" "safe_exact (fc_safe lib)"
  shows "moves (\<lambda>_. 0) db db'"
  by (rule ledger.moves_fold [OF assms(1) [unfolded cancel_settlements_def]]) (rule cancel_settle_order_moves [OF _ assms(2)])

lemma flag_cer_update_moves: "flag_cer_update x ao db = Inr db' \<Longrightarrow> moves (\<lambda>_. 0) db db'"
  by (auto simp: flag_cer_update_def split: if_splits intro: modify_bitasset_neutral)

lemma asset_update_apply_moves:
  assumes "asset_update_apply lib x db = Inr db'" "safe_exact (fc_safe lib)" "0 \<le> max_market_fee (au_new_options x)"
  shows "moves (\<lambda>_. 0) db db'"
proof -
  from assms(1) obtain ao db1 db2 where s: "(if has_flag (flags (au_new_options x)) disable_force_settle \<and> can_force_settle ao
       then cancel_settlements lib (au_asset_to_update x) db else Inr db) = Inr db1" "flag_cer_update x ao db1 = Inr db2"
    and m: "modify_asset (au_asset_to_update x)
       (\<lambda>a. a\<lparr>issuer := (case au_new_issuer x of None \<Rightarrow> issuer a | Some i \<Rightarrow> i), options := au_new_options x\<rparr>) db2 = Inr db'"
    unfolding asset_update_apply_def by (elim res_bind_InrE) (rule that)
  have "moves (\<lambda>_. 0) db db1" using s(1) cancel_settlements_moves [OF _ assms(2)] by (auto split: if_splits)
  moreover have "moves (\<lambda>_. 0) db2 db'" using m by (rule modify_asset_moves) (simp_all add: assms(3))
  ultimately show ?thesis using flag_cer_update_moves [OF s(2)] moves_zero_trans by blast
qed

lemma asset_update_issuer_apply_moves [moves_intros]: "asset_update_issuer_apply x db = Inr db' \<Longrightarrow> moves (\<lambda>_. 0) db db'"
  unfolding asset_update_issuer_apply_def by (erule modify_asset_moves) auto

definition not_settled :: "asset_id \<Rightarrow> database \<Rightarrow> bool" where
  "not_settled a db \<longleftrightarrow> (\<forall>ao bd. get_asset db a = Inr ao \<longrightarrow> bitasset_data db ao = Inr bd \<longrightarrow> \<not> has_settlement bd)"

lemma asset_update_bitasset_apply_moves:
  assumes "asset_update_bitasset_apply n fuel lib x db = Inr db'" "not_settled (ub_asset_to_update x) db" "safe_exact (fc_safe lib)"
  shows "moves (\<lambda>_. 0) db db'"
proof -
  from assms(1) obtain ao bd c bd' db1 where b: "get_asset db (ub_asset_to_update x) = Inr ao" "bitasset_data db ao = Inr bd"
    and u: "update_bitasset_object_options x ao (head_block_time db) (maint_time db) bd = Inr (c, bd')"
    and m: "modify_bitasset (ub_asset_to_update x) (\<lambda>_. Inr bd') db = Inr db1"
    and r: "db' = db1 \<or> (\<exists>k. check_call_orders n fuel lib (ub_asset_to_update x) True False db1 = Inr (k, db'))"
    by (auto simp: asset_update_bitasset_apply_def split: if_splits)
  have k: "settlement_fund bd' = settlement_fund bd \<and> bd_settlement_price bd' = bd_settlement_price bd"
    using u by (auto simp: update_bitasset_object_options_def reset_feeds_def Let_def dest!: update_median_feeds_keeps split: if_splits)
  have ns: "\<not> has_settlement bd" using assms(2) b by (simp add: not_settled_def)
  have "moves (\<lambda>_. 0) db db1"
  proof (rule moves_if_ok)
    assume ok: "db_ok db"
    from m obtain ao2 i b2 where b2: "ix_get (ub_asset_to_update x) (assets db) = Some ao2" "bitasset_data_id ao2 = Some i" "ix_get i (bitassets db) = Some b2"
      "fund_ok bd' \<Longrightarrow> moves (\<lambda>c. bit_fund c bd' - bit_fund c b2) db db1" by (elim modify_bitassetE) blast
    then have "b2 = bd" using b by (auto simp: get_asset_def bitasset_data_def)
    with ok b2(3) ns have "settlement_fund bd = 0" by (auto simp: db_ok_def fund_ok_def)
    with b2(4) k show "moves (\<lambda>_. 0) db db1" by (simp add: \<open>b2 = bd\<close> fund_ok_def)
  qed
  with r show ?thesis using check_call_orders_moves [OF _ assms(3)] moves_zero_trans by blast
qed

lemma asset_update_feed_producers_apply_moves [moves_intros]:
  assumes "asset_update_feed_producers_apply n fuel lib x db = Inr db'" "safe_exact (fc_safe lib)"
  shows "moves (\<lambda>_. 0) db db'"
proof -
  from assms(1) obtain db1 k where m: "modify_bitasset (up_asset_to_update x) (\<lambda>bd. update_median_feeds (head_block_time db) (maint_time db)
       (bd\<lparr>feeds := change_producers (new_feed_producers x) (feeds bd)\<rparr>)) db = Inr db1"
    and c: "check_call_orders n fuel lib (up_asset_to_update x) True False db1 = Inr (k, db')"
    by (auto simp: asset_update_feed_producers_apply_def)
  have "moves (\<lambda>_. 0) db db1" using m by (rule modify_bitasset_neutral) (auto dest!: update_median_feeds_keeps)
  with check_call_orders_moves [OF c assms(2)] show ?thesis using moves_zero_trans by blast
qed

lemma revive_after_feed_moves:
  assumes "revive_after_feed lib a ao db = Inr db'" "safe_exact (fc_safe lib)"
  shows "moves (\<lambda>_. 0) db db'"
  using assms(1) revive_bitasset_moves [OF _ assms(2)] by (auto simp: revive_after_feed_def split: if_splits)

lemma asset_publish_feeds_apply_moves [moves_intros]:
  assumes "asset_publish_feeds_apply n fuel lib x db = Inr db'" "safe_exact (fc_safe lib)"
  shows "moves (\<lambda>_. 0) db db'"
proof -
  from assms(1) obtain ao db1 where m: "modify_bitasset (pf_asset_id x) (\<lambda>bd. update_median_feeds (head_block_time db) (maint_time db)
       (bd\<lparr>feeds := set_feed (pf_publisher x) (head_block_time db, pf_feed x) (feeds bd)\<rparr>)) db = Inr db1"
    and r: "db' = db1 \<or> (\<exists>db2 k. revive_after_feed lib (pf_asset_id x) ao db1 = Inr db2 \<and> check_call_orders n fuel lib (pf_asset_id x) True False db2 = Inr (k, db'))"
    by (auto simp: asset_publish_feeds_apply_def split: if_splits)
  have "moves (\<lambda>_. 0) db db1" using m by (rule modify_bitasset_neutral) (auto dest!: update_median_feeds_keeps)
  with r show ?thesis by (metis check_call_orders_moves [OF _ assms(2)] revive_after_feed_moves [OF _ assms(2)] moves_zero_trans)
qed

lemma asset_global_settle_apply_moves [moves_intros]:
  "asset_global_settle_apply lib x db = Inr db' \<Longrightarrow> safe_exact (fc_safe lib) \<Longrightarrow> moves (\<lambda>_. 0) db db'"
  unfolding asset_global_settle_apply_def by (rule globally_settle_moves)

text \<open>The settlement price of a globally settled asset is between the asset and its backing asset.\<close>

definition settlement_matches :: "asset_id \<Rightarrow> database \<Rightarrow> bool" where
  "settlement_matches a db \<longleftrightarrow> (\<forall>ao bd. get_asset db a = Inr ao \<longrightarrow> bitasset_data db ao = Inr bd \<longrightarrow> has_settlement bd \<longrightarrow>
     asset_id (base (bd_settlement_price bd)) = a \<and> asset_id (quote (bd_settlement_price bd)) = short_backing_asset (bd_options bd)
     \<and> a \<noteq> short_backing_asset (bd_options bd))"

lemma settled_amount_ids:
  assumes "settled_amount x bd supply maint = Inr (settled, pays)" "asset_id (base (bd_settlement_price bd)) = asset_id (as_amount x)"
    "asset_id (quote (bd_settlement_price bd)) \<noteq> asset_id (as_amount x)"
  shows "asset_id settled = asset_id (quote (bd_settlement_price bd)) \<and> asset_id pays = asset_id (as_amount x)"
  using assms by (auto simp: settled_amount_def asset_times_price_def multiply_and_round_up_def Let_def split: if_splits)

lemma pay_from_fund_moves:
  assumes "pay_from_fund lib a acc settled db = Inr db'" "safe_exact (fc_safe lib)" "get_asset db a = Inr ao" "bitasset_data db ao = Inr bd"
    "has_settlement bd" "asset_id settled = short_backing_asset (bd_options bd)"
  shows "moves (\<lambda>_. 0) db db'"
proof (cases "amount settled > 0")
  case True
  with assms(1) obtain db1 where m: "modify_bitasset a (\<lambda>b. res_bind (fc_safe lib (settlement_fund b - amount settled)) (\<lambda>y. Inr (b\<lparr>settlement_fund := y\<rparr>))) db = Inr db1"
    and a: "adjust_balance lib acc settled db1 = Inr db'" unfolding pay_from_fund_def by (auto simp del: res_bind_Inr elim!: res_bind_InrE)
  from m obtain b y where b: "b = bd" "fc_safe lib (settlement_fund b - amount settled) = Inr y"
    and mv: "fund_ok (b\<lparr>settlement_fund := y\<rparr>) \<Longrightarrow> moves (\<lambda>c. bit_fund c (b\<lparr>settlement_fund := y\<rparr>) - bit_fund c b) db db1"
    using assms(3,4) by (elim modify_bitassetE) (auto simp: get_asset_def bitasset_data_def)
  have "y = settlement_fund bd - amount settled" using safe_exactD [OF assms(2) b(2)] b(1) by simp
  then have "bit_fund c (b\<lparr>settlement_fund := y\<rparr>) - bit_fund c b = - part settled c" for c
    using assms(6) b(1) by (simp add: bit_fund_def Chain_State.part_def)
  with mv assms(5) b(1) have "moves (\<lambda>c. - part settled c) db db1" by (simp add: fund_ok_def has_settlement_def)
  from ledger.moves_trans [OF this moves_adjust_balance [OF a assms(2)]] show ?thesis by simp
qed (use assms(1) in \<open>simp add: pay_from_fund_def\<close>)

lemma asset_settle_apply_moves:
  assumes "asset_settle_apply lib x db = Inr db'" "settlement_matches (asset_id (as_amount x)) db" "safe_exact (fc_safe lib)"
  shows "moves (\<lambda>_. 0) db db'"
proof -
  let ?a = "asset_id (as_amount x)"
  from assms(1) obtain ao bd where b: "get_asset db ?a = Inr ao" "bitasset_data db ao = Inr bd" by (auto simp: asset_settle_apply_def Let_def)
  show ?thesis
  proof (cases "has_settlement bd")
    case True
    with assms(1) b obtain cs settled pays neg db1 db2 where s: "settled_amount x bd cs (maint_time db) = Inr (settled, pays)"
      and p: "asset_neg (fc_safe lib) pays = Inr neg" "adjust_balance lib (as_account x) neg db = Inr db1"
      and f: "pay_from_fund lib ?a (as_account x) settled db1 = Inr db2" "modify_dyn_data ?a (sub_current_supply lib (amount pays)) db2 = Inr db'"
      by (auto simp: asset_settle_apply_def Let_def simp del: res_bind_Inr elim!: res_bind_InrE)
    have m: "asset_id (base (bd_settlement_price bd)) = ?a" "asset_id (quote (bd_settlement_price bd)) = short_backing_asset (bd_options bd)"
      "short_backing_asset (bd_options bd) \<noteq> ?a" using assms(2) b True unfolding settlement_matches_def by auto
    have ids: "asset_id settled = short_backing_asset (bd_options bd)" "asset_id pays = ?a" using settled_amount_ids [OF s] m by auto
    have "get_asset db1 ?a = Inr ao" "bitasset_data db1 ao = Inr bd"
      using b bitasset_data_same_market [OF same_market_adjust_balance [OF p(2)]] by auto
    from pay_from_fund_moves [OF f(1) assms(3) this True ids(1)] moves_dyn_data(1) [OF assms(3) f(2)]
    have "moves (part pays) db1 db'" using ledger.moves_trans [of "\<lambda>_. 0" db1 db2 "part pays"] by (simp flip: ids(2))
    then show ?thesis by (rule store_moves [OF p _ assms(3)])
  next
    case False
    with assms(1) b obtain neg db1 date where s: "asset_neg (fc_safe lib) (as_amount x) = Inr neg" "adjust_balance lib (as_account x) neg db = Inr db1"
      "db' = db1\<lparr>settlements := ix_create \<lparr>fs_owner = as_account x, fs_balance = as_amount x, settlement_date = date\<rparr> (settlements db1)\<rparr>"
      by (auto simp: asset_settle_apply_def Let_def)
    show ?thesis using store_moves [OF s(1,2) _ assms(3)] moves_create(2) [of "\<lparr>fs_owner = as_account x, fs_balance = as_amount x, settlement_date = date\<rparr>" db1]
      by (simp add: s(3))
  qed
qed

subsection \<open>The contract holds for each of them\<close>

interpretation asset_create: fee_paying_evaluator lib "asset_create_evaluate x" "convert_fee lib False" "asset_create_pay_fee lib False"
  "asset_create_apply lib x" create_kept "\<lambda>_. 0 \<le> max_market_fee (common_options x)" "\<lambda>_. 0 \<le> max_market_fee (common_options x)" for lib x
  by unfold_locales (auto intro: asset_create_fee_routed asset_create_apply_moves)

interpretation asset_issue: plain_evaluator lib "asset_issue_evaluate lib x" "asset_issue_apply lib x" "\<lambda>_. True" "\<lambda>_. True" for lib x
  by unfold_locales (auto intro: moves_intros)

interpretation asset_reserve: plain_evaluator lib "asset_reserve_evaluate lib x" "asset_reserve_apply lib x" "\<lambda>_. True" "\<lambda>_. True" for lib x
  by unfold_locales (auto intro: moves_intros)

interpretation asset_fund_fee_pool: plain_evaluator lib "asset_fund_fee_pool_evaluate x" "asset_fund_fee_pool_apply lib x" "\<lambda>_. True" "\<lambda>_. True" for lib x
  by unfold_locales (auto intro: moves_intros)

interpretation asset_claim_fees: plain_evaluator lib "asset_claim_fees_evaluate x" "asset_claim_fees_apply lib x" "\<lambda>_. True" "\<lambda>_. True" for lib x
  by unfold_locales (auto intro: moves_intros)

interpretation asset_claim_pool: plain_evaluator lib "asset_claim_pool_evaluate x" "asset_claim_pool_apply lib x"
  "\<lambda>_. asset_id (cp_amount_to_claim x) = core_asset" "\<lambda>_. asset_id (cp_amount_to_claim x) = core_asset" for lib x
  by unfold_locales (auto intro: asset_claim_pool_apply_moves)

interpretation asset_update: plain_evaluator lib "asset_update_evaluate x" "asset_update_apply lib x"
  "\<lambda>_. 0 \<le> max_market_fee (au_new_options x)" "\<lambda>_. 0 \<le> max_market_fee (au_new_options x)" for lib x
  by unfold_locales (auto intro: asset_update_apply_moves)

interpretation asset_update_issuer: plain_evaluator lib "asset_update_issuer_evaluate x" "asset_update_issuer_apply x" "\<lambda>_. True" "\<lambda>_. True" for lib x
  by unfold_locales (auto intro: moves_intros)

lemma asset_update_bitasset_checks:
  "asset_update_bitasset_evaluate x db = Inr () \<Longrightarrow> same_market db db' \<Longrightarrow> not_settled (ub_asset_to_update x) db'"
  by (auto simp: asset_update_bitasset_evaluate_def not_settled_def Let_def bitasset_data_same_market simp del: res_bind_Inr elim!: res_bind_InrE)

interpretation asset_update_bitasset: plain_evaluator lib "asset_update_bitasset_evaluate x" "asset_update_bitasset_apply n fuel lib x"
  "\<lambda>_. True" "not_settled (ub_asset_to_update x)" for lib x n fuel
  by unfold_locales (auto intro: asset_update_bitasset_apply_moves asset_update_bitasset_checks)

interpretation asset_update_feed_producers: plain_evaluator lib "asset_update_feed_producers_evaluate x" "asset_update_feed_producers_apply n fuel lib x"
  "\<lambda>_. True" "\<lambda>_. True" for lib x n fuel
  by unfold_locales (auto intro: moves_intros)

interpretation asset_publish_feeds: plain_evaluator lib "asset_publish_feeds_evaluate x" "asset_publish_feeds_apply n fuel lib x"
  "\<lambda>_. True" "\<lambda>_. True" for lib x n fuel
  by unfold_locales (auto intro: moves_intros)

interpretation asset_global_settle: plain_evaluator lib "asset_global_settle_evaluate x" "asset_global_settle_apply lib x" "\<lambda>_. True" "\<lambda>_. True" for lib x
  by unfold_locales (auto intro: moves_intros)

interpretation asset_settle: plain_evaluator lib "asset_settle_evaluate x" "asset_settle_apply lib x"
  "settlement_matches (asset_id (as_amount x))" "settlement_matches (asset_id (as_amount x))" for lib x
  by unfold_locales (auto intro: asset_settle_apply_moves simp: settlement_matches_def bitasset_data_same_market)

end
