(* ===== verification/Payment_Evaluators.thy ===== *)
theory Payment_Evaluators
  imports Market_Evaluators
begin

text \<open>
  The evaluators of recurring withdrawals (\<open>withdraw_permission_evaluator.cpp\<close>, \<open>withdraw_permission_object.hpp\<close>), of hash time locked contracts
  (\<open>htlc_evaluator.cpp\<close>, \<open>clear_expired_htlcs\<close> of \<open>db_update.cpp\<close>) and of genesis balances (\<open>balance_evaluator.cpp\<close>).

  Hash functions and the address forms of a public key belong to \<open>fc\<close>: the operations that use them take them as arguments.
  A sum of a \<open>time_point_sec\<close> and a number of seconds is 32 bits wide, as are products of such numbers.
\<close>

subsection \<open>Withdrawal permissions\<close>

definition withdraw_permission_create_evaluate :: "withdraw_permission_create_operation \<Rightarrow> database \<Rightarrow> unit res" where
  "withdraw_permission_create_evaluate x db =
     res_bind (find_account db (wc_withdraw_from_account x)) (\<lambda>_.
     res_bind (find_account db (wc_authorized_account x)) (\<lambda>_.
     res_bind (get_asset db (asset_id (wc_withdrawal_limit x))) (\<lambda>_.
     FC_ASSERT (wc_period_start_time x > head_block_time db) ''op.period_start_time > d.head_block_time()''
    (FC_ASSERT (time_plus (wc_period_start_time x) (u32_times (wc_periods_until_expiration x) (wc_withdrawal_period_sec x)) > head_block_time db)
       ''op.period_start_time + op.periods_until_expiration * op.withdrawal_period_sec > d.head_block_time()''
    (FC_ASSERT (wc_withdrawal_period_sec x \<ge> block_interval (parameters db)) ''op.withdrawal_period_sec >= block_interval'' (Inr ()))))))"

definition withdraw_permission_create_apply :: "withdraw_permission_create_operation \<Rightarrow> database \<Rightarrow> database res" where
  "withdraw_permission_create_apply x db =
     Inr (db\<lparr>withdraw_permissions := ix_create
       \<lparr>withdraw_from_account = wc_withdraw_from_account x, authorized_account = wc_authorized_account x, withdrawal_limit = wc_withdrawal_limit x,
        withdrawal_period_sec = wc_withdrawal_period_sec x, period_start_time = wc_period_start_time x,
        wp_expiration = time_plus (wc_period_start_time x) (u32_times (wc_periods_until_expiration x) (wc_withdrawal_period_sec x)),
        claimed_this_period = 0\<rparr> (withdraw_permissions db)\<rparr>)"

definition available_this_period :: "fc_lib \<Rightarrow> withdraw_permission_object \<Rightarrow> time_sec \<Rightarrow> asset res" where
  "available_this_period lib p now =
     (if now \<ge> time_plus (period_start_time p) (withdrawal_period_sec p) then Inr (withdrawal_limit p)
      else if amount (withdrawal_limit p) > claimed_this_period p
      then res_bind (fc_safe lib (amount (withdrawal_limit p) - claimed_this_period p)) (\<lambda>a. Inr (mk_asset a (asset_id (withdrawal_limit p))))
      else Inr (mk_asset 0 (asset_id (withdrawal_limit p))))"

definition get_permit :: "database \<Rightarrow> obj_id \<Rightarrow> withdraw_permission_object res" where
  "get_permit db i = opt_get ''Unable to find Object'' (ix_get i (withdraw_permissions db))"

text \<open>The part of the check that concerns the permission alone, and its update.\<close>

definition check_claim :: "fc_lib \<Rightarrow> withdraw_permission_object \<Rightarrow> time_sec \<Rightarrow> asset \<Rightarrow> unit res" where
  "check_claim lib permit now x =
     FC_ASSERT (period_start_time permit \<le> now) ''permit.period_start_time <= head_block_time''
    (res_bind (available_this_period lib permit now) (\<lambda>available.
     res_bind (asset_le x available) (\<lambda>ok.
     FC_ASSERT ok ''op.amount_to_withdraw <= permit.available_this_period( head_block_time )'' (Inr ()))))"

definition claim_permit :: "fc_lib \<Rightarrow> time_sec \<Rightarrow> asset \<Rightarrow> withdraw_permission_object \<Rightarrow> withdraw_permission_object res" where
  "claim_permit lib now x p =
     (if withdrawal_period_sec p = 0 then Inl (Throw_exn ''division by zero'')
      else let periods = (now - period_start_time p) div withdrawal_period_sec p;
               p1 = p\<lparr>period_start_time := time_plus (period_start_time p) (periods * withdrawal_period_sec p)\<rparr> in
      if periods = 0
      then res_bind (fc_safe lib (claimed_this_period p + amount x)) (\<lambda>c. Inr (p1\<lparr>claimed_this_period := c\<rparr>))
      else Inr (p1\<lparr>claimed_this_period := amount x\<rparr>))"

definition withdraw_permission_claim_evaluate :: "fc_lib \<Rightarrow> withdraw_permission_claim_operation \<Rightarrow> database \<Rightarrow> unit res" where
  "withdraw_permission_claim_evaluate lib x db =
     res_bind (get_permit db (wd_withdraw_permission x)) (\<lambda>permit.
     FC_ASSERT (wp_expiration permit > head_block_time db) ''permit.expiration > head_block_time''
    (FC_ASSERT (authorized_account permit = wd_withdraw_to_account x) ''permit.authorized_account == op.withdraw_to_account''
    (FC_ASSERT (withdraw_from_account permit = wd_withdraw_from_account x) ''permit.withdraw_from_account == op.withdraw_from_account''
    (res_bind (check_claim lib permit (head_block_time db) (amount_to_withdraw x)) (\<lambda>_.
     res_bind (asset_ge (get_balance db (wd_withdraw_from_account x) (asset_id (amount_to_withdraw x))) (amount_to_withdraw x)) (\<lambda>enough.
     FC_ASSERT enough ''d.get_balance(op.withdraw_from_account, op.amount_to_withdraw.asset_id) >= op.amount_to_withdraw''
    (res_bind (get_asset db (asset_id (amount_to_withdraw x))) (\<lambda>ao.
     FC_ASSERT (is_transfer_restricted ao \<longrightarrow> issuer ao = authorized_account permit \<or> issuer ao = withdraw_from_account permit)
       ''Asset has transfer_restricted flag enabled''
    (res_bind (get_account db (authorized_account permit)) (\<lambda>to_account.
     FC_ASSERT (is_authorized_asset to_account (asset_id (amount_to_withdraw x)) ao) ''Account is unauthorized to transact asset''
    (res_bind (get_account db (wd_withdraw_from_account x)) (\<lambda>from_account.
     FC_ASSERT (is_authorized_asset from_account (asset_id (amount_to_withdraw x)) ao) ''Account is unauthorized to withdraw asset'' (Inr ())))))))))))))"

definition withdraw_permission_claim_apply :: "fc_lib \<Rightarrow> withdraw_permission_claim_operation \<Rightarrow> database \<Rightarrow> database res" where
  "withdraw_permission_claim_apply lib x db =
     res_bind (ix_modify (wd_withdraw_permission x) (claim_permit lib (head_block_time db) (amount_to_withdraw x)) (withdraw_permissions db)) (\<lambda>ix.
     res_bind (asset_neg (fc_safe lib) (amount_to_withdraw x)) (\<lambda>neg.
     res_bind (adjust_balance lib (wd_withdraw_from_account x) neg (db\<lparr>withdraw_permissions := ix\<rparr>)) (\<lambda>db1.
       adjust_balance lib (wd_withdraw_to_account x) (amount_to_withdraw x) db1)))"

definition withdraw_permission_update_evaluate :: "withdraw_permission_update_operation \<Rightarrow> database \<Rightarrow> unit res" where
  "withdraw_permission_update_evaluate x db =
     res_bind (get_permit db (permission_to_update x)) (\<lambda>permit.
     FC_ASSERT (authorized_account permit = wu_authorized_account x) ''permit.authorized_account == op.authorized_account''
    (FC_ASSERT (withdraw_from_account permit = wu_withdraw_from_account x) ''permit.withdraw_from_account == op.withdraw_from_account''
    (res_bind (get_asset db (asset_id (wu_withdrawal_limit x))) (\<lambda>_.
     FC_ASSERT (wu_period_start_time x \<ge> head_block_time db) ''op.period_start_time >= d.head_block_time()''
    (FC_ASSERT (time_plus (wu_period_start_time x) (u32_times (wu_periods_until_expiration x) (wu_withdrawal_period_sec x)) > head_block_time db)
       ''op.period_start_time + op.periods_until_expiration * op.withdrawal_period_sec > d.head_block_time()''
    (FC_ASSERT (wu_withdrawal_period_sec x \<ge> block_interval (parameters db)) ''op.withdrawal_period_sec >= block_interval'' (Inr ())))))))"

definition withdraw_permission_update_apply :: "withdraw_permission_update_operation \<Rightarrow> database \<Rightarrow> database res" where
  "withdraw_permission_update_apply x db =
     res_bind (ix_modify (permission_to_update x) (\<lambda>p. Inr (p\<lparr>period_start_time := wu_period_start_time x,
       wp_expiration := time_plus (wu_period_start_time x) (u32_times (wu_periods_until_expiration x) (wu_withdrawal_period_sec x)),
       withdrawal_limit := wu_withdrawal_limit x, withdrawal_period_sec := wu_withdrawal_period_sec x\<rparr>)) (withdraw_permissions db)) (\<lambda>ix.
     Inr (db\<lparr>withdraw_permissions := ix\<rparr>))"

definition withdraw_permission_delete_evaluate :: "withdraw_permission_delete_operation \<Rightarrow> database \<Rightarrow> unit res" where
  "withdraw_permission_delete_evaluate x db =
     res_bind (get_permit db (withdrawal_permission x)) (\<lambda>permit.
     FC_ASSERT (authorized_account permit = wx_authorized_account x) ''permit.authorized_account == op.authorized_account''
    (FC_ASSERT (withdraw_from_account permit = wx_withdraw_from_account x) ''permit.withdraw_from_account == op.withdraw_from_account'' (Inr ())))"

definition withdraw_permission_delete_apply :: "withdraw_permission_delete_operation \<Rightarrow> database \<Rightarrow> database res" where
  "withdraw_permission_delete_apply x db =
     res_bind (get_permit db (withdrawal_permission x)) (\<lambda>_.
     Inr (db\<lparr>withdraw_permissions := ix_remove (withdrawal_permission x) (withdraw_permissions db)\<rparr>))"

subsection \<open>Hash time locked contracts\<close>

definition htlc_create_evaluate :: "htlc_create_operation \<Rightarrow> database \<Rightarrow> unit res" where
  "htlc_create_evaluate x db =
     (case updatable_htlc_options (parameters db) of
        None \<Rightarrow> Inl (Assert_exn ''HTLC Committee options are not set.'')
      | Some (max_timeout_secs, max_preimage_size) \<Rightarrow>
          FC_ASSERT (claim_period_seconds x \<le> max_timeout_secs) ''HTLC Timeout exceeds allowed length''
         (FC_ASSERT (hc_preimage_size x \<le> max_preimage_size) ''HTLC preimage length exceeds allowed length''
         (res_bind (asset_ge (get_balance db (hc_from x) (asset_id (hc_amount x))) (hc_amount x)) (\<lambda>enough.
          FC_ASSERT enough ''Insufficient funds''
         (res_bind (get_asset db (asset_id (hc_amount x))) (\<lambda>ao.
          res_bind (get_account db (hc_from x)) (\<lambda>from_account.
          res_bind (get_account db (hc_to x)) (\<lambda>to_account.
          FC_ASSERT (is_authorized_asset from_account (asset_id (hc_amount x)) ao) ''Asset is not authorized for account.''
         (FC_ASSERT (is_authorized_asset to_account (asset_id (hc_amount x)) ao) ''Asset is not authorized for account.'' (Inr ()))))))))))"

definition htlc_create_apply :: "fc_lib \<Rightarrow> htlc_create_operation \<Rightarrow> database \<Rightarrow> database res" where
  "htlc_create_apply lib x db =
     res_bind (asset_neg (fc_safe lib) (hc_amount x)) (\<lambda>neg.
     res_bind (adjust_balance lib (hc_from x) neg db) (\<lambda>db1.
     Inr (db1\<lparr>htlcs := ix_create \<lparr>htlc_from = hc_from x, htlc_to = hc_to x, htlc_amount = amount (hc_amount x), htlc_asset_id = asset_id (hc_amount x),
       preimage_hash = hc_preimage_hash x, preimage_size = hc_preimage_size x,
       htlc_expiration = time_plus (head_block_time db) (claim_period_seconds x)\<rparr> (htlcs db1)\<rparr>)))"

definition get_htlc :: "database \<Rightarrow> obj_id \<Rightarrow> htlc_object res" where
  "get_htlc db i = opt_get ''Unable to find Object'' (ix_get i (htlcs db))"

definition htlc_redeem_visitor :: "(nat \<Rightarrow> nat list \<Rightarrow> nat list) \<Rightarrow> nat list \<Rightarrow> htlc_hash \<Rightarrow> bool" where
  "htlc_redeem_visitor hash data h \<longleftrightarrow> hash (fst h) data = snd h"

definition htlc_redeem_evaluate :: "(nat \<Rightarrow> nat list \<Rightarrow> nat list) \<Rightarrow> htlc_redeem_operation \<Rightarrow> database \<Rightarrow> unit res" where
  "htlc_redeem_evaluate hash x db =
     res_bind (get_htlc db (hr_htlc_id x)) (\<lambda>h.
     FC_ASSERT (length (preimage x) = preimage_size h) ''Preimage size mismatch.''
    (FC_ASSERT (htlc_redeem_visitor hash (preimage x) (preimage_hash h)) ''Provided preimage does not generate correct hash.'' (Inr ())))"

definition htlc_redeem_apply :: "fc_lib \<Rightarrow> htlc_redeem_operation \<Rightarrow> database \<Rightarrow> database res" where
  "htlc_redeem_apply lib x db =
     res_bind (get_htlc db (hr_htlc_id x)) (\<lambda>h.
     let funds = mk_asset (htlc_amount h) (htlc_asset_id h) in
     res_bind (adjust_balance lib (htlc_to h) funds db) (\<lambda>db1.
     let db2 = push_applied_operation (Htlc_redeemed_vop (hr_htlc_id x) (htlc_from h) (htlc_to h) (redeemer x) funds) db1 in
     Inr (db2\<lparr>htlcs := ix_remove (hr_htlc_id x) (htlcs db2)\<rparr>)))"

text \<open>The extension dereferences the committee options without a check; without them its behaviour is undefined.\<close>

definition htlc_extend_evaluate :: "htlc_extend_operation \<Rightarrow> database \<Rightarrow> unit res" where
  "htlc_extend_evaluate x db =
     res_bind (get_htlc db (he_htlc_id x)) (\<lambda>h.
     FC_ASSERT (update_issuer x = htlc_from h) ''HTLC may only be extended by its creator.''
    (FC_ASSERT (htlc_expiration h + seconds_to_add x < time_maximum) ''Extension would cause an invalid date''
    (case updatable_htlc_options (parameters db) of
       None \<Rightarrow> Inl (Throw_exn ''undefined behaviour: no HTLC options'')
     | Some (max_timeout_secs, _) \<Rightarrow>
         FC_ASSERT (time_plus (htlc_expiration h) (seconds_to_add x) \<le> time_plus (head_block_time db) max_timeout_secs)
           ''Extension pushes contract too far into the future'' (Inr ()))))"

definition htlc_extend_apply :: "htlc_extend_operation \<Rightarrow> database \<Rightarrow> database res" where
  "htlc_extend_apply x db =
     res_bind (ix_modify (he_htlc_id x) (\<lambda>h. Inr (h\<lparr>htlc_expiration := time_plus (htlc_expiration h) (seconds_to_add x)\<rparr>)) (htlcs db)) (\<lambda>ix.
     Inr (db\<lparr>htlcs := ix\<rparr>))"

definition refund_htlc :: "fc_lib \<Rightarrow> obj_id \<Rightarrow> database \<Rightarrow> database res" where
  "refund_htlc lib i db =
     res_bind (get_htlc db i) (\<lambda>h.
     res_bind (adjust_balance lib (htlc_from h) (mk_asset (htlc_amount h) (htlc_asset_id h)) db) (\<lambda>db1.
     let db2 = push_applied_operation (Htlc_refund_vop i (htlc_from h)) db1 in
     Inr (db2\<lparr>htlcs := ix_remove i (htlcs db2)\<rparr>)))"

text \<open>The contracts that have expired, in the order of the index \<open>by_expiration\<close>; refunding one does not change the others.\<close>

definition expired_htlcs :: "database \<Rightarrow> obj_id list" where
  "expired_htlcs db = map fst (takeWhile (\<lambda>h. htlc_expiration (snd h) \<le> head_block_time db) (sorted_index earlier htlc_expiration (htlcs db)))"

definition clear_expired_htlcs :: "fc_lib \<Rightarrow> database \<Rightarrow> database res" where
  "clear_expired_htlcs lib db = res_fold (refund_htlc lib) (expired_htlcs db) db"

subsection \<open>Genesis balances\<close>

definition get_balance_object :: "database \<Rightarrow> obj_id \<Rightarrow> balance_object res" where
  "get_balance_object db i = opt_get ''Unable to find Object'' (ix_get i (balance_objects db))"

text \<open>\<open>addresses\<close> gives the address and the four \<open>pts_address\<close> forms of a public key.\<close>

definition balance_claim_evaluate :: "fc_lib \<Rightarrow> (nat \<Rightarrow> nat list) \<Rightarrow> balance_claim_operation \<Rightarrow> database \<Rightarrow> unit res" where
  "balance_claim_evaluate lib addresses x db =
     res_bind (get_balance_object db (balance_to_claim x)) (\<lambda>bo.
     FC_ASSERT (bo_owner bo \<in> set (addresses (balance_owner_key x))) ''balance_claim_owner_mismatch''
    (FC_ASSERT (asset_id (total_claimed x) = asset_id (bo_balance bo)) ''op.total_claimed.asset_id == balance->asset_type()''
    (case bo_vesting_policy bo of
       Some policy \<Rightarrow>
         res_bind (linear_is_withdraw_allowed lib policy (mk_ctx (bo_balance bo) (head_block_time db) (total_claimed x))) (\<lambda>allowed.
         FC_ASSERT allowed ''balance_claim_invalid_claim_amount''
        (FC_ASSERT (int (head_block_time db) - int (last_claim_date bo) \<ge> 86400) ''balance_claim_claimed_too_often'' (Inr ())))
     | None \<Rightarrow> FC_ASSERT (total_claimed x = bo_balance bo) ''op.total_claimed == balance->balance'' (Inr ()))))"

definition claim_balance :: "fc_lib \<Rightarrow> time_sec \<Rightarrow> asset \<Rightarrow> linear_vesting_policy \<Rightarrow> balance_object \<Rightarrow> balance_object res" where
  "claim_balance lib now claimed policy b =
     res_bind (linear_on_withdraw policy (mk_ctx (bo_balance b) now claimed)) (\<lambda>policy'.
     res_bind (asset_sub (fc_safe lib) (bo_balance b) claimed) (\<lambda>rest.
     Inr (b\<lparr>bo_vesting_policy := Some policy', bo_balance := rest, last_claim_date := now\<rparr>)))"

definition take_claim :: "fc_lib \<Rightarrow> balance_claim_operation \<Rightarrow> database \<Rightarrow> database res" where
  "take_claim lib x db =
     res_bind (get_balance_object db (balance_to_claim x)) (\<lambda>bo.
     res_bind (if bo_vesting_policy bo = None then Inr False else asset_less (total_claimed x) (bo_balance bo)) (\<lambda>partial.
     case bo_vesting_policy bo of
       Some policy \<Rightarrow>
         if partial
         then res_bind (ix_modify (balance_to_claim x) (claim_balance lib (head_block_time db) (total_claimed x) policy) (balance_objects db)) (\<lambda>ix.
              Inr (db\<lparr>balance_objects := ix\<rparr>))
         else Inr (db\<lparr>balance_objects := ix_remove (balance_to_claim x) (balance_objects db)\<rparr>)
     | None \<Rightarrow> Inr (db\<lparr>balance_objects := ix_remove (balance_to_claim x) (balance_objects db)\<rparr>)))"

definition balance_claim_apply :: "fc_lib \<Rightarrow> balance_claim_operation \<Rightarrow> database \<Rightarrow> database res" where
  "balance_claim_apply lib x db =
     res_bind (take_claim lib x db) (\<lambda>db1. adjust_balance lib (deposit_to_account x) (total_claimed x) db1)"

subsection \<open>What the operations move\<close>

lemma withdraw_permission_create_apply_moves [moves_intros]: "withdraw_permission_create_apply x db = Inr db' \<Longrightarrow> moves (\<lambda>_. 0) db db'"
  by (auto simp: withdraw_permission_create_apply_def intro: moves_neutral)

lemma withdraw_permission_update_apply_moves [moves_intros]: "withdraw_permission_update_apply x db = Inr db' \<Longrightarrow> moves (\<lambda>_. 0) db db'"
  by (auto simp: withdraw_permission_update_apply_def intro: moves_neutral)

lemma withdraw_permission_delete_apply_moves [moves_intros]: "withdraw_permission_delete_apply x db = Inr db' \<Longrightarrow> moves (\<lambda>_. 0) db db'"
  by (auto simp: withdraw_permission_delete_apply_def intro: moves_neutral)

lemma withdraw_permission_claim_apply_moves [moves_intros]:
  assumes "withdraw_permission_claim_apply lib x db = Inr db'" "safe_exact (fc_safe lib)"
  shows "moves (\<lambda>_. 0) db db'"
proof -
  from assms(1) obtain ix neg db1 where s: "asset_neg (fc_safe lib) (amount_to_withdraw x) = Inr neg"
    "adjust_balance lib (wd_withdraw_from_account x) neg (db\<lparr>withdraw_permissions := ix\<rparr>) = Inr db1"
    "adjust_balance lib (wd_withdraw_to_account x) (amount_to_withdraw x) db1 = Inr db'"
    unfolding withdraw_permission_claim_apply_def by (elim res_bind_InrE) (rule that)
  from moves_neutral(2) pay_over_moves [OF s assms(2)] show ?thesis by (rule moves_zero_trans)
qed

lemma htlc_create_apply_moves [moves_intros]:
  assumes "htlc_create_apply lib x db = Inr db'" "safe_exact (fc_safe lib)"
  shows "moves (\<lambda>_. 0) db db'"
proof -
  from assms(1) obtain neg db1 h where s: "asset_neg (fc_safe lib) (hc_amount x) = Inr neg" "adjust_balance lib (hc_from x) neg db = Inr db1"
    "db' = db1\<lparr>htlcs := ix_create h (htlcs db1)\<rparr>" "htlc_amount h = amount (hc_amount x)" "htlc_asset_id h = asset_id (hc_amount x)"
    by (auto simp: htlc_create_apply_def)
  show ?thesis using store_moves [OF s(1,2) _ assms(2)] moves_create(4) [of h db1] by (simp add: s(3-5))
qed

lemma moves_remove_htlc:
  "ix_get i (htlcs db) = Some h \<Longrightarrow> moves (\<lambda>a. - part (mk_asset (htlc_amount h) (htlc_asset_id h)) a) db (db\<lparr>htlcs := ix_remove i (htlcs db)\<rparr>)"
  by (rule moves_htlcs) (auto simp: table_simps intro: ix_ok_remove)

text \<open>Paying out the funds of a contract and removing it.\<close>

lemma pay_htlc_moves:
  assumes "ix_get i (htlcs db) = Some h" "adjust_balance lib acc (mk_asset (htlc_amount h) (htlc_asset_id h)) db = Inr db1" "safe_exact (fc_safe lib)"
    "db' = (push_applied_operation vop db1)\<lparr>htlcs := ix_remove i (htlcs db1)\<rparr>"
  shows "moves (\<lambda>_. 0) db db'"
proof -
  let ?db2 = "push_applied_operation vop db1"
  have h: "htlcs ?db2 = htlcs db1" "ix_get i (htlcs db1) = Some h"
    using assms(1) same_market_adjust_balance [OF assms(2)] by (simp_all add: push_applied_operation_def same_market_def)
  have "moves (\<lambda>a. - part (mk_asset (htlc_amount h) (htlc_asset_id h)) a) ?db2 db'"
    unfolding assms(4) using moves_remove_htlc [of i ?db2 h] h by simp
  from ledger.moves_trans [OF ledger.moves_trans [OF moves_adjust_balance [OF assms(2,3)] moves_push] this] show ?thesis by simp
qed

lemma htlc_redeem_apply_moves [moves_intros]:
  assumes "htlc_redeem_apply lib x db = Inr db'" "safe_exact (fc_safe lib)"
  shows "moves (\<lambda>_. 0) db db'"
  using assms(1) by (auto simp: htlc_redeem_apply_def get_htlc_def Let_def push_applied_operation_def intro!: pay_htlc_moves [OF _ _ assms(2)])

lemma refund_htlc_moves [moves_intros]:
  assumes "refund_htlc lib i db = Inr db'" "safe_exact (fc_safe lib)"
  shows "moves (\<lambda>_. 0) db db'"
  using assms(1) by (auto simp: refund_htlc_def get_htlc_def Let_def push_applied_operation_def intro!: pay_htlc_moves [OF _ _ assms(2)])

lemma clear_expired_htlcs_moves [moves_intros]:
  assumes "clear_expired_htlcs lib db = Inr db'" "safe_exact (fc_safe lib)"
  shows "moves (\<lambda>_. 0) db db'"
  by (rule ledger.moves_fold [OF assms(1) [unfolded clear_expired_htlcs_def]]) (rule refund_htlc_moves [OF _ assms(2)])

lemma htlc_extend_apply_moves [moves_intros]:
  assumes "htlc_extend_apply x db = Inr db'"
  shows "moves (\<lambda>_. 0) db db'"
proof -
  from assms obtain ix where ix: "ix_modify (he_htlc_id x) (\<lambda>h. Inr (h\<lparr>htlc_expiration := time_plus (htlc_expiration h) (seconds_to_add x)\<rparr>)) (htlcs db) = Inr ix"
    and db': "db' = db\<lparr>htlcs := ix\<rparr>" by (auto simp: htlc_extend_apply_def)
  show ?thesis unfolding db' by (rule moves_htlcs) (use ix in \<open>auto elim!: ix_modifyE intro: ix_ok_modify [OF _ ix]\<close>)
qed

text \<open>A vesting genesis balance has a sound linear policy, and time has not run out.\<close>

definition claim_sound :: "fc_lib \<Rightarrow> balance_claim_operation \<Rightarrow> database \<Rightarrow> bool" where
  "claim_sound lib x db \<longleftrightarrow> (\<forall>bo p. ix_get (balance_to_claim x) (balance_objects db) = Some bo \<longrightarrow> bo_vesting_policy bo = Some p \<longrightarrow>
     linear_inv lib p (bo_balance bo) (head_block_time db) \<and> head_block_time db < 2 ^ 32)"

text \<open>What the evaluation makes sure of: no more is claimed than there is, and everything unless the balance vests.\<close>

definition claim_fits :: "balance_claim_operation \<Rightarrow> database \<Rightarrow> bool" where
  "claim_fits x db \<longleftrightarrow> (\<forall>bo. ix_get (balance_to_claim x) (balance_objects db) = Some bo \<longrightarrow>
     asset_id (total_claimed x) = asset_id (bo_balance bo) \<and>
     (if bo_vesting_policy bo = None then total_claimed x = bo_balance bo else amount (total_claimed x) \<le> amount (bo_balance bo)))"

lemma balance_claim_checks:
  assumes "balance_claim_evaluate lib addresses x db = Inr ()" "claim_sound lib x db" "same_market db db'"
  shows "claim_fits x db'"
proof -
  have "amount (total_claimed x) \<le> amount (bo_balance bo)"
    if "ix_get (balance_to_claim x) (balance_objects db) = Some bo" "bo_vesting_policy bo = Some p"
      "linear_is_withdraw_allowed lib p (mk_ctx (bo_balance bo) (head_block_time db) (total_claimed x)) = Inr True" for bo p
  proof -
    have i: "linear_inv lib p (bo_balance bo) (head_block_time db)" "head_block_time db < 2 ^ 32" using assms(2) that(1,2) by (auto simp: claim_sound_def)
    show ?thesis using that(3) linear_avail_range [OF i(1)] linear_allowed [OF i]
      by (auto simp: linear_is_withdraw_allowed_def asset_le_def asset_less_def split: if_splits)
  qed
  then show ?thesis using assms(1,3)
    by (auto simp: claim_fits_def balance_claim_evaluate_def get_balance_object_def same_market_def simp del: res_bind_Inr elim!: res_bind_InrE split: option.splits)
qed

lemma take_claim_moves:
  assumes "take_claim lib x db = Inr db'" "claim_fits x db" "safe_exact (fc_safe lib)"
  shows "moves (\<lambda>a. - part (total_claimed x) a) db db'"
proof -
  from assms(1) obtain bo where bo: "ix_get (balance_to_claim x) (balance_objects db) = Some bo"
    unfolding take_claim_def get_balance_object_def by (elim res_bind_InrE) (simp only: opt_get_Inr)
  have fits: "asset_id (total_claimed x) = asset_id (bo_balance bo)"
    "if bo_vesting_policy bo = None then total_claimed x = bo_balance bo else amount (total_claimed x) \<le> amount (bo_balance bo)"
    using assms(2) bo unfolding claim_fits_def by blast+
  have less: "asset_less (total_claimed x) (bo_balance bo) = Inr (amount (total_claimed x) < amount (bo_balance bo))"
    using fits(1) by (simp add: asset_less_def)
  have whole: "total_claimed x = bo_balance bo" if "amount (total_claimed x) = amount (bo_balance bo)"
    using that fits(1) by (intro asset.equality) simp_all
  consider
      (part) p ix where "ix_modify (balance_to_claim x) (claim_balance lib (head_block_time db) (total_claimed x) p) (balance_objects db) = Inr ix"
        "db' = db\<lparr>balance_objects := ix\<rparr>"
    | (all) "db' = db\<lparr>balance_objects := ix_remove (balance_to_claim x) (balance_objects db)\<rparr>" "total_claimed x = bo_balance bo"
  proof (cases "bo_vesting_policy bo")
    case None
    then have "Inr (db\<lparr>balance_objects := ix_remove (balance_to_claim x) (balance_objects db)\<rparr>) = (Inr db' :: database res)"
      using assms(1) unfolding take_claim_def get_balance_object_def bo by simp
    then show thesis using fits(2) None by (intro all) simp_all
  next
    case (Some p)
    have t: "(if amount (total_claimed x) < amount (bo_balance bo)
         then res_bind (ix_modify (balance_to_claim x) (claim_balance lib (head_block_time db) (total_claimed x) p) (balance_objects db)) (\<lambda>ix.
              Inr (db\<lparr>balance_objects := ix\<rparr>))
         else Inr (db\<lparr>balance_objects := ix_remove (balance_to_claim x) (balance_objects db)\<rparr>)) = Inr db'"
      using assms(1) unfolding take_claim_def get_balance_object_def bo opt_get_Some res_bind_simps Some less option.simps
      by (simp only: option.distinct if_False res_bind_simps)
    show thesis
    proof (cases "amount (total_claimed x) < amount (bo_balance bo)")
      case True
      with t show thesis by (auto intro: part)
    next
      case False
      with t fits(2) Some show thesis by (intro all whole) simp_all
    qed
  qed
  then show ?thesis
  proof cases
    case part
    from part(1) obtain b b' where b: "claim_balance lib (head_block_time db) (total_claimed x) p b = Inr b'"
      and sum: "\<And>g. ix_sum g ix = ix_sum g (balance_objects db) - g b + g b'" by (elim ix_modifyE) blast
    have "Chain_State.part (bo_balance b') a = Chain_State.part (bo_balance b) a - Chain_State.part (total_claimed x) a" for a
      using b asset_sub_move [OF _ assms(3)] by (auto simp: claim_balance_def)
    then show ?thesis unfolding part(2) by (intro moves_balance_objects) (auto simp: sum intro: ix_ok_modify [OF _ part(1)])
  next
    case all
    then show ?thesis using bo by (auto intro!: moves_balance_objects simp: table_simps intro: ix_ok_remove)
  qed
qed

lemma balance_claim_apply_moves:
  assumes "balance_claim_apply lib x db = Inr db'" "claim_fits x db" "safe_exact (fc_safe lib)"
  shows "moves (\<lambda>_. 0) db db'"
proof -
  from assms(1) obtain db1 where s: "take_claim lib x db = Inr db1" "adjust_balance lib (deposit_to_account x) (total_claimed x) db1 = Inr db'"
    unfolding balance_claim_apply_def by (elim res_bind_InrE) (rule that)
  from ledger.moves_trans [OF take_claim_moves [OF s(1) assms(2,3)] moves_adjust_balance [OF s(2) assms(3)]] show ?thesis by simp
qed

subsection \<open>The contract holds for each of them\<close>

interpretation withdraw_permission_create: plain_evaluator lib "withdraw_permission_create_evaluate x" "withdraw_permission_create_apply x"
  "\<lambda>_. True" "\<lambda>_. True" for lib x
  by unfold_locales (auto intro: moves_intros)

interpretation withdraw_permission_update: plain_evaluator lib "withdraw_permission_update_evaluate x" "withdraw_permission_update_apply x"
  "\<lambda>_. True" "\<lambda>_. True" for lib x
  by unfold_locales (auto intro: moves_intros)

interpretation withdraw_permission_claim: plain_evaluator lib "withdraw_permission_claim_evaluate lib x" "withdraw_permission_claim_apply lib x"
  "\<lambda>_. True" "\<lambda>_. True" for lib x
  by unfold_locales (auto intro: moves_intros)

interpretation withdraw_permission_delete: plain_evaluator lib "withdraw_permission_delete_evaluate x" "withdraw_permission_delete_apply x"
  "\<lambda>_. True" "\<lambda>_. True" for lib x
  by unfold_locales (auto intro: moves_intros)

interpretation htlc_create: plain_evaluator lib "htlc_create_evaluate x" "htlc_create_apply lib x" "\<lambda>_. True" "\<lambda>_. True" for lib x
  by unfold_locales (auto intro: moves_intros)

interpretation htlc_redeem: plain_evaluator lib "htlc_redeem_evaluate hash x" "htlc_redeem_apply lib x" "\<lambda>_. True" "\<lambda>_. True" for lib hash x
  by unfold_locales (auto intro: moves_intros)

interpretation htlc_extend: plain_evaluator lib "htlc_extend_evaluate x" "htlc_extend_apply x" "\<lambda>_. True" "\<lambda>_. True" for lib x
  by unfold_locales (auto intro: moves_intros)

interpretation balance_claim: plain_evaluator lib "balance_claim_evaluate lib addresses x" "balance_claim_apply lib x" "claim_sound lib x" "claim_fits x"
  for lib addresses x
  by unfold_locales (auto intro: balance_claim_apply_moves balance_claim_checks)

end
