(* ===== verification/Account_Evaluators.thy ===== *)
theory Account_Evaluators
  imports Asset_Evaluators Payment_Evaluators
begin

text \<open>
  The evaluators of accounts and of the elected positions: creation, update, upgrade and listing of accounts
  (\<open>account_evaluator.cpp\<close>, with \<open>special_authority_evaluation.cpp\<close> and \<open>buyback.cpp\<close>), witnesses (\<open>witness_evaluator.cpp\<close>),
  committee members and chain parameters (\<open>committee_member_evaluator.cpp\<close>), workers (\<open>worker_evaluator.cpp\<close>), assertions and
  custom operations.

  Each satisfies the contract \<open>plain_evaluator\<close>: it moves no shares across the books.
\<close>

subsection \<open>Checks shared by the account operations\<close>

definition verify_authority_accounts :: "authority \<Rightarrow> database \<Rightarrow> unit res" where
  "verify_authority_accounts a db =
     (if \<not> num_auths a \<le> maximum_authority_membership (parameters db) then Inl (Throw_exn ''Maximum authority membership exceeded'')
      else if \<exists>p\<in>set (account_auths a). ix_get (fst p) (accounts db) = None then Inl (Throw_exn ''Account specified in authority does not exist'')
      else Inr ())"

definition evaluate_special_authority :: "special_authority \<Rightarrow> database \<Rightarrow> unit res" where
  "evaluate_special_authority sa db =
     (case sa of No_special_authority \<Rightarrow> Inr ()
      | Top_holders_special_authority a _ \<Rightarrow> res_bind (get_asset db a) (\<lambda>_. Inr ()))"

definition evaluate_buyback_account_options :: "buyback_account_options \<Rightarrow> database \<Rightarrow> unit res" where
  "evaluate_buyback_account_options bbo db =
     res_bind (get_asset db (asset_to_buy bbo)) (\<lambda>a.
     FC_ASSERT (issuer a = asset_to_buy_issuer bbo) ''Incorrect asset issuer specified in buyback_account_options''
    (FC_ASSERT (buyback_account a = None) ''Cannot create buyback for asset which already has buyback''
    (FC_ASSERT (length (buyback_markets bbo) < GRAPHENE_DEFAULT_MAX_BUYBACK_MARKETS) ''Too many buyback markets'' (Inr ()))))"

text \<open>The indexes \<open>by_vote_id\<close>, \<open>by_vote_for\<close> and \<open>by_vote_against\<close> find an identifier by its instance.\<close>

definition has_vote_id :: "('o \<Rightarrow> vote_id) \<Rightarrow> vote_id \<Rightarrow> 'o index \<Rightarrow> bool" where
  "has_vote_id key v ix \<longleftrightarrow> (\<exists>p\<in>set (ix_tab ix). vote_instance (key (snd p)) = vote_instance v)"

text \<open>The check of one vote after hard fork core-143.\<close>

definition verify_vote_exists :: "database \<Rightarrow> vote_id \<Rightarrow> unit res" where
  "verify_vote_exists db v =
     (if vote_type v = vote_committee then FC_ASSERT (has_vote_id cm_vote_id v (committee_members db)) ''Can not vote for id which does not exist.'' (Inr ())
      else if vote_type v = vote_witness then FC_ASSERT (has_vote_id witness_vote_id v (witnesses db)) ''Can not vote for id which does not exist.'' (Inr ())
      else if vote_type v = vote_worker then FC_ASSERT (has_vote_id vote_for v (workers db)) ''Can not vote for id which does not exist.'' (Inr ())
      else Inl (Throw_exn ''Invalid Vote Type''))"

definition verify_account_votes :: "account_options \<Rightarrow> database \<Rightarrow> unit res" where
  "verify_account_votes opts db =
     FC_ASSERT (num_witness opts \<le> maximum_witness_count (parameters db)) ''Voted for more witnesses than currently allowed''
    (FC_ASSERT (num_committee opts \<le> maximum_committee_count (parameters db)) ''Voted for more committee members than currently allowed''
    (FC_ASSERT (ix_get (voting_account opts) (accounts db) \<noteq> None) ''Invalid proxy account specified.''
    (FC_ASSERT (\<forall>v\<in>set (votes opts). vote_instance v < next_available_vote_id db) ''Can not vote for id which does not exist.''
    (FC_ASSERT (head_block_time db \<ge> HARDFORK_607_TIME \<longrightarrow>
                  (\<forall>v\<in>set (votes opts). vote_type v = vote_worker \<longrightarrow> \<not> has_vote_id vote_against v (workers db))) ''Can no longer vote against a worker.''
    (if head_block_time db \<ge> HARDFORK_CORE_143_TIME then res_fold (\<lambda>v _. verify_vote_exists db v) (votes opts) () else Inr ())))))"

text \<open>Insertion into a \<open>flat_set\<close>, and creation of an object in an index with a unique key.\<close>

definition flat_insert :: "nat \<Rightarrow> nat list \<Rightarrow> nat list" where
  "flat_insert x xs = (if x \<in> set xs then xs else insort x xs)"

definition flat_erase :: "nat \<Rightarrow> nat list \<Rightarrow> nat list" where
  "flat_erase x xs = filter (\<lambda>y. y \<noteq> x) xs"

definition create_unique :: "('o \<Rightarrow> bool) \<Rightarrow> 'o \<Rightarrow> 'o index \<Rightarrow> 'o index res" where
  "create_unique clash x ix =
     FC_ASSERT (\<forall>p\<in>set (ix_tab ix). \<not> clash (snd p)) ''Could not create object! Most likely a uniqueness constraint is violated.'' (Inr (ix_create x ix))"

definition modify_account :: "account_id \<Rightarrow> (account_object \<Rightarrow> account_object res) \<Rightarrow> database \<Rightarrow> database res" where
  "modify_account a f db = res_bind (ix_modify a f (accounts db)) (\<lambda>ix. Inr (db\<lparr>accounts := ix\<rparr>))"

subsection \<open>Creating an account\<close>

definition account_create_evaluate :: "account_create_operation \<Rightarrow> database \<Rightarrow> unit res" where
  "account_create_evaluate x db =
     FC_ASSERT (head_block_time db < HARDFORK_516_TIME \<longrightarrow> cr_owner_special_authority x = None) ''!owner_special_authority.valid()''
    (FC_ASSERT (head_block_time db < HARDFORK_516_TIME \<longrightarrow> cr_active_special_authority x = None) ''!active_special_authority.valid()''
    (res_bind (get_account db (cr_registrar x)) (\<lambda>payer.
     FC_ASSERT (is_lifetime_member payer) ''Only Lifetime members may register an account.''
    (res_bind (get_account db (cr_referrer x)) (\<lambda>ref.
     FC_ASSERT (is_member ref (head_block_time db)) ''The referrer must be either a lifetime or annual subscriber.''
    (res_bind (verify_authority_accounts (cr_owner x) db) (\<lambda>_.
     res_bind (verify_authority_accounts (cr_active x) db) (\<lambda>_.
     res_bind (if_given (\<lambda>sa. evaluate_special_authority sa db) (cr_owner_special_authority x)) (\<lambda>_.
     res_bind (if_given (\<lambda>sa. evaluate_special_authority sa db) (cr_active_special_authority x)) (\<lambda>_.
     res_bind (if_given (\<lambda>bbo. evaluate_buyback_account_options bbo db) (cr_buyback_options x)) (\<lambda>_.
     res_bind (verify_account_votes (cr_options x) db) (\<lambda>_.
     FC_ASSERT (cr_name x \<noteq> [] \<longrightarrow> (\<forall>p\<in>set (ix_tab (accounts db)). account_name (snd p) \<noteq> cr_name x)) ''Account already exists.'' (Inr ())))))))))))))"

text \<open>Before hard fork 453 a referrer percentage of at most 256 was read as whole percents.\<close>

definition small_percent :: "account_create_operation \<Rightarrow> database \<Rightarrow> nat" where
  "small_percent x db =
     (if head_block_time db \<le> HARDFORK_453_TIME \<and> cr_referrer x \<noteq> cr_registrar x \<and> cr_referrer_percent x \<noteq> 0 \<and> cr_referrer_percent x \<le> 256
      then min (cr_referrer_percent x * 100) (nat GRAPHENE_100_PERCENT) else cr_referrer_percent x)"

definition new_statistics :: "account_id \<Rightarrow> string \<Rightarrow> account_options \<Rightarrow> account_statistics_object" where
  "new_statistics a name opts = \<lparr>st_owner = a, st_name = name, total_core_in_orders = 0, core_in_balance = 0, has_cashback_vb = False,
     is_voting = opts_is_voting opts, lifetime_fees_paid = 0, pending_fees = 0, pending_vested_fees = 0, last_vote_time = 0\<rparr>"

definition or_none :: "special_authority option \<Rightarrow> special_authority" where
  "or_none sa = (case sa of None \<Rightarrow> No_special_authority | Some y \<Rightarrow> y)"

definition new_account :: "account_create_operation \<Rightarrow> account_id \<Rightarrow> obj_id \<Rightarrow> database \<Rightarrow> account_object" where
  "new_account x ltr sid db = \<lparr>membership_expiration_date = 0, registrar = cr_registrar x, referrer = cr_referrer x, lifetime_referrer = ltr,
     network_fee_percentage = network_percent_of_fee (parameters db),
     lifetime_referrer_fee_percentage = lifetime_referrer_percent_of_fee (parameters db),
     referrer_rewards_percentage = small_percent x db, account_name = cr_name x, owner_auth = cr_owner x, active_auth = cr_active x,
     statistics = sid, whitelisting_accounts = [], whitelisted_accounts = [], blacklisted_accounts = [], blacklisting_accounts = [],
     cashback_vb = None, owner_special_authority = or_none (cr_owner_special_authority x),
     active_special_authority = or_none (cr_active_special_authority x), top_n_control_flags = 0,
     allowed_assets = map_option (\<lambda>bbo. flat_insert (asset_to_buy bbo) (buyback_markets bbo)) (cr_buyback_options x),
     acc_options = cr_options x\<rparr>"

text \<open>Shifting the basic fee of \<open>account_create\<close> in the fee schedule, in 64 bits.\<close>

definition shift_basic_fee :: "(int \<Rightarrow> int) \<Rightarrow> chain_parameters \<Rightarrow> chain_parameters res" where
  "shift_basic_fee sh p =
     (case map_of (fee_params (current_fees p)) 5 of
        Some (Account_fees b pr k) \<Rightarrow>
          Inr (p\<lparr>current_fees := (current_fees p)\<lparr>fee_params := map (\<lambda>(i, q). if i = 5 then (i, Account_fees (sh b) pr k) else (i, q)) (fee_params (current_fees p))\<rparr>\<rparr>)
      | _ \<Rightarrow> Inl (Assert_exn ''itr != parameters.end()''))"

definition scale_account_fee :: "database \<Rightarrow> database res" where
  "scale_account_fee db =
     (let n = (accounts_registered_this_interval (dgp db) + 1) mod 2 ^ 32;
          db1 = db\<lparr>dgp := (dgp db)\<lparr>accounts_registered_this_interval := n\<rparr>\<rparr>; p = parameters db in
      if accounts_per_fee_scale p = 0 then Inl (Throw_exn ''modulo by zero'')
      else if n mod accounts_per_fee_scale p = 0 \<and> account_fee_scale_bitshifts p \<noteq> 0
      then res_bind (shift_basic_fee (\<lambda>b. b * 2 ^ account_fee_scale_bitshifts p mod 2 ^ 64) p) (\<lambda>p1. Inr (db1\<lparr>parameters := p1\<rparr>))
      else Inr db1)"

definition create_special_authority :: "account_id \<Rightarrow> database \<Rightarrow> database res" where
  "create_special_authority a db = res_bind (create_unique (\<lambda>b. b = a) a (special_authorities db)) (\<lambda>ix. Inr (db\<lparr>special_authorities := ix\<rparr>))"

definition account_create_apply :: "account_create_operation \<Rightarrow> database \<Rightarrow> database res" where
  "account_create_apply x db =
     (let new_id = ix_next (accounts db); sid = ix_next (account_stats db) in
      res_bind (get_account db (cr_referrer x)) (\<lambda>ref.
      res_bind (create_unique (\<lambda>s. st_owner s = new_id) (new_statistics new_id (cr_name x) (cr_options x)) (account_stats db)) (\<lambda>stats.
      res_bind (create_unique (\<lambda>a. account_name a = cr_name x) (new_account x (lifetime_referrer ref) sid db) (accounts db)) (\<lambda>accs.
      res_bind (scale_account_fee (db\<lparr>account_stats := stats, accounts := accs\<rparr>)) (\<lambda>db1.
      res_bind (if cr_owner_special_authority x \<noteq> None \<or> cr_active_special_authority x \<noteq> None then create_special_authority new_id db1 else Inr db1) (\<lambda>db2.
      case cr_buyback_options x of None \<Rightarrow> Inr db2
      | Some bbo \<Rightarrow>
          res_bind (create_unique (\<lambda>a. a = asset_to_buy bbo) (asset_to_buy bbo) (buybacks db2)) (\<lambda>ix.
          modify_asset (asset_to_buy bbo) (\<lambda>a. a\<lparr>buyback_account := Some new_id\<rparr>) (db2\<lparr>buybacks := ix\<rparr>))))))))"

subsection \<open>Updating an account\<close>

definition account_update_evaluate :: "account_update_operation \<Rightarrow> database \<Rightarrow> unit res" where
  "account_update_evaluate x db =
     FC_ASSERT (head_block_time db < HARDFORK_516_TIME \<longrightarrow> ud_owner_special_authority x = None) ''!owner_special_authority.valid()''
    (FC_ASSERT (head_block_time db < HARDFORK_516_TIME \<longrightarrow> ud_active_special_authority x = None) ''!active_special_authority.valid()''
    (res_bind (if_given (\<lambda>a. verify_authority_accounts a db) (ud_owner x)) (\<lambda>_.
     res_bind (if_given (\<lambda>a. verify_authority_accounts a db) (ud_active x)) (\<lambda>_.
     res_bind (if_given (\<lambda>sa. evaluate_special_authority sa db) (ud_owner_special_authority x)) (\<lambda>_.
     res_bind (if_given (\<lambda>sa. evaluate_special_authority sa db) (ud_active_special_authority x)) (\<lambda>_.
     res_bind (get_account db (ud_account x)) (\<lambda>_.
     if_given (\<lambda>opts. verify_account_votes opts db) (ud_new_options x))))))))"

definition update_vote_statistics :: "account_options \<Rightarrow> account_options \<Rightarrow> time_sec \<Rightarrow> account_statistics_object \<Rightarrow> account_statistics_object" where
  "update_vote_statistics old new now s =
     (let s1 = (if opts_is_voting new \<noteq> opts_is_voting old then s\<lparr>is_voting := \<not> is_voting s\<rparr> else s) in
      if votes new \<noteq> votes old \<or> voting_account new \<noteq> voting_account old then s1\<lparr>last_vote_time := now\<rparr> else s1)"

definition update_account :: "account_update_operation \<Rightarrow> account_object \<Rightarrow> account_object" where
  "update_account x a =
     (let a1 = (case ud_owner x of None \<Rightarrow> a | Some y \<Rightarrow> a\<lparr>owner_auth := y, top_n_control_flags := 0\<rparr>);
          a2 = (case ud_active x of None \<Rightarrow> a1 | Some y \<Rightarrow> a1\<lparr>active_auth := y, top_n_control_flags := 0\<rparr>);
          a3 = (case ud_new_options x of None \<Rightarrow> a2 | Some y \<Rightarrow> a2\<lparr>acc_options := y\<rparr>);
          a4 = (case ud_owner_special_authority x of None \<Rightarrow> a3 | Some y \<Rightarrow> a3\<lparr>owner_special_authority := y, top_n_control_flags := 0\<rparr>) in
      case ud_active_special_authority x of None \<Rightarrow> a4 | Some y \<Rightarrow> a4\<lparr>active_special_authority := y, top_n_control_flags := 0\<rparr>)"

definition account_update_apply :: "account_update_operation \<Rightarrow> database \<Rightarrow> database res" where
  "account_update_apply x db =
     res_bind (get_account db (ud_account x)) (\<lambda>acnt.
     res_bind (case ud_new_options x of None \<Rightarrow> Inr db
               | Some new \<Rightarrow> modify_statistics (ud_account x) (\<lambda>s. Inr (update_vote_statistics (acc_options acnt) new (head_block_time db) s)) db) (\<lambda>db1.
     res_bind (modify_account (ud_account x) (\<lambda>a. Inr (update_account x a)) db1) (\<lambda>db2.
     let sa_before = has_special_authority acnt; sa_after = has_special_authority (update_account x acnt) in
     if sa_before \<and> \<not> sa_after
     then (case ix_find (\<lambda>a. a = ud_account x) (special_authorities db2) of
             None \<Rightarrow> Inl (Throw_exn ''undefined behaviour: sa_it is the end of the index'')
           | Some (i, _) \<Rightarrow> Inr (db2\<lparr>special_authorities := ix_remove i (special_authorities db2)\<rparr>))
     else if \<not> sa_before \<and> sa_after then create_special_authority (ud_account x) db2
     else Inr db2)))"

subsection \<open>Listing and upgrading an account\<close>

definition account_whitelist_evaluate :: "account_whitelist_operation \<Rightarrow> database \<Rightarrow> unit res" where
  "account_whitelist_evaluate x db =
     res_bind (get_account db (account_to_list x)) (\<lambda>_.
     if \<not> allow_non_member_whitelists (parameters db)
     then res_bind (get_account db (authorizing_account x)) (\<lambda>a.
          FC_ASSERT (is_lifetime_member a) ''The authorizing account must be a lifetime member.'' (Inr ()))
     else Inr ())"

definition white_listed :: nat where "white_listed = 1"
definition black_listed :: nat where "black_listed = 2"

definition list_entry :: "nat \<Rightarrow> nat \<Rightarrow> account_id \<Rightarrow> account_id list \<Rightarrow> account_id list" where
  "list_entry listing which_list a as = (if has_flag listing which_list then flat_insert a as else flat_erase a as)"

definition account_whitelist_apply :: "account_whitelist_operation \<Rightarrow> database \<Rightarrow> database res" where
  "account_whitelist_apply x db =
     res_bind (modify_account (account_to_list x) (\<lambda>a. Inr (a\<lparr>
         whitelisting_accounts := list_entry (new_listing x) white_listed (authorizing_account x) (whitelisting_accounts a),
         blacklisting_accounts := list_entry (new_listing x) black_listed (authorizing_account x) (blacklisting_accounts a)\<rparr>)) db)
     (modify_account (authorizing_account x) (\<lambda>a. Inr (a\<lparr>
         whitelisted_accounts := list_entry (new_listing x) white_listed (account_to_list x) (whitelisted_accounts a),
         blacklisted_accounts := list_entry (new_listing x) black_listed (account_to_list x) (blacklisted_accounts a)\<rparr>)))"

definition account_upgrade_evaluate :: "account_upgrade_operation \<Rightarrow> database \<Rightarrow> unit res" where
  "account_upgrade_evaluate x db =
     res_bind (get_account db (account_to_upgrade x)) (\<lambda>a. FC_ASSERT (\<not> is_lifetime_member a) ''!account->is_lifetime_member()'' (Inr ()))"

definition days :: "nat \<Rightarrow> nat" where
  "days n = n * 86400"

definition account_upgrade_apply :: "fc_lib \<Rightarrow> account_upgrade_operation \<Rightarrow> database \<Rightarrow> database res" where
  "account_upgrade_apply lib x db =
     (let i = account_to_upgrade x; now = head_block_time db in
      res_bind (get_account db i) (\<lambda>a.
      if upgrade_to_lifetime_member x
      then res_bind (process_fees lib (statistics a) i db)
             (modify_account i (\<lambda>a. Inr (a\<lparr>membership_expiration_date := time_maximum, referrer := i, registrar := i, lifetime_referrer := i,
                lifetime_referrer_fee_percentage := nat (GRAPHENE_100_PERCENT - int (network_fee_percentage a))\<rparr>)))
      else if is_annual_member a now
      then FC_ASSERT (now \<le> HARDFORK_613_TIME) ''head_block_time() <= HARDFORK_613_TIME''
          (FC_ASSERT (int (membership_expiration_date a) - int now < int (days 3650)) ''May not extend annual membership more than a decade into the future.''
          (modify_account i (\<lambda>a. Inr (a\<lparr>membership_expiration_date := time_plus (membership_expiration_date a) (days 365)\<rparr>)) db))
      else FC_ASSERT (now \<le> HARDFORK_613_TIME) ''head_block_time() <= HARDFORK_613_TIME''
          (res_bind (process_fees lib (statistics a) i db)
             (modify_account i (\<lambda>a. Inr (a\<lparr>referrer := i, membership_expiration_date := time_plus now (days 365)\<rparr>))))))"

subsection \<open>Witnesses, committee members and workers\<close>

definition lifetime_members_only :: "account_id \<Rightarrow> database \<Rightarrow> unit res" where
  "lifetime_members_only a db = res_bind (get_account db a) (\<lambda>acc. FC_ASSERT (is_lifetime_member acc) ''is_lifetime_member()'' (Inr ()))"

definition take_vote_id :: "nat \<Rightarrow> database \<Rightarrow> vote_id \<times> database" where
  "take_vote_id ty db = (make_vote_id ty (next_available_vote_id db), db\<lparr>next_available_vote_id := (next_available_vote_id db + 1) mod 2 ^ 32\<rparr>)"

definition witness_create_evaluate :: "witness_create_operation \<Rightarrow> database \<Rightarrow> unit res" where
  "witness_create_evaluate x db = lifetime_members_only (nc_witness_account x) db"

definition witness_create_apply :: "witness_create_operation \<Rightarrow> database \<Rightarrow> database res" where
  "witness_create_apply x db =
     (let (v, db1) = take_vote_id vote_witness db in
      res_bind (create_unique (\<lambda>w. witness_account w = nc_witness_account x \<or> vote_instance (witness_vote_id w) = vote_instance v)
        \<lparr>witness_account = nc_witness_account x, last_aslot = 0, pay_vb = None, total_votes = 0, total_missed = 0, last_confirmed_block_num = 0,
         signing_key = block_signing_key x, witness_vote_id = v, witness_url = nc_url x\<rparr> (witnesses db1)) (\<lambda>ix. Inr (db1\<lparr>witnesses := ix\<rparr>)))"

definition witness_update_evaluate :: "witness_update_operation \<Rightarrow> database \<Rightarrow> unit res" where
  "witness_update_evaluate x db =
     res_bind (opt_get ''Unable to find Object'' (ix_get (nu_witness x) (witnesses db))) (\<lambda>w.
     FC_ASSERT (witness_account w = nu_witness_account x) ''witness_account == op.witness_account'' (Inr ()))"

definition witness_update_apply :: "witness_update_operation \<Rightarrow> database \<Rightarrow> database res" where
  "witness_update_apply x db =
     res_bind (ix_modify (nu_witness x) (\<lambda>w.
        let w1 = (case nu_new_url x of None \<Rightarrow> w | Some u \<Rightarrow> w\<lparr>witness_url := u\<rparr>) in
        Inr (case new_signing_key x of None \<Rightarrow> w1 | Some k \<Rightarrow> w1\<lparr>signing_key := k\<rparr>)) (witnesses db)) (\<lambda>ix. Inr (db\<lparr>witnesses := ix\<rparr>))"

definition committee_member_create_evaluate :: "committee_member_create_operation \<Rightarrow> database \<Rightarrow> unit res" where
  "committee_member_create_evaluate x db = lifetime_members_only (mc_committee_member_account x) db"

definition committee_member_create_apply :: "committee_member_create_operation \<Rightarrow> database \<Rightarrow> database res" where
  "committee_member_create_apply x db =
     (let (v, db1) = take_vote_id vote_committee db in
      res_bind (create_unique (\<lambda>c. committee_member_account c = mc_committee_member_account x \<or> vote_instance (cm_vote_id c) = vote_instance v)
        \<lparr>committee_member_account = mc_committee_member_account x, cm_vote_id = v, cm_total_votes = 0, cm_url = mc_url x\<rparr>
        (committee_members db1)) (\<lambda>ix. Inr (db1\<lparr>committee_members := ix\<rparr>)))"

definition committee_member_update_evaluate :: "committee_member_update_operation \<Rightarrow> database \<Rightarrow> unit res" where
  "committee_member_update_evaluate x db =
     res_bind (opt_get ''Unable to find Object'' (ix_get (mu_committee_member x) (committee_members db))) (\<lambda>c.
     FC_ASSERT (committee_member_account c = mu_committee_member_account x) ''committee_member_account == op.committee_member_account'' (Inr ()))"

definition committee_member_update_apply :: "committee_member_update_operation \<Rightarrow> database \<Rightarrow> database res" where
  "committee_member_update_apply x db =
     res_bind (ix_modify (mu_committee_member x) (\<lambda>c. Inr (case mu_new_url x of None \<Rightarrow> c | Some u \<Rightarrow> c\<lparr>cm_url := u\<rparr>)) (committee_members db)) (\<lambda>ix.
     Inr (db\<lparr>committee_members := ix\<rparr>))"

definition global_parameters_evaluate :: "bool \<Rightarrow> committee_member_update_global_parameters_operation \<Rightarrow> database \<Rightarrow> unit res" where
  "global_parameters_evaluate is_proposed_trx x db =
     FC_ASSERT is_proposed_trx ''trx_state->_is_proposed_trx''
    (FC_ASSERT (head_block_time db > HARDFORK_CORE_1468_TIME \<or> updatable_htlc_options (new_parameters x) = None)
       ''Unable to set HTLC parameters until hardfork.'' (Inr ()))"

definition global_parameters_apply :: "committee_member_update_global_parameters_operation \<Rightarrow> database \<Rightarrow> database res" where
  "global_parameters_apply x db = Inr (db\<lparr>pending_parameters := Some (new_parameters x)\<rparr>)"

definition worker_create_evaluate :: "worker_create_operation \<Rightarrow> database \<Rightarrow> unit res" where
  "worker_create_evaluate x db =
     res_bind (lifetime_members_only (kc_owner x) db) (\<lambda>_.
     FC_ASSERT (kc_work_begin_date x \<ge> head_block_time db) ''work_begin_date >= head_block_time()'' (Inr ()))"

text \<open>\<open>worker_init_visitor\<close>: only a worker paid into a vesting balance needs another object.\<close>

definition init_worker :: "account_id \<Rightarrow> worker_initializer \<Rightarrow> database \<Rightarrow> worker_type \<times> database" where
  "init_worker acc ini db =
     (case ini of
        Refund_worker_initializer \<Rightarrow> (Refund_worker 0, db)
      | Burn_worker_initializer \<Rightarrow> (Burn_worker 0, db)
      | Vesting_balance_worker_initializer d \<Rightarrow>
          (Vesting_balance_worker (ix_next (vestings db)),
           db\<lparr>vestings := ix_create \<lparr>vb_owner = acc, vb_balance = mk_asset 0 core_asset,
                vb_policy = Cdd_vesting \<lparr>vesting_seconds = days d mod 2 ^ 32, coin_seconds_earned = 0, start_claim = 0,
                  coin_seconds_earned_last_update = head_block_time db\<rparr>,
                vb_balance_type = Worker\<rparr> (vestings db)\<rparr>))"

definition worker_create_apply :: "worker_create_operation \<Rightarrow> database \<Rightarrow> database res" where
  "worker_create_apply x db =
     (let (for_id, db1) = take_vote_id vote_worker db; (against_id, db2) = take_vote_id vote_worker db1;
          (w, db3) = init_worker (kc_owner x) (kc_initializer x) db2 in
      res_bind (create_unique (\<lambda>k. vote_instance (vote_for k) = vote_instance for_id \<or> vote_instance (vote_against k) = vote_instance against_id)
        \<lparr>worker_account = kc_owner x, work_begin_date = kc_work_begin_date x, work_end_date = kc_work_end_date x, daily_pay = kc_daily_pay x,
         worker = w, worker_name = kc_name x, worker_url = kc_url x, vote_for = for_id, vote_against = against_id,
         total_votes_for = 0, total_votes_against = 0\<rparr> (workers db3)) (\<lambda>ix. Inr (db3\<lparr>workers := ix\<rparr>)))"

subsection \<open>Assertions\<close>

text \<open>\<open>summary n\<close> is the identifier of the latest block whose number ends in the 16 bits \<open>n\<close>.\<close>

definition predicate_evaluator :: "(nat \<Rightarrow> nat \<times> nat) \<Rightarrow> database \<Rightarrow> predicate \<Rightarrow> unit res" where
  "predicate_evaluator summary db p =
     (case p of
        Account_name_eq_lit a name \<Rightarrow> res_bind (get_account db a) (\<lambda>acc. FC_ASSERT (account_name acc = name) ''account name'' (Inr ()))
      | Asset_symbol_eq_lit a sy \<Rightarrow> res_bind (get_asset db a) (\<lambda>ao. FC_ASSERT (symbol ao = sy) ''asset symbol'' (Inr ()))
      | Block_id_predicate i \<Rightarrow> FC_ASSERT (summary (fst i mod 2 ^ 16) = i) ''block id'' (Inr ()))"

fun predicate_which :: "predicate \<Rightarrow> nat" where
  "predicate_which (Account_name_eq_lit _ _) = 0"
| "predicate_which (Asset_symbol_eq_lit _ _) = 1"
| "predicate_which (Block_id_predicate _) = 2"

definition assert_evaluate :: "bool \<Rightarrow> (nat \<Rightarrow> nat \<times> nat) \<Rightarrow> assert_operation \<Rightarrow> database \<Rightarrow> unit res" where
  "assert_evaluate skip_assert_evaluation summary x db =
     (if skip_assert_evaluation then Inr ()
      else res_fold (\<lambda>p _. FC_ASSERT (predicate_which p < max_predicate_opcode (parameters db)) ''which() < max_predicate_opcode''
             (predicate_evaluator summary db p)) (predicates x) ())"

subsection \<open>The contract holds for each of them\<close>

lemma create_unique_Inr [simp]: "create_unique clash x ix = Inr ix' \<longleftrightarrow> (\<forall>p\<in>set (ix_tab ix). \<not> clash (snd p)) \<and> ix' = ix_create x ix"
  by (auto simp: create_unique_def)

lemma modify_account_moves [moves_intros]: "modify_account a f db = Inr db' \<Longrightarrow> moves (\<lambda>_. 0) db db'"
  by (auto simp: modify_account_def intro: moves_neutral)

lemma modify_stats_neutral:
  assumes "modify_statistics a (\<lambda>s. Inr (f s)) db = Inr db'" "\<And>s. pending_fees (f s) = pending_fees s" "\<And>s. pending_vested_fees (f s) = pending_vested_fees s"
  shows "moves (\<lambda>_. 0) db db'"
  using assms by (elim modify_statisticsE) (auto simp: part_def elim!: ledger.moves_weaken)

lemma moves_dgp_neutral: "witness_budget d = witness_budget (dgp db) \<Longrightarrow> moves (\<lambda>_. 0) db (db\<lparr>dgp := d\<rparr>)"
  using moves_dgp [of d db] by simp

lemma scale_account_fee_moves [moves_intros]:
  assumes "scale_account_fee db = Inr db'"
  shows "moves (\<lambda>_. 0) db db'"
proof -
  let ?d = "(dgp db)\<lparr>accounts_registered_this_interval := (accounts_registered_this_interval (dgp db) + 1) mod 2 ^ 32\<rparr>"
  have "moves (\<lambda>_. 0) db (db\<lparr>dgp := ?d\<rparr>)" by (rule moves_dgp_neutral) simp
  moreover have "\<exists>p. db' = db\<lparr>dgp := ?d, parameters := p\<rparr> \<or> db' = db\<lparr>dgp := ?d\<rparr>"
    using assms by (auto simp: scale_account_fee_def Let_def split: if_splits)
  ultimately show ?thesis using moves_zero_trans [OF _ moves_neutral(15)] by blast
qed

lemma create_special_authority_moves [moves_intros]: "create_special_authority a db = Inr db' \<Longrightarrow> moves (\<lambda>_. 0) db db'"
  by (auto simp: create_special_authority_def intro: moves_neutral)

lemma create_stats_moves: "pending_fees s = 0 \<Longrightarrow> pending_vested_fees s = 0 \<Longrightarrow> moves (\<lambda>_. 0) db (db\<lparr>account_stats := ix_create s (account_stats db)\<rparr>)"
  by (rule moves_account_stats) (simp_all add: table_simps ix_ok_create)

lemma account_create_apply_moves [moves_intros]:
  assumes "account_create_apply x db = Inr db'"
  shows "moves (\<lambda>_. 0) db db'"
proof -
  let ?s = "new_statistics (ix_next (accounts db)) (cr_name x) (cr_options x)"
  from assms obtain accs db1 db2 where s: "scale_account_fee (db\<lparr>account_stats := ix_create ?s (account_stats db), accounts := accs\<rparr>) = Inr db1"
    "(if cr_owner_special_authority x \<noteq> None \<or> cr_active_special_authority x \<noteq> None then create_special_authority (ix_next (accounts db)) db1 else Inr db1) = Inr db2"
    and r: "(case cr_buyback_options x of None \<Rightarrow> Inr db2
      | Some bbo \<Rightarrow>
          res_bind (create_unique (\<lambda>a. a = asset_to_buy bbo) (asset_to_buy bbo) (buybacks db2)) (\<lambda>ix.
          modify_asset (asset_to_buy bbo) (\<lambda>a. a\<lparr>buyback_account := Some (ix_next (accounts db))\<rparr>) (db2\<lparr>buybacks := ix\<rparr>))) = (Inr db' :: database res)"
    unfolding account_create_apply_def Let_def by (elim res_bind_InrE) auto
  have "moves (\<lambda>_. 0) db (db\<lparr>account_stats := ix_create ?s (account_stats db)\<rparr>)" by (rule create_stats_moves) (simp_all add: new_statistics_def)
  then have "moves (\<lambda>_. 0) db (db\<lparr>account_stats := ix_create ?s (account_stats db), accounts := accs\<rparr>)" using moves_zero_trans [OF _ moves_neutral(4)] by blast
  moreover have "moves (\<lambda>_. 0) db1 db2" using s(2) by (auto split: if_splits intro: create_special_authority_moves ledger.moves_refl)
  ultimately have d2: "moves (\<lambda>_. 0) db db2" using scale_account_fee_moves [OF s(1)] moves_zero_trans by blast
  show ?thesis
  proof (cases "cr_buyback_options x")
    case (Some bbo)
    with r have "modify_asset (asset_to_buy bbo) (\<lambda>a. a\<lparr>buyback_account := Some (ix_next (accounts db))\<rparr>) (db2\<lparr>buybacks := ix_create (asset_to_buy bbo) (buybacks db2)\<rparr>) = Inr db'"
      by simp
    then have "moves (\<lambda>_. 0) (db2\<lparr>buybacks := ix_create (asset_to_buy bbo) (buybacks db2)\<rparr>) db'" by (rule modify_asset_moves) auto
    then show ?thesis using d2 moves_neutral(10) moves_zero_trans by blast
  qed (use r d2 in simp)
qed

lemma account_update_apply_moves [moves_intros]:
  assumes "account_update_apply x db = Inr db'"
  shows "moves (\<lambda>_. 0) db db'"
proof -
  from assms obtain acnt db1 db2 where s: "(case ud_new_options x of None \<Rightarrow> Inr db
               | Some new \<Rightarrow> modify_statistics (ud_account x) (\<lambda>s. Inr (update_vote_statistics (acc_options acnt) new (head_block_time db) s)) db) = Inr db1"
    "modify_account (ud_account x) (\<lambda>a. Inr (update_account x a)) db1 = Inr db2"
    and e: "(if has_special_authority acnt \<and> \<not> has_special_authority (update_account x acnt)
     then (case ix_find (\<lambda>a. a = ud_account x) (special_authorities db2) of
             None \<Rightarrow> Inl (Throw_exn ''undefined behaviour: sa_it is the end of the index'')
           | Some (i, _) \<Rightarrow> Inr (db2\<lparr>special_authorities := ix_remove i (special_authorities db2)\<rparr>))
     else if \<not> has_special_authority acnt \<and> has_special_authority (update_account x acnt) then create_special_authority (ud_account x) db2
     else Inr db2) = (Inr db' :: database res)"
    unfolding account_update_apply_def Let_def by (elim res_bind_InrE) (rule that)
  from e have r: "db' = db2 \<or> (\<exists>ix. db' = db2\<lparr>special_authorities := ix\<rparr>)"
    by (auto split: if_splits option.splits simp: create_special_authority_def)
  have "moves (\<lambda>_. 0) db db1" using s(1)
    by (auto split: option.splits intro!: ledger.moves_refl elim!: modify_stats_neutral simp: update_vote_statistics_def Let_def)
  moreover have "moves (\<lambda>_. 0) db2 db'" using r by (auto intro: moves_neutral ledger.moves_refl)
  ultimately show ?thesis using modify_account_moves [OF s(2)] moves_zero_trans by blast
qed

lemma account_whitelist_apply_moves [moves_intros]: "account_whitelist_apply x db = Inr db' \<Longrightarrow> moves (\<lambda>_. 0) db db'"
  unfolding account_whitelist_apply_def by (elim res_bind_InrE) (blast intro: modify_account_moves moves_zero_trans)

lemma account_upgrade_apply_moves [moves_intros]:
  assumes "account_upgrade_apply lib x db = Inr db'" "safe_exact (fc_safe lib)"
  shows "moves (\<lambda>_. 0) db db'"
proof -
  from assms(1) obtain sid db1 f where "db1 = db \<or> process_fees lib sid (account_to_upgrade x) db = Inr db1"
    "modify_account (account_to_upgrade x) f db1 = Inr db'"
    by (auto simp: account_upgrade_apply_def Let_def split: if_splits)
  then show ?thesis using process_fees_moves [OF _ assms(2)] modify_account_moves moves_zero_trans ledger.moves_refl by blast
qed

lemma position_applies_moves [moves_intros]:
  "witness_create_apply xa db = Inr db' \<Longrightarrow> moves (\<lambda>_. 0) db db'"
  "witness_update_apply xb db = Inr db' \<Longrightarrow> moves (\<lambda>_. 0) db db'"
  "committee_member_create_apply xc db = Inr db' \<Longrightarrow> moves (\<lambda>_. 0) db db'"
  "committee_member_update_apply xd db = Inr db' \<Longrightarrow> moves (\<lambda>_. 0) db db'"
  "global_parameters_apply xe db = Inr db' \<Longrightarrow> moves (\<lambda>_. 0) db db'"
  by (auto simp: witness_create_apply_def witness_update_apply_def committee_member_create_apply_def committee_member_update_apply_def
      global_parameters_apply_def take_vote_id_def intro: moves_neutral moves_zero_trans [OF moves_neutral(13)])

lemma init_worker_moves: "moves (\<lambda>_. 0) db (snd (init_worker acc ini db))"
  by (cases ini) (auto simp: init_worker_def ledger.moves_refl table_simps intro!: moves_vestings ix_ok_create)

lemma worker_create_apply_moves [moves_intros]:
  assumes "worker_create_apply x db = Inr db'"
  shows "moves (\<lambda>_. 0) db db'"
proof -
  define db1 where "db1 = snd (take_vote_id vote_worker db)"
  define db2 where "db2 = snd (take_vote_id vote_worker db1)"
  define db3 where "db3 = snd (init_worker (kc_owner x) (kc_initializer x) db2)"
  have t: "moves (\<lambda>_. 0) d (snd (take_vote_id vote_worker d))" for d by (simp add: take_vote_id_def moves_neutral)
  have "moves (\<lambda>_. 0) db db1" "moves (\<lambda>_. 0) db1 db2" unfolding db1_def db2_def by (rule t)+
  moreover have "moves (\<lambda>_. 0) db2 db3" unfolding db3_def by (rule init_worker_moves)
  moreover have "\<exists>ix. db' = db3\<lparr>workers := ix\<rparr>"
    using assms by (auto simp: worker_create_apply_def db3_def db2_def db1_def Let_def split: prod.splits)
  ultimately show ?thesis using moves_neutral(7) moves_zero_trans by blast
qed

interpretation account_create: plain_evaluator lib "account_create_evaluate x" "account_create_apply x" "\<lambda>_. True" "\<lambda>_. True" for lib x
  by unfold_locales (auto intro: moves_intros)

interpretation account_update: plain_evaluator lib "account_update_evaluate x" "account_update_apply x" "\<lambda>_. True" "\<lambda>_. True" for lib x
  by unfold_locales (auto intro: moves_intros)

interpretation account_whitelist: plain_evaluator lib "account_whitelist_evaluate x" "account_whitelist_apply x" "\<lambda>_. True" "\<lambda>_. True" for lib x
  by unfold_locales (auto intro: moves_intros)

interpretation account_upgrade: plain_evaluator lib "account_upgrade_evaluate x" "account_upgrade_apply lib x" "\<lambda>_. True" "\<lambda>_. True" for lib x
  by unfold_locales (auto intro: moves_intros)

interpretation witness_create: plain_evaluator lib "witness_create_evaluate x" "witness_create_apply x" "\<lambda>_. True" "\<lambda>_. True" for lib x
  by unfold_locales (auto intro: moves_intros)

interpretation witness_update: plain_evaluator lib "witness_update_evaluate x" "witness_update_apply x" "\<lambda>_. True" "\<lambda>_. True" for lib x
  by unfold_locales (auto intro: moves_intros)

interpretation committee_member_create: plain_evaluator lib "committee_member_create_evaluate x" "committee_member_create_apply x"
  "\<lambda>_. True" "\<lambda>_. True" for lib x
  by unfold_locales (auto intro: moves_intros)

interpretation committee_member_update: plain_evaluator lib "committee_member_update_evaluate x" "committee_member_update_apply x"
  "\<lambda>_. True" "\<lambda>_. True" for lib x
  by unfold_locales (auto intro: moves_intros)

interpretation global_parameters: plain_evaluator lib "global_parameters_evaluate proposed x" "global_parameters_apply x"
  "\<lambda>_. True" "\<lambda>_. True" for lib proposed x
  by unfold_locales (auto intro: moves_intros)

interpretation worker_create: plain_evaluator lib "worker_create_evaluate x" "worker_create_apply x" "\<lambda>_. True" "\<lambda>_. True" for lib x
  by unfold_locales (auto intro: moves_intros)

interpretation assertion: plain_evaluator lib "assert_evaluate skip summary x" "Inr" "\<lambda>_. True" "\<lambda>_. True" for lib skip summary x
  by unfold_locales (auto intro: ledger.moves_refl)

interpretation custom: plain_evaluator lib "\<lambda>_. Inr ()" "Inr" "\<lambda>_. True" "\<lambda>_. True" for lib
  by unfold_locales (auto intro: ledger.moves_refl)

subsection \<open>Names, votes and what the checks miss\<close>

text \<open>Labels joined by dots.\<close>

fun join_labels :: "string list \<Rightarrow> string" where
  "join_labels [] = []"
| "join_labels [l] = l"
| "join_labels (l # ls) = l @ CHR ''.'' # join_labels ls"

lemma join_labels_Cons: "ls \<noteq> [] \<Longrightarrow> join_labels (l # ls) = l @ CHR ''.'' # join_labels ls"
  by (cases ls) simp_all

lemma valid_label_no_dot: "valid_label l \<Longrightarrow> CHR ''.'' \<notin> set l"
proof
  assume v: "valid_label l" and d: "CHR ''.'' \<in> set l"
  then obtain x t where l: "l = x # t" by (cases l) auto
  have "set t \<subseteq> insert (last l) (set (butlast t))"
    by (cases t rule: rev_cases) (auto simp: l)
  then have "set l \<subseteq> insert (hd l) (insert (last l) (set (butlast (tl l))))" using l by auto
  moreover have "\<And>c. is_lower c \<or> is_digit c \<or> c = CHR ''-'' \<Longrightarrow> c \<noteq> CHR ''.''" by (auto simp: is_lower_def is_digit_def less_eq_char_def)
  ultimately have no: "\<And>c. is_lower c \<or> is_digit c \<or> c = CHR ''-'' \<Longrightarrow> c \<noteq> CHR ''.''" and "CHR ''.'' = hd l \<or> CHR ''.'' = last l \<or> CHR ''.'' \<in> set (butlast (tl l))"
    using d by blast+
  then show False using v unfolding valid_label_def by (metis (no_types))
qed

lemma valid_labels_iff: "valid_labels s \<longleftrightarrow> (\<exists>ls. ls \<noteq> [] \<and> s = join_labels ls \<and> (\<forall>l\<in>set ls. valid_label l))"
proof (induction s rule: valid_labels.induct)
  case (1 s)
  let ?l = "takeWhile (\<lambda>c. c \<noteq> CHR ''.'') s" and ?r = "dropWhile (\<lambda>c. c \<noteq> CHR ''.'') s"
  have s: "s = ?l @ ?r" by simp
  show ?case
  proof
    assume v: "valid_labels s"
    then have l: "valid_label ?l" by (subst (asm) valid_labels.simps) (auto simp: Let_def split: if_splits)
    show "\<exists>ls. ls \<noteq> [] \<and> s = join_labels ls \<and> (\<forall>l\<in>set ls. valid_label l)"
    proof (cases "?r = []")
      case True
      then have "s = ?l" using s by (metis append_Nil2)
      then show ?thesis using l by (intro exI [of _ "[?l]"]) auto
    next
      case False
      have "valid_labels (tl ?r)" using v l False by (subst (asm) valid_labels.simps) (simp add: Let_def)
      then obtain ls where ls: "ls \<noteq> []" "tl ?r = join_labels ls" "\<forall>l\<in>set ls. valid_label l" using 1 [OF refl refl] l False by auto
      have "hd ?r = CHR ''.''" using hd_dropWhile [OF False] by simp
      then have "s = ?l @ CHR ''.'' # tl ?r" using s False by (metis list.collapse)
      then show ?thesis using ls l by (intro exI [of _ "?l # ls"]) (simp add: join_labels_Cons)
    qed
  next
    assume "\<exists>ls. ls \<noteq> [] \<and> s = join_labels ls \<and> (\<forall>l\<in>set ls. valid_label l)"
    then obtain l ls where ls: "s = join_labels (l # ls)" "valid_label l" "\<forall>l\<in>set ls. valid_label l" by (metis list.exhaust list.set_intros)
    have d: "\<forall>c\<in>set l. c \<noteq> CHR ''.''" using valid_label_no_dot [OF ls(2)] by auto
    show "valid_labels s"
    proof (cases "ls = []")
      case True
      then have "?l = l" "?r = []" using ls(1) d by auto
      then show ?thesis using ls(2) by (subst valid_labels.simps) (simp add: Let_def)
    next
      case False
      then have sp: "s = l @ CHR ''.'' # join_labels ls" using ls(1) by (simp add: join_labels_Cons)
      have e: "?l = l" "?r = CHR ''.'' # join_labels ls" unfolding sp using d by (simp_all add: takeWhile_append2 dropWhile_append2)
      have "\<exists>ls'. ls' \<noteq> [] \<and> tl ?r = join_labels ls' \<and> (\<forall>l\<in>set ls'. valid_label l)" using e(2) ls(3) False by auto
      moreover have "valid_label ?l" "?r \<noteq> []" using ls(2) e by simp_all
      ultimately have "valid_labels (tl ?r)" using 1 [OF refl refl] by blast
      then show ?thesis using ls(2) e by (subst valid_labels.simps) (simp add: Let_def)
    qed
  qed
qed



subsection \<open>Vote identifiers\<close>

text \<open>The tally of votes is indexed by the numbers of the vote identifiers, so no two may agree, and all must be below the next one.\<close>

definition vote_numbers :: "database \<Rightarrow> nat list" where
  "vote_numbers db = map (\<lambda>p. vote_instance (witness_vote_id (snd p))) (ix_tab (witnesses db)) @ map (\<lambda>p. vote_instance (cm_vote_id (snd p))) (ix_tab (committee_members db))
     @ map (\<lambda>p. vote_instance (vote_for (snd p))) (ix_tab (workers db)) @ map (\<lambda>p. vote_instance (vote_against (snd p))) (ix_tab (workers db))"

definition votes_ok :: "database \<Rightarrow> bool" where
  "votes_ok db \<longleftrightarrow> distinct (vote_numbers db) \<and> (\<forall>n\<in>set (vote_numbers db). n < next_available_vote_id db)"

lemma create_unique_result: "create_unique P x ix = Inr ix' \<Longrightarrow> ix' = ix_create x ix"
  by simp

lemma votes_ok_extend:
  assumes "votes_ok db" "set (vote_numbers db') = new \<union> set (vote_numbers db)" "length (vote_numbers db') = card new + length (vote_numbers db)"
    "new \<subseteq> {next_available_vote_id db..<next_available_vote_id db'}" "next_available_vote_id db \<le> next_available_vote_id db'"
  shows "votes_ok db'"
proof -
  have d: "distinct (vote_numbers db)" and free: "\<forall>x\<in>set (vote_numbers db). x < next_available_vote_id db" using assms(1) by (simp_all add: votes_ok_def)
  have "finite new" using assms(4) by (rule finite_subset) simp
  moreover have "new \<inter> set (vote_numbers db) = {}" using assms(4) free by fastforce
  ultimately have "card (set (vote_numbers db')) = card new + card (set (vote_numbers db))" unfolding assms(2) by (intro card_Un_disjoint) simp_all
  then have "distinct (vote_numbers db')" using assms(3) distinct_card [OF d] by (intro card_distinct) simp
  moreover have "\<forall>x\<in>set (vote_numbers db'). x < next_available_vote_id db'" unfolding assms(2) using assms(4,5) free by fastforce
  ultimately show ?thesis by (simp add: votes_ok_def)
qed

lemma init_worker_frame: "witnesses (snd (init_worker a ini db)) = witnesses db" "committee_members (snd (init_worker a ini db)) = committee_members db"
  "workers (snd (init_worker a ini db)) = workers db" "next_available_vote_id (snd (init_worker a ini db)) = next_available_vote_id db"
  by (cases ini; simp add: init_worker_def Let_def)+

text \<open>C19: creating witnesses, committee members and workers gives each its own numbers in the vote tally, as long as there are fewer than
  \<open>2 ^ 24\<close>.\<close>

theorem vote_numbers_stay_unique:
  assumes "votes_ok db" "next_available_vote_id db + 2 \<le> 2 ^ 24"
    "witness_create_apply w db = Inr db' \<or> committee_member_create_apply c db = Inr db' \<or> worker_create_apply k db = Inr db'"
  shows "votes_ok db'"
proof -
  let ?n = "next_available_vote_id db"
  have num: "vote_instance (make_vote_id ty i) = i" if "ty < 256" "i \<le> Suc ?n" for ty i using vote_id_parts(2) [OF that(1)] that(2) assms(2) by simp
  note types = vote_committee_def vote_witness_def vote_worker_def
  have small: "(?n + 1) mod 2 ^ 32 = Suc ?n" "(Suc ?n + 1) mod 2 ^ 32 = Suc (Suc ?n)" using assms(2) by simp_all
  from assms(3) show ?thesis
  proof (elim disjE)
    assume "witness_create_apply w db = Inr db'"
    then obtain ix where "create_unique (\<lambda>v. witness_account v = nc_witness_account w \<or> vote_instance (witness_vote_id v) = vote_instance (make_vote_id vote_witness ?n))
        \<lparr>witness_account = nc_witness_account w, last_aslot = 0, pay_vb = None, total_votes = 0, total_missed = 0, last_confirmed_block_num = 0,
         signing_key = block_signing_key w, witness_vote_id = make_vote_id vote_witness ?n, witness_url = nc_url w\<rparr> (witnesses db) = Inr ix"
      "db' = db\<lparr>next_available_vote_id := Suc ?n, witnesses := ix\<rparr>"
      unfolding witness_create_apply_def take_vote_id_def Let_def prod.case small by (elim res_bind_InrE) simp
    note this(2) create_unique_result [OF this(1)]
    then show ?thesis by (intro votes_ok_extend [OF assms(1), of _ "{?n}"]) (auto simp: vote_numbers_def ix_create_def num types)
  next
    assume "committee_member_create_apply c db = Inr db'"
    then obtain ix where "create_unique (\<lambda>v. committee_member_account v = mc_committee_member_account c \<or> vote_instance (cm_vote_id v) = vote_instance (make_vote_id vote_committee ?n))
        \<lparr>committee_member_account = mc_committee_member_account c, cm_vote_id = make_vote_id vote_committee ?n, cm_total_votes = 0, cm_url = mc_url c\<rparr> (committee_members db) = Inr ix"
      "db' = db\<lparr>next_available_vote_id := Suc ?n, committee_members := ix\<rparr>"
      unfolding committee_member_create_apply_def take_vote_id_def Let_def prod.case small by (elim res_bind_InrE) simp
    note this(2) create_unique_result [OF this(1)]
    then show ?thesis by (intro votes_ok_extend [OF assms(1), of _ "{?n}"]) (auto simp: vote_numbers_def ix_create_def num types)
  next
    assume "worker_create_apply k db = Inr db'"
    define db2 where "db2 = (db\<lparr>next_available_vote_id := Suc ?n\<rparr>)\<lparr>next_available_vote_id := Suc (Suc ?n)\<rparr>"
    have t1: "take_vote_id vote_worker db = (make_vote_id vote_worker ?n, db\<lparr>next_available_vote_id := Suc ?n\<rparr>)" unfolding take_vote_id_def small ..
    have t2: "take_vote_id vote_worker (db\<lparr>next_available_vote_id := Suc ?n\<rparr>) = (make_vote_id vote_worker (Suc ?n), db2)"
      unfolding take_vote_id_def db2_def using small(2) by simp
    obtain wk db3 where i: "init_worker (kc_owner k) (kc_initializer k) db2 = (wk, db3)" by (cases "init_worker (kc_owner k) (kc_initializer k) db2")
    from \<open>worker_create_apply k db = Inr db'\<close> obtain P ix where "create_unique P
        \<lparr>worker_account = kc_owner k, work_begin_date = kc_work_begin_date k, work_end_date = kc_work_end_date k, daily_pay = kc_daily_pay k,
         worker = wk, worker_name = kc_name k, worker_url = kc_url k, vote_for = make_vote_id vote_worker ?n, vote_against = make_vote_id vote_worker (Suc ?n),
         total_votes_for = 0, total_votes_against = 0\<rparr> (workers db3) = Inr ix" "db' = db3\<lparr>workers := ix\<rparr>"
      unfolding worker_create_apply_def Let_def t1 prod.case t2 i by (elim res_bind_InrE) (rule that, assumption, simp)
    note this(2) create_unique_result [OF this(1)]
    moreover have "witnesses db3 = witnesses db" "committee_members db3 = committee_members db" "workers db3 = workers db" "next_available_vote_id db3 = Suc (Suc ?n)"
      using init_worker_frame [of "kc_owner k" "kc_initializer k" db2] unfolding i by (simp_all add: db2_def)
    ultimately show ?thesis by (intro votes_ok_extend [OF assms(1), of _ "{?n, Suc ?n}"]) (auto simp: vote_numbers_def ix_create_def num types)
  qed
qed

theorem vote_numbers_stay_unique_witness:
  "\<exists>db'. witness_create_apply \<lparr>nc_fee = mk_asset 0 0, nc_witness_account = 7, nc_url = [], block_signing_key = 7\<rparr> sample_db = Inr db' \<and> votes_ok db'"
proof -
  let ?w = "\<lparr>nc_fee = mk_asset 0 0, nc_witness_account = 7, nc_url = [], block_signing_key = 7\<rparr>"
  have "case witness_create_apply ?w sample_db of Inl _ \<Rightarrow> False | Inr _ \<Rightarrow> True" by code_simp
  then obtain db' where w: "witness_create_apply ?w sample_db = Inr db'" by (auto split: sum.split_asm)
  have "vote_numbers sample_db = [0, 1, 2]" "next_available_vote_id sample_db = 3" by code_simp+
  then have "votes_ok sample_db" "next_available_vote_id sample_db + 2 \<le> 2 ^ 24" by (simp_all add: votes_ok_def)
  from vote_numbers_stay_unique [OF this] w show ?thesis by blast
qed

text \<open>The special authority object is created whenever the extension is there, even when it says that there is none.
  The next update that sets a special authority then fails, because its object exists already.\<close>

definition none_special_account :: account_create_operation where
  "none_special_account = \<lparr>cr_fee = mk_asset 0 0, cr_registrar = 1, cr_referrer = 1, cr_referrer_percent = 0, cr_name = ''holder'',
     cr_owner = null_authority\<lparr>account_auths := [(1, 1)]\<rparr>, cr_active = null_authority\<lparr>account_auths := [(1, 1)]\<rparr>, cr_options = (acc_options (sample_account 1))\<lparr>voting_account := 0\<rparr>,
     cr_owner_special_authority = Some No_special_authority, cr_active_special_authority = None, cr_buyback_options = None\<rparr>"

definition top_holders_update :: account_update_operation where
  "top_holders_update = \<lparr>ud_fee = mk_asset 0 0, ud_account = 3, ud_owner = None, ud_active = None, ud_new_options = None,
     ud_owner_special_authority = Some (Top_holders_special_authority 1 2), ud_active_special_authority = None\<rparr>"

definition holder_db :: database where
  "holder_db = sample_db\<lparr>accounts := (accounts sample_db)\<lparr>ix_tab := map (\<lambda>(i, a). (i, a\<lparr>lifetime_referrer := i, referrer := i, registrar := i\<rparr>)) (ix_tab (accounts sample_db))\<rparr>\<rparr>"

lemma special_authority_blocked:
  "account_create_validate none_special_account = Inr ()" "account_create_evaluate none_special_account holder_db = Inr ()" "account_update_validate top_holders_update = Inr ()"
  "case account_create_apply none_special_account holder_db of Inl _ \<Rightarrow> False
   | Inr db \<Rightarrow> account_update_evaluate top_holders_update db = Inr () \<and> (case account_update_apply top_holders_update db of Inl _ \<Rightarrow> True | Inr _ \<Rightarrow> False)"
  by code_simp+

text \<open>The difference of the proposal lifetime and the review period is taken in 32 bits, so a review period longer than the lifetime is accepted.\<close>

lemma review_period_unchecked:
  assumes "committee_proposal_review_period p > maximum_proposal_lifetime p" "committee_proposal_review_period p \<le> 2 ^ 31"
    "chain_parameters_validate (p\<lparr>committee_proposal_review_period := 0, maximum_proposal_lifetime := 2 ^ 31\<rparr>) = Inr ()"
  shows "chain_parameters_validate p = Inr ()"
proof -
  let ?d = "int (maximum_proposal_lifetime p) - int (committee_proposal_review_period p)"
  have "?d mod 2 ^ 32 = (?d + 2 ^ 32) mod 2 ^ 32" by simp
  also have "\<dots> = ?d + 2 ^ 32" using assms(1,2) by (intro mod_pos_pos_trivial) simp_all
  finally have "?d mod 2 ^ 32 \<ge> 2 ^ 31" using assms(2) by simp
  with assms(3) show ?thesis by (auto simp: chain_parameters_validate_def FC_ASSERT_def split: if_splits)
qed

text \<open>Whether the predicates are valid does not matter for \<open>assert_operation::validate\<close>.\<close>

lemma assert_predicates_unchecked: "0 \<le> amount (xa_fee x) \<Longrightarrow> assert_validate x = Inr ()"
  by (simp add: assert_validate_def)

end
