(* ===== verification/Elections.thy ===== *)
theory Elections
  imports Account_Evaluators "HOL-Library.List_Lexorder"
begin

text \<open>
  Elections at the maintenance interval: tallying the votes of all accounts, choosing the number of witnesses and committee
  members, electing them and giving their weights to the accounts of the witnesses and of the committee
  (\<open>libraries/chain/db_maint.cpp\<close>, \<open>vote_count.hpp\<close>).

  The buffers that the database object keeps between the calls are a record of their own. Votes are unsigned 64-bit numbers
  and wrap around; where the source puts them into a \<open>share_type\<close> they are read as signed numbers. Where the source would read past
  the end of the tally buffer the model reads 0.
\<close>

subsection \<open>Counting the votes for an authority\<close>

record vote_counter =
  last_votes :: nat
  vc_total_votes :: nat
  bitshift :: "nat option"
  vc_auth :: authority

definition new_vote_counter :: vote_counter where
  "new_vote_counter = \<lparr>last_votes = 2 ^ 64 - 1, vc_total_votes = 0, bitshift = None, vc_auth = empty_authority\<rparr>"

text \<open>The index of the most significant bit, \<open>find_msb\<close>; it is not defined for 0.\<close>

fun find_msb :: "nat \<Rightarrow> nat" where
  "find_msb n = (if n < 2 then 0 else Suc (find_msb (n div 2)))"

declare find_msb.simps [simp del]

text \<open>Everyone who is voted for has a weight of at least one.\<close>

definition scaled_votes :: "nat \<Rightarrow> nat \<Rightarrow> nat" where
  "scaled_votes sh v = max (v div 2 ^ sh) 1"

text \<open>The assertions in \<open>add\<close> are checked in debug builds only.\<close>

definition vc_add :: "account_id \<Rightarrow> nat \<Rightarrow> vote_counter \<Rightarrow> vote_counter" where
  "vc_add who vs vc =
     (if vs = 0 then vc
      else let sh = (case bitshift vc of None \<Rightarrow> find_msb vs - 15 | Some b \<Rightarrow> b); scaled = scaled_votes sh vs in
        vc\<lparr>last_votes := vs, bitshift := Some sh, vc_total_votes := (vc_total_votes vc + scaled) mod 2 ^ 64,
           vc_auth := add_account_auth who (scaled mod 2 ^ 16) (vc_auth vc)\<rparr>)"

definition vc_finish :: "vote_counter \<Rightarrow> authority \<Rightarrow> authority" where
  "vc_finish vc out_auth =
     (if vc_total_votes vc = 0 then out_auth
      else (vc_auth vc)\<lparr>weight_threshold := vc_total_votes vc mod 2 ^ 32 div 2 + 1\<rparr>)"

definition vc_is_empty :: "vote_counter \<Rightarrow> bool" where
  "vc_is_empty vc \<longleftrightarrow> vc_total_votes vc = 0"

text \<open>The authority of a list of accounts with their votes, as the elections build it.\<close>

definition voted_authority :: "(account_id \<times> nat) list \<Rightarrow> authority \<Rightarrow> authority" where
  "voted_authority cs old = vc_finish (fold (\<lambda>(a, v). vc_add a v) cs new_vote_counter) old"

text \<open>The weights before hard fork 533: the first entry of an account counts, and the sum of all votes decides how many bits are dropped.\<close>

definition emplace :: "'k::linorder \<Rightarrow> 'v \<Rightarrow> ('k \<times> 'v) list \<Rightarrow> ('k \<times> 'v) list" where
  "emplace k v m = (if k \<in> fst ` set m then m else insort_key fst (k, v) m)"

definition legacy_authority :: "(account_id \<times> nat) list \<Rightarrow> authority \<Rightarrow> authority res" where
  "legacy_authority cs old =
     (let weights = fold (\<lambda>(a, v). emplace a v) cs [];
          total = fold (\<lambda>(a, v) t. (t + v) mod 2 ^ 64) cs 0 in
      if total = 0 then Inl (Throw_exn ''undefined behaviour: find_msb( 0 )'')
      else let bits_to_drop = find_msb total - 15;
               ws = map (\<lambda>(a, v). (a, scaled_votes bits_to_drop v mod 2 ^ 16)) weights in
        Inr (old\<lparr>account_auths := ws, key_auths := [], weight_threshold := sum_list (map snd ws) mod 2 ^ 32 div 2 + 1\<rparr>))"

definition elected_authority :: "time_sec \<Rightarrow> (account_id \<times> nat) list \<Rightarrow> authority \<Rightarrow> authority res" where
  "elected_authority now cs old = (if now < HARDFORK_533_TIME then legacy_authority cs old else Inr (voted_authority cs old))"

subsection \<open>Tallying the votes\<close>

record vote_tally =
  vote_tally_buffer :: "nat list"
  witness_count_histogram :: "nat list"
  committee_count_histogram :: "nat list"
  total_voting_stake :: nat

definition new_vote_tally :: "database \<Rightarrow> vote_tally" where
  "new_vote_tally db = \<lparr>vote_tally_buffer = replicate (next_available_vote_id db) 0,
     witness_count_histogram = replicate (maximum_witness_count (parameters db) div 2 + 1) 0,
     committee_count_histogram = replicate (maximum_committee_count (parameters db) div 2 + 1) 0, total_voting_stake = 0\<rparr>"

definition add_at :: "nat \<Rightarrow> nat \<Rightarrow> nat list \<Rightarrow> nat list" where
  "add_at i x xs = xs[i := (xs ! i + x) mod 2 ^ 64]"

text \<open>A vote for an identifier that does not exist is ignored. So is an opinion on the number of witnesses above the maximum.\<close>

definition add_votes :: "nat \<Rightarrow> vote_id list \<Rightarrow> nat list \<Rightarrow> nat list" where
  "add_votes stake vs buf = fold (\<lambda>v b. if vote_instance v < length b then add_at (vote_instance v) stake b else b) vs buf"

definition add_opinion :: "nat \<Rightarrow> nat \<Rightarrow> nat \<Rightarrow> nat list \<Rightarrow> nat list" where
  "add_opinion stake n max_count hist = (if n \<le> max_count then add_at (min (n div 2) (length hist - 1)) stake hist else hist)"

definition tally_opinion :: "nat \<Rightarrow> account_options \<Rightarrow> chain_parameters \<Rightarrow> vote_tally \<Rightarrow> vote_tally" where
  "tally_opinion stake opts p t = t\<lparr>vote_tally_buffer := add_votes stake (votes opts) (vote_tally_buffer t),
     witness_count_histogram := add_opinion stake (num_witness opts) (maximum_witness_count p) (witness_count_histogram t),
     committee_count_histogram := add_opinion stake (num_committee opts) (maximum_committee_count p) (committee_count_histogram t),
     total_voting_stake := (total_voting_stake t + stake) mod 2 ^ 64\<rparr>"

definition cashback_balance :: "account_object \<Rightarrow> database \<Rightarrow> int res" where
  "cashback_balance acc db =
     (case cashback_vb acc of None \<Rightarrow> Inr 0
      | Some i \<Rightarrow> res_bind (opt_get ''Unable to find Object'' (ix_get i (vestings db))) (\<lambda>vbo. Inr (amount (vb_balance vbo))))"

definition voting_stake :: "account_object \<Rightarrow> account_statistics_object \<Rightarrow> database \<Rightarrow> nat res" where
  "voting_stake acc s db = res_bind (cashback_balance acc db) (\<lambda>cb. Inr (nat ((total_core_in_orders s + cb + core_in_balance s) mod 2 ^ 64)))"

text \<open>The call operator of \<open>vote_tally_helper\<close>.\<close>

definition tally_helper :: "account_object \<Rightarrow> account_statistics_object \<Rightarrow> database \<Rightarrow> vote_tally \<Rightarrow> vote_tally res" where
  "tally_helper stake_account s db t =
     (if count_non_member_votes (parameters db) \<or> is_member stake_account (head_block_time db)
      then res_bind (if voting_account (acc_options stake_account) = GRAPHENE_PROXY_TO_SELF_ACCOUNT then Inr stake_account
                     else get_account db (voting_account (acc_options stake_account))) (\<lambda>opinion_account.
           res_bind (voting_stake stake_account s db) (\<lambda>stake.
           Inr (tally_opinion stake (acc_options opinion_account) (parameters db) t)))
      else Inr t)"

subsection \<open>Maintenance of accounts\<close>

definition set_core_in_balance :: "account_balance_object \<Rightarrow> database \<Rightarrow> database res" where
  "set_core_in_balance b db = modify_stats_by_owner (ab_owner b) (\<lambda>s. Inr (s\<lparr>core_in_balance := ab_balance b\<rparr>)) db"

definition update_core_in_balance :: "obj_id \<times> account_balance_object \<Rightarrow> database \<Rightarrow> database res" where
  "update_core_in_balance p db =
     res_bind (set_core_in_balance (snd p) db) (\<lambda>db1.
     res_bind (ix_modify (fst p) (\<lambda>b. Inr (b\<lparr>ab_maintenance_flag := False\<rparr>)) (balances db1)) (\<lambda>ix. Inr (db1\<lparr>balances := ix\<rparr>)))"

definition flagged_balances :: "database \<Rightarrow> account_balance_object table" where
  "flagged_balances db = filter (\<lambda>p. ab_maintenance_flag (snd p)) (ix_tab (balances db))"

definition needs_maintenance :: "database \<Rightarrow> obj_id \<Rightarrow> bool" where
  "needs_maintenance db i = (case ix_get i (account_stats db) of None \<Rightarrow> False | Some s \<Rightarrow> need_maintenance s)"

text \<open>All statistics objects by name; the index \<open>by_maintenance_seq\<close> has those that need maintenance, in this order.\<close>

definition stats_by_name :: "database \<Rightarrow> obj_id list" where
  "stats_by_name db = map fst (sort_key (\<lambda>p. st_name (snd p)) (ix_tab (account_stats db)))"

definition maintain_account :: "fc_lib \<Rightarrow> obj_id \<Rightarrow> vote_tally \<times> database \<Rightarrow> (vote_tally \<times> database) res" where
  "maintain_account lib i td =
     (let (t, db) = td in
      res_bind (opt_get ''Unable to find Object'' (ix_get i (account_stats db))) (\<lambda>s.
      res_bind (get_account db (st_owner s)) (\<lambda>acc.
      res_bind (if has_some_core_voting s then tally_helper acc s db t else Inr t) (\<lambda>t1.
      res_bind (if has_pending_fees s then process_fees lib i (st_owner s) db else Inr db) (\<lambda>db1. Inr (t1, db1))))))"

text \<open>The iterator is advanced to the next object that needs maintenance before the current one is processed.\<close>

function maintain_accounts :: "fc_lib \<Rightarrow> obj_id list \<Rightarrow> vote_tally \<times> database \<Rightarrow> (vote_tally \<times> database) res" where
  "maintain_accounts lib [] td = Inr td"
| "maintain_accounts lib (i # is) td =
     res_bind (maintain_account lib i td) (maintain_accounts lib (dropWhile (\<lambda>j. \<not> needs_maintenance (snd td) j) is))"
  by pat_completeness auto

termination
  by (relation "measure (\<lambda>(lib, is, td). length is)") (auto simp: less_Suc_eq_le length_dropWhile_le)

definition perform_account_maintenance :: "fc_lib \<Rightarrow> vote_tally \<Rightarrow> database \<Rightarrow> (vote_tally \<times> database) res" where
  "perform_account_maintenance lib t db =
     res_bind (res_fold update_core_in_balance (flagged_balances db) db) (\<lambda>db1.
     maintain_accounts lib (dropWhile (\<lambda>j. \<not> needs_maintenance db1 j) (stats_by_name db1)) (t, db1))"

subsection \<open>Electing\<close>

definition votes_for :: "nat list \<Rightarrow> vote_id \<Rightarrow> nat" where
  "votes_for buf v = (if vote_instance v < length buf then buf ! vote_instance v else 0)"

text \<open>More votes come first, and among equals the older vote identifier.\<close>

definition more_votes :: "int \<times> nat \<Rightarrow> int \<times> nat \<Rightarrow> bool" where
  "more_votes x y \<longleftrightarrow> fst x > fst y \<or> fst x = fst y \<and> snd x < snd y"

definition vote_key :: "('o \<Rightarrow> vote_id) \<Rightarrow> nat list \<Rightarrow> 'o \<Rightarrow> int \<times> nat" where
  "vote_key vid buf x = (wrap_int64 (int (votes_for buf (vid x))), vote_instance (vid x))"

definition sort_votable_objects :: "('o \<Rightarrow> vote_id) \<Rightarrow> nat list \<Rightarrow> nat \<Rightarrow> 'o index \<Rightarrow> 'o table" where
  "sort_votable_objects vid buf n ix = take n (sorted_index more_votes (vote_key vid buf) ix)"

text \<open>The loop over the histogram: \<open>i\<close> is the position reached and \<open>tally\<close> the stake up to it.\<close>

fun count_loop :: "fc_lib \<Rightarrow> nat \<Rightarrow> nat list \<Rightarrow> nat \<Rightarrow> int \<Rightarrow> nat res" where
  "count_loop lib stake_target [] i tally = Inr i"
| "count_loop lib stake_target (h # hs) i tally =
     (if tally \<le> int stake_target then res_bind (fc_safe lib (tally + wrap_int64 (int h))) (count_loop lib stake_target hs (i + 1)) else Inr i)"

definition stake_target :: "nat \<Rightarrow> nat list \<Rightarrow> nat" where
  "stake_target total_stake hist = nat ((int total_stake - int (hist ! 0)) mod 2 ^ 64) div 2"

definition elected_count :: "fc_lib \<Rightarrow> nat \<Rightarrow> nat list \<Rightarrow> nat \<Rightarrow> nat res" where
  "elected_count lib total_stake hist min_count =
     (let target = stake_target total_stake hist in
      res_bind (if target > 0 then count_loop lib target (tl hist) 0 0 else Inr 0) (\<lambda>n. Inr (max (n * 2 + 1) min_count)))"

definition update_witness_votes :: "nat list \<Rightarrow> obj_id \<Rightarrow> database \<Rightarrow> database res" where
  "update_witness_votes buf i db =
     res_bind (ix_modify i (\<lambda>w. Inr (w\<lparr>total_votes := votes_for buf (witness_vote_id w)\<rparr>)) (witnesses db)) (\<lambda>ix. Inr (db\<lparr>witnesses := ix\<rparr>))"

definition update_active_witnesses :: "fc_lib \<Rightarrow> bool \<Rightarrow> vote_tally \<Rightarrow> database \<Rightarrow> database res" where
  "update_active_witnesses lib track_standby_votes t db =
     (let buf = vote_tally_buffer t in
      res_bind (elected_count lib (total_voting_stake t) (witness_count_histogram t) (min_witness_count db)) (\<lambda>witness_count.
      let wits = sort_votable_objects witness_vote_id buf witness_count (witnesses db) in
      res_bind (res_fold (update_witness_votes buf) (map fst (if track_standby_votes then ix_tab (witnesses db) else wits)) db) (\<lambda>db1.
      res_bind (modify_account GRAPHENE_WITNESS_ACCOUNT (\<lambda>a.
          res_bind (elected_authority (head_block_time db) (map (\<lambda>p. (witness_account (snd p), votes_for buf (witness_vote_id (snd p)))) wits) (active_auth a)) (\<lambda>auth.
          Inr (a\<lparr>active_auth := auth\<rparr>))) db1) (\<lambda>db2.
      Inr (db2\<lparr>active_witnesses := sort (map fst wits)\<rparr>)))))"

definition update_committee_votes :: "nat list \<Rightarrow> obj_id \<Rightarrow> database \<Rightarrow> database res" where
  "update_committee_votes buf i db =
     res_bind (ix_modify i (\<lambda>c. Inr (c\<lparr>cm_total_votes := votes_for buf (cm_vote_id c)\<rparr>)) (committee_members db)) (\<lambda>ix. Inr (db\<lparr>committee_members := ix\<rparr>))"

definition update_active_committee_members :: "fc_lib \<Rightarrow> bool \<Rightarrow> vote_tally \<Rightarrow> database \<Rightarrow> database res" where
  "update_active_committee_members lib track_standby_votes t db =
     (let buf = vote_tally_buffer t in
      res_bind (elected_count lib (total_voting_stake t) (committee_count_histogram t) (min_committee_member_count db)) (\<lambda>committee_member_count.
      let cms = sort_votable_objects cm_vote_id buf committee_member_count (committee_members db) in
      res_bind (res_fold (update_committee_votes buf) (map fst (if track_standby_votes then ix_tab (committee_members db) else cms)) db) (\<lambda>db1.
      res_bind (if cms = [] then Inr db1
        else res_bind (get_account db1 GRAPHENE_COMMITTEE_ACCOUNT) (\<lambda>com.
             res_bind (elected_authority (head_block_time db) (map (\<lambda>p. (committee_member_account (snd p), votes_for buf (cm_vote_id (snd p)))) cms) (active_auth com)) (\<lambda>auth.
             res_bind (modify_account GRAPHENE_COMMITTEE_ACCOUNT (\<lambda>a. Inr (a\<lparr>active_auth := auth\<rparr>)) db1)
               (modify_account GRAPHENE_RELAXED_COMMITTEE_ACCOUNT (\<lambda>a. Inr (a\<lparr>active_auth := auth\<rparr>)))))) (\<lambda>db2.
      Inr (db2\<lparr>active_committee_members := map fst cms\<rparr>)))))"

definition update_worker_votes :: "vote_tally \<Rightarrow> database \<Rightarrow> database" where
  "update_worker_votes t db = db\<lparr>workers := (workers db)\<lparr>ix_tab := map (\<lambda>(i, w). (i, w\<lparr>
      total_votes_for := votes_for (vote_tally_buffer t) (vote_for w),
      total_votes_against := (if head_block_time db < HARDFORK_607_TIME then votes_for (vote_tally_buffer t) (vote_against w) else 0)\<rparr>))
     (ix_tab (workers db))\<rparr>\<rparr>"

subsection \<open>Authorities of the largest holders\<close>

text \<open>The index \<open>by_asset_balance\<close> of one asset: the largest balance first, then by owner.\<close>

definition holders :: "asset_id \<Rightarrow> database \<Rightarrow> (account_id \<times> int) list" where
  "holders a db = map (\<lambda>b. (ab_owner b, ab_balance b))
     (sort_key (\<lambda>b. - ab_balance b) (sort_key ab_owner (filter (\<lambda>b. ab_asset_type b = a) (map snd (ix_tab (balances db))))))"

definition top_holders :: "account_id \<Rightarrow> asset_id \<Rightarrow> nat \<Rightarrow> database \<Rightarrow> (account_id \<times> nat) list" where
  "top_holders acct a n db = map (\<lambda>(b, v). (b, nat v)) (take n (filter (\<lambda>p. fst p \<noteq> acct) (holders a db)))"

definition update_top_n :: "account_id \<Rightarrow> bool \<Rightarrow> special_authority \<Rightarrow> database \<Rightarrow> database res" where
  "update_top_n acct is_owner sa db =
     (case sa of No_special_authority \<Rightarrow> Inr db
      | Top_holders_special_authority a n \<Rightarrow>
          if n = 0 then Inr db
          else let vc = fold (\<lambda>(b, v). vc_add b v) (top_holders acct a n db) new_vote_counter in
            modify_account acct (\<lambda>acc.
              let acc1 = (if is_owner then acc\<lparr>owner_auth := vc_finish vc (owner_auth acc)\<rparr> else acc\<lparr>active_auth := vc_finish vc (active_auth acc)\<rparr>) in
              Inr (if vc_is_empty vc then acc1 else acc1\<lparr>top_n_control_flags := or (top_n_control_flags acc1) (if is_owner then 1 else 2)\<rparr>)) db)"

definition update_top_n_authorities :: "database \<Rightarrow> database res" where
  "update_top_n_authorities db =
     res_fold (\<lambda>(_, i) d.
       res_bind (get_account d i) (\<lambda>acct.
       res_bind (update_top_n i True (owner_special_authority acct) d) (\<lambda>d1.
       res_bind (get_account d1 i) (\<lambda>acct1.
       update_top_n i False (active_special_authority acct1) d1)))) (ix_tab (special_authorities db)) db"

subsection \<open>Who is elected\<close>

interpretation most_voted: strict_weak_order "\<lambda>_. True" more_votes "(=)"
  by unfold_locales (auto simp: more_votes_def)

lemma length_sorted_index [simp]: "length (sorted_index lt key ix) = length (ix_tab ix)"
proof -
  have "length (insert_sorted lt key x t) = Suc (length t)" for x and t :: "'a table" by (induction t) auto
  then have "length (foldr (insert_sorted lt key) t []) = length t" for t :: "'a table" by (induction t) auto
  then show ?thesis by (simp add: sorted_index_def)
qed

text \<open>The sorted objects fall apart into those that are elected and those that are not; no one who is not elected beats one who is.\<close>

lemma elected_are_best:
  assumes "ix_ok ix" "p \<in> set (sort_votable_objects vid buf n ix)" "q \<in> set (ix_tab ix)" "q \<notin> set (sort_votable_objects vid buf n ix)"
  shows "\<not> more_votes (vote_key vid buf (snd q)) (vote_key vid buf (snd p))"
proof -
  let ?s = "sorted_index more_votes (vote_key vid buf) ix"
  have "sorted_wrt (comes_before more_votes (vote_key vid buf)) (take n ?s @ drop n ?s)"
    unfolding append_take_drop_id using assms(1) by (rule most_voted.sorted_index_sorted) simp
  moreover have "set ?s = set (take n ?s) \<union> set (drop n ?s)" by (metis append_take_drop_id set_append)
  then have "q \<in> set (drop n ?s)" using assms(3,4) by (auto simp: sort_votable_objects_def)
  ultimately have "comes_before more_votes (vote_key vid buf) p q" using assms(2) unfolding sorted_wrt_append sort_votable_objects_def by blast
  then show ?thesis by (auto simp: comes_before_def more_votes_def)
qed

lemma sort_votable_objects_subset: "p \<in> set (sort_votable_objects vid buf n ix) \<Longrightarrow> p \<in> set (ix_tab ix)"
  unfolding sort_votable_objects_def by (metis in_set_takeD set_sorted_index)

lemma distinct_sort_votable_objects: "ix_ok ix \<Longrightarrow> distinct (map fst (sort_votable_objects vid buf n ix))"
  unfolding sort_votable_objects_def by (simp add: distinct_sorted_index take_map [symmetric])

lemma length_sort_votable_objects [simp]: "length (sort_votable_objects vid buf n ix) = min n (length (ix_tab ix))"
  by (simp add: sort_votable_objects_def)

text \<open>The histogram is searched for its weighted median.\<close>

lemma count_loop_median:
  assumes "fc_lib_ok lib" "0 \<le> tally" "tally + int (sum_list hs) < 2 ^ 63"
  shows "\<exists>n \<le> length hs. count_loop lib target hs i tally = Inr (i + n)
    \<and> (n < length hs \<longrightarrow> tally + int (sum_list (take n hs)) > int target) \<and> (\<forall>k<n. tally + int (sum_list (take k hs)) \<le> int target)"
  using assms
proof (induction hs arbitrary: i tally)
  case (Cons h hs)
  show ?case
  proof (cases "tally \<le> int target")
    case True
    have "wrap_int64 (int h) = int h" using Cons.prems by (intro wrap_int64_id) auto
    moreover have "fc_safe lib (tally + int h) = Inr (tally + int h)" using Cons.prems by (intro fc_safe_in_range) auto
    ultimately have eq: "count_loop lib target (h # hs) i tally = count_loop lib target hs (i + 1) (tally + int h)" using True by simp
    have "0 \<le> tally + int h" "tally + int h + int (sum_list hs) < 2 ^ 63" using Cons.prems by auto
    from Cons.IH [OF Cons.prems(1) this, of "i + 1"] obtain n where n: "n \<le> length hs" "count_loop lib target hs (i + 1) (tally + int h) = Inr (i + 1 + n)"
      "n < length hs \<longrightarrow> tally + int h + int (sum_list (take n hs)) > int target" "\<forall>k<n. tally + int h + int (sum_list (take k hs)) \<le> int target" by blast
    have "tally + int (sum_list (take k (h # hs))) \<le> int target" if "k < Suc n" for k
      using that n(4) True by (cases k) auto
    with n(1-3) show ?thesis unfolding eq by (intro exI [of _ "Suc n"]) auto
  qed auto
qed auto

subsection \<open>The weights of those elected\<close>

lemma find_msb_bound: "0 < n \<Longrightarrow> 2 ^ find_msb n \<le> n \<and> n < 2 ^ Suc (find_msb n)"
proof (induction n rule: find_msb.induct)
  case (1 n)
  show ?case
  proof (cases "n < 2")
    case False
    then have "2 ^ find_msb (n div 2) \<le> n div 2 \<and> n div 2 < 2 ^ Suc (find_msb (n div 2))" using 1 by simp
    moreover have "find_msb n = Suc (find_msb (n div 2))" using False by (subst find_msb.simps) simp
    ultimately show ?thesis by (simp add: less_mult_imp_div_less) linarith
  qed (use 1 in \<open>simp add: find_msb.simps\<close>)
qed

lemma scaled_votes_mono: "v \<le> u \<Longrightarrow> scaled_votes sh v \<le> scaled_votes sh u"
  unfolding scaled_votes_def by (intro max.mono div_le_mono order.refl)

lemma scaled_votes_fit:
  assumes "0 < u" "v \<le> u"
  shows "scaled_votes (find_msb u - 15) v < 2 ^ 16"
proof -
  have "u < 2 ^ Suc (find_msb u)" using find_msb_bound assms(1) by blast
  also have "(2 :: nat) ^ Suc (find_msb u) \<le> 2 ^ 16 * 2 ^ (find_msb u - 15)" unfolding power_add [symmetric] by (rule power_increasing) auto
  finally have "u div 2 ^ (find_msb u - 15) < 2 ^ 16" by (simp add: less_mult_imp_div_less)
  then have "scaled_votes (find_msb u - 15) u < 2 ^ 16" by (simp add: scaled_votes_def)
  then show ?thesis using scaled_votes_mono [OF assms(2)] by (rule le_less_trans [rotated])
qed

definition auth_weight :: "authority \<Rightarrow> nat" where
  "auth_weight auth = sum_list (map snd (account_auths auth))"

text \<open>What the counter has after accounts with positive votes: each has its scaled votes, and the total is their sum.\<close>

definition counted :: "nat \<Rightarrow> (account_id \<times> nat) list \<Rightarrow> vote_counter \<Rightarrow> bool" where
  "counted sh cs vc \<longleftrightarrow> bitshift vc = Some sh \<and> vc_total_votes vc = auth_weight (vc_auth vc) \<and> key_auths (vc_auth vc) = [] \<and> address_auths (vc_auth vc) = []
     \<and> distinct (map fst (account_auths (vc_auth vc))) \<and> set (account_auths (vc_auth vc)) = (\<lambda>(a, v). (a, scaled_votes sh v)) ` set cs
     \<and> auth_weight (vc_auth vc) = sum_list (map (\<lambda>p. scaled_votes sh (snd p)) cs)"

lemma add_account_auth_new:
  assumes "a \<notin> fst ` set (account_auths auth)"
  shows "account_auths (add_account_auth a w auth) = insort_key fst (a, w) (account_auths auth)"
proof -
  have "filter (\<lambda>p. fst p \<noteq> a) (account_auths auth) = account_auths auth" using assms by (auto simp: filter_id_conv)
  then show ?thesis by (simp add: add_account_auth_def)
qed

lemma sum_list_insort: "sum_list (map snd (insort_key f x xs)) = (snd x + sum_list (map snd xs) :: nat)"
  by (induction xs) auto

lemma distinct_insort_fst: "distinct (map fst (insort_key fst x xs)) \<longleftrightarrow> distinct (map fst (x # xs))"
  by (induction xs) (auto simp: set_insort_key)

lemma vc_add_counted:
  assumes "counted sh cs vc" "a \<notin> fst ` set cs" "0 < v" "scaled_votes sh v < 2 ^ 16"
    "sum_list (map (\<lambda>p. scaled_votes sh (snd p)) cs) + 2 ^ 16 \<le> 2 ^ 64"
  shows "counted sh (cs @ [(a, v)]) (vc_add a v vc)"
proof -
  have "fst ` set (account_auths (vc_auth vc)) = fst ` set cs" using assms(1) by (force simp: counted_def)
  then have n: "a \<notin> fst ` set (account_auths (vc_auth vc))" using assms(2) by simp
  have w: "scaled_votes sh v mod 2 ^ 16 = scaled_votes sh v" using assms(4) by simp
  have t: "(vc_total_votes vc + scaled_votes sh v) mod 2 ^ 64 = vc_total_votes vc + scaled_votes sh v"
    using assms(1,4,5) by (simp add: counted_def)
  have eq: "vc_add a v vc = vc\<lparr>last_votes := v, bitshift := Some sh, vc_total_votes := vc_total_votes vc + scaled_votes sh v,
      vc_auth := add_account_auth a (scaled_votes sh v) (vc_auth vc)\<rparr>"
    using assms(1,3) t w unfolding vc_add_def counted_def Let_def by simp
  have "key_auths (add_account_auth a w auth) = key_auths auth" "address_auths (add_account_auth a w auth) = address_auths auth" for w auth
    by (simp_all add: add_account_auth_def)
  then show ?thesis using assms(1) n unfolding eq counted_def auth_weight_def
    by (simp add: add_account_auth_new [OF n] sum_list_insort distinct_insort_fst set_insort_key)
qed

lemma fold_counted:
  assumes "counted sh cs0 vc" "distinct (map fst (cs0 @ cs))" "\<forall>p\<in>set (cs0 @ cs). 0 < snd p \<and> scaled_votes sh (snd p) < 2 ^ 16" "length (cs0 @ cs) \<le> 2 ^ 16"
  shows "counted sh (cs0 @ cs) (fold (\<lambda>(a, v). vc_add a v) cs vc)"
  using assms
proof (induction cs arbitrary: cs0 vc)
  case (Cons p cs)
  have b: "\<And>x. x \<in> set (map (\<lambda>p. scaled_votes sh (snd p)) cs0) \<Longrightarrow> x \<le> 2 ^ 16" using Cons.prems(3) by (auto intro: less_imp_le)
  have "sum_list (map (\<lambda>p. scaled_votes sh (snd p)) cs0) \<le> sum_list (map (\<lambda>_. 2 ^ 16) cs0)"
    by (rule sum_list_mono) (use b in auto)
  also have "\<dots> \<le> 2 ^ 32" using Cons.prems(4) by (simp add: sum_list_triv)
  finally have "sum_list (map (\<lambda>p. scaled_votes sh (snd p)) cs0) + 2 ^ 16 \<le> 2 ^ 64" by simp
  moreover have "fst p \<notin> fst ` set cs0" using Cons.prems(2) by auto
  ultimately have "counted sh (cs0 @ [(fst p, snd p)]) (vc_add (fst p) (snd p) vc)"
    using Cons.prems(1,3) by (intro vc_add_counted) auto
  then have "counted sh ((cs0 @ [p]) @ cs) (fold (\<lambda>(a, v). vc_add a v) cs (vc_add (fst p) (snd p) vc))"
    using Cons.prems by (intro Cons.IH) auto
  then show ?case by (cases p) simp
qed simp

lemma fold_skip_zero: "fold (\<lambda>(a, v). vc_add a v) cs vc = fold (\<lambda>(a, v). vc_add a v) (filter (\<lambda>p. snd p > 0) cs) vc"
  by (induction cs arbitrary: vc) (auto simp: vc_add_def)

lemma votes_counted:
  assumes "distinct (map fst cs)" "sorted_wrt (\<lambda>x y. snd y \<le> snd x) cs" "length cs \<le> 2 ^ 16" "\<exists>p\<in>set cs. 0 < snd p"
  obtains sh where "counted sh (filter (\<lambda>p. snd p > 0) cs) (fold (\<lambda>(a, v). vc_add a v) cs new_vote_counter)"
    "\<forall>p\<in>set cs. scaled_votes sh (snd p) < 2 ^ 16"
proof -
  from assms(4) obtain a u ps where f: "filter (\<lambda>p. snd p > 0) cs = (a, u) # ps" by (cases "filter (\<lambda>p. snd p > 0) cs") (auto simp: filter_empty_conv)
  let ?sh = "find_msb u - 15" and ?cs = "filter (\<lambda>p. snd p > 0) cs"
  have "(a, u) \<in> set ?cs" unfolding f by simp
  then have u: "0 < u" by simp
  have "sorted_wrt (\<lambda>x y. snd y \<le> snd x) ((a, u) # ps)" using assms(2) f by (metis sorted_wrt_filter)
  then have "\<forall>p\<in>set ?cs. snd p \<le> u" unfolding f by auto
  then have "snd p \<le> u" if "p \<in> set cs" for p using that by (cases p; cases "snd p = 0") auto
  then have fit: "\<forall>p\<in>set cs. scaled_votes ?sh (snd p) < 2 ^ 16" using scaled_votes_fit [OF u] by blast
  have "counted ?sh [] (new_vote_counter\<lparr>bitshift := Some ?sh\<rparr>)" by (simp add: counted_def new_vote_counter_def empty_authority_def auth_weight_def)
  moreover have "distinct (map fst ?cs)" using assms(1) by (rule distinct_map_filter)
  moreover have "length ?cs \<le> 2 ^ 16" using assms(3) length_filter_le [of "\<lambda>p. snd p > 0" cs] by linarith
  ultimately have "counted ?sh ([] @ ?cs) (fold (\<lambda>(a, v). vc_add a v) ?cs (new_vote_counter\<lparr>bitshift := Some ?sh\<rparr>))"
    using fit by (intro fold_counted) auto
  moreover have "vc_add a u (new_vote_counter\<lparr>bitshift := Some ?sh\<rparr>) = vc_add a u new_vote_counter"
    using u by (simp add: vc_add_def new_vote_counter_def)
  ultimately have "counted ?sh ?cs (fold (\<lambda>(a, v). vc_add a v) ?cs new_vote_counter)" by (simp add: f)
  with fit show thesis using that fold_skip_zero [of cs] by metis
qed




text \<open>C12: how many witnesses or committee members there are is the stake-weighted median of the opinions of those who have one: twice the
  smallest \<open>n\<close>, plus one, at which the stake that wants \<open>n\<close> pairs or fewer passes half of the stake that does not abstain, or the last
  position of the histogram when none does; and never fewer than the chain's minimum.\<close>

theorem elected_count_is_median:
  assumes "fc_lib_ok lib" "hist \<noteq> []" "sum_list hist \<le> total_stake" "total_stake < 2 ^ 63"
  shows "\<exists>n < length hist. elected_count lib total_stake hist min_count = Inr (max (2 * n + 1) min_count)
    \<and> (\<forall>k<n. sum_list (take k (tl hist)) \<le> (total_stake - hist ! 0) div 2)
    \<and> (Suc n < length hist \<longrightarrow> (total_stake - hist ! 0) div 2 < sum_list (take n (tl hist)) \<or> total_stake - hist ! 0 \<le> 1)"
proof -
  obtain h hs where h: "hist = h # hs" using assms(2) by (cases hist) auto
  have "(int total_stake - int h) mod 2 ^ 64 = int (total_stake - h)" using assms(3,4) h by (simp add: of_nat_diff)
  then have t: "stake_target total_stake (h # hs) = (total_stake - h) div 2" unfolding h by (simp add: stake_target_def)
  show ?thesis
  proof (cases "(total_stake - h) div 2 = 0")
    case True
    then have "total_stake - h \<le> 1" by linarith
    then show ?thesis using True unfolding h by (intro exI [of _ 0]) (simp add: elected_count_def t)
  next
    case False
    have "(0 :: int) + int (sum_list hs) < 2 ^ 63" using assms(3,4) h by simp
    from count_loop_median [OF assms(1) order.refl this, of "(total_stake - h) div 2" 0] obtain n where n: "n \<le> length hs"
      "count_loop lib ((total_stake - h) div 2) hs 0 0 = Inr n"
      "n < length hs \<longrightarrow> sum_list (take n hs) > (total_stake - h) div 2" "\<forall>k<n. sum_list (take k hs) \<le> (total_stake - h) div 2" by auto
    then show ?thesis using False unfolding h by (intro exI [of _ n]) (simp add: elected_count_def t mult.commute)
  qed
qed

theorem elected_count_is_median_witness:
  "elected_count std_lib 1000 [200, 100, 250, 400, 50] 3 = Inr 7 \<and> (\<exists>n. max (2 * n + 1) 3 = (7 :: nat) \<and> (\<forall>k<n. sum_list (take k [100, 250, 400, 50]) \<le> (400 :: nat)))"
proof -
  have "elected_count std_lib 1000 [200, 100, 250, 400, 50] 3 = Inr 7" by code_simp
  then show ?thesis using elected_count_is_median [of std_lib "[200, 100, 250, 400, 50]" 1000 3] by fastforce
qed


subsection \<open>The election of witnesses\<close>

lemma update_witness_votes_get:
  assumes "res_fold (update_witness_votes buf) ids db = Inr db1"
  shows "ix_get i (witnesses db1) = (if i \<in> set ids then map_option (\<lambda>w. w\<lparr>total_votes := votes_for buf (witness_vote_id w)\<rparr>) (ix_get i (witnesses db)) else ix_get i (witnesses db))
    \<and> (i \<in> set ids \<longrightarrow> ix_get i (witnesses db) \<noteq> None)"
  using assms
proof (induction ids arbitrary: db)
  case (Cons j ids)
  from Cons.prems obtain db2 where db2: "update_witness_votes buf j db = Inr db2" and r: "res_fold (update_witness_votes buf) ids db2 = Inr db1" by (auto elim: res_bind_InrE)
  from db2 obtain ix where ix: "ix_modify j (\<lambda>w. Inr (w\<lparr>total_votes := votes_for buf (witness_vote_id w)\<rparr>)) (witnesses db) = Inr ix" and d: "db2 = db\<lparr>witnesses := ix\<rparr>"
    unfolding update_witness_votes_def by (auto elim: res_bind_InrE)
  from ix obtain w where "ix_get j (witnesses db) = Some w" "\<And>k. ix_get k ix = (if k = j then Some (w\<lparr>total_votes := votes_for buf (witness_vote_id w)\<rparr>) else ix_get k (witnesses db))"
    by (elim ix_modifyE) auto
  then show ?case using Cons.IH [OF r] unfolding d by (auto split: if_splits)
qed simp

lemma modify_account_witnesses: "modify_account a f db = Inr db' \<Longrightarrow> witnesses db' = witnesses db"
  by (auto simp: modify_account_def)

lemma update_active_witnessesE:
  assumes "update_active_witnesses lib track t db = Inr db'"
  obtains n db1 f db2 where "elected_count lib (total_voting_stake t) (witness_count_histogram t) (min_witness_count db) = Inr n"
    "res_fold (update_witness_votes (vote_tally_buffer t))
       (map fst (if track then ix_tab (witnesses db) else sort_votable_objects witness_vote_id (vote_tally_buffer t) n (witnesses db))) db = Inr db1"
    "modify_account GRAPHENE_WITNESS_ACCOUNT f db1 = Inr db2"
    "db' = db2\<lparr>active_witnesses := sort (map fst (sort_votable_objects witness_vote_id (vote_tally_buffer t) n (witnesses db)))\<rparr>"
  using assms unfolding update_active_witnesses_def Let_def by (elim res_bind_InrE) (rule that, auto)

text \<open>C13: the witnesses that become active are as many as the votes ask for and exist; none of the others has more votes, or as many and an
  older vote identifier; and the votes recorded with every active witness are those of the tally.\<close>

theorem update_active_witnesses_elects_best:
  assumes "update_active_witnesses lib track t db = Inr db'" "ix_ok (witnesses db)"
  shows "\<exists>n. elected_count lib (total_voting_stake t) (witness_count_histogram t) (min_witness_count db) = Inr n
    \<and> length (active_witnesses db') = min n (length (ix_tab (witnesses db))) \<and> distinct (active_witnesses db') \<and> sorted (active_witnesses db')
    \<and> (\<forall>i\<in>set (active_witnesses db'). \<exists>w. ix_get i (witnesses db') = Some w \<and> total_votes w = votes_for (vote_tally_buffer t) (witness_vote_id w))
    \<and> (\<forall>(i, w)\<in>set (ix_tab (witnesses db)). \<forall>(j, u)\<in>set (ix_tab (witnesses db)). i \<in> set (active_witnesses db') \<and> j \<notin> set (active_witnesses db')
        \<longrightarrow> \<not> more_votes (vote_key witness_vote_id (vote_tally_buffer t) u) (vote_key witness_vote_id (vote_tally_buffer t) w))"
proof -
  from assms(1) obtain n db1 f db2 where n: "elected_count lib (total_voting_stake t) (witness_count_histogram t) (min_witness_count db) = Inr n"
    and db1: "res_fold (update_witness_votes (vote_tally_buffer t))
       (map fst (if track then ix_tab (witnesses db) else sort_votable_objects witness_vote_id (vote_tally_buffer t) n (witnesses db))) db = Inr db1"
    and db2: "modify_account GRAPHENE_WITNESS_ACCOUNT f db1 = Inr db2"
    and db': "db' = db2\<lparr>active_witnesses := sort (map fst (sort_votable_objects witness_vote_id (vote_tally_buffer t) n (witnesses db)))\<rparr>"
    by (rule update_active_witnessesE)
  let ?wits = "sort_votable_objects witness_vote_id (vote_tally_buffer t) n (witnesses db)"
  have w: "witnesses db' = witnesses db1" using modify_account_witnesses [OF db2] unfolding db' by simp
  have a: "active_witnesses db' = sort (map fst ?wits)" unfolding db' by simp
  have votes: "\<exists>w. ix_get i (witnesses db') = Some w \<and> total_votes w = votes_for (vote_tally_buffer t) (witness_vote_id w)" if "i \<in> set (active_witnesses db')" for i
  proof -
    have "i \<in> fst ` set ?wits" using that unfolding a by simp
    then have "i \<in> set (map fst (if track then ix_tab (witnesses db) else ?wits))" by (auto intro: rev_image_eqI dest: sort_votable_objects_subset)
    with update_witness_votes_get [OF db1, of i] show ?thesis unfolding w by auto
  qed
  have key: "u = w" if "(i, w) \<in> set (ix_tab (witnesses db))" "(i, u) \<in> set (ix_tab (witnesses db))" for i w u
    using that assms(2) unfolding ix_ok_def by (metis eq_key_imp_eq_value)
  have best: "\<not> more_votes (vote_key witness_vote_id (vote_tally_buffer t) u) (vote_key witness_vote_id (vote_tally_buffer t) w)"
    if "(i, w) \<in> set (ix_tab (witnesses db))" "(j, u) \<in> set (ix_tab (witnesses db))" "i \<in> set (active_witnesses db')" "j \<notin> set (active_witnesses db')" for i w j u
  proof -
    have "i \<in> fst ` set ?wits" using that(3) unfolding a by simp
    then obtain w' where "(i, w') \<in> set ?wits" by auto
    then have "(i, w) \<in> set ?wits" using key [OF that(1)] sort_votable_objects_subset by metis
    moreover have "(j, u) \<notin> set ?wits" using that(4) unfolding a by force
    ultimately show ?thesis using elected_are_best [OF assms(2) _ that(2)] by fastforce
  qed
  have "length (active_witnesses db') = min n (length (ix_tab (witnesses db)))" "distinct (active_witnesses db')" "sorted (active_witnesses db')"
    unfolding a using distinct_sort_votable_objects [OF assms(2)] by simp_all
  then show ?thesis using n votes best by (intro exI [of _ n] conjI) auto
qed

definition sample_tally :: vote_tally where
  "sample_tally = (new_vote_tally sample_db)\<lparr>vote_tally_buffer := [10, 40, 30], total_voting_stake := 50, witness_count_histogram := [50, 0]\<rparr>"

theorem update_active_witnesses_elects_best_witness:
  "\<exists>db'. update_active_witnesses std_lib True sample_tally sample_db = Inr db' \<and> active_witnesses db' = [1]
    \<and> (\<exists>w. ix_get 1 (witnesses db') = Some w \<and> total_votes w = votes_for (vote_tally_buffer sample_tally) (witness_vote_id w))"
proof -
  have "case update_active_witnesses std_lib True sample_tally sample_db of Inl _ \<Rightarrow> False | Inr db' \<Rightarrow> active_witnesses db' = [1]" by code_simp
  then obtain db' where db': "update_active_witnesses std_lib True sample_tally sample_db = Inr db'" "active_witnesses db' = [1]" by (auto split: sum.split_asm)
  moreover have "ix_ok (witnesses sample_db)" by (simp add: sample_db_def ix_ok_def)
  ultimately show ?thesis using update_active_witnesses_elects_best [OF db'(1)] by auto
qed


subsection \<open>Elections move no shares\<close>

lemma update_core_in_balance_moves: "update_core_in_balance p db = Inr db' \<Longrightarrow> moves (\<lambda>_. 0) db db'"
proof -
  assume "update_core_in_balance p db = Inr db'"
  then obtain db1 ix where db1: "set_core_in_balance (snd p) db = Inr db1"
    and ix: "ix_modify (fst p) (\<lambda>b. Inr (b\<lparr>ab_maintenance_flag := False\<rparr>)) (balances db1) = Inr ix" and db': "db' = db1\<lparr>balances := ix\<rparr>"
    unfolding update_core_in_balance_def by (auto elim: res_bind_InrE)
  have "moves (\<lambda>_. 0) db db1" using db1 unfolding set_core_in_balance_def
    by (elim modify_stats_by_ownerE) (auto simp: part_def elim!: ledger.moves_weaken)
  moreover have "moves (\<lambda>_. 0) db1 db'" unfolding db'
    by (rule moves_balances) (use ix in \<open>auto elim!: ix_modifyE intro: ix_ok_modify [OF _ ix]\<close>)
  ultimately show ?thesis by (rule moves_zero_trans)
qed

lemma maintain_account_moves:
  assumes "maintain_account lib i (t, db) = Inr (t', db')" "safe_exact (fc_safe lib)"
  shows "moves (\<lambda>_. 0) db db'"
proof -
  from assms(1) obtain s where "(if has_pending_fees s then process_fees lib i (st_owner s) db else Inr db) = Inr db'"
    unfolding maintain_account_def by (auto elim!: res_bind_InrE)
  then show ?thesis using process_fees_moves [OF _ assms(2)] by (auto simp: ledger.moves_refl split: if_splits)
qed

lemma maintain_accounts_moves:
  assumes "maintain_accounts lib is td = Inr (t', db')" "safe_exact (fc_safe lib)"
  shows "moves (\<lambda>_. 0) (snd td) db'"
  using assms
proof (induction lib "is" td rule: maintain_accounts.induct)
  case (1 lib td)
  then show ?case by (simp add: ledger.moves_refl)
next
  case (2 lib i "is" td)
  from 2(2) obtain td1 where td1: "maintain_account lib i td = Inr td1"
    "maintain_accounts lib (dropWhile (\<lambda>j. \<not> needs_maintenance (snd td) j) is) td1 = Inr (t', db')" by (auto elim: res_bind_InrE)
  then have "moves (\<lambda>_. 0) (snd td) (snd td1)" using maintain_account_moves [OF _ 2(3)] by (metis prod.collapse)
  moreover have "moves (\<lambda>_. 0) (snd td1) db'" using 2(1) [OF td1 2(3)] .
  ultimately show ?case by (rule moves_zero_trans)
qed

lemma perform_account_maintenance_moves:
  assumes "perform_account_maintenance lib t db = Inr (t', db')" "safe_exact (fc_safe lib)"
  shows "moves (\<lambda>_. 0) db db'"
proof -
  from assms(1) obtain db1 where db1: "res_fold update_core_in_balance (flagged_balances db) db = Inr db1"
    and m: "maintain_accounts lib (dropWhile (\<lambda>j. \<not> needs_maintenance db1 j) (stats_by_name db1)) (t, db1) = Inr (t', db')"
    unfolding perform_account_maintenance_def by (elim res_bind_InrE)
  have "moves (\<lambda>_. 0) db db1" using db1 by (rule ledger.moves_fold) (rule update_core_in_balance_moves)
  with maintain_accounts_moves [OF m assms(2)] show ?thesis by (auto intro: moves_zero_trans)
qed

lemma update_active_witnesses_moves:
  assumes "update_active_witnesses lib track t db = Inr db'"
  shows "moves (\<lambda>_. 0) db db'"
proof -
  from assms obtain ids db1 f db2 wits where db1: "res_fold (update_witness_votes (vote_tally_buffer t)) ids db = Inr db1"
    and db2: "modify_account GRAPHENE_WITNESS_ACCOUNT f db1 = Inr db2" and db': "db' = db2\<lparr>active_witnesses := wits\<rparr>"
    by (rule update_active_witnessesE) blast
  have "moves (\<lambda>_. 0) db db1" using db1 by (rule ledger.moves_fold) (auto simp: update_witness_votes_def intro: moves_neutral elim!: res_bind_InrE)
  with modify_account_moves [OF db2] show ?thesis unfolding db' using moves_neutral(11) moves_zero_trans by blast
qed

lemma update_active_committee_members_moves:
  assumes "update_active_committee_members lib track t db = Inr db'"
  shows "moves (\<lambda>_. 0) db db'"
proof -
  from assms obtain ids and cms :: "committee_member_object table" and db1 db2 com cs where
    db1: "res_fold (update_committee_votes (vote_tally_buffer t)) ids db = Inr db1"
    and db2: "(if cms = [] then Inr db1
        else res_bind (get_account db1 GRAPHENE_COMMITTEE_ACCOUNT) (\<lambda>com.
             res_bind (elected_authority (head_block_time db) (cs cms) (active_auth com)) (\<lambda>auth.
             res_bind (modify_account GRAPHENE_COMMITTEE_ACCOUNT (\<lambda>a. Inr (a\<lparr>active_auth := auth\<rparr>)) db1)
               (modify_account GRAPHENE_RELAXED_COMMITTEE_ACCOUNT (\<lambda>a. Inr (a\<lparr>active_auth := auth\<rparr>)))))) = Inr db2"
    and db': "db' = db2\<lparr>active_committee_members := map fst cms\<rparr>"
    unfolding update_active_committee_members_def Let_def by (elim res_bind_InrE) (rule that, auto)
  have "moves (\<lambda>_. 0) db db1" using db1 by (rule ledger.moves_fold) (auto simp: update_committee_votes_def intro: moves_neutral elim!: res_bind_InrE)
  moreover have "moves (\<lambda>_. 0) db1 db2" using db2 by (auto simp: ledger.moves_refl split: if_splits elim!: res_bind_InrE intro: modify_account_moves moves_zero_trans)
  ultimately show ?thesis unfolding db' using moves_neutral(12) moves_zero_trans by blast
qed

lemma update_worker_votes_moves: "moves (\<lambda>_. 0) db (update_worker_votes t db)"
  unfolding update_worker_votes_def by (rule moves_neutral(7))

lemma update_top_n_moves: "update_top_n acct is_owner sa db = Inr db' \<Longrightarrow> moves (\<lambda>_. 0) db db'"
  by (auto simp: update_top_n_def Let_def ledger.moves_refl split: special_authority.splits if_splits intro: modify_account_moves)

lemma update_top_n_authorities_moves: "update_top_n_authorities db = Inr db' \<Longrightarrow> moves (\<lambda>_. 0) db db'"
  unfolding update_top_n_authorities_def by (erule ledger.moves_fold) (auto elim!: res_bind_InrE intro: update_top_n_moves moves_zero_trans)

lemmas election_moves = perform_account_maintenance_moves update_active_witnesses_moves update_active_committee_members_moves
  update_worker_votes_moves update_top_n_authorities_moves

end
