(* ===== verification/Budget.thy ===== *)
theory Budget
  imports Account_Evaluators
begin

text \<open>
  The budget of a maintenance interval (\<open>initialize_budget_record\<close>, \<open>process_budget\<close> and \<open>pay_workers\<close> of \<open>libraries/chain/db_maint.cpp\<close>,
  \<open>pay_worker\<close> of \<open>worker_evaluator.cpp\<close>): how much of the reserve may be spent, what the witnesses and the workers get of it, and what this
  does to the supply of the core asset.

  \<open>fc::uint128_t\<close> values are taken modulo \<open>2 ^ 128\<close>, and where the source mixes \<open>int64_t\<close> with \<open>uint64_t\<close> the wrap-around is written out.
\<close>

subsection \<open>Workers\<close>

definition u64 :: "int \<Rightarrow> int" where
  "u64 x = x mod 2 ^ 64"

definition worker_is_active :: "worker_object \<Rightarrow> time_sec \<Rightarrow> bool" where
  "worker_is_active w now \<longleftrightarrow> work_begin_date w \<le> now \<and> now \<le> work_end_date w"

definition approving_stake :: "worker_object \<Rightarrow> int" where
  "approving_stake w = wrap_int64 (wrap_int64 (int (total_votes_for w)) - wrap_int64 (int (total_votes_against w)))"

definition pay_worker :: "fc_lib \<Rightarrow> int \<Rightarrow> worker_type \<Rightarrow> database \<Rightarrow> (worker_type \<times> database) res" where
  "pay_worker lib pay w db =
     (case w of
        Refund_worker total_burned \<Rightarrow>
          res_bind (fc_safe lib (total_burned + pay)) (\<lambda>t.
          res_bind (modify_dyn_data core_asset (sub_current_supply lib pay) db) (\<lambda>db1. Inr (Refund_worker t, db1)))
      | Vesting_balance_worker b \<Rightarrow>
          res_bind (ix_modify b (\<lambda>vbo. vbo_deposit lib vbo (head_block_time db) (mk_asset pay core_asset)) (vestings db)) (\<lambda>ix.
          Inr (w, db\<lparr>vestings := ix\<rparr>))
      | Burn_worker total_burned \<Rightarrow>
          res_bind (fc_safe lib (total_burned + pay)) (\<lambda>t.
          res_bind (adjust_balance lib GRAPHENE_NULL_ACCOUNT (mk_asset pay core_asset) db) (\<lambda>db1. Inr (Burn_worker t, db1))))"

text \<open>The workers that are paid, the most supported first and the oldest among equals.\<close>

definition active_workers :: "database \<Rightarrow> worker_object table" where
  "active_workers db = sort_key (\<lambda>p. - approving_stake (snd p))
     (sort_key fst (filter (\<lambda>p. worker_is_active (snd p) (head_block_time db) \<and> 0 < approving_stake (snd p)) (ix_tab (workers db))))"

definition microseconds_per_day :: int where
  "microseconds_per_day = 86400 * 1000000"

definition requested_pay :: "fc_lib \<Rightarrow> int \<Rightarrow> int \<Rightarrow> int res" where
  "requested_pay lib passed_time_count daily = fc_to_share lib (u128 (u128 daily * u128 passed_time_count) div microseconds_per_day)"

definition set_worker :: "obj_id \<Rightarrow> worker_type \<Rightarrow> database \<Rightarrow> database res" where
  "set_worker i w db = res_bind (ix_modify i (\<lambda>x. Inr (x\<lparr>worker := w\<rparr>)) (workers db)) (\<lambda>ix. Inr (db\<lparr>workers := ix\<rparr>))"

fun pay_worker_loop :: "fc_lib \<Rightarrow> int \<Rightarrow> worker_object table \<Rightarrow> int \<times> database \<Rightarrow> (int \<times> database) res" where
  "pay_worker_loop lib passed [] bd = Inr bd"
| "pay_worker_loop lib passed ((i, w) # ws) bd =
     (let (budget, db) = bd in
      if budget > 0
      then res_bind (requested_pay lib passed (daily_pay w)) (\<lambda>req.
           let actual_pay = min budget req in
           res_bind (pay_worker lib actual_pay (worker w) db) (\<lambda>(w', db1).
           res_bind (set_worker i w' db1) (\<lambda>db2.
           res_bind (fc_safe lib (budget - actual_pay)) (\<lambda>budget'. pay_worker_loop lib passed ws (budget', db2)))))
      else Inr bd)"

definition passed_time_count :: "database \<Rightarrow> int" where
  "passed_time_count db = (int (head_block_time db) - int (last_budget_time (dgp db))) * 1000000"

definition pay_workers :: "fc_lib \<Rightarrow> int \<Rightarrow> database \<Rightarrow> (int \<times> database) res" where
  "pay_workers lib budget db = pay_worker_loop lib (passed_time_count db) (active_workers db) (budget, db)"

subsection \<open>The budget\<close>

definition empty_budget_record :: budget_record where
  "empty_budget_record = \<lparr>time_since_last_budget = 0, from_initial_reserve = 0, from_accumulated_fees = 0, from_unused_witness_budget = 0,
     requested_witness_budget = 0, total_budget = 0, rec_witness_budget = 0, rec_worker_budget = 0, leftover_worker_funds = 0, supply_delta = 0\<rparr>"

text \<open>The share of the reserve that may be spent in \<open>dt\<close> seconds, rounded up.\<close>

definition budget_of_reserve :: "fc_lib \<Rightarrow> int \<Rightarrow> nat \<Rightarrow> int res" where
  "budget_of_reserve lib reserve dt =
     (let b = u128 (u128 (u128 (u128 reserve * int dt) * int GRAPHENE_CORE_ASSET_CYCLE_RATE) + (2 ^ GRAPHENE_CORE_ASSET_CYCLE_RATE_BITS - 1))
              div 2 ^ GRAPHENE_CORE_ASSET_CYCLE_RATE_BITS in
      if b < u128 reserve then fc_to_share lib b else Inr reserve)"

definition core_dynamic_data :: "database \<Rightarrow> asset_dynamic_data_object res" where
  "core_dynamic_data db = res_bind (get_asset db core_asset) (dynamic_data db)"

definition core_reserved :: "fc_lib \<Rightarrow> database \<Rightarrow> int res" where
  "core_reserved lib db =
     res_bind (get_asset db core_asset) (\<lambda>core. res_bind (dynamic_data db core) (\<lambda>dd. fc_safe lib (max_supply (options core) - current_supply dd)))"

definition initialize_budget_record :: "fc_lib \<Rightarrow> time_sec \<Rightarrow> database \<Rightarrow> budget_record res" where
  "initialize_budget_record lib now db =
     (let dpo = dgp db in
      res_bind (core_dynamic_data db) (\<lambda>core_dd.
      res_bind (core_reserved lib db) (\<lambda>reserved.
      let rec = empty_budget_record\<lparr>from_initial_reserve := reserved, from_accumulated_fees := accumulated_fees core_dd,
                  from_unused_witness_budget := witness_budget dpo\<rparr> in
      if last_budget_time dpo = 0 \<or> now \<le> last_budget_time dpo then Inr rec
      else let dt = now - last_budget_time dpo in
        res_bind (fc_safe lib (reserved + accumulated_fees core_dd)) (\<lambda>r1.
        res_bind (fc_safe lib (r1 + witness_budget dpo)) (\<lambda>reserve.
        res_bind (budget_of_reserve lib reserve dt) (\<lambda>b.
        Inr (rec\<lparr>time_since_last_budget := dt, total_budget := b\<rparr>)))))))"

definition blocks_to_maint :: "int \<Rightarrow> nat \<Rightarrow> int" where
  "blocks_to_maint time_to_maint interval = u64 (u64 time_to_maint + int interval - 1) div int interval"

definition desired_witness_budget :: "int \<Rightarrow> int \<Rightarrow> int" where
  "desired_witness_budget pay_per_block blocks = wrap_int64 (u64 pay_per_block * blocks)"

definition worker_budget_of :: "fc_lib \<Rightarrow> int \<Rightarrow> int \<Rightarrow> int \<Rightarrow> int res" where
  "worker_budget_of lib per_day time_to_maint available_funds =
     (let b = u128 (u128 per_day * u64 time_to_maint) div 86400 in
      if b \<ge> u128 available_funds then Inr available_funds else fc_to_share lib b)"

definition settle_core_supply :: "fc_lib \<Rightarrow> int \<Rightarrow> asset_dynamic_data_object \<Rightarrow> asset_dynamic_data_object res" where
  "settle_core_supply lib delta d = res_bind (fc_safe lib (current_supply d + delta)) (\<lambda>s. Inr (d\<lparr>current_supply := s, accumulated_fees := 0\<rparr>))"

definition budget_supply_delta :: "fc_lib \<Rightarrow> budget_record \<Rightarrow> int res" where
  "budget_supply_delta lib rec =
     res_bind (fc_safe lib (rec_witness_budget rec + rec_worker_budget rec)) (\<lambda>a.
     res_bind (fc_safe lib (a - leftover_worker_funds rec)) (\<lambda>b.
     res_bind (fc_safe lib (b - from_accumulated_fees rec)) (\<lambda>c.
     fc_safe lib (c - from_unused_witness_budget rec))))"

text \<open>The part of \<open>process_budget\<close> after the spendable amount is known: what the witnesses and the workers are given, and the record of it.\<close>

definition spend_budget :: "fc_lib \<Rightarrow> budget_record \<Rightarrow> int \<Rightarrow> database \<Rightarrow> (budget_record \<times> database) res" where
  "spend_budget lib rec time_to_maint db =
     (let desired = desired_witness_budget (witness_pay_per_block (parameters db)) (blocks_to_maint time_to_maint (block_interval (parameters db)));
          wb = min desired (total_budget rec) in
      res_bind (fc_safe lib (total_budget rec - wb)) (\<lambda>available1.
      res_bind (worker_budget_of lib (worker_budget_per_day (parameters db)) time_to_maint available1) (\<lambda>wkb.
      res_bind (fc_safe lib (available1 - wkb)) (\<lambda>available2.
      res_bind (pay_workers lib wkb db) (\<lambda>(leftover, db1).
      res_bind (fc_safe lib (available2 + leftover)) (\<lambda>_.
      let rec1 = rec\<lparr>requested_witness_budget := desired, rec_witness_budget := wb, rec_worker_budget := wkb, leftover_worker_funds := leftover\<rparr> in
      res_bind (budget_supply_delta lib rec1) (\<lambda>delta. Inr (rec1\<lparr>supply_delta := delta\<rparr>, db1))))))))"

definition process_budget :: "fc_lib \<Rightarrow> database \<Rightarrow> database res" where
  "process_budget lib db =
     (let now = head_block_time db; time_to_maint = int (next_maintenance_time (dgp db)) - int now in
      if block_interval (parameters db) = 0 then Inl (Throw_exn ''undefined behaviour: division by zero'')
      else
      res_bind (initialize_budget_record lib now db) (\<lambda>rec0.
      res_bind (spend_budget lib rec0 time_to_maint db) (\<lambda>(rec, db1).
      res_bind (modify_dyn_data core_asset (settle_core_supply lib (supply_delta rec)) db1) (\<lambda>db2.
      Inr (db2\<lparr>dgp := (dgp db2)\<lparr>witness_budget := rec_witness_budget rec, last_budget_time := now\<rparr>,
               budget_records := ix_create (now, rec) (budget_records db2)\<rparr>)))))"

subsection \<open>The budget is a redistribution\<close>

text \<open>What paying workers leaves as it is: assets, the global properties and everything of the dynamic data but the supply, which does not
  grow when the payments are not negative.\<close>

definition supply_only :: "bool \<Rightarrow> database \<Rightarrow> database \<Rightarrow> bool" where
  "supply_only nonneg db db' \<longleftrightarrow> dgp db' = dgp db \<and> assets db' = assets db \<and> parameters db' = parameters db
     \<and> (\<forall>j d'. ix_get j (dyn_data db') = Some d' \<longrightarrow> (\<exists>d. ix_get j (dyn_data db) = Some d \<and> accumulated_fees d' = accumulated_fees d
          \<and> (nonneg \<longrightarrow> current_supply d' \<le> current_supply d)))"

lemma supply_only_refl [simp]: "supply_only nonneg db db"
  by (simp add: supply_only_def)

lemma supply_only_trans: "supply_only b db db1 \<Longrightarrow> supply_only b db1 db2 \<Longrightarrow> supply_only b db db2"
  unfolding supply_only_def by (metis order.trans)

lemma pay_worker_moves:
  assumes "pay_worker lib pay w db = Inr (w', db')" "safe_exact (fc_safe lib)"
  shows "moves (core_part pay) db db'" "supply_only (0 \<le> pay) db db'"
proof -
  have "moves (core_part pay) db db' \<and> supply_only (0 \<le> pay) db db'"
  proof (cases w)
    case (Refund_worker b)
    with assms(1) have m: "modify_dyn_data core_asset (sub_current_supply lib pay) db = Inr db'" unfolding pay_worker_def by (auto elim!: res_bind_InrE)
    from m obtain ao :: asset_object and d d' :: asset_dynamic_data_object where db': "\<exists>ix. db' = db\<lparr>dyn_data := ix\<rparr>" and d: "ix_get (dynamic_asset_data_id ao) (dyn_data db) = Some d" "sub_current_supply lib pay d = Inr d'"
      and get: "\<And>j. ix_get j (dyn_data db') = (if j = dynamic_asset_data_id ao then Some d' else ix_get j (dyn_data db))"
      by (elim modify_dyn_dataE) (rule that; assumption)
    have "d' = d\<lparr>current_supply := current_supply d - pay\<rparr>" using d(2) by (auto simp: sub_current_supply_def dest!: safe_exactD [OF assms(2)])
    then have "supply_only (0 \<le> pay) db db'" unfolding supply_only_def get using d(1) db' by (auto split: if_splits)
    with moves_dyn_data(1) [OF assms(2) m] show ?thesis by simp
  next
    case (Vesting_balance_worker b)
    with assms(1) show ?thesis unfolding pay_worker_def
      by (auto elim!: res_bind_InrE intro!: moves_modify_vesting vbo_deposit_move(1) [OF _ assms(2)] simp: supply_only_def)
  next
    case (Burn_worker b)
    with assms(1) have m: "adjust_balance lib GRAPHENE_NULL_ACCOUNT (mk_asset pay core_asset) db = Inr db'" unfolding pay_worker_def by (auto elim!: res_bind_InrE)
    then have "\<exists>ix. db' = db\<lparr>balances := ix\<rparr>" by (auto simp: adjust_balance_def split: if_splits option.splits) (metis database.surjective database.update_convs(3))
    with moves_adjust_balance [OF m assms(2)] show ?thesis by (auto simp: supply_only_def)
  qed
  then show "moves (core_part pay) db db'" "supply_only (0 \<le> pay) db db'" by simp_all
qed

lemma set_worker_moves:
  assumes "set_worker i w db = Inr db'"
  shows "moves (\<lambda>_. 0) db db'" "supply_only b db db'"
  using assms moves_neutral(7) unfolding set_worker_def by (auto elim!: res_bind_InrE simp: supply_only_def)

lemma pay_worker_loop_moves:
  assumes "pay_worker_loop lib passed ws bd = Inr (b', db')" "safe_exact (fc_safe lib)"
    "nonneg \<longrightarrow> (\<forall>p\<in>set ws. \<forall>r. requested_pay lib passed (daily_pay (snd p)) = Inr r \<longrightarrow> 0 \<le> r)"
  shows "moves (core_part (fst bd - b')) (snd bd) db' \<and> supply_only nonneg (snd bd) db' \<and> (nonneg \<longrightarrow> b' \<le> fst bd) \<and> (0 \<le> fst bd \<longrightarrow> 0 \<le> b')"
  using assms(1,3)
proof (induction ws arbitrary: bd)
  case (Cons p ws)
  obtain i w where pw: "p = (i, w)" by (cases p)
  obtain b db where bd: "bd = (b, db)" by (cases bd)
  show ?case
  proof (cases "b > 0")
    case True
    from Cons.prems(1) True obtain req w' db1 db2 b1 where r: "requested_pay lib passed (daily_pay w) = Inr req"
      and p: "pay_worker lib (min b req) (worker w) db = Inr (w', db1)" and s: "set_worker i w' db1 = Inr db2"
      and f: "fc_safe lib (b - min b req) = Inr b1" and l: "pay_worker_loop lib passed ws (b1, db2) = Inr (b', db')"
      unfolding pw bd by (auto simp: Let_def elim!: res_bind_InrE)
    have b1: "b1 = b - min b req" using f by (rule safe_exactD [OF assms(2)])
    have IH: "moves (core_part (b1 - b')) db2 db'" "supply_only nonneg db2 db'" "nonneg \<longrightarrow> b' \<le> b1" "0 \<le> b1 \<longrightarrow> 0 \<le> b'"
    proof -
      have "nonneg \<longrightarrow> (\<forall>p\<in>set ws. \<forall>r. requested_pay lib passed (daily_pay (snd p)) = Inr r \<longrightarrow> 0 \<le> r)" using Cons.prems(2) by simp
      from Cons.IH [OF l this] show "moves (core_part (b1 - b')) db2 db'" "supply_only nonneg db2 db'" "nonneg \<longrightarrow> b' \<le> b1" "0 \<le> b1 \<longrightarrow> 0 \<le> b'"
        unfolding fst_conv snd_conv by blast+
    qed
    have n: "nonneg \<longrightarrow> 0 \<le> min b req" using Cons.prems(2) r True unfolding pw by auto
    have "supply_only nonneg db db1" using pay_worker_moves(2) [OF p assms(2)] n by (auto simp: supply_only_def)
    then have so: "supply_only nonneg db db'" using set_worker_moves(2) [OF s] IH(2) by (blast intro: supply_only_trans)
    have "moves (core_part (b - b')) db db'"
      using ledger.moves_trans [OF ledger.moves_trans [OF pay_worker_moves(1) [OF p assms(2)] set_worker_moves(1) [OF s]] IH(1)]
      by (rule ledger.moves_weaken) (simp add: b1 part_def)
    moreover have "nonneg \<longrightarrow> b' \<le> b" "0 \<le> b'" using IH(3,4) n True unfolding b1 by auto
    ultimately show ?thesis using so unfolding bd fst_conv snd_conv by blast
  qed (use Cons.prems(1) in \<open>auto simp: bd pw\<close>)
qed simp

lemma initialize_budget_recordE:
  assumes "initialize_budget_record lib now db = Inr rec" "safe_exact (fc_safe lib)"
  obtains core d where "ix_get core_asset (assets db) = Some core" "ix_get (dynamic_asset_data_id core) (dyn_data db) = Some d"
    "from_initial_reserve rec = max_supply (options core) - current_supply d" "from_accumulated_fees rec = accumulated_fees d"
    "from_unused_witness_budget rec = witness_budget (dgp db)"
    "total_budget rec = 0 \<or> budget_of_reserve lib (max_supply (options core) - current_supply d + accumulated_fees d + witness_budget (dgp db)) (now - last_budget_time (dgp db))
       = Inr (total_budget rec)"
proof -
  note exact = safe_exactD [OF assms(2)]
  from assms(1) obtain core d reserved where c: "ix_get core_asset (assets db) = Some core" "ix_get (dynamic_asset_data_id core) (dyn_data db) = Some d"
    "fc_safe lib (max_supply (options core) - current_supply d) = Inr reserved"
    unfolding initialize_budget_record_def core_dynamic_data_def core_reserved_def get_asset_def dynamic_data_def Let_def
    by (auto elim!: res_bind_InrE split: option.splits)
  have r: "reserved = max_supply (options core) - current_supply d" using exact c(3) .
  let ?rec = "empty_budget_record\<lparr>from_initial_reserve := reserved, from_accumulated_fees := accumulated_fees d, from_unused_witness_budget := witness_budget (dgp db)\<rparr>"
  have "rec = ?rec \<or> (\<exists>b. budget_of_reserve lib (max_supply (options core) - current_supply d + accumulated_fees d + witness_budget (dgp db)) (now - last_budget_time (dgp db)) = Inr b
      \<and> rec = ?rec\<lparr>time_since_last_budget := now - last_budget_time (dgp db), total_budget := b\<rparr>)"
    using assms(1) c unfolding initialize_budget_record_def core_dynamic_data_def core_reserved_def get_asset_def dynamic_data_def Let_def
    by (auto elim!: res_bind_InrE split: if_splits dest!: exact simp: r)
  then show thesis using that [OF c(1,2)] by (auto simp: r empty_budget_record_def)
qed

lemma spend_budgetE:
  assumes "spend_budget lib rec ttm db = Inr (rec', db')" "safe_exact (fc_safe lib)"
  obtains wb wkb leftover where "wb \<le> total_budget rec" "worker_budget_of lib (worker_budget_per_day (parameters db)) ttm (total_budget rec - wb) = Inr wkb"
    "wb = min (desired_witness_budget (witness_pay_per_block (parameters db)) (blocks_to_maint ttm (block_interval (parameters db)))) (total_budget rec)"
    "pay_workers lib wkb db = Inr (leftover, db')"
    "supply_delta rec' = wb + wkb - leftover - from_accumulated_fees rec - from_unused_witness_budget rec" "rec_witness_budget rec' = wb"
proof -
  note exact = safe_exactD [OF assms(2)]
  let ?d = "desired_witness_budget (witness_pay_per_block (parameters db)) (blocks_to_maint ttm (block_interval (parameters db)))"
  let ?wb = "min ?d (total_budget rec)"
  from assms(1) obtain a1 wkb a2 leftover a3 delta where a: "fc_safe lib (total_budget rec - ?wb) = Inr a1"
    "worker_budget_of lib (worker_budget_per_day (parameters db)) ttm a1 = Inr wkb" "pay_workers lib wkb db = Inr (leftover, db')"
    "budget_supply_delta lib (rec\<lparr>requested_witness_budget := ?d, rec_witness_budget := ?wb, rec_worker_budget := wkb, leftover_worker_funds := leftover\<rparr>) = Inr delta"
    "rec' = rec\<lparr>requested_witness_budget := ?d, rec_witness_budget := ?wb, rec_worker_budget := wkb, leftover_worker_funds := leftover, supply_delta := delta\<rparr>"
    unfolding spend_budget_def Let_def by (auto elim!: res_bind_InrE)
  have "delta = ?wb + wkb - leftover - from_accumulated_fees rec - from_unused_witness_budget rec"
    using a(4) unfolding budget_supply_delta_def by (auto elim!: res_bind_InrE dest!: exact)
  moreover have "a1 = total_budget rec - ?wb" using a(1) by (rule exact)
  ultimately show thesis using that [of ?wb wkb leftover] a by simp
qed

lemma process_budgetE:
  assumes "process_budget lib db = Inr db'" "safe_exact (fc_safe lib)"
  obtains rec0 rec db1 db2 where "initialize_budget_record lib (head_block_time db) db = Inr rec0"
    "spend_budget lib rec0 (int (next_maintenance_time (dgp db)) - int (head_block_time db)) db = Inr (rec, db1)"
    "modify_dyn_data core_asset (settle_core_supply lib (supply_delta rec)) db1 = Inr db2"
    "db' = db2\<lparr>dgp := (dgp db2)\<lparr>witness_budget := rec_witness_budget rec, last_budget_time := head_block_time db\<rparr>,
               budget_records := ix_create (head_block_time db, rec) (budget_records db2)\<rparr>"
  using assms(1) unfolding process_budget_def Let_def by (auto elim!: res_bind_InrE split: if_splits)

text \<open>The shape of a budget: what the workers get, what the witnesses get, and how the supply of the core asset changes.\<close>

lemma process_budget_shape:
  assumes "process_budget lib db = Inr db'" "safe_exact (fc_safe lib)"
  obtains core d d1 d2 rec0 wb wkb leftover db1 where "ix_get core_asset (assets db) = Some core" "ix_get (dynamic_asset_data_id core) (dyn_data db) = Some d"
    "initialize_budget_record lib (head_block_time db) db = Inr rec0"
    "wb = min (desired_witness_budget (witness_pay_per_block (parameters db))
       (blocks_to_maint (int (next_maintenance_time (dgp db)) - int (head_block_time db)) (block_interval (parameters db)))) (total_budget rec0)"
    "worker_budget_of lib (worker_budget_per_day (parameters db)) (int (next_maintenance_time (dgp db)) - int (head_block_time db)) (total_budget rec0 - wb) = Inr wkb"
    "pay_workers lib wkb db = Inr (leftover, db1)"
    "ix_get (dynamic_asset_data_id core) (dyn_data db1) = Some d1" "accumulated_fees d1 = accumulated_fees d"
    "d2 = d1\<lparr>current_supply := current_supply d1 + wb + wkb - leftover - accumulated_fees d - witness_budget (dgp db), accumulated_fees := 0\<rparr>"
    "ix_get (dynamic_asset_data_id core) (dyn_data db') = Some d2" "assets db' = assets db" "witness_budget (dgp db') = wb"
    "moves (\<lambda>a. dyn_data_move core_asset d1 d2 a + core_part (wb - witness_budget (dgp db)) a) db1 db'"
proof -
  from assms obtain rec0 rec db1 db2 where i: "initialize_budget_record lib (head_block_time db) db = Inr rec0"
    and s: "spend_budget lib rec0 (int (next_maintenance_time (dgp db)) - int (head_block_time db)) db = Inr (rec, db1)"
    and m: "modify_dyn_data core_asset (settle_core_supply lib (supply_delta rec)) db1 = Inr db2"
    and db': "db' = db2\<lparr>dgp := (dgp db2)\<lparr>witness_budget := rec_witness_budget rec, last_budget_time := head_block_time db\<rparr>,
               budget_records := ix_create (head_block_time db, rec) (budget_records db2)\<rparr>" by (rule process_budgetE)
  from i assms(2) obtain core d where c: "ix_get core_asset (assets db) = Some core" "ix_get (dynamic_asset_data_id core) (dyn_data db) = Some d"
    "from_accumulated_fees rec0 = accumulated_fees d" "from_unused_witness_budget rec0 = witness_budget (dgp db)" by (rule initialize_budget_recordE)
  from s assms(2) obtain wb wkb leftover where w: "wb = min (desired_witness_budget (witness_pay_per_block (parameters db))
       (blocks_to_maint (int (next_maintenance_time (dgp db)) - int (head_block_time db)) (block_interval (parameters db)))) (total_budget rec0)"
    "worker_budget_of lib (worker_budget_per_day (parameters db)) (int (next_maintenance_time (dgp db)) - int (head_block_time db)) (total_budget rec0 - wb) = Inr wkb"
    "pay_workers lib wkb db = Inr (leftover, db1)"
    "supply_delta rec = wb + wkb - leftover - from_accumulated_fees rec0 - from_unused_witness_budget rec0" "rec_witness_budget rec = wb" by (rule spend_budgetE)
  have so: "supply_only False db db1" using pay_worker_loop_moves [OF w(3) [unfolded pay_workers_def] assms(2), of False] by simp
  from m obtain ao :: asset_object and d1 d2 :: asset_dynamic_data_object where e: "ix_get core_asset (assets db1) = Some ao" "ix_get (dynamic_asset_data_id ao) (dyn_data db1) = Some d1"
    "settle_core_supply lib (supply_delta rec) d1 = Inr d2" "moves (dyn_data_move core_asset d1 d2) db1 db2" "\<exists>ix. db2 = db1\<lparr>dyn_data := ix\<rparr>"
    "\<And>j. ix_get j (dyn_data db2) = (if j = dynamic_asset_data_id ao then Some d2 else ix_get j (dyn_data db1))" by (elim modify_dyn_dataE) (rule that; assumption)
  have ao: "ao = core" using e(1) c(1) so by (simp add: supply_only_def)
  have acc: "accumulated_fees d1 = accumulated_fees d" using so e(2) c(2) unfolding supply_only_def ao by force
  have d2: "d2 = d1\<lparr>current_supply := current_supply d1 + wb + wkb - leftover - accumulated_fees d - witness_budget (dgp db), accumulated_fees := 0\<rparr>"
    using e(3) w(4) unfolding settle_core_supply_def c by (auto elim!: res_bind_InrE dest!: safe_exactD [OF assms(2)])
  have frame: "dgp db2 = dgp db" "assets db2 = assets db" using e(5) so by (auto simp: supply_only_def)
  have "moves (core_part (wb - witness_budget (dgp db))) db2 db'"
    using ledger.moves_trans [OF moves_dgp moves_neutral(8)] unfolding db' w(5) by (rule ledger.moves_weaken) (simp add: frame)
  with e(4) have "moves (\<lambda>a. dyn_data_move core_asset d1 d2 a + core_part (wb - witness_budget (dgp db)) a) db1 db'" by (rule ledger.moves_trans)
  moreover have "ix_get (dynamic_asset_data_id core) (dyn_data db') = Some d2" "assets db' = assets db" "witness_budget (dgp db') = wb"
    using e(6) frame unfolding db' ao by (simp_all add: w(5))
  ultimately show thesis using that [OF c(1,2) i w(1-3) e(2) [unfolded ao] acc d2] by blast
qed

lemma process_budget_moves:
  assumes "process_budget lib db = Inr db'" "safe_exact (fc_safe lib)"
  shows "moves (\<lambda>_. 0) db db'"
proof -
  from assms obtain d :: asset_dynamic_data_object and d1 d2 wb wkb leftover db1 where p: "pay_workers lib wkb db = Inr (leftover, db1)" "accumulated_fees d1 = accumulated_fees d"
    "d2 = d1\<lparr>current_supply := current_supply d1 + wb + wkb - leftover - accumulated_fees d - witness_budget (dgp db), accumulated_fees := 0\<rparr>"
    "moves (\<lambda>a. dyn_data_move core_asset d1 d2 a + core_part (wb - witness_budget (dgp db)) a) db1 db'" by (rule process_budget_shape)
  have "moves (core_part (wkb - leftover)) db db1" using pay_worker_loop_moves [OF p(1) [unfolded pay_workers_def] assms(2), of False] by simp
  from ledger.moves_trans [OF this p(4)] show ?thesis
    by (rule ledger.moves_weaken) (simp add: dyn_data_move_def dyn_balance_def p(2,3))
qed

text \<open>the budget of a maintenance interval takes from the reserve exactly what it gives out. The shares of every asset in circulation still
  add up to its supply, with the core asset's supply raised by what witnesses and workers get and lowered by the fees and the unspent budget.\<close>

lemma process_budget_conserves:
  assumes "process_budget lib db = Inr db'" "safe_exact (fc_safe lib)" "db_ok db"
  shows "db_ok db' \<and> imbalance a db' = imbalance a db"
  using process_budget_moves [OF assms(1,2)] assms(3) by (simp add: moves_def)

subsection \<open>The budget stays within the reserve\<close>

lemma u128_small: "0 \<le> x \<Longrightarrow> x < 2 ^ 128 \<Longrightarrow> u128 x = x"
  by (simp add: u128_def)

lemma budget_of_reserve_range:
  assumes "budget_of_reserve lib reserve dt = Inr b" "fc_lib_ok lib" "0 \<le> reserve" "reserve < 2 ^ 63"
  shows "0 \<le> b \<and> b \<le> reserve"
proof -
  define x where "x = u128 (u128 (u128 (u128 reserve * int dt) * int GRAPHENE_CORE_ASSET_CYCLE_RATE) + (2 ^ GRAPHENE_CORE_ASSET_CYCLE_RATE_BITS - 1)) div 2 ^ GRAPHENE_CORE_ASSET_CYCLE_RATE_BITS"
  have x: "0 \<le> x" unfolding x_def by (simp add: u128_def pos_imp_zdiv_nonneg_iff)
  have "u128 reserve = reserve" using assms(3,4) by (intro u128_small) auto
  then have "(if x < reserve then fc_to_share lib x else Inr reserve) = Inr b" using assms(1) unfolding budget_of_reserve_def Let_def x_def by simp
  then show ?thesis using fc_to_share_in_range [OF assms(2) x] assms(3,4) x by (auto split: if_splits)
qed

lemma worker_budget_range:
  assumes "worker_budget_of lib per_day ttm available = Inr b" "fc_lib_ok lib" "0 \<le> available" "available < 2 ^ 63"
  shows "0 \<le> b \<and> b \<le> available"
proof -
  define x where "x = u128 (u128 per_day * u64 ttm) div 86400"
  have x: "0 \<le> x" unfolding x_def by (simp add: u128_def pos_imp_zdiv_nonneg_iff)
  have "u128 available = available" using assms(3,4) by (intro u128_small) auto
  then have "(if x \<ge> available then Inr available else fc_to_share lib x) = Inr b" using assms(1) unfolding worker_budget_of_def Let_def x_def by simp
  then show ?thesis using fc_to_share_in_range [OF assms(2) x] assms(3,4) x by (auto split: if_splits)
qed

text \<open>A daily pay below the largest supply, over at most 25 years, does not leave the range of \<open>int64_t\<close>.\<close>

lemma requested_pay_nonneg:
  assumes "requested_pay lib passed daily = Inr r" "fc_lib_ok lib" "0 \<le> daily" "daily < GRAPHENE_MAX_SHARE_SUPPLY" "0 \<le> passed" "passed \<le> 788400000 * 1000000"
  shows "0 \<le> r"
proof -
  have le: "daily * passed \<le> 10 ^ 15 * (788400000 * 1000000)" using assms(3-6) by (intro mult_mono) (auto simp: GRAPHENE_MAX_SHARE_SUPPLY_def)
  have "u128 daily = daily" "u128 passed = passed" using assms(3-6) by (auto intro!: u128_small simp: GRAPHENE_MAX_SHARE_SUPPLY_def)
  moreover have "u128 (daily * passed) = daily * passed" using le assms(3,5) by (intro u128_small) auto
  ultimately have "fc_to_share lib (daily * passed div microseconds_per_day) = Inr r" using assms(1) by (simp add: requested_pay_def)
  moreover have "daily * passed div microseconds_per_day \<le> 10 ^ 15 * (788400000 * 1000000) div microseconds_per_day"
    using le by (rule zdiv_mono1) (simp add: microseconds_per_day_def)
  moreover have "0 \<le> daily * passed div microseconds_per_day" using assms(3,5) by (simp add: microseconds_per_day_def pos_imp_zdiv_nonneg_iff)
  ultimately show ?thesis using fc_to_share_in_range [OF assms(2)] by (simp add: microseconds_per_day_def)
qed

lemma pay_workers_nothing: "pay_workers lib 0 db = Inr (b, db') \<Longrightarrow> b = 0 \<and> db' = db"
  unfolding pay_workers_def by (cases "active_workers db") auto

lemma desired_witness_budget_nonneg:
  assumes "0 \<le> pay" "pay < 2 ^ 31" "0 \<le> ttm" "ttm < 2 ^ 31" "n < 2 ^ 31"
  shows "0 \<le> desired_witness_budget pay (blocks_to_maint ttm n)"
proof (cases "n = 0")
  case False
  have "u64 ttm = ttm" "u64 pay = pay" using assms by (simp_all add: u64_def)
  moreover have "u64 (ttm + int n - 1) = ttm + int n - 1" using assms False by (simp add: u64_def)
  ultimately have e: "desired_witness_budget pay (blocks_to_maint ttm n) = wrap_int64 (pay * ((ttm + int n - 1) div int n))"
    by (simp add: desired_witness_budget_def blocks_to_maint_def)
  have b: "0 \<le> (ttm + int n - 1) div int n" using assms False by (simp add: pos_imp_zdiv_nonneg_iff)
  have "(ttm + int n - 1) div int n \<le> (ttm + int n - 1) div 1" using assms False by (intro zdiv_mono2) auto
  also have "\<dots> \<le> 2 ^ 32 - 1" using assms(4,5) by simp
  finally have "pay * ((ttm + int n - 1) div int n) \<le> 2 ^ 31 * (2 ^ 32 - 1)" using assms(1,2) b by (intro mult_mono) auto
  moreover have "0 \<le> pay * ((ttm + int n - 1) div int n)" using assms(1) b by simp
  ultimately show ?thesis unfolding e by (subst wrap_int64_id) auto
qed (simp add: blocks_to_maint_def desired_witness_budget_def wrap_int64_def)

definition budget_sample :: database where
  "budget_sample = sample_db\<lparr>workers := \<lparr>ix_tab = [(0, \<lparr>worker_account = 1, work_begin_date = 0, work_end_date = 2100000000, daily_pay = 200, worker = Burn_worker 0,
       worker_name = [], worker_url = [], vote_for = make_vote_id vote_worker 3, vote_against = make_vote_id vote_worker 4, total_votes_for = 10, total_votes_against = 0\<rparr>)], ix_next = 1\<rparr>,
     parameters := (parameters sample_db)\<lparr>worker_budget_per_day := 150, witness_pay_per_block := 1, block_interval := 255\<rparr>, dgp := (dgp sample_db)\<lparr>last_budget_time := 1999913600\<rparr>\<rparr>"

definition budget_outcome :: "database \<Rightarrow> int \<times> int \<times> int" where
  "budget_outcome db = (amount (get_balance db GRAPHENE_NULL_ACCOUNT core_asset), witness_budget (dgp db), case ix_get 0 (dyn_data db) of None \<Rightarrow> 0 | Some d \<Rightarrow> current_supply d)"

lemma budget_sample_runs: "\<exists>db'. process_budget std_lib budget_sample = Inr db' \<and> budget_outcome db' = (3, 339, 1342)"
proof -
  have "case process_budget std_lib budget_sample of Inl _ \<Rightarrow> False | Inr db' \<Rightarrow> budget_outcome db' = (3, 339, 1342)" by code_simp
  then show ?thesis by (auto split: sum.split_asm)
qed



end
