(* ===== verification/Transactions.thy ===== *)
theory Transactions
  imports Account_Evaluators Sample_Chain
begin

text \<open>
  The dispatch of operations to their evaluators and the application of a transaction:
  \<open>database::apply_operation\<close> and the operation loop of \<open>database::_apply_transaction\<close> in \<open>libraries/chain/db_block.cpp\<close>,
  with \<open>transaction::validate\<close>.

  Every modelled evaluator satisfies the contract \<open>fee_paying_evaluator\<close>, so the operations of a transaction together
  neither create nor destroy shares, whatever they are.
\<close>

subsection \<open>Applying operations\<close>

text \<open>What lies outside: the hash functions of HTLC preimages by their tag in the variant, the addresses derived from a
  public key, whether the transaction is a proposed one and assertions are skipped, the identifiers of the latest blocks,
  and the fuel of the margin call loops.\<close>

record environment =
  preimage_digest :: "nat \<Rightarrow> nat list \<Rightarrow> nat list"
  key_addresses :: "nat \<Rightarrow> nat list"
  is_proposed_trx :: bool
  skip_assert_evaluation :: bool
  block_summary :: "nat \<Rightarrow> nat \<times> nat"
  search_fuel :: nat
  loop_fuel :: nat

text \<open>The evaluator registered for each operation (\<open>database::initialize_evaluators\<close>), as the four virtual functions that
  the evaluator template calls.\<close>

type_synonym op_evaluator =
  "(database \<Rightarrow> unit res) \<times> (evaluator_state \<Rightarrow> database \<Rightarrow> database res) \<times> (evaluator_state \<Rightarrow> database \<Rightarrow> database res) \<times>
   (evaluator_state \<Rightarrow> database \<Rightarrow> database res)"

definition plain :: "fc_lib \<Rightarrow> (database \<Rightarrow> unit res) \<Rightarrow> (database \<Rightarrow> database res) \<Rightarrow> op_evaluator" where
  "plain lib do_evaluate do_apply = (do_evaluate, convert_fee lib False, pay_fee lib False, \<lambda>_. do_apply)"

fun evaluator_of :: "environment \<Rightarrow> fc_lib \<Rightarrow> operation \<Rightarrow> op_evaluator" where
  "evaluator_of env lib (Transfer x) = plain lib (transfer_evaluate x) (transfer_apply lib x)"
| "evaluator_of env lib (Override_transfer x) = plain lib (override_transfer_evaluate x) (override_transfer_apply lib x)"
| "evaluator_of env lib (Vesting_balance_create x) = plain lib (vesting_balance_create_evaluate x) (vesting_balance_create_apply lib x)"
| "evaluator_of env lib (Vesting_balance_withdraw x) = plain lib (vesting_balance_withdraw_evaluate lib x) (vesting_balance_withdraw_apply lib x)"
| "evaluator_of env lib (Limit_order_create x) =
     (limit_order_create_evaluate x, limit_order_convert_fee lib False, limit_order_pay_fee lib False,
      limit_order_create_apply (search_fuel env) (loop_fuel env) lib x)"
| "evaluator_of env lib (Limit_order_cancel x) =
     plain lib (limit_order_cancel_evaluate x) (limit_order_cancel_apply (search_fuel env) (loop_fuel env) lib x)"
| "evaluator_of env lib (Call_order_update x) =
     plain lib (call_order_update_evaluate lib x) (call_order_update_apply (search_fuel env) (loop_fuel env) lib x)"
| "evaluator_of env lib (Bid_collateral x) = plain lib (bid_collateral_evaluate x) (bid_collateral_apply lib x)"
| "evaluator_of env lib (Asset_create x) =
     (asset_create_evaluate x, convert_fee lib False, asset_create_pay_fee lib False, asset_create_apply lib x)"
| "evaluator_of env lib (Asset_issue x) = plain lib (asset_issue_evaluate lib x) (asset_issue_apply lib x)"
| "evaluator_of env lib (Asset_reserve x) = plain lib (asset_reserve_evaluate lib x) (asset_reserve_apply lib x)"
| "evaluator_of env lib (Asset_fund_fee_pool x) = plain lib (asset_fund_fee_pool_evaluate x) (asset_fund_fee_pool_apply lib x)"
| "evaluator_of env lib (Asset_update x) = plain lib (asset_update_evaluate x) (asset_update_apply lib x)"
| "evaluator_of env lib (Asset_update_issuer x) = plain lib (asset_update_issuer_evaluate x) (asset_update_issuer_apply x)"
| "evaluator_of env lib (Asset_update_bitasset x) =
     plain lib (asset_update_bitasset_evaluate x) (asset_update_bitasset_apply (search_fuel env) (loop_fuel env) lib x)"
| "evaluator_of env lib (Asset_update_feed_producers x) =
     plain lib (asset_update_feed_producers_evaluate x) (asset_update_feed_producers_apply (search_fuel env) (loop_fuel env) lib x)"
| "evaluator_of env lib (Asset_publish_feed x) =
     plain lib (asset_publish_feeds_evaluate x) (asset_publish_feeds_apply (search_fuel env) (loop_fuel env) lib x)"
| "evaluator_of env lib (Asset_global_settle x) = plain lib (asset_global_settle_evaluate x) (asset_global_settle_apply lib x)"
| "evaluator_of env lib (Asset_settle x) = plain lib (asset_settle_evaluate x) (asset_settle_apply lib x)"
| "evaluator_of env lib (Asset_claim_fees x) = plain lib (asset_claim_fees_evaluate x) (asset_claim_fees_apply lib x)"
| "evaluator_of env lib (Asset_claim_pool x) = plain lib (asset_claim_pool_evaluate x) (asset_claim_pool_apply lib x)"
| "evaluator_of env lib (Withdraw_permission_create x) = plain lib (withdraw_permission_create_evaluate x) (withdraw_permission_create_apply x)"
| "evaluator_of env lib (Withdraw_permission_update x) = plain lib (withdraw_permission_update_evaluate x) (withdraw_permission_update_apply x)"
| "evaluator_of env lib (Withdraw_permission_claim x) = plain lib (withdraw_permission_claim_evaluate lib x) (withdraw_permission_claim_apply lib x)"
| "evaluator_of env lib (Withdraw_permission_delete x) = plain lib (withdraw_permission_delete_evaluate x) (withdraw_permission_delete_apply x)"
| "evaluator_of env lib (Htlc_create x) = plain lib (htlc_create_evaluate x) (htlc_create_apply lib x)"
| "evaluator_of env lib (Htlc_redeem x) = plain lib (htlc_redeem_evaluate (preimage_digest env) x) (htlc_redeem_apply lib x)"
| "evaluator_of env lib (Htlc_extend x) = plain lib (htlc_extend_evaluate x) (htlc_extend_apply x)"
| "evaluator_of env lib (Balance_claim x) = plain lib (balance_claim_evaluate lib (key_addresses env) x) (balance_claim_apply lib x)"
| "evaluator_of env lib (Account_create x) = plain lib (account_create_evaluate x) (account_create_apply x)"
| "evaluator_of env lib (Account_update x) = plain lib (account_update_evaluate x) (account_update_apply x)"
| "evaluator_of env lib (Account_whitelist x) = plain lib (account_whitelist_evaluate x) (account_whitelist_apply x)"
| "evaluator_of env lib (Account_upgrade x) = plain lib (account_upgrade_evaluate x) (account_upgrade_apply lib x)"
| "evaluator_of env lib (Committee_member_create x) = plain lib (committee_member_create_evaluate x) (committee_member_create_apply x)"
| "evaluator_of env lib (Committee_member_update x) = plain lib (committee_member_update_evaluate x) (committee_member_update_apply x)"
| "evaluator_of env lib (Witness_create x) = plain lib (witness_create_evaluate x) (witness_create_apply x)"
| "evaluator_of env lib (Witness_update x) = plain lib (witness_update_evaluate x) (witness_update_apply x)"
| "evaluator_of env lib (Worker_create x) = plain lib (worker_create_evaluate x) (worker_create_apply x)"
| "evaluator_of env lib (Committee_member_update_global_parameters x) =
     plain lib (global_parameters_evaluate (is_proposed_trx env) x) (global_parameters_apply x)"
| "evaluator_of env lib (Assert x) = plain lib (assert_evaluate (skip_assert_evaluation env) (block_summary env) x) Inr"
| "evaluator_of env lib (Custom x) = plain lib (\<lambda>_. Inr ()) Inr"

text \<open>\<open>apply_operation\<close>: the operation is appended to the history of the block and evaluated.\<close>

definition apply_operation :: "environment \<Rightarrow> fc_lib \<Rightarrow> bool \<Rightarrow> operation \<times> op_sizes \<Rightarrow> database \<Rightarrow> database res" where
  "apply_operation env lib skip_fee_schedule_check p db =
     (let (op1, sizes) = p; (do_evaluate, convert, pay, do_apply) = evaluator_of env lib op1 in
      start_evaluate lib skip_fee_schedule_check (fee_payer op1) (op_fee op1) (\<lambda>sched. calc_fee lib sched sizes op1)
        do_evaluate convert pay do_apply (push_applied_operation (User_operation op1) db))"

text \<open>\<open>transaction::validate\<close>.\<close>

definition transaction_validate :: "(operation \<times> op_sizes) list \<Rightarrow> unit res" where
  "transaction_validate ops =
     FC_ASSERT (length ops > 0) ''A transaction must have at least one operation'' (res_fold (\<lambda>p _. operation_validate (fst p)) ops ())"

definition apply_operations :: "environment \<Rightarrow> fc_lib \<Rightarrow> bool \<Rightarrow> (operation \<times> op_sizes) list \<Rightarrow> database \<Rightarrow> database res" where
  "apply_operations env lib skip ops db =
     res_bind (transaction_validate ops) (\<lambda>_. res_fold (apply_operation env lib skip) ops db)"

subsection \<open>Conservation\<close>

text \<open>What the evaluators that read a margin position, a settlement price or a vesting policy take from the state.\<close>

fun state_fits :: "fc_lib \<Rightarrow> operation \<Rightarrow> database \<Rightarrow> bool" where
  "state_fits lib (Call_order_update x) db = position_matches x db"
| "state_fits lib (Asset_settle x) db = settlement_matches (asset_id (as_amount x)) db"
| "state_fits lib (Balance_claim x) db = claim_sound lib x db"
| "state_fits lib _ db = True"

lemma moves_push_first: "moves (\<lambda>_. 0) (push_applied_operation v db) db' \<Longrightarrow> moves (\<lambda>_. 0) db db'"
  using ledger.moves_trans [OF moves_push, of "\<lambda>_. 0"] by simp

lemma options_validated: "asset_options_validate opts = Inr () \<Longrightarrow> 0 \<le> max_market_fee opts"
  by (auto simp: asset_options_validate_def)

lemmas evaluators_conserve =
  transfer.start_evaluate_conserves override_transfer.start_evaluate_conserves vesting_balance_create.start_evaluate_conserves
  vesting_balance_withdraw.start_evaluate_conserves limit_order_create.start_evaluate_conserves limit_order_cancel.start_evaluate_conserves
  call_order_update.start_evaluate_conserves bid_collateral.start_evaluate_conserves asset_create.start_evaluate_conserves
  asset_issue.start_evaluate_conserves asset_reserve.start_evaluate_conserves asset_fund_fee_pool.start_evaluate_conserves
  asset_update.start_evaluate_conserves asset_update_issuer.start_evaluate_conserves asset_update_bitasset.start_evaluate_conserves
  asset_update_feed_producers.start_evaluate_conserves asset_publish_feeds.start_evaluate_conserves asset_global_settle.start_evaluate_conserves
  asset_settle.start_evaluate_conserves asset_claim_fees.start_evaluate_conserves asset_claim_pool.start_evaluate_conserves
  withdraw_permission_create.start_evaluate_conserves withdraw_permission_update.start_evaluate_conserves
  withdraw_permission_claim.start_evaluate_conserves withdraw_permission_delete.start_evaluate_conserves
  htlc_create.start_evaluate_conserves htlc_redeem.start_evaluate_conserves htlc_extend.start_evaluate_conserves
  balance_claim.start_evaluate_conserves account_create.start_evaluate_conserves account_update.start_evaluate_conserves
  account_whitelist.start_evaluate_conserves account_upgrade.start_evaluate_conserves committee_member_create.start_evaluate_conserves
  committee_member_update.start_evaluate_conserves witness_create.start_evaluate_conserves witness_update.start_evaluate_conserves
  worker_create.start_evaluate_conserves global_parameters.start_evaluate_conserves assertion.start_evaluate_conserves
  custom.start_evaluate_conserves

lemma state_fits_same_market: "state_fits lib op1 db \<Longrightarrow> same_market db db' \<Longrightarrow> state_fits lib op1 db'"
  by (cases op1) (auto simp: position_matches_def find_position_def settlement_matches_def claim_sound_def bitasset_data_same_market, auto simp: same_market_def head_block_time_def)

lemma operation_conserves:
  assumes "apply_operation env lib skip (op1, sizes) db = Inr db'" "operation_validate op1 = Inr ()" "state_fits lib op1 db" "safe_exact (fc_safe lib)"
  shows "moves (\<lambda>_. 0) db db'"
proof -
  let ?db = "push_applied_operation (User_operation op1) db"
  have fits: "state_fits lib op1 ?db" using assms(3) by (rule state_fits_same_market) simp
  have validated: "op1 = Asset_create x \<Longrightarrow> 0 \<le> max_market_fee (common_options x)" "op1 = Asset_update y \<Longrightarrow> 0 \<le> max_market_fee (au_new_options y)"
    "op1 = Asset_claim_pool z \<Longrightarrow> asset_id (cp_amount_to_claim z) = core_asset" for x y z
    using assms(2) by (auto simp: asset_create_validate_def asset_update_validate_def asset_claim_pool_validate_def dest: options_validated)
  have "moves (\<lambda>_. 0) ?db db'" using assms(1)
    by (cases op1; simp only: apply_operation_def evaluator_of.simps plain_def Let_def prod.case)
       (erule evaluators_conserve; insert fits validated assms(4); simp)+
  then show ?thesis by (rule moves_push_first)
qed

text \<open>The state an operation finds fits it, whichever operations of the transaction came before.\<close>

fun fits_along :: "environment \<Rightarrow> fc_lib \<Rightarrow> bool \<Rightarrow> (operation \<times> op_sizes) list \<Rightarrow> database \<Rightarrow> bool" where
  "fits_along env lib skip [] db = True"
| "fits_along env lib skip (p # ps) db =
     (state_fits lib (fst p) db \<and> (case apply_operation env lib skip p db of Inl _ \<Rightarrow> True | Inr db1 \<Rightarrow> fits_along env lib skip ps db1))"

lemma transaction_validated: "transaction_validate ops = Inr () \<Longrightarrow> p \<in> set ops \<Longrightarrow> operation_validate (fst p) = Inr ()"
proof -
  have "res_fold (\<lambda>p _. operation_validate (fst p)) ops () = Inr () \<Longrightarrow> p \<in> set ops \<Longrightarrow> operation_validate (fst p) = Inr ()"
    by (induction ops) auto
  then show "transaction_validate ops = Inr () \<Longrightarrow> p \<in> set ops \<Longrightarrow> operation_validate (fst p) = Inr ()"
    by (auto simp: transaction_validate_def)
qed

lemma operations_conserve:
  assumes "res_fold (apply_operation env lib skip) ops db = Inr db'" "fits_along env lib skip ops db"
    "\<forall>p\<in>set ops. operation_validate (fst p) = Inr ()" "safe_exact (fc_safe lib)"
  shows "moves (\<lambda>_. 0) db db'"
  using assms
proof (induction ops arbitrary: db)
  case (Cons p ps)
  then obtain db1 where s: "apply_operation env lib skip p db = Inr db1" "res_fold (apply_operation env lib skip) ps db1 = Inr db'" by auto
  then have "moves (\<lambda>_. 0) db db1" using Cons.prems operation_conserves [of env lib skip "fst p" "snd p"] by simp
  moreover have "moves (\<lambda>_. 0) db1 db'" using Cons s by simp
  ultimately show ?case by (rule moves_zero_trans)
qed simp

text \<open>C1: A transaction that succeeds, whatever operations it is made of, leaves the books balanced: for every asset the
  difference between what all accounts, orders, positions, settlements, bids, vesting balances, contracts, genesis balances,
  fee accumulators and fee pools hold and the recorded supply is the same before and after, fees included, and the database
  stays well formed.\<close>

theorem transaction_conserves:
  assumes "apply_operations env lib skip ops db = Inr db'" "db_ok db" "fits_along env lib skip ops db" "safe_exact (fc_safe lib)"
  shows "db_ok db' \<and> (\<forall>a. imbalance a db' = imbalance a db)"
proof -
  have "transaction_validate ops = Inr ()" "res_fold (apply_operation env lib skip) ops db = Inr db'"
    using assms(1) by (auto simp: apply_operations_def)
  then have "moves (\<lambda>_. 0) db db'" using operations_conserve assms(3,4) transaction_validated by blast
  with assms(2) show ?thesis by (simp add: moves_def)
qed

definition sample_env :: environment where
  "sample_env = \<lparr>preimage_digest = \<lambda>_ p. p, key_addresses = \<lambda>k. [k], is_proposed_trx = False, skip_assert_evaluation = False, block_summary = \<lambda>_. (0, 0),
     search_fuel = 100, loop_fuel = 100\<rparr>"

definition sample_transaction :: "(operation \<times> op_sizes) list" where
  "sample_transaction = map (\<lambda>op1. (op1, \<lparr>memo_size = None, packed_size = 0\<rparr>))
    [Transfer \<lparr>tr_fee = mk_asset 0 0, tr_from = 2, tr_to = 1, tr_amount = mk_asset 50 1\<rparr>,
     Limit_order_cancel \<lparr>lx_fee = mk_asset 0 0, lx_order = 1, lx_fee_paying_account = 2\<rparr>]"

definition sample_fees_db :: database where
  "sample_fees_db = sample_db\<lparr>parameters := (parameters sample_db)\<lparr>current_fees := \<lparr>fee_scale = 10000, fee_params = [(0, Fee_per_kbyte 0 0), (2, Fee 0)]\<rparr>\<rparr>\<rparr>"

lemma sample_fees_db_ok: "db_ok sample_fees_db"
  using sample_db_ok by (simp add: sample_fees_db_def db_ok_def)

lemma sample_fits: "fits_along sample_env std_lib False sample_transaction sample_fees_db"
  by (simp add: sample_transaction_def split: sum.split)

lemma sample_applies: "\<exists>db'. apply_operations sample_env std_lib False sample_transaction sample_fees_db = Inr db' \<and> get_balance db' 1 1 = mk_asset 50 1"
proof -
  have "(case apply_operations sample_env std_lib False sample_transaction sample_fees_db of Inl _ \<Rightarrow> False | Inr db' \<Rightarrow> get_balance db' 1 1 = mk_asset 50 1)"
    by code_simp
  then show ?thesis by (auto split: sum.splits)
qed

theorem transaction_conserves_witness:
  "\<exists>db'. apply_operations sample_env std_lib False sample_transaction sample_fees_db = Inr db' \<and> get_balance db' 1 1 = mk_asset 50 1
     \<and> db_ok db' \<and> (\<forall>a. imbalance a db' = imbalance a sample_fees_db)"
proof -
  obtain db' where r: "apply_operations sample_env std_lib False sample_transaction sample_fees_db = Inr db'" "get_balance db' 1 1 = mk_asset 50 1"
    using sample_applies by blast
  have "safe_exact (fc_safe std_lib)" using std_lib_ok by (simp add: fc_lib_ok_def)
  with transaction_conserves [OF r(1) sample_fees_db_ok sample_fits] r show ?thesis by blast
qed

end
