(* ===== verification/Block_Updates.thy ===== *)
theory Block_Updates
  imports Transactions
begin

text \<open>
  What happens at the end of every block (\<open>libraries/chain/db_update.cpp\<close>): limit orders, settlements and withdrawal
  permissions that have expired, price feeds that have gone stale, and core exchange rates that follow the feeds.

  The loops over expired limit orders and over settlements read their index again in every round and take fuel.
\<close>

subsection \<open>Expired limit orders\<close>

definition first_expired_order :: "database \<Rightarrow> (obj_id \<times> limit_order_object) option" where
  "first_expired_order db =
     (case sorted_index earlier lo_expiration (limit_orders db) of [] \<Rightarrow> None
      | (i, lo) # _ \<Rightarrow> if lo_expiration lo \<le> head_block_time db then Some (i, lo) else None)"

definition check_both_assets :: "nat \<Rightarrow> nat \<Rightarrow> fc_lib \<Rightarrow> limit_order_object \<Rightarrow> database \<Rightarrow> database res" where
  "check_both_assets n fuel lib lo db =
     res_bind (check_call_orders n fuel lib (asset_id (base (sell_price lo))) True False db) (\<lambda>(_, db1).
     res_bind (check_call_orders n fuel lib (asset_id (quote (sell_price lo))) True False db1) (\<lambda>(_, db2). Inr db2))"

fun expire_limit_orders :: "nat \<Rightarrow> nat \<Rightarrow> nat \<Rightarrow> fc_lib \<Rightarrow> database \<Rightarrow> database res" where
  "expire_limit_orders 0 n fuel lib db = Inl (Throw_exn ''out of fuel'')"
| "expire_limit_orders (Suc rounds) n fuel lib db =
     (case first_expired_order db of None \<Rightarrow> Inr db
      | Some (i, lo) \<Rightarrow>
          res_bind (cancel_limit_order lib i True False db) (\<lambda>db1.
          res_bind (if maint_time db \<le> HARDFORK_CORE_606_TIME then check_both_assets n fuel lib lo db1 else Inr db1)
            (expire_limit_orders rounds n fuel lib)))"

subsection \<open>Settlements that are due\<close>

text \<open>The index \<open>by_expiration\<close> orders settlements by asset, then by date, then by identifier.\<close>

definition settle_key :: "force_settlement_object \<Rightarrow> asset_id \<times> time_sec" where
  "settle_key s = (asset_id (fs_balance s), settlement_date s)"

definition pair_less :: "nat \<times> nat \<Rightarrow> nat \<times> nat \<Rightarrow> bool" where
  "pair_less x y \<longleftrightarrow> fst x < fst y \<or> fst x = fst y \<and> snd x < snd y"

definition settle_index :: "database \<Rightarrow> force_settlement_object table" where
  "settle_index db = sorted_index pair_less settle_key (settlements db)"

definition settle_lower_bound :: "asset_id \<Rightarrow> database \<Rightarrow> (obj_id \<times> force_settlement_object) option" where
  "settle_lower_bound a db = List.find (\<lambda>s. asset_id (fs_balance (snd s)) \<ge> a) (settle_index db)"

text \<open>The variables of the loop over settlements.\<close>

record settle_loop =
  current_asset :: asset_id
  max_settlement_volume :: asset
  settlement_fill_price :: price
  match_price :: price
  current_asset_finished :: bool

definition next_asset :: "settle_loop \<Rightarrow> database \<Rightarrow> settle_loop option" where
  "next_asset st db =
     (case List.find (\<lambda>s. asset_id (fs_balance (snd s)) > current_asset st) (settle_index db) of
        None \<Rightarrow> None
      | Some (_, s) \<Rightarrow> Some (st\<lparr>current_asset := asset_id (fs_balance s), current_asset_finished := False\<rparr>))"

text \<open>Matching one settlement against the least collateralized position until it is filled or the volume is used up. The result is
  the volume settled and whether the settlement could not be filled any further.\<close>

fun settle_against_calls ::
  "nat \<Rightarrow> fc_lib \<Rightarrow> asset_id \<Rightarrow> asset_id \<Rightarrow> obj_id \<Rightarrow> settle_loop \<Rightarrow> asset \<Rightarrow> database \<Rightarrow> (asset \<times> bool \<times> database) res" where
  "settle_against_calls 0 lib mia backing sid st settled db = Inl (Throw_exn ''out of fuel'')"
| "settle_against_calls (Suc rounds) lib mia backing sid st settled db =
     res_bind (asset_less settled (max_settlement_volume st)) (\<lambda>more.
     case ix_get sid (settlements db) of None \<Rightarrow> Inr (settled, False, db)
     | Some order \<Rightarrow>
     if \<not> more then Inr (settled, False, db)
     else res_bind (price_min backing mia) (\<lambda>call_min.
     case calls_from False db call_min of [] \<Rightarrow> Inl (Throw_exn ''There should always be a call order'')
     | (cid, _) # _ \<Rightarrow>
       res_bind (asset_sub (fc_safe lib) (max_settlement_volume st) settled) (\<lambda>max_settlement.
       if amount (fs_balance order) = 0 then res_bind (cancel_settle_order lib sid True db) (\<lambda>db1. Inr (settled, False, db1))
       else (case match_call_settle lib cid sid (match_price st) max_settlement (settlement_fill_price st) db of
               Inl Black_swan_exn \<Rightarrow> res_bind (cancel_settle_order lib sid True db) (\<lambda>db1. Inr (settled, False, db1))
             | Inl e \<Rightarrow> Inl e
             | Inr (new_settled, db1) \<Rightarrow>
                 if \<not> maint_time db \<le> HARDFORK_CORE_184_TIME \<and> amount new_settled = 0
                 then Inr (settled, ix_get sid (settlements db1) \<noteq> None, db1)
                 else res_bind (asset_add (fc_safe lib) settled new_settled) (\<lambda>settled'.
                      settle_against_calls rounds lib mia backing sid st settled' db1)))))"

text \<open>The volume and the prices are computed once per asset; before core-342 the price is computed for each settlement.\<close>

definition set_volume :: "fc_lib \<Rightarrow> asset_id \<Rightarrow> asset_object \<Rightarrow> asset_bitasset_data_object \<Rightarrow> settle_loop \<Rightarrow> database \<Rightarrow> settle_loop res" where
  "set_volume lib a ao mia st db =
     (if asset_id (max_settlement_volume st) \<noteq> a
      then res_bind (dynamic_data db ao) (\<lambda>dyn.
           res_bind (max_force_settlement_volume lib (current_supply dyn) mia) (\<lambda>v. Inr (st\<lparr>max_settlement_volume := mk_asset v a\<rparr>)))
      else Inr st)"

definition offset_receives :: "fc_lib \<Rightarrow> asset_bitasset_data_object \<Rightarrow> asset \<Rightarrow> asset res" where
  "offset_receives lib mia balance =
     res_bind (asset_times_price balance (settlement_price (current_feed mia))) (\<lambda>receives.
     res_bind (fc_to_share lib (u128 (u128 (amount receives) * (GRAPHENE_100_PERCENT - int (force_settlement_offset_percent (bd_options mia)))) div GRAPHENE_100_PERCENT)) (\<lambda>x.
     Inr (receives\<lparr>amount := x\<rparr>)))"

definition set_prices :: "fc_lib \<Rightarrow> asset_id \<Rightarrow> asset_bitasset_data_object \<Rightarrow> asset \<Rightarrow> settle_loop \<Rightarrow> database \<Rightarrow> settle_loop res" where
  "set_prices lib a mia balance st db =
     res_bind (if asset_id (base (settlement_fill_price st)) \<noteq> a
               then price_div_ratio (settlement_price (current_feed mia))
                      (GRAPHENE_100_PERCENT - int (force_settlement_offset_percent (bd_options mia))) GRAPHENE_100_PERCENT
               else Inr (settlement_fill_price st)) (\<lambda>fp.
     res_bind (if maint_time db \<le> HARDFORK_CORE_342_TIME then res_bind (offset_receives lib mia balance) (asset_div balance)
               else if asset_id (base (match_price st)) \<noteq> a then Inr fp
               else Inr (match_price st)) (\<lambda>mp.
     Inr (st\<lparr>settlement_fill_price := fp, match_price := mp\<rparr>)))"

text \<open>One settlement that is due: it is matched, and the volume settled is recorded.\<close>

definition settle_due_order ::
  "nat \<Rightarrow> fc_lib \<Rightarrow> asset_id \<Rightarrow> asset_bitasset_data_object \<Rightarrow> obj_id \<Rightarrow> settle_loop \<Rightarrow> database \<Rightarrow> (settle_loop \<times> database) res" where
  "settle_due_order rounds lib a mia sid st db =
     res_bind (settle_against_calls rounds lib a (short_backing_asset (bd_options mia)) sid st (mk_asset (force_settled_volume mia) a) db)
       (\<lambda>(settled, stuck, db1).
     res_bind (if force_settled_volume mia \<noteq> amount settled
               then modify_bitasset a (\<lambda>b. Inr (b\<lparr>force_settled_volume := amount settled\<rparr>)) db1 else Inr db1) (\<lambda>db2.
     Inr (if stuck then st\<lparr>current_asset_finished := True\<rparr> else st, db2)))"

text \<open>A settlement whose asset has a feed: the volume left for this asset decides whether it is settled now.\<close>

definition settle_valued :: "nat \<Rightarrow> fc_lib \<Rightarrow> asset_id \<Rightarrow> asset_object \<Rightarrow> asset_bitasset_data_object \<Rightarrow> obj_id \<Rightarrow> force_settlement_object
    \<Rightarrow> settle_loop \<Rightarrow> database \<Rightarrow> (settle_loop option \<times> database) res" where
  "settle_valued rounds lib a ao mia sid order st db =
     res_bind (set_volume lib a ao mia st db) (\<lambda>st1.
     if force_settled_volume mia \<ge> amount (max_settlement_volume st1) \<or> current_asset_finished st1 then Inr (next_asset st1 db, db)
     else res_bind (set_prices lib a mia (fs_balance order) st1 db) (\<lambda>st2.
     res_bind (settle_due_order rounds lib a mia sid st2 db) (\<lambda>(st3, db1). Inr (Some st3, db1))))"

text \<open>One round of the loop; \<open>None\<close> ends it.\<close>

definition settle_round :: "nat \<Rightarrow> fc_lib \<Rightarrow> settle_loop \<Rightarrow> database \<Rightarrow> (settle_loop option \<times> database) res" where
  "settle_round rounds lib st0 db =
     (case settle_lower_bound (current_asset st0) db of None \<Rightarrow> Inr (None, db)
      | Some (sid, order) \<Rightarrow>
        let a = asset_id (fs_balance order); st = st0\<lparr>current_asset := a\<rparr> in
        res_bind (get_asset db a) (\<lambda>ao.
        res_bind (bitasset_data db ao) (\<lambda>mia.
        if has_settlement mia then res_bind (cancel_settle_order lib sid True db) (\<lambda>db1. Inr (Some st, db1))
        else if settlement_date order > head_block_time db then Inr (next_asset st db, db)
        else if price_is_null (settlement_price (current_feed mia)) then res_bind (cancel_settle_order lib sid True db) (\<lambda>db1. Inr (Some st, db1))
        else settle_valued rounds lib a ao mia sid order st db)))"

fun settle_orders :: "nat \<Rightarrow> fc_lib \<Rightarrow> settle_loop \<Rightarrow> database \<Rightarrow> database res" where
  "settle_orders 0 lib st db = Inl (Throw_exn ''out of fuel'')"
| "settle_orders (Suc rounds) lib st db =
     res_bind (settle_round rounds lib st db) (\<lambda>(r, db1). case r of None \<Rightarrow> Inr db1 | Some st1 \<Rightarrow> settle_orders rounds lib st1 db1)"

definition start_settle_loop :: "asset_id \<Rightarrow> settle_loop" where
  "start_settle_loop a = \<lparr>current_asset = a, max_settlement_volume = mk_asset 0 core_asset, settlement_fill_price = null_price, match_price = null_price,
     current_asset_finished = False\<rparr>"

definition clear_expired_orders :: "nat \<Rightarrow> nat \<Rightarrow> nat \<Rightarrow> fc_lib \<Rightarrow> database \<Rightarrow> database res" where
  "clear_expired_orders rounds n fuel lib db =
     res_bind (expire_limit_orders rounds n fuel lib db) (\<lambda>db1.
     case settle_index db1 of [] \<Rightarrow> Inr db1
     | (_, s) # _ \<Rightarrow> settle_orders rounds lib (start_settle_loop (asset_id (fs_balance s))) db1)"

subsection \<open>Feeds and exchange rates\<close>

text \<open>The assets whose feed has expired, in the order of the index \<open>by_feed_expiration\<close>. Processing one makes its feed young again
  and leaves the expiration of the others alone, so the list is that of the iterator.\<close>

definition expired_feeds :: "database \<Rightarrow> obj_id list" where
  "expired_feeds db = map fst (takeWhile (\<lambda>b. feed_is_expired (snd b) (head_block_time db))
     (sorted_index pair_less (\<lambda>b. (feed_expiration_time b, bd_asset_id b)) (bitassets db)))"

definition get_bitasset :: "database \<Rightarrow> obj_id \<Rightarrow> asset_bitasset_data_object res" where
  "get_bitasset db i = opt_get ''Unable to find Object'' (ix_get i (bitassets db))"

definition put_bitasset :: "obj_id \<Rightarrow> asset_bitasset_data_object \<Rightarrow> database \<Rightarrow> database res" where
  "put_bitasset i b db = res_bind (ix_modify i (\<lambda>_. Inr b) (bitassets db)) (\<lambda>ix. Inr (db\<lparr>bitassets := ix\<rparr>))"

definition clear_cer_flags :: "asset_bitasset_data_object \<Rightarrow> asset_bitasset_data_object" where
  "clear_cer_flags b = b\<lparr>asset_cer_updated := False, feed_cer_updated := False\<rparr>"

definition set_core_exchange_rate :: "asset_id \<Rightarrow> price \<Rightarrow> database \<Rightarrow> database res" where
  "set_core_exchange_rate a p db =
     res_bind (get_asset db a) (\<lambda>ao.
     if \<not> price_eq (core_exchange_rate (options ao)) p
     then modify_asset a (\<lambda>ao. ao\<lparr>options := (options ao)\<lparr>core_exchange_rate := p\<rparr>\<rparr>) db else Inr db)"

text \<open>The changed object is stored, a changed feed triggers margin calls, and the exchange rate of the asset follows the feed.\<close>

definition refresh_feed :: "nat \<Rightarrow> nat \<Rightarrow> fc_lib \<Rightarrow> obj_id \<Rightarrow> asset_bitasset_data_object \<Rightarrow> bool \<Rightarrow> asset_bitasset_data_object \<Rightarrow> database \<Rightarrow> database res" where
  "refresh_feed n fuel lib i b update_cer b2 db =
     res_bind (put_bitasset i b2 db) (\<lambda>db1.
     res_bind (if \<not> price_is_null (settlement_price (current_feed b2)) \<and> \<not> price_feed_eq (current_feed b2) (current_feed b)
               then res_bind (check_call_orders n fuel lib (bd_asset_id b2) True False db1) (\<lambda>(_, db2). Inr db2) else Inr db1) (\<lambda>db2.
     if update_cer then set_core_exchange_rate (bd_asset_id b2) (price_feed.core_exchange_rate (current_feed b2)) db2 else Inr db2))"

definition update_expired_feed :: "nat \<Rightarrow> nat \<Rightarrow> fc_lib \<Rightarrow> obj_id \<Rightarrow> database \<Rightarrow> database res" where
  "update_expired_feed n fuel lib i db =
     res_bind (get_bitasset db i) (\<lambda>b.
     if head_block_time db \<ge> HARDFORK_615_TIME \<or> feed_is_expired_before_hardfork_615 b (head_block_time db)
     then res_bind (update_median_feeds (head_block_time db) (maint_time db) b) (\<lambda>b1.
          refresh_feed n fuel lib i b (need_to_update_cer b1) (if need_to_update_cer b1 then clear_cer_flags b1 else b1) db)
     else Inr db)"

definition update_expired_feeds :: "nat \<Rightarrow> nat \<Rightarrow> fc_lib \<Rightarrow> database \<Rightarrow> database res" where
  "update_expired_feeds n fuel lib db =
     res_bind (res_fold (update_expired_feed n fuel lib) (expired_feeds db) db) (\<lambda>db1.
     if \<not> head_block_time db \<ge> HARDFORK_615_TIME
     then res_fold (\<lambda>a d. res_bind (check_call_orders n fuel lib a True False d) (\<lambda>(_, d1). Inr d1)) (sorted_list_of_set (issue_453_affected_assets db1)) db1
     else Inr db1)"

text \<open>The assets with a pending exchange rate, from the end of the index \<open>by_cer_update\<close>.\<close>

definition pending_rates :: "database \<Rightarrow> obj_id list" where
  "pending_rates db = rev (map fst (filter (\<lambda>b. need_to_update_cer (snd b)) (ix_tab (bitassets db))))"

definition update_core_exchange_rate :: "obj_id \<Rightarrow> database \<Rightarrow> database res" where
  "update_core_exchange_rate i db =
     res_bind (get_bitasset db i) (\<lambda>b.
     res_bind (set_core_exchange_rate (bd_asset_id b) (price_feed.core_exchange_rate (current_feed b)) db) (put_bitasset i (clear_cer_flags b)))"

definition update_core_exchange_rates :: "database \<Rightarrow> database res" where
  "update_core_exchange_rates db = res_fold update_core_exchange_rate (pending_rates db) db"

subsection \<open>Withdrawal permissions\<close>

definition expired_permits :: "database \<Rightarrow> obj_id list" where
  "expired_permits db = map fst (takeWhile (\<lambda>p. wp_expiration (snd p) \<le> head_block_time db) (sorted_index earlier wp_expiration (withdraw_permissions db)))"

definition update_withdraw_permissions :: "database \<Rightarrow> database" where
  "update_withdraw_permissions db = fold (\<lambda>i d. d\<lparr>withdraw_permissions := ix_remove i (withdraw_permissions d)\<rparr>) (expired_permits db) db"

text \<open>The calls at the end of \<open>database::_apply_block\<close>, in its order. Expired transactions and proposals are not part of the model.\<close>

definition end_of_block :: "environment \<Rightarrow> nat \<Rightarrow> fc_lib \<Rightarrow> database \<Rightarrow> database res" where
  "end_of_block env rounds lib db =
     res_bind (clear_expired_orders rounds (search_fuel env) (loop_fuel env) lib db) (\<lambda>db1.
     res_bind (clear_expired_htlcs lib db1) (\<lambda>db2.
     res_bind (update_expired_feeds (search_fuel env) (loop_fuel env) lib db2) (\<lambda>db3.
     res_bind (update_core_exchange_rates db3) (\<lambda>db4.
     Inr (update_withdraw_permissions db4)))))"

subsection \<open>Conservation\<close>

text \<open>What matching leaves alone.\<close>

definition same_assets :: "database \<Rightarrow> database \<Rightarrow> bool" where
  "same_assets db db' \<longleftrightarrow> assets db' = assets db \<and> bitassets db' = bitassets db \<and> dgp db' = dgp db"

lemma same_assets_trans: "same_assets a b \<Longrightarrow> same_assets b c \<Longrightarrow> same_assets a c"
  by (simp add: same_assets_def)

lemma same_assets_if: "same_market db db' \<Longrightarrow> same_assets db db'"
  by (simp add: same_assets_def same_market_def)

lemma same_assets_settlements: "same_assets db (db1\<lparr>settlements := ix\<rparr>) \<longleftrightarrow> same_assets db db1"
  "same_assets db (db1\<lparr>limit_orders := lx\<rparr>) \<longleftrightarrow> same_assets db db1" "same_assets db (db1\<lparr>call_orders := cx\<rparr>) \<longleftrightarrow> same_assets db db1"
  "same_assets (db\<lparr>call_orders := cx\<rparr>) db1 \<longleftrightarrow> same_assets db db1"
  "same_assets db (push_applied_operation v db1) \<longleftrightarrow> same_assets db db1"
  by (simp_all add: same_assets_def push_applied_operation_def)

lemma same_assets_cancel_settle: "cancel_settle_order lib sid vop db = Inr db' \<Longrightarrow> same_assets db db'"
  by (auto simp: cancel_settle_order_def Let_def same_assets_settlements dest!: same_market_adjust_balance same_assets_if)

lemma same_assets_reduce_settlement: "reduce_settlement lib sid pays c db = Inr db' \<Longrightarrow> same_assets db db'"
  by (auto simp: reduce_settlement_def same_assets_def split: if_splits)

lemma same_assets_fill_settle:
  assumes "fill_settle_order lib sid pays receives fp mk db = Inr (r, db')"
  shows "same_assets db db'"
  using assms unfolding fill_settle_order_def
  by (auto simp: Let_def simp del: res_bind_Inr elim!: res_bind_InrE split: prod.splits if_splits
      dest!: same_market_pay_market_fees(2) same_assets_reduce_settlement same_market_adjust_balance same_assets_if)
    (auto simp: same_assets_def push_applied_operation_def)

lemma same_assets_fill_call:
  assumes "fill_call_order lib oid pays receives fp mk db = Inr (r, db')"
  shows "same_assets db db'"
  using assms
proof (cases rule: fill_call_orderE)
  case (1 co co' cf mcr mt ix db2 db3 db4)
  have "same_assets db db2" using same_assets_if [OF same_market_modify_dyn_data [OF 1(7)]] by (simp add: same_assets_settlements)
  moreover have "same_assets db2 db3" using 1(8) same_market_adjust_balance [of lib "borrower co'" _ db2 db3]
    by (auto simp: same_assets_def same_market_def split: option.splits)
  moreover have "same_assets db3 db4" using 1(9) same_market_modify_stats_by_owner [of "borrower co'" _ db3 db4]
    by (auto simp: same_assets_def same_market_def split: if_splits)
  ultimately have "same_assets db db4" by (blast intro: same_assets_trans)
  then show ?thesis using 1(11) by (auto simp: Let_def same_assets_settlements)
qed

lemma same_assets_match_settle:
  assumes "match_call_settle lib i j mp ms fp db = Inr (r, db')"
  shows "same_assets db db'"
  using assms unfolding match_call_settle_def
  by (auto simp: Let_def simp del: res_bind_Inr elim!: res_bind_InrE split: settle_amounts.splits if_splits prod.splits
      dest!: same_assets_fill_call same_assets_fill_settle same_assets_cancel_settle) (auto simp: same_assets_def)

text \<open>\<open>fc::safe\<close> throws instead of leaving the range of 64 bits.\<close>

definition safe_bounded :: "fc_lib \<Rightarrow> bool" where
  "safe_bounded lib \<longleftrightarrow> (\<forall>x y. fc_safe lib x = Inr y \<longrightarrow> y < 2 ^ 63)"

lemma std_lib_bounded [simp]: "safe_bounded std_lib"
  by (simp add: safe_bounded_def std_lib_def checked_int64_def)

lemma remaining_volume_ok:
  assumes "asset_sub (fc_safe lib) m s = Inr r" "asset_less s m = Inr True" "safe_exact (fc_safe lib)" "safe_bounded lib"
  shows "amount_ok (amount r)"
proof -
  from assms(1) have "fc_safe lib (amount m - amount s) = Inr (amount r)" by (auto simp: asset_sub_def)
  moreover from this have "amount r = amount m - amount s" by (rule safe_exactD [OF assms(3)])
  ultimately show ?thesis using assms(2,4) by (auto simp: amount_ok_def asset_less_def safe_bounded_def)
qed

lemma settle_against_calls_moves:
  assumes "settle_against_calls rounds lib mia backing sid st settled db = Inr (total_settled, stuck, db')"
    "safe_exact (fc_safe lib)" "safe_bounded lib" "price_ok (match_price st)"
  shows "moves (\<lambda>_. 0) db db' \<and> same_assets db db'"
  using assms(1)
proof (induction rounds arbitrary: settled db)
  case (Suc rounds)
  note cancel = cancel_settle_order_moves [OF _ assms(2)] same_assets_cancel_settle
  from Suc.prems obtain more where more: "asset_less settled (max_settlement_volume st) = Inr more"
    by (auto simp del: res_bind_Inr elim!: res_bind_InrE)
  show ?case
  proof (cases "ix_get sid (settlements db) = None \<or> \<not> more")
    case True
    with Suc.prems more show ?thesis by (auto simp: same_assets_def split: option.splits)
  next
    case False
    with more have more: "asset_less settled (max_settlement_volume st) = Inr True" and "more" by auto
    from False obtain order where order: "ix_get sid (settlements db) = Some order" by auto
    from Suc.prems obtain cid c ps ms where cid: "asset_sub (fc_safe lib) (max_settlement_volume st) settled = Inr ms"
      and rest: "(if amount (fs_balance order) = 0 then res_bind (cancel_settle_order lib sid True db) (\<lambda>db1. Inr (settled, False, db1))
       else (case match_call_settle lib cid sid (match_price st) ms (settlement_fill_price st) db of
               Inl Black_swan_exn \<Rightarrow> res_bind (cancel_settle_order lib sid True db) (\<lambda>db1. Inr (settled, False, db1))
             | Inl e \<Rightarrow> Inl e
             | Inr (new_settled, db1) \<Rightarrow>
                 if \<not> maint_time db \<le> HARDFORK_CORE_184_TIME \<and> amount new_settled = 0
                 then Inr (settled, ix_get sid (settlements db1) \<noteq> None, db1)
                 else res_bind (asset_add (fc_safe lib) settled new_settled) (\<lambda>settled'.
                      settle_against_calls rounds lib mia backing sid st settled' db1))) = Inr (total_settled, stuck, db')"
      by (simp add: more order del: res_bind_Inr split: list.splits prod.splits) (auto simp del: res_bind_Inr elim!: res_bind_InrE split: list.splits)
    have ms: "amount_ok (amount ms)" by (rule remaining_volume_ok [OF cid more assms(2,3)])
    from rest consider "cancel_settle_order lib sid True db = Inr db'"
      | new_settled db1 where "match_call_settle lib cid sid (match_price st) ms (settlement_fill_price st) db = Inr (new_settled, db1)"
          "db' = db1 \<or> (\<exists>s. settle_against_calls rounds lib mia backing sid st s db1 = Inr (total_settled, stuck, db'))"
      by (auto split: if_splits sum.splits fc_exception.splits; blast)
    then show ?thesis
    proof cases
      case 1
      with cancel show ?thesis by blast
    next
      case 2
      have "moves (\<lambda>_. 0) db db1" "same_assets db db1"
        using match_call_settle_moves [OF 2(1) assms(2,4) ms] same_assets_match_settle [OF 2(1)] by blast+
      with 2(2) Suc.IH show ?thesis by (metis moves_zero_trans same_assets_trans)
    qed
  qed
qed simp

text \<open>What the loop relies on: feeds hold proper prices, CORE is not market issued, and the two prices of the loop are
  proper unless they are still those of CORE, with which it starts.\<close>

definition settle_ready :: "database \<Rightarrow> bool" where
  "settle_ready db \<longleftrightarrow> (\<forall>i b. ix_get i (bitassets db) = Some b \<longrightarrow> price_is_null (settlement_price (current_feed b)) \<or> price_ok (settlement_price (current_feed b)))
     \<and> (\<forall>ao. ix_get core_asset (assets db) = Some ao \<longrightarrow> bitasset_data_id ao = None) \<and> HARDFORK_CORE_342_TIME < maint_time db"

definition prices_ready :: "settle_loop \<Rightarrow> bool" where
  "prices_ready st \<longleftrightarrow> (asset_id (base (settlement_fill_price st)) = core_asset \<or> price_ok (settlement_fill_price st))
     \<and> (asset_id (base (match_price st)) = core_asset \<or> price_ok (match_price st))"

lemma settle_ready_same: "settle_ready db \<Longrightarrow> same_assets db db' \<Longrightarrow> settle_ready db'"
  by (simp add: settle_ready_def same_assets_def maint_time_def)

lemma price_div_ratio_ok: "price_div_ratio p rn rd = Inr np \<Longrightarrow> price_ok p \<Longrightarrow> price_ok np"
proof -
  assume "price_div_ratio p rn rd = Inr np" "price_ok p"
  moreover from this(1) have "price_times_ratio p (fst (Rat.normalize (rd, rn))) (snd (Rat.normalize (rd, rn))) = Inr np"
    by (simp add: price_div_ratio_def price_times_ratio_type_def Let_def)
  moreover from this have "fst (Rat.normalize (rd, rn)) > 0" "snd (Rat.normalize (rd, rn)) > 0" by (auto simp: price_times_ratio_def)
  ultimately show ?thesis using price_times_ratio_ok(1) by blast
qed

lemma set_volume_prices: "set_volume lib a ao mia st db = Inr st' \<Longrightarrow> prices_ready st' = prices_ready st"
  by (auto simp: set_volume_def prices_ready_def split: if_splits)

lemma set_prices_ready:
  assumes "set_prices lib a mia bal st db = Inr st'" "prices_ready st" "price_ok (settlement_price (current_feed mia))" "a \<noteq> core_asset"
    "HARDFORK_CORE_342_TIME < maint_time db"
  shows "prices_ready st'" "price_ok (match_price st')"
proof -
  from assms(1,5) obtain fp where fp: "(if asset_id (base (settlement_fill_price st)) \<noteq> a
               then price_div_ratio (settlement_price (current_feed mia))
                      (GRAPHENE_100_PERCENT - int (force_settlement_offset_percent (bd_options mia))) GRAPHENE_100_PERCENT
               else Inr (settlement_fill_price st)) = Inr fp"
    and st': "st' = st\<lparr>settlement_fill_price := fp, match_price := (if asset_id (base (match_price st)) \<noteq> a then fp else match_price st)\<rparr>"
    unfolding set_prices_def by (auto simp del: res_bind_Inr elim!: res_bind_InrE split: if_splits)
  have "price_ok fp" using fp assms(2,3,4) by (auto simp: prices_ready_def split: if_splits intro: price_div_ratio_ok)
  then show "prices_ready st'" "price_ok (match_price st')" using assms(2,4) by (auto simp: st' prices_ready_def)
qed

lemma settle_due_order_moves:
  assumes "settle_due_order rounds lib a mia sid st db = Inr (st', db')" "safe_exact (fc_safe lib)" "safe_bounded lib" "price_ok (match_price st)"
    "settle_ready db"
  shows "moves (\<lambda>_. 0) db db' \<and> settle_ready db' \<and> prices_ready st' = prices_ready st"
proof -
  from assms(1) obtain settled stuck db1 where s: "settle_against_calls rounds lib a (short_backing_asset (bd_options mia)) sid st (mk_asset (force_settled_volume mia) a) db
       = Inr (settled, stuck, db1)"
    and m: "db' = db1 \<or> modify_bitasset a (\<lambda>b. Inr (b\<lparr>force_settled_volume := amount settled\<rparr>)) db1 = Inr db'"
    and st': "st' = (if stuck then st\<lparr>current_asset_finished := True\<rparr> else st)"
    by (auto simp: settle_due_order_def split: if_splits)
  note r = settle_against_calls_moves [OF s assms(2-4)]
  have ready: "settle_ready db1" using settle_ready_same [OF assms(5)] r by blast
  have "moves (\<lambda>_. 0) db1 db' \<and> settle_ready db'"
    using m
  proof
    assume m: "modify_bitasset a (\<lambda>b. Inr (b\<lparr>force_settled_volume := amount settled\<rparr>)) db1 = Inr db'"
    have "moves (\<lambda>_. 0) db1 db'" using m by (rule modify_bitasset_neutral) auto
    moreover from m obtain i b ix where "ix_get i (bitassets db1) = Some b" "db' = db1\<lparr>bitassets := ix\<rparr>"
      "\<And>j. ix_get j ix = (if j = i then Some (b\<lparr>force_settled_volume := amount settled\<rparr>) else ix_get j (bitassets db1))"
      by (elim modify_bitassetE) auto
    then have "settle_ready db'" using ready by (auto simp: settle_ready_def maint_time_def split: if_splits)
    ultimately show ?thesis by blast
  qed (use ready in simp)
  with r show ?thesis by (auto simp: st' prices_ready_def intro: moves_zero_trans)
qed

lemma next_asset_prices: "next_asset st db = Some st' \<Longrightarrow> prices_ready st \<Longrightarrow> prices_ready st'"
  by (auto simp: next_asset_def prices_ready_def split: option.splits)

lemma settle_valued_moves:
  assumes "settle_valued rounds lib a ao mia sid order st db = Inr (r, db')" "safe_exact (fc_safe lib)" "safe_bounded lib" "settle_ready db"
    "prices_ready st" "price_ok (settlement_price (current_feed mia))" "a \<noteq> core_asset"
  shows "moves (\<lambda>_. 0) db db' \<and> settle_ready db' \<and> (\<forall>st'. r = Some st' \<longrightarrow> prices_ready st')"
proof -
  from assms(1) obtain st1 where st1: "set_volume lib a ao mia st db = Inr st1"
    by (auto simp: settle_valued_def simp del: res_bind_Inr elim!: res_bind_InrE)
  have pr: "prices_ready st1" using set_volume_prices [OF st1] assms(5) by simp
  show ?thesis
  proof (cases "force_settled_volume mia \<ge> amount (max_settlement_volume st1) \<or> current_asset_finished st1")
    case True
    with assms(1) have "r = next_asset st1 db \<and> db' = db" by (auto simp: settle_valued_def st1)
    then show ?thesis using assms(4) pr by (auto dest: next_asset_prices)
  next
    case False
    with assms(1) obtain st2 st3 where s: "set_prices lib a mia (fs_balance order) st1 db = Inr st2"
      "settle_due_order rounds lib a mia sid st2 db = Inr (st3, db')" "r = Some st3" by (auto simp: settle_valued_def st1)
    have "HARDFORK_CORE_342_TIME < maint_time db" using assms(4) by (simp add: settle_ready_def)
    from set_prices_ready [OF s(1) pr assms(6,7) this] have "prices_ready st2" "price_ok (match_price st2)" .
    with settle_due_order_moves [OF s(2) assms(2,3) _ assms(4)] s(3) show ?thesis by simp
  qed
qed

lemma settle_round_moves:
  assumes "settle_round rounds lib st db = Inr (r, db')" "safe_exact (fc_safe lib)" "safe_bounded lib" "settle_ready db" "prices_ready st"
  shows "moves (\<lambda>_. 0) db db' \<and> settle_ready db' \<and> (\<forall>st'. r = Some st' \<longrightarrow> prices_ready st')"
proof (cases "settle_lower_bound (current_asset st) db")
  case None
  with assms show ?thesis by (simp add: settle_round_def)
next
  case (Some p)
  obtain sid order where p: "p = (sid, order)" by (cases p)
  let ?a = "asset_id (fs_balance order)" let ?st = "st\<lparr>current_asset := ?a\<rparr>"
  have pr: "prices_ready ?st" using assms(5) by (simp add: prices_ready_def)
  from assms(1) Some p obtain ao mia where ao: "get_asset db ?a = Inr ao" "bitasset_data db ao = Inr mia"
    by (auto simp: settle_round_def Let_def simp del: res_bind_Inr elim!: res_bind_InrE)
  have core: "?a \<noteq> core_asset" using ao assms(4) by (auto simp: settle_ready_def get_asset_def bitasset_data_def)
  have feed: "price_is_null (settlement_price (current_feed mia)) \<or> price_ok (settlement_price (current_feed mia))"
    using ao(2) assms(4) by (auto simp: settle_ready_def bitasset_data_def split: option.splits)
  have body: "settle_round rounds lib st db =
     (if has_settlement mia then res_bind (cancel_settle_order lib sid True db) (\<lambda>db1. Inr (Some ?st, db1))
      else if settlement_date order > head_block_time db then Inr (next_asset ?st db, db)
      else if price_is_null (settlement_price (current_feed mia)) then res_bind (cancel_settle_order lib sid True db) (\<lambda>db1. Inr (Some ?st, db1))
      else settle_valued rounds lib ?a ao mia sid order ?st db)"
    by (simp add: settle_round_def Some p Let_def ao)
  have cancelled: ?thesis if "res_bind (cancel_settle_order lib sid True db) (\<lambda>db1. Inr (Some ?st, db1)) = Inr (r, db')"
  proof -
    from that have "cancel_settle_order lib sid True db = Inr db'" and r: "r = Some ?st" by (auto elim: res_bind_InrE)
    from this(1) show ?thesis
      using cancel_settle_order_moves [OF _ assms(2)] settle_ready_same [OF assms(4) same_assets_cancel_settle] pr by (simp add: r)
  qed
  consider (cancel) "has_settlement mia \<or> \<not> settlement_date order > head_block_time db \<and> price_is_null (settlement_price (current_feed mia))"
    | (skip) "\<not> has_settlement mia" "settlement_date order > head_block_time db"
    | (valued) "\<not> has_settlement mia" "\<not> settlement_date order > head_block_time db" "\<not> price_is_null (settlement_price (current_feed mia))"
    by blast
  then show ?thesis
  proof cases
    case cancel
    show ?thesis by (rule cancelled) (use assms(1) cancel in \<open>auto simp: body split: if_splits\<close>)
  next
    case skip
    with assms(1) have "r = next_asset ?st db \<and> db' = db" by (auto simp: body)
    then show ?thesis using assms(4) pr next_asset_prices by auto
  next
    case valued
    with assms(1) have "settle_valued rounds lib ?a ao mia sid order ?st db = Inr (r, db')" by (simp add: body)
    then show ?thesis using settle_valued_moves [OF _ assms(2,3,4) pr _ core] feed valued(3) by blast
  qed
qed

lemma settle_orders_moves:
  assumes "settle_orders rounds lib st db = Inr db'" "safe_exact (fc_safe lib)" "safe_bounded lib" "settle_ready db" "prices_ready st"
  shows "moves (\<lambda>_. 0) db db'"
  using assms
proof (induction rounds arbitrary: st db)
  case (Suc rounds)
  from Suc.prems(1) obtain r db1 where r: "settle_round rounds lib st db = Inr (r, db1)"
    "(case r of None \<Rightarrow> Inr db1 | Some st1 \<Rightarrow> settle_orders rounds lib st1 db1) = Inr db'" by (auto simp del: res_bind_Inr elim!: res_bind_InrE)
  note m = settle_round_moves [OF r(1) Suc.prems(2-5)]
  with r(2) Suc.IH Suc.prems(2,3) show ?case by (cases r) (auto intro: moves_zero_trans)
qed simp

lemma same_assets_charge_cancel:
  assumes "charge_cancel_fee lib order db = Inr (d, p, v, db')"
  shows "same_assets db db'"
  using assms unfolding charge_cancel_fee_def
  by (auto simp: Let_def simp del: res_bind_Inr elim!: res_bind_InrE split: if_splits
      dest!: same_market_modify_statistics same_market_modify_dyn_data) (auto simp: same_assets_def same_market_def)

lemma same_assets_refund:
  assumes "refund_limit_order lib oid order vop d p v db = Inr db'"
  shows "same_assets db db'"
proof -
  from assms obtain db2 db3 db5 where s: "(if asset_id (amount_for_sale order) = core_asset
        then modify_statistics (seller order) (sub_core_in_orders lib (amount (amount_for_sale order))) db else Inr db) = Inr db2"
    "adjust_balance lib (seller order) (amount_for_sale order) db2 = Inr db3"
    "(if amount (deferred_paid_fee order) = 0 then adjust_balance lib (seller order) (mk_asset d core_asset) db3
      else res_bind (adjust_balance lib (seller order) p db3) (\<lambda>db4. modify_dyn_data (asset_id p) (add_fee_pool lib d) db4)) = Inr db5"
    and db': "same_assets db5 db'"
    unfolding refund_limit_order_def Let_def by (elim res_bind_InrE) (auto simp: same_assets_def push_applied_operation_def split: if_splits)
  have "same_market db db2" using s(1) by (auto split: if_splits dest: same_market_modify_statistics)
  moreover have "same_market db2 db3" using s(2) by (rule same_market_adjust_balance)
  moreover have "same_market db3 db5" using s(3)
    by (auto split: if_splits dest!: same_market_adjust_balance same_market_modify_dyn_data intro: same_market_trans)
  ultimately show ?thesis using db' by (simp add: same_market_def same_assets_def)
qed

lemma same_assets_cancel_limit:
  assumes "cancel_limit_order lib oid vop skip db = Inr db'"
  shows "same_assets db db'"
  using assms unfolding cancel_limit_order_def
  by (auto simp del: res_bind_Inr elim!: res_bind_InrE split: if_splits dest!: same_assets_charge_cancel same_assets_refund)
    (auto simp: same_assets_def)

lemma expire_limit_orders_moves:
  assumes "expire_limit_orders rounds n fuel lib db = Inr db'" "safe_exact (fc_safe lib)" "settle_ready db"
  shows "moves (\<lambda>_. 0) db db' \<and> settle_ready db'"
  using assms(1,3)
proof (induction rounds arbitrary: db)
  case (Suc rounds)
  show ?case
  proof (cases "first_expired_order db")
    case (Some p)
    have late: "\<not> maint_time db \<le> HARDFORK_CORE_606_TIME" using Suc.prems(2) by (simp add: settle_ready_def hardfork_defs)
    from Suc.prems(1) Some late obtain db1 where c: "cancel_limit_order lib (fst p) True False db = Inr db1"
      "expire_limit_orders rounds n fuel lib db1 = Inr db'" by (auto split: prod.splits)
    have "settle_ready db1" by (rule settle_ready_same [OF Suc.prems(2) same_assets_cancel_limit [OF c(1)]])
    with Suc.IH [OF c(2)] cancel_limit_order_moves [OF c(1) assms(2)] show ?thesis by (blast intro: moves_zero_trans)
  qed (use Suc.prems in simp)
qed simp

lemma clear_expired_orders_moves:
  assumes "clear_expired_orders rounds n fuel lib db = Inr db'" "safe_exact (fc_safe lib)" "safe_bounded lib" "settle_ready db"
  shows "moves (\<lambda>_. 0) db db'"
proof -
  from assms(1) obtain db1 where s: "expire_limit_orders rounds n fuel lib db = Inr db1"
    "(case settle_index db1 of [] \<Rightarrow> Inr db1 | (_, s) # _ \<Rightarrow> settle_orders rounds lib (start_settle_loop (asset_id (fs_balance s))) db1) = Inr db'"
    unfolding clear_expired_orders_def by (elim res_bind_InrE) (rule that)
  then have rest: "db' = db1 \<or> (\<exists>a. settle_orders rounds lib (start_settle_loop a) db1 = Inr db')"
    by (cases "settle_index db1") auto
  have start: "prices_ready (start_settle_loop a)" for a
    by (simp add: prices_ready_def start_settle_loop_def null_price_def)
  note m = expire_limit_orders_moves [OF s(1) assms(2,4)]
  with rest settle_orders_moves [OF _ assms(2,3) _ start] show ?thesis by (metis moves_zero_trans)
qed

lemma put_bitasset_moves:
  assumes "put_bitasset i b' db = Inr db'" "ix_get i (bitassets db) = Some b" "settlement_fund b' = settlement_fund b"
    "bd_settlement_price b' = bd_settlement_price b" "bd_options b' = bd_options b"
  shows "moves (\<lambda>_. 0) db db'"
proof -
  from assms(1) obtain ix where ix: "ix_modify i (\<lambda>_. Inr b') (bitassets db) = Inr ix" "db' = db\<lparr>bitassets := ix\<rparr>"
    by (auto simp: put_bitasset_def)
  from ix(1) assms(2) have get: "\<And>j. ix_get j ix = (if j = i then Some b' else ix_get j (bitassets db))"
    and fund: "\<And>g. ix_sum g ix = ix_sum g (bitassets db) - g b + g b'" by (auto elim!: ix_modifyE)
  show ?thesis unfolding ix(2)
  proof (rule moves_bitassets)
    show "ix_sum (bit_fund a) ix = ix_sum (bit_fund a) (bitassets db) + 0" for a by (simp add: fund bit_fund_def assms(3,5))
    show "ix_ok (bitassets db) \<Longrightarrow> ix_ok ix" by (rule ix_ok_modify [OF _ ix(1)])
    show "(\<And>i b. ix_get i (bitassets db) = Some b \<Longrightarrow> fund_ok b) \<Longrightarrow> ix_get j ix = Some c \<Longrightarrow> fund_ok c" for j c
      using assms(2-5) by (auto simp: get fund_ok_def has_settlement_def split: if_splits)
  qed
qed

lemma set_core_exchange_rate_moves:
  assumes "set_core_exchange_rate a p db = Inr db'"
  shows "moves (\<lambda>_. 0) db db' \<and> bitassets db' = bitassets db"
proof -
  let ?f = "\<lambda>ao. ao\<lparr>options := (options ao)\<lparr>core_exchange_rate := p\<rparr>\<rparr>"
  from assms consider "db' = db" | "modify_asset a ?f db = Inr db'" by (auto simp: set_core_exchange_rate_def split: if_splits)
  then show ?thesis
  proof cases
    case 2
    have "moves (\<lambda>_. 0) db db'" using 2 by (rule modify_asset_moves) auto
    then show ?thesis using 2 by (auto simp: modify_asset_def)
  qed (simp add: ledger.moves_refl)
qed

lemma update_core_exchange_rate_moves:
  assumes "update_core_exchange_rate i db = Inr db'"
  shows "moves (\<lambda>_. 0) db db'"
proof -
  from assms obtain b db1 where s: "ix_get i (bitassets db) = Some b"
    "set_core_exchange_rate (bd_asset_id b) (price_feed.core_exchange_rate (current_feed b)) db = Inr db1" "put_bitasset i (clear_cer_flags b) db1 = Inr db'"
    by (auto simp: update_core_exchange_rate_def get_bitasset_def)
  note r = set_core_exchange_rate_moves [OF s(2)]
  have "moves (\<lambda>_. 0) db1 db'" by (rule put_bitasset_moves [OF s(3), of b]) (use r s(1) in \<open>auto simp: clear_cer_flags_def\<close>)
  with r show ?thesis by (blast intro: moves_zero_trans)
qed

lemma update_expired_feed_moves:
  assumes "update_expired_feed n fuel lib i db = Inr db'" "safe_exact (fc_safe lib)"
  shows "moves (\<lambda>_. 0) db db'"
proof -
  from assms(1) obtain b where b: "ix_get i (bitassets db) = Some b" by (auto simp: update_expired_feed_def get_bitasset_def)
  show ?thesis
  proof (cases "head_block_time db \<ge> HARDFORK_615_TIME \<or> feed_is_expired_before_hardfork_615 b (head_block_time db)")
    case True
    have body: "update_expired_feed n fuel lib i db = res_bind (update_median_feeds (head_block_time db) (maint_time db) b) (\<lambda>b1.
      refresh_feed n fuel lib i b (need_to_update_cer b1) (if need_to_update_cer b1 then clear_cer_flags b1 else b1) db)"
      by (simp add: update_expired_feed_def get_bitasset_def b True Let_def)
    from assms(1) obtain b1 b2 where b2: "update_median_feeds (head_block_time db) (maint_time db) b = Inr b1"
      "b2 = (if need_to_update_cer b1 then clear_cer_flags b1 else b1)" "refresh_feed n fuel lib i b (need_to_update_cer b1) b2 db = Inr db'"
      unfolding body by (elim res_bind_InrE) simp
    from b2(3) obtain db1 db2 where s: "put_bitasset i b2 db = Inr db1"
      "(if \<not> price_is_null (settlement_price (current_feed b2)) \<and> \<not> price_feed_eq (current_feed b2) (current_feed b)
        then res_bind (check_call_orders n fuel lib (bd_asset_id b2) True False db1) (\<lambda>(_, db2). Inr db2) else Inr db1) = Inr db2"
      "(if need_to_update_cer b1 then set_core_exchange_rate (bd_asset_id b2) (price_feed.core_exchange_rate (current_feed b2)) db2 else Inr db2) = Inr db'"
      unfolding refresh_feed_def by (elim res_bind_InrE) (rule that)
    have "moves (\<lambda>_. 0) db db1"
      by (rule put_bitasset_moves [OF s(1) b]) (use update_median_feeds_keeps [OF b2(1)] in \<open>auto simp: b2(2) clear_cer_flags_def\<close>)
    moreover have "moves (\<lambda>_. 0) db1 db2"
      using s(2) check_call_orders_moves [OF _ assms(2)] ledger.moves_refl by (fastforce split: if_splits)
    moreover have "moves (\<lambda>_. 0) db2 db'" using s(3) set_core_exchange_rate_moves ledger.moves_refl by (fastforce split: if_splits)
    ultimately show ?thesis by (blast intro: moves_zero_trans)
  qed (use assms(1) b in \<open>auto simp: update_expired_feed_def get_bitasset_def\<close>)
qed

lemma update_expired_feeds_moves:
  assumes "update_expired_feeds n fuel lib db = Inr db'" "safe_exact (fc_safe lib)"
  shows "moves (\<lambda>_. 0) db db'"
proof -
  from assms(1) obtain db1 where s: "res_fold (update_expired_feed n fuel lib) (expired_feeds db) db = Inr db1"
    "db' = db1 \<or> res_fold (\<lambda>a d. res_bind (check_call_orders n fuel lib a True False d) (\<lambda>(_, d1). Inr d1)) (sorted_list_of_set (issue_453_affected_assets db1)) db1 = Inr db'"
    unfolding update_expired_feeds_def by (elim res_bind_InrE) (auto split: if_splits)
  have "moves (\<lambda>_. 0) db db1" by (rule ledger.moves_fold [OF s(1)]) (rule update_expired_feed_moves [OF _ assms(2)])
  moreover have "moves (\<lambda>_. 0) db1 db'"
    using s(2)
  proof
    assume r: "res_fold (\<lambda>a d. res_bind (check_call_orders n fuel lib a True False d) (\<lambda>(_, d1). Inr d1)) (sorted_list_of_set (issue_453_affected_assets db1)) db1 = Inr db'"
    show ?thesis by (rule ledger.moves_fold [OF r]) (auto intro: check_call_orders_moves [OF _ assms(2)])
  qed (simp add: ledger.moves_refl)
  ultimately show ?thesis by (rule moves_zero_trans)
qed

lemma update_core_exchange_rates_moves: "update_core_exchange_rates db = Inr db' \<Longrightarrow> moves (\<lambda>_. 0) db db'"
  unfolding update_core_exchange_rates_def by (erule ledger.moves_fold) (rule update_core_exchange_rate_moves)

lemma update_withdraw_permissions_moves: "moves (\<lambda>_. 0) db (update_withdraw_permissions db)"
proof -
  have "moves (\<lambda>_. 0) db (fold (\<lambda>i d. d\<lparr>withdraw_permissions := ix_remove i (withdraw_permissions d)\<rparr>) is db)" for "is"
    by (induction "is" arbitrary: db) (auto simp: ledger.moves_refl intro: moves_zero_trans moves_neutral(2))
  then show ?thesis by (simp add: update_withdraw_permissions_def)
qed


definition sample_due_db :: database where
  "sample_due_db = sample_feed_db\<lparr>settlements := \<lparr>ix_tab = [(0, \<lparr>fs_owner = 1, fs_balance = mk_asset 100 1, settlement_date = 1999999999\<rparr>)], ix_next = 1\<rparr>\<rparr>"

lemma sample_due_db_ok: "db_ok sample_due_db" "settle_ready sample_due_db"
proof -
  show "db_ok sample_due_db" using sample_feed_db_ok by (simp add: db_ok_def sample_due_db_def ix_ok_def)
  have "price_ok (settlement_price sample_feed)" by (simp add: sample_feed_def price_ok_def)
  then show "settle_ready sample_due_db"
    by (simp add: settle_ready_def sample_due_db_def sample_feed_db_def sample_db_def sample_asset_def ix_get_def maint_time_def hardfork_defs core_asset_def)
qed


subsection \<open>The volume of force settlements\<close>

lemma match_call_settle_volume:
  assumes "match_call_settle lib cid sid mp ms fp db = Inr (settled, db')" "price_ok mp" "amount_ok (amount ms)"
  shows "amount settled \<le> amount ms"
proof -
  from assms(1) obtain call settle where o: "get_call_order db cid = Inr call" "get_settlement db sid = Inr settle"
    by (auto simp: match_call_settle_def simp del: res_bind_Inr elim!: res_bind_InrE)
  from assms(1) o obtain am where am: "match_settle_amounts (maint_time db) call (fs_balance settle) mp ms = Inr am"
    and pre: "debt_type call = asset_id (fs_balance settle)" "0 < debt call" "0 < amount (fs_balance settle)"
    and r: "(case am of Settle_amounts x p cull \<Rightarrow> settled = x | _ \<Rightarrow> amount settled = 0)"
    by (auto simp: match_call_settle_def get_debt_def Let_def simp del: res_bind_Inr elim!: res_bind_InrE split: settle_amounts.splits)
  show ?thesis
  proof (cases am)
    case (Settle_amounts x p cull)
    with match_settle_amounts_bounds(4) [OF am [unfolded Settle_amounts] assms(2,3) pre(2,3,1)] r show ?thesis by simp
  qed (use r assms(3) in \<open>auto simp: amount_ok_def\<close>)
qed

lemma settle_against_calls_volume:
  assumes "settle_against_calls rounds lib mia backing sid st settled db = Inr (total_settled, stuck, db')"
    "safe_exact (fc_safe lib)" "safe_bounded lib" "price_ok (match_price st)" "amount settled \<le> amount (max_settlement_volume st)"
  shows "amount total_settled \<le> amount (max_settlement_volume st)"
  using assms(1,5)
proof (induction rounds arbitrary: settled db)
  case (Suc rounds)
  show ?case
  proof (cases "total_settled = settled")
    case False
    obtain cid ms new_settled db1 settled' where s: "asset_less settled (max_settlement_volume st) = Inr True"
      "asset_sub (fc_safe lib) (max_settlement_volume st) settled = Inr ms"
      "match_call_settle lib cid sid (match_price st) ms (settlement_fill_price st) db = Inr (new_settled, db1)"
      "asset_add (fc_safe lib) settled new_settled = Inr settled'"
      "settle_against_calls rounds lib mia backing sid st settled' db1 = Inr (total_settled, stuck, db')"
      using Suc.prems(1) False by (simp del: res_bind_Inr)
        (elim res_bind_InrE, auto simp del: res_bind_Inr elim!: res_bind_InrE split: option.splits if_splits list.splits sum.splits fc_exception.splits)
    have "amount new_settled \<le> amount ms"
      by (rule match_call_settle_volume [OF s(3) assms(4) remaining_volume_ok [OF s(2,1) assms(2,3)]])
    moreover have "amount ms = amount (max_settlement_volume st) - amount settled" "amount settled' = amount settled + amount new_settled"
      using s(2,4) safe_exactD [OF assms(2)] by (auto simp: asset_sub_def asset_add_def)
    ultimately show ?thesis using Suc.IH [OF s(5)] by simp
  qed (use Suc.prems in simp)
qed simp

lemma settle_due_order_volume:
  assumes "settle_due_order rounds lib a mia sid st db = Inr (st', db')" "safe_exact (fc_safe lib)" "safe_bounded lib" "price_ok (match_price st)"
    "force_settled_volume mia \<le> amount (max_settlement_volume st)" "get_asset db a = Inr ao" "bitasset_data db ao = Inr mia"
  shows "\<exists>v\<le>amount (max_settlement_volume st). bitasset_data db' ao = Inr (mia\<lparr>force_settled_volume := v\<rparr>)"
proof -
  from assms(1) obtain settled stuck db1 where s: "settle_against_calls rounds lib a (short_backing_asset (bd_options mia)) sid st (mk_asset (force_settled_volume mia) a) db
       = Inr (settled, stuck, db1)"
    and m: "(if force_settled_volume mia \<noteq> amount settled
               then modify_bitasset a (\<lambda>b. Inr (b\<lparr>force_settled_volume := amount settled\<rparr>)) db1 else Inr db1) = Inr db'"
    by (auto simp: settle_due_order_def simp del: res_bind_Inr elim!: res_bind_InrE)
  have same: "assets db1 = assets db" "bitassets db1 = bitassets db"
    using settle_against_calls_moves [OF s assms(2-4)] by (simp_all add: same_assets_def)
  have ao: "ix_get a (assets db) = Some ao" using assms(6) by (simp add: get_asset_def)
  have "bitasset_data db' ao = Inr (mia\<lparr>force_settled_volume := amount settled\<rparr>)"
  proof (cases "force_settled_volume mia = amount settled")
    case True
    with m have "db' = db1" by simp
    moreover from True have "mia\<lparr>force_settled_volume := amount settled\<rparr> = mia" by simp
    ultimately show ?thesis using assms(7) same by (simp add: bitasset_data_def split: option.splits)
  next
    case False
    with m have "modify_bitasset a (\<lambda>b. Inr (b\<lparr>force_settled_volume := amount settled\<rparr>)) db1 = Inr db'" by simp
    then show ?thesis using ao assms(7) same by (elim modify_bitassetE) (auto simp: bitasset_data_def)
  qed
  moreover have "amount settled \<le> amount (max_settlement_volume st)"
    using settle_against_calls_volume [OF s assms(2-4)] assms(5) by simp
  ultimately show ?thesis by blast
qed



end
