(* ===== verification/Maintenance.thy ===== *)
theory Maintenance
  imports Elections Budget Block_Updates
begin

text \<open>
  Chain maintenance (\<open>perform_chain_maintenance\<close> of \<open>libraries/chain/db_maint.cpp\<close>): the fees collected for designated assets are
  distributed, buyback accounts sell what they hold, votes are counted and positions filled, pending parameters take effect, the next
  maintenance is scheduled, one-time changes of hard forks are made, settled assets whose bids suffice are revived, and the budget is spent.

  Where the source catches the exception of an operation it applies, the operation stays in the history of the block. No undo session
  surrounds it, so an exception after the first change would leave a part of the changes behind; the model ends with the error there.
\<close>

subsection \<open>Fees of designated assets\<close>

definition fba_share :: "fc_lib \<Rightarrow> int \<Rightarrow> nat \<Rightarrow> int res" where
  "fba_share lib fees pct = fc_to_share lib (u128 (u128 fees * int pct) div GRAPHENE_100_PERCENT)"

definition clear_fba :: "obj_id \<Rightarrow> database \<Rightarrow> database res" where
  "clear_fba i db = res_bind (ix_modify i (\<lambda>f. Inr (f\<lparr>accumulated_fba_fees := 0\<rparr>)) (fbas db)) (\<lambda>ix. Inr (db\<lparr>fbas := ix\<rparr>))"

definition pay_fba :: "fc_lib \<Rightarrow> account_id \<Rightarrow> obj_id \<Rightarrow> int \<Rightarrow> database \<Rightarrow> database res" where
  "pay_fba lib acc i amt db =
     (if amt = 0 then Inr db
      else res_bind (adjust_balance lib acc (mk_asset amt core_asset) db) (\<lambda>db1. Inr (push_applied_operation (Fba_distribute_vop acc i amt) db1)))"

definition split_configured_fba :: "fc_lib \<Rightarrow> obj_id \<Rightarrow> fba_accumulator_object \<Rightarrow> nat \<Rightarrow> nat \<Rightarrow> database \<Rightarrow> database res" where
  "split_configured_fba lib i fba buyback_pct issuer_pct db =
     res_bind (fba_share lib (accumulated_fba_fees fba) buyback_pct) (\<lambda>buyback_amount.
     res_bind (fba_share lib (accumulated_fba_fees fba) issuer_pct) (\<lambda>issuer_amount.
     res_bind (fc_safe lib (buyback_amount + issuer_amount)) (\<lambda>both.
     FC_ASSERT (both \<le> accumulated_fba_fees fba) ''buyback_amount + issuer_amount <= fba.accumulated_fba_fees''
     (res_bind (fc_safe lib (accumulated_fba_fees fba - both)) (\<lambda>network_amount.
      res_bind (opt_get ''designated_asset'' (designated_asset fba)) (\<lambda>da.
      res_bind (get_asset db da) (\<lambda>dasset.
      res_bind (if network_amount \<noteq> 0 then modify_dyn_data core_asset (sub_current_supply lib network_amount) db else Inr db) (\<lambda>db1.
      res_bind (opt_get ''buyback_account'' (buyback_account dasset)) (\<lambda>bb.
      res_bind (pay_fba lib bb i buyback_amount db1) (\<lambda>db2.
      res_bind (pay_fba lib (issuer dasset) i issuer_amount db2) (clear_fba i)))))))))))"

definition split_fba_balance :: "fc_lib \<Rightarrow> obj_id \<Rightarrow> nat \<Rightarrow> nat \<Rightarrow> nat \<Rightarrow> database \<Rightarrow> database res" where
  "split_fba_balance lib i network_pct buyback_pct issuer_pct db =
     FC_ASSERT (int (network_pct + buyback_pct + issuer_pct) = GRAPHENE_100_PERCENT) ''percentages sum to GRAPHENE_100_PERCENT''
     (res_bind (opt_get ''Unable to find Object'' (ix_get i (fbas db))) (\<lambda>fba.
      if accumulated_fba_fees fba = 0 then Inr db
      else res_bind (fba_is_configured db fba) (\<lambda>configured.
        if configured then split_configured_fba lib i fba buyback_pct issuer_pct db
        else res_bind (modify_dyn_data core_asset (sub_current_supply lib (accumulated_fba_fees fba)) db) (clear_fba i))))"

text \<open>The accumulators of transfers to, between and from blind balances have the numbers 0, 1 and 2.\<close>

definition distribute_fba_balances :: "fc_lib \<Rightarrow> database \<Rightarrow> database res" where
  "distribute_fba_balances lib db = res_fold (\<lambda>i. split_fba_balance lib i 2000 6000 2000) [0, 1, 2] db"

subsection \<open>Operations that the chain applies itself\<close>

text \<open>The result says whether the operation was applied.\<close>

definition attempt_operation :: "environment \<Rightarrow> fc_lib \<Rightarrow> operation \<Rightarrow> database \<Rightarrow> (bool \<times> database) res" where
  "attempt_operation env lib op1 db =
     (let sizes = \<lparr>memo_size = None, packed_size = 0\<rparr>; db1 = push_applied_operation (User_operation op1) db;
          (do_evaluate, convert, pay, do_apply) = evaluator_of env lib op1 in
      case evaluator_evaluate lib True (fee_payer op1) (op_fee op1) (\<lambda>sched. calc_fee lib sched sizes op1) do_evaluate db1 of
        Inl _ \<Rightarrow> Inr (False, db1)
      | Inr _ \<Rightarrow> res_bind (apply_operation env lib True (op1, sizes) db) (\<lambda>db2. Inr (True, db2)))"

definition buyback_order :: "account_id \<Rightarrow> asset \<Rightarrow> asset_id \<Rightarrow> operation" where
  "buyback_order acc sell buy = Limit_order_create \<lparr>lc_fee = mk_asset 0 core_asset, lc_seller = acc, amount_to_sell = sell,
     min_to_receive = mk_asset 1 buy, lc_expiration = time_maximum, fill_or_kill = False\<rparr>"

definition cancel_order_operation :: "account_id \<Rightarrow> obj_id \<Rightarrow> operation" where
  "cancel_order_operation acc i = Limit_order_cancel \<lparr>lx_fee = mk_asset 0 core_asset, lx_order = i, lx_fee_paying_account = acc\<rparr>"

definition sell_for_buyback :: "environment \<Rightarrow> fc_lib \<Rightarrow> account_id \<Rightarrow> asset \<Rightarrow> asset_id \<Rightarrow> database \<Rightarrow> database res" where
  "sell_for_buyback env lib acc sell buy db =
     (let order_id = ix_next (limit_orders db) in
      res_bind (attempt_operation env lib (buyback_order acc sell buy) db) (\<lambda>(created, db1).
      if created \<and> ix_get order_id (limit_orders db1) \<noteq> None
      then res_bind (attempt_operation env lib (cancel_order_operation acc order_id) db1) (\<lambda>(_, db2). Inr db2)
      else Inr db1))"

text \<open>One holding of the buyback account; its balance is read when the loop comes to it.\<close>

definition buyback_holding :: "environment \<Rightarrow> fc_lib \<Rightarrow> account_id \<Rightarrow> asset_id list \<Rightarrow> asset_id \<Rightarrow> asset_id \<Rightarrow> database \<Rightarrow> database res" where
  "buyback_holding env lib acc allowed buy sell db =
     (case find_account_balance db acc sell of None \<Rightarrow> Inr db
      | Some (_, b) \<Rightarrow>
          if sell = buy \<or> ab_balance b = 0 \<or> sell \<notin> set allowed then Inr db
          else sell_for_buyback env lib acc (mk_asset (ab_balance b) sell) buy db)"

text \<open>The balances of an account are kept by asset; the candidates are all assets there are.\<close>

definition held_assets :: "database \<Rightarrow> asset_id list" where
  "held_assets db = sort (remdups (map fst (ix_tab (assets db)) @ map (\<lambda>p. ab_asset_type (snd p)) (ix_tab (balances db))))"

definition create_buyback_orders :: "environment \<Rightarrow> fc_lib \<Rightarrow> database \<Rightarrow> database res" where
  "create_buyback_orders env lib db =
     res_fold (\<lambda>(_, buy) d.
       res_bind (get_asset d buy) (\<lambda>asset_to_buy.
       res_bind (opt_get ''asset_to_buy.buyback_account.valid()'' (buyback_account asset_to_buy)) (\<lambda>acc.
       res_bind (get_account d acc) (\<lambda>account.
       case allowed_assets account of None \<Rightarrow> Inr d
       | Some allowed \<Rightarrow> res_fold (buyback_holding env lib acc allowed buy) (held_assets d) d)))) (ix_tab (buybacks db)) db"

definition deprecate_annual_member :: "environment \<Rightarrow> fc_lib \<Rightarrow> account_id \<Rightarrow> database \<Rightarrow> database res" where
  "deprecate_annual_member env lib i db =
     res_bind (get_account db i) (\<lambda>acct.
     if is_annual_member acct (head_block_time db)
     then res_bind (attempt_operation env lib (Account_upgrade \<lparr>ug_fee = mk_asset 0 core_asset, account_to_upgrade = i, upgrade_to_lifetime_member = True\<rparr>) db)
            (\<lambda>(_, db1). Inr db1)
     else Inr db)"

definition deprecate_annual_members :: "environment \<Rightarrow> fc_lib \<Rightarrow> database \<Rightarrow> database res" where
  "deprecate_annual_members env lib db = res_fold (deprecate_annual_member env lib) (sort (map fst (ix_tab (accounts db)))) db"

subsection \<open>Bids for settled assets\<close>

definition revive_target :: "asset_bitasset_data_object \<Rightarrow> asset_id res" where
  "revive_target bad = res_bind (asset_times_price (mk_asset 0 (short_backing_asset (bd_options bad))) (bd_settlement_price bad)) (\<lambda>x. Inr (asset_id x))"

definition debt_in_bid :: "int \<Rightarrow> collateral_bid_object \<Rightarrow> asset" where
  "debt_in_bid current bid = (let q = quote (inv_swan_price bid) in if amount q > current then q\<lparr>amount := current\<rparr> else q)"

text \<open>The bids that are taken, the best first, until they cover the supply or one would be called at once.\<close>

fun covering_bids :: "fc_lib \<Rightarrow> asset_bitasset_data_object \<Rightarrow> asset_id \<Rightarrow> int \<Rightarrow> collateral_bid_object table \<Rightarrow> int \<Rightarrow> (int \<times> obj_id list) res" where
  "covering_bids lib bad to_revive current [] covered = Inr (covered, [])"
| "covering_bids lib bad to_revive current ((i, bid) # bs) covered =
     (if covered < current \<and> asset_id (quote (inv_swan_price bid)) = to_revive
      then let d = debt_in_bid current bid in
        res_bind (asset_times_price d (bd_settlement_price bad)) (\<lambda>c.
        res_bind (asset_add (fc_safe lib) c (base (inv_swan_price bid))) (\<lambda>total_collateral.
        res_bind (call_price_of d total_collateral (maintenance_collateral_ratio (current_feed bad))) (\<lambda>cp.
        if \<not> price_less (price_inv cp) (settlement_price (current_feed bad)) then Inr (covered, [])
        else res_bind (fc_safe lib (covered + amount d)) (\<lambda>cov.
             res_bind (covering_bids lib bad to_revive current bs cov) (\<lambda>(cov', is). Inr (cov', i # is))))))
      else Inr (covered, []))"

definition execute_next_bid :: "fc_lib \<Rightarrow> asset_bitasset_data_object \<Rightarrow> int \<Rightarrow> obj_id \<Rightarrow> int \<times> int \<times> database \<Rightarrow> (int \<times> int \<times> database) res" where
  "execute_next_bid lib bad current i s =
     (let (to_cover, remaining_fund, db) = s in
      res_bind (opt_get ''Unable to find Object'' (ix_get i (bids db))) (\<lambda>bid.
      let d = debt_in_bid current bid in
      res_bind (asset_times_price d (bd_settlement_price bad)) (\<lambda>c.
      let (debt1, collateral1) = (if amount d \<ge> to_cover then (to_cover, remaining_fund) else (amount d, amount c)) in
      res_bind (fc_safe lib (to_cover - debt1)) (\<lambda>to_cover1.
      res_bind (fc_safe lib (remaining_fund - collateral1)) (\<lambda>remaining1.
      res_bind (execute_bid lib i debt1 collateral1 (current_feed bad) db) (\<lambda>db1. Inr (to_cover1, remaining1, db1)))))))"

definition process_bids :: "fc_lib \<Rightarrow> asset_bitasset_data_object \<Rightarrow> database \<Rightarrow> database res" where
  "process_bids lib bad db =
     (if is_prediction_market bad \<or> price_is_null (settlement_price (current_feed bad)) then Inr db
      else
      res_bind (revive_target bad) (\<lambda>to_revive.
      res_bind (get_asset db to_revive) (\<lambda>ao.
      res_bind (dynamic_data db ao) (\<lambda>bdd.
      res_bind (price_max (short_backing_asset (bd_options bad)) to_revive) (\<lambda>max_price.
      res_bind (covering_bids lib bad to_revive (current_supply bdd) (index_from bid_before bid_key (to_revive, max_price) (bids db)) 0) (\<lambda>(covered, is).
      if covered < current_supply bdd then Inr db
      else res_bind (res_fold (execute_next_bid lib bad (current_supply bdd)) is (current_supply bdd, settlement_fund bad, db)) (\<lambda>(to_cover, remaining_fund, db1).
        FC_ASSERT (remaining_fund = 0) ''remaining_fund == 0''
        (FC_ASSERT (to_cover = 0) ''to_cover == 0''
        (cancel_bids_and_revive_mpa lib to_revive db1)))))))))"

text \<open>At every maintenance the settled volume starts again at zero, and feeds of the witnesses and of the committee expire.\<close>

definition clear_expired_feeds :: "time_sec \<Rightarrow> asset_bitasset_data_object \<Rightarrow> asset_bitasset_data_object" where
  "clear_expired_feeds head_time o1 = o1\<lparr>feeds := filter (\<lambda>f. \<not> fst (snd f) < head_time - feed_lifetime_sec (bd_options o1)) (feeds o1)\<rparr>"

definition refresh_bitasset :: "database \<Rightarrow> asset_bitasset_data_object \<Rightarrow> asset_bitasset_data_object res" where
  "refresh_bitasset db o1 =
     (let o2 = o1\<lparr>force_settled_volume := 0\<rparr> in
      if head_block_time db \<ge> HARDFORK_CORE_518_TIME
      then res_bind (get_asset db (bd_asset_id o2)) (\<lambda>ao.
           Inr (if and (flags (options ao)) (or witness_fed_asset committee_fed_asset) \<noteq> 0 \<and> feed_lifetime_sec (bd_options o2) < head_block_time db
                then clear_expired_feeds (head_block_time db) o2 else o2))
      else Inr o2)"

definition process_bitasset :: "fc_lib \<Rightarrow> obj_id \<Rightarrow> database \<Rightarrow> database res" where
  "process_bitasset lib i db =
     res_bind (ix_modify i (refresh_bitasset db) (bitassets db)) (\<lambda>ix.
     let db1 = db\<lparr>bitassets := ix\<rparr> in
     res_bind (get_bitasset db1 i) (\<lambda>d. if has_settlement d then process_bids lib d db1 else Inr db1))"

definition process_bitassets :: "fc_lib \<Rightarrow> database \<Rightarrow> database res" where
  "process_bitassets lib db = res_fold (process_bitasset lib) (map fst (ix_tab (bitassets db))) db"

subsection \<open>One-time changes of hard forks\<close>

definition market_issued_assets :: "database \<Rightarrow> asset_id list" where
  "market_issued_assets db = sort (map fst (filter (\<lambda>p. is_market_issued (snd p)) (ix_tab (assets db))))"

definition set_call_price :: "obj_id \<Rightarrow> (call_order_object \<Rightarrow> price res) \<Rightarrow> database \<Rightarrow> database res" where
  "set_call_price i f db = res_bind (ix_modify i (\<lambda>c. res_bind (f c) (\<lambda>p. Inr (c\<lparr>call_price := p\<rparr>))) (call_orders db)) (\<lambda>ix. Inr (db\<lparr>call_orders := ix\<rparr>))"

text \<open>The loop remembers the asset it is at and its data.\<close>

definition update_call_order_hf_343 :: "obj_id \<Rightarrow> asset_id \<times> asset_bitasset_data_object option \<times> database \<Rightarrow> (asset_id \<times> asset_bitasset_data_object option \<times> database) res" where
  "update_call_order_hf_343 i s =
     (let (current_asset, abd, db) = s in
      res_bind (get_call_order db i) (\<lambda>call.
      res_bind (if current_asset \<noteq> debt_type call
                then res_bind (get_asset db (debt_type call)) (\<lambda>ao. res_bind (bitasset_data db ao) (\<lambda>b. Inr (Some b)))
                else Inr abd) (\<lambda>abd1.
      case abd1 of
        None \<Rightarrow> Inr (debt_type call, None, db)
      | Some b \<Rightarrow>
          if is_prediction_market b then Inr (debt_type call, Some b, db)
          else res_bind (set_call_price i (\<lambda>c. call_price_of (get_debt c) (get_collateral c) (maintenance_collateral_ratio (current_feed b))) db) (\<lambda>db1.
               Inr (debt_type call, Some b, db1)))))"

definition update_call_orders_hf_343 :: "database \<Rightarrow> database res" where
  "update_call_orders_hf_343 db =
     res_bind (res_fold update_call_order_hf_343 (map fst (sorted_index price_less collateralization_key (call_orders db))) (core_asset, None, db)) (\<lambda>(_, _, db1). Inr db1)"

definition update_call_orders_hf_1270 :: "database \<Rightarrow> database res" where
  "update_call_orders_hf_1270 db =
     res_fold (\<lambda>i. set_call_price i (\<lambda>c. Inr (mk_price ((base (call_price c))\<lparr>amount := 1\<rparr>) ((quote (call_price c))\<lparr>amount := 1\<rparr>))))
       (map fst (ix_tab (call_orders db))) db"

definition match_call_orders :: "environment \<Rightarrow> fc_lib \<Rightarrow> database \<Rightarrow> database res" where
  "match_call_orders env lib db =
     res_fold (\<lambda>a d. res_bind (check_call_orders (search_fuel env) (loop_fuel env) lib a True False d) (\<lambda>(_, d1). Inr d1)) (market_issued_assets db) db"

definition process_hf_1465 :: "database \<Rightarrow> database res" where
  "process_hf_1465 db =
     res_fold (\<lambda>a d.
       res_bind (get_asset d a) (\<lambda>ao.
       res_bind (dynamic_data d ao) (\<lambda>dd.
       if current_supply dd > max_supply (options ao) \<and> max_supply (options ao) \<noteq> GRAPHENE_MAX_SHARE_SUPPLY
       then modify_asset a (\<lambda>obj. obj\<lparr>options := (options obj)\<lparr>max_supply := min (current_supply dd) GRAPHENE_MAX_SHARE_SUPPLY\<rparr>\<rparr>) d
       else Inr d))) (market_issued_assets db) db"

definition update_all_median_feeds :: "database \<Rightarrow> database res" where
  "update_all_median_feeds db =
     res_fold (\<lambda>i d. res_bind (get_bitasset d i) (\<lambda>b. res_bind (update_median_feeds (head_block_time db) (maint_time db) b) (\<lambda>b1. put_bitasset i b1 d)))
       (map fst (ix_tab (bitassets db))) db"

text \<open>Feeds in another asset than the backing asset are erased, or set to the null price where the publishers are chosen by the issuer.\<close>

definition feed_is_invalid :: "bool \<Rightarrow> asset_id \<Rightarrow> price_feed \<Rightarrow> bool" where
  "feed_is_invalid is_fed backing f \<longleftrightarrow> asset_id (quote (settlement_price f)) \<noteq> backing \<and> (is_fed \<or> \<not> price_eq (settlement_price f) null_price)"

definition repair_feeds :: "bool \<Rightarrow> asset_bitasset_data_object \<Rightarrow> asset_bitasset_data_object" where
  "repair_feeds is_fed b =
     (let backing = short_backing_asset (bd_options b) in
      b\<lparr>feeds := (if is_fed then filter (\<lambda>f. \<not> feed_is_invalid True backing (snd (snd f))) (feeds b)
         else map (\<lambda>(a, t, f). if feed_is_invalid False backing f then (a, t, f\<lparr>settlement_price := null_price\<rparr>) else (a, t, f)) (feeds b))\<rparr>)"

definition process_asset_hf_868_890 :: "environment \<Rightarrow> fc_lib \<Rightarrow> bool \<Rightarrow> asset_id \<Rightarrow> database \<Rightarrow> database res" where
  "process_asset_hf_868_890 env lib skip_check_call_orders a db =
     res_bind (get_asset db a) (\<lambda>ao.
     res_bind (bitasset_data db ao) (\<lambda>bd.
     res_bind (modify_bitasset a (\<lambda>b. update_median_feeds (head_block_time db) (maint_time db)
         (repair_feeds (and (flags (options ao)) (or witness_fed_asset committee_fed_asset) \<noteq> 0) b)) db) (\<lambda>db1.
     res_bind (bitasset_data db1 ao) (\<lambda>bd1.
     if \<not> skip_check_call_orders \<and> \<not> price_eq (settlement_price (current_feed bd)) (settlement_price (current_feed bd1))
     then res_bind (check_call_orders (search_fuel env) (loop_fuel env) lib a True False db1) (\<lambda>(_, db2). Inr db2)
     else Inr db1))))"

definition process_hf_868_890 :: "environment \<Rightarrow> fc_lib \<Rightarrow> bool \<Rightarrow> database \<Rightarrow> database res" where
  "process_hf_868_890 env lib skip_check_call_orders db =
     res_fold (process_asset_hf_868_890 env lib skip_check_call_orders) (market_issued_assets db) db"

text \<open>The margin calls of all market issued assets; whether anything changed is only logged.\<close>

definition process_hf_935 :: "environment \<Rightarrow> fc_lib \<Rightarrow> database \<Rightarrow> database res" where
  "process_hf_935 env lib db =
     res_fold (\<lambda>a d. res_bind (check_call_orders (search_fuel env) (loop_fuel env) lib a True False d) (\<lambda>(_, d1). Inr d1)) (market_issued_assets db) db"

subsection \<open>Parameters and the next maintenance\<close>

text \<open>The basic fee of account creation is shifted back by what the registrations of the interval added to it. A shift by the width of the
  type or more is undefined in C++.\<close>

definition unscale_account_fee :: "nat \<Rightarrow> chain_parameters \<Rightarrow> chain_parameters res" where
  "unscale_account_fee registered p =
     (if accounts_per_fee_scale p = 0 then Inl (Throw_exn ''undefined behaviour: division by zero'')
      else let n = account_fee_scale_bitshifts p * (registered div accounts_per_fee_scale p) mod 2 ^ 32 in
        if n \<ge> 64 then Inl (Throw_exn ''undefined behaviour: shift by 64 or more'')
        else shift_basic_fee (\<lambda>b. b div 2 ^ n) p)"

definition update_parameters :: "database \<Rightarrow> database res" where
  "update_parameters db =
     res_bind (unscale_account_fee (accounts_registered_this_interval (dgp db)) (parameters db)) (\<lambda>p.
     Inr (case pending_parameters db of None \<Rightarrow> db\<lparr>parameters := p\<rparr> | Some q \<Rightarrow> db\<lparr>parameters := q, pending_parameters := None\<rparr>))"

definition int_quot :: "int \<Rightarrow> int \<Rightarrow> int" where
  "int_quot x y = sgn x * (\<bar>x\<bar> div y)"

definition next_maintenance :: "nat \<Rightarrow> time_sec \<Rightarrow> time_sec \<Rightarrow> nat \<Rightarrow> time_sec \<Rightarrow> time_sec res" where
  "next_maintenance block_num timestamp head_time interval next_time =
     (if next_time \<le> timestamp
      then if interval = 0 then Inl (Throw_exn ''undefined behaviour: division by zero'')
      else if block_num = 1 then Inr ((timestamp div interval + 1) * interval mod 2 ^ 32)
      else let y = int_quot (int head_time - int next_time) (int interval) in
        Inr (nat ((int next_time + (y + 1) * int interval) mod 2 ^ 32))
      else Inr next_time)"

definition crosses :: "time_sec \<Rightarrow> time_sec \<Rightarrow> time_sec \<Rightarrow> bool" where
  "crosses old_time new_time hf \<longleftrightarrow> old_time \<le> hf \<and> new_time > hf"

subsection \<open>Maintenance\<close>

definition hold_elections :: "fc_lib \<Rightarrow> bool \<Rightarrow> database \<Rightarrow> database res" where
  "hold_elections lib track_standby_votes db =
     res_bind (perform_account_maintenance lib (new_vote_tally db) db) (\<lambda>(tally, db1).
     res_bind (update_top_n_authorities db1) (\<lambda>db2.
     res_bind (update_active_witnesses lib track_standby_votes tally db2) (\<lambda>db3.
     res_bind (update_active_committee_members lib track_standby_votes tally db3) (\<lambda>db4.
     Inr (update_worker_votes tally db4)))))"

definition apply_hardforks :: "environment \<Rightarrow> fc_lib \<Rightarrow> time_sec \<Rightarrow> database \<Rightarrow> database res" where
  "apply_hardforks env lib new_time db =
     (let old_time = next_maintenance_time (dgp db); hf_343 = crosses old_time new_time HARDFORK_CORE_343_TIME in
      res_bind (if old_time < HARDFORK_613_TIME \<and> new_time \<ge> HARDFORK_613_TIME then deprecate_annual_members env lib db else Inr db) (\<lambda>db1.
      res_bind (if crosses old_time new_time HARDFORK_CORE_868_890_TIME then process_hf_868_890 env lib hf_343 db1 else Inr db1) (\<lambda>db2.
      res_bind (if crosses old_time new_time HARDFORK_CORE_935_TIME \<and> \<not> hf_343 then process_hf_935 env lib db2 else Inr db2) (\<lambda>db3.
      res_bind (if crosses old_time new_time HARDFORK_CORE_1465_TIME then process_hf_1465 db3 else Inr db3) (\<lambda>db4.
      let db5 = db4\<lparr>dgp := (dgp db4)\<lparr>next_maintenance_time := new_time, accounts_registered_this_interval := 0\<rparr>\<rparr> in
      res_bind (if hf_343 then res_bind (update_call_orders_hf_343 db5) (match_call_orders env lib) else Inr db5) (\<lambda>db6.
      if crosses old_time new_time HARDFORK_CORE_1270_TIME
      then res_bind (update_call_orders_hf_1270 db6) (\<lambda>db7. res_bind (update_all_median_feeds db7) (match_call_orders env lib))
      else Inr db6))))))"

text \<open>Everything before the settled assets and the budget.\<close>

definition begin_maintenance :: "environment \<Rightarrow> fc_lib \<Rightarrow> bool \<Rightarrow> nat \<Rightarrow> time_sec \<Rightarrow> database \<Rightarrow> database res" where
  "begin_maintenance env lib track_standby_votes block_num timestamp db =
     res_bind (distribute_fba_balances lib db) (\<lambda>db1.
     res_bind (create_buyback_orders env lib db1) (\<lambda>db2.
     res_bind (hold_elections lib track_standby_votes db2) (\<lambda>db3.
     res_bind (update_parameters db3) (\<lambda>db4.
     res_bind (next_maintenance block_num timestamp (head_block_time db4) (maintenance_interval (parameters db4)) (next_maintenance_time (dgp db4))) (\<lambda>new_time.
     apply_hardforks env lib new_time db4)))))"

definition perform_chain_maintenance :: "environment \<Rightarrow> fc_lib \<Rightarrow> bool \<Rightarrow> nat \<Rightarrow> time_sec \<Rightarrow> database \<Rightarrow> database res" where
  "perform_chain_maintenance env lib track_standby_votes block_num timestamp db =
     res_bind (begin_maintenance env lib track_standby_votes block_num timestamp db) (\<lambda>db1.
     res_bind (process_bitassets lib db1) (process_budget lib))"

subsection \<open>What distributing fees and selling for buybacks move\<close>

lemma clear_fba_moves:
  assumes "clear_fba i db = Inr db'" "ix_get i (fbas db) = Some f"
  shows "moves (core_part (- accumulated_fba_fees f)) db db'"
proof -
  from assms(1) obtain ix where ix: "ix_modify i (\<lambda>f. Inr (f\<lparr>accumulated_fba_fees := 0\<rparr>)) (fbas db) = Inr ix" and db': "db' = db\<lparr>fbas := ix\<rparr>"
    unfolding clear_fba_def by (auto elim: res_bind_InrE)
  show ?thesis unfolding db' by (rule moves_fbas) (use ix assms(2) in \<open>auto elim!: ix_modifyE intro: ix_ok_modify [OF _ ix]\<close>)
qed

lemma pay_fba_moves:
  assumes "pay_fba lib acc i amt db = Inr db'" "safe_exact (fc_safe lib)"
  shows "moves (core_part amt) db db' \<and> fbas db' = fbas db"
proof (cases "amt = 0")
  case False
  with assms(1) obtain db1 where a: "adjust_balance lib acc (mk_asset amt core_asset) db = Inr db1" and db': "db' = push_applied_operation (Fba_distribute_vop acc i amt) db1"
    unfolding pay_fba_def by (auto elim: res_bind_InrE)
  have "fbas db1 = fbas db" using a by (auto simp: adjust_balance_def split: if_splits option.splits)
  with ledger.moves_trans [OF moves_adjust_balance [OF a assms(2)] moves_push] show ?thesis unfolding db' by (auto simp: push_applied_operation_def)
qed (use assms in \<open>simp add: pay_fba_def\<close>)

lemma modify_dyn_data_fbas: "modify_dyn_data a f db = Inr db' \<Longrightarrow> fbas db' = fbas db"
  by (auto simp: modify_dyn_data_def elim!: res_bind_InrE)

lemma split_configured_fba_moves:
  assumes "split_configured_fba lib i fba bp ip db = Inr db'" "safe_exact (fc_safe lib)" "ix_get i (fbas db) = Some fba"
  shows "moves (\<lambda>_. 0) db db'"
proof -
  from assms(1) obtain b iss both net da dasset bb db1 db2 db3 where s: "fc_safe lib (b + iss) = Inr both" "fc_safe lib (accumulated_fba_fees fba - both) = Inr net"
    "(if net \<noteq> 0 then modify_dyn_data core_asset (sub_current_supply lib net) db else Inr db) = Inr db1"
    "pay_fba lib bb i b db1 = Inr db2" "pay_fba lib (issuer (dasset :: asset_object)) i iss db2 = Inr db3" "clear_fba i db3 = Inr db'"
    unfolding split_configured_fba_def FC_ASSERT_def by (auto elim!: res_bind_InrE split: if_splits)
  have net: "net = accumulated_fba_fees fba - (b + iss)" using s(1,2) by (auto dest!: safe_exactD [OF assms(2)])
  have m1: "moves (core_part net) db db1 \<and> fbas db1 = fbas db"
    using s(3) moves_dyn_data(1) [OF assms(2)] modify_dyn_data_fbas by (auto split: if_splits)
  note m2 = pay_fba_moves [OF s(4) assms(2)] and m3 = pay_fba_moves [OF s(5) assms(2)]
  have "ix_get i (fbas db3) = Some fba" using m1 m2 m3 assms(3) by simp
  note m4 = clear_fba_moves [OF s(6) this]
  from ledger.moves_trans [OF ledger.moves_trans [OF ledger.moves_trans [OF conjunct1 [OF m1] conjunct1 [OF m2]] conjunct1 [OF m3]] m4]
  show ?thesis by (rule ledger.moves_weaken) (simp add: net)
qed

lemma distribute_fba_balances_moves:
  assumes "distribute_fba_balances lib db = Inr db'" "safe_exact (fc_safe lib)"
  shows "moves (\<lambda>_. 0) db db'"
  using assms(1) unfolding distribute_fba_balances_def
proof (rule ledger.moves_fold)
  fix i db db'
  assume "split_fba_balance lib i 2000 6000 2000 db = Inr db'"
  then obtain fba where fba: "ix_get i (fbas db) = Some fba" and c: "db' = db \<or> split_configured_fba lib i fba 6000 2000 db = Inr db' \<or>
      (\<exists>db1. modify_dyn_data core_asset (sub_current_supply lib (accumulated_fba_fees fba)) db = Inr db1 \<and> clear_fba i db1 = Inr db')"
    unfolding split_fba_balance_def FC_ASSERT_def by (auto elim!: res_bind_InrE split: if_splits)
  have "moves (\<lambda>_. 0) db db'" if "modify_dyn_data core_asset (sub_current_supply lib (accumulated_fba_fees fba)) db = Inr db1" "clear_fba i db1 = Inr db'" for db1
  proof -
    have "ix_get i (fbas db1) = Some fba" using fba modify_dyn_data_fbas [OF that(1)] by simp
    from ledger.moves_trans [OF moves_dyn_data(1) [OF assms(2) that(1)] clear_fba_moves [OF that(2) this]] show ?thesis
      by (rule ledger.moves_weaken) simp
  qed
  with c split_configured_fba_moves [OF _ assms(2) fba] show "moves (\<lambda>_. 0) db db'" by (auto simp: ledger.moves_refl)
qed

text \<open>Operations of the chain itself are not validated; the ones it applies move nothing all the same.\<close>

lemma attempt_operation_moves:
  assumes "attempt_operation env lib op1 db = Inr (ok1, db')" "safe_exact (fc_safe lib)"
    "(\<exists>x. op1 = Limit_order_create x) \<or> (\<exists>x. op1 = Limit_order_cancel x) \<or> (\<exists>x. op1 = Account_upgrade x)"
  shows "moves (\<lambda>_. 0) db db'"
proof -
  let ?db = "push_applied_operation (User_operation op1) db"
  from assms(1) have "db' = ?db \<or> (\<exists>sizes. apply_operation env lib True (op1, sizes) db = Inr db')"
    unfolding attempt_operation_def Let_def by (auto split: prod.splits sum.splits elim!: res_bind_InrE)
  then show ?thesis
  proof
    assume "\<exists>sizes. apply_operation env lib True (op1, sizes) db = Inr db'"
    then obtain sizes where a: "apply_operation env lib True (op1, sizes) db = Inr db'" by blast
    have "moves (\<lambda>_. 0) ?db db'" using assms(3) a
      by (elim disjE exE; simp only: apply_operation_def evaluator_of.simps plain_def Let_def prod.case)
         (erule evaluators_conserve; insert assms(2); simp)+
    then show ?thesis by (rule moves_push_first)
  qed simp
qed

lemma sell_for_buyback_moves:
  assumes "sell_for_buyback env lib acc sell buy db = Inr db'" "safe_exact (fc_safe lib)"
  shows "moves (\<lambda>_. 0) db db'"
proof -
  from assms(1) obtain c db1 where s: "attempt_operation env lib (buyback_order acc sell buy) db = Inr (c, db1)"
    "db' = db1 \<or> (\<exists>i c1. attempt_operation env lib (cancel_order_operation acc i) db1 = Inr (c1, db'))"
    unfolding sell_for_buyback_def Let_def by (auto elim!: res_bind_InrE split: if_splits)
  have "moves (\<lambda>_. 0) db db1" using s(1) assms(2) by (rule attempt_operation_moves) (simp add: buyback_order_def)
  moreover have "moves (\<lambda>_. 0) db1 db'" using s(2) attempt_operation_moves [OF _ assms(2)] by (auto simp: ledger.moves_refl cancel_order_operation_def)
  ultimately show ?thesis by (rule moves_zero_trans)
qed

lemma create_buyback_orders_moves:
  assumes "create_buyback_orders env lib db = Inr db'" "safe_exact (fc_safe lib)"
  shows "moves (\<lambda>_. 0) db db'"
proof -
  have h: "moves (\<lambda>_. 0) d d'" if "buyback_holding env lib acc allowed buy sell d = Inr d'" for acc allowed buy sell d d'
    using that sell_for_buyback_moves [OF _ assms(2)] by (auto simp: buyback_holding_def ledger.moves_refl split: option.splits if_splits)
  have hs: "moves (\<lambda>_. 0) d d'" if "res_fold (buyback_holding env lib acc allowed buy) xs d = Inr d'" for acc allowed buy xs d d'
    using that by (rule ledger.moves_fold) (rule h)
  show ?thesis using assms(1) unfolding create_buyback_orders_def
    by (rule ledger.moves_fold) (auto elim!: res_bind_InrE split: option.splits simp: ledger.moves_refl intro: hs)
qed

lemma deprecate_annual_members_moves:
  assumes "deprecate_annual_members env lib db = Inr db'" "safe_exact (fc_safe lib)"
  shows "moves (\<lambda>_. 0) db db'"
  using assms(1) unfolding deprecate_annual_members_def
  by (rule ledger.moves_fold)
     (auto simp: deprecate_annual_member_def ledger.moves_refl elim!: res_bind_InrE split: if_splits intro: attempt_operation_moves [OF _ assms(2)])

subsection \<open>What elections and hard forks move\<close>

lemma set_call_price_moves:
  assumes "set_call_price i f db = Inr db'" "\<And>c p. f c = Inr p \<Longrightarrow> asset_id (base p) = asset_id (base (call_price c))"
  shows "moves (\<lambda>_. 0) db db'"
proof -
  from assms(1) obtain ix where ix: "ix_modify i (\<lambda>c. res_bind (f c) (\<lambda>p. Inr (c\<lparr>call_price := p\<rparr>))) (call_orders db) = Inr ix" and db': "db' = db\<lparr>call_orders := ix\<rparr>"
    unfolding set_call_price_def by (auto elim: res_bind_InrE)
  have same: "get_collateral y = get_collateral c" if "res_bind (f c) (\<lambda>p. Inr (c\<lparr>call_price := p\<rparr>)) = Inr y" for c y
    using that assms(2) by (auto elim!: res_bind_InrE simp: get_collateral_def collateral_type_def)
  show ?thesis unfolding db'
    by (rule moves_call_orders) (use ix in \<open>auto elim!: ix_modifyE dest!: same intro: ix_ok_modify [OF _ ix]\<close>)
qed

lemma update_call_orders_hf_343_moves:
  assumes "update_call_orders_hf_343 db = Inr db'"
  shows "moves (\<lambda>_. 0) db db'"
proof -
  have step: "moves (\<lambda>_. 0) d d'" if "update_call_order_hf_343 i (a, b, d) = Inr (a', b', d')" for i a b d a' b' d'
  proof -
    from that have "d' = d \<or> (\<exists>r. set_call_price i (\<lambda>c. call_price_of (get_debt c) (get_collateral c) r) d = Inr d')"
      unfolding update_call_order_hf_343_def Let_def by (auto elim!: res_bind_InrE split: option.splits if_splits)
    moreover have "moves (\<lambda>_. 0) d d'" if "set_call_price i (\<lambda>c. call_price_of (get_debt c) (get_collateral c) r) d = Inr d'" for r
      using that by (rule set_call_price_moves) (auto simp: get_collateral_def collateral_type_def dest: call_price_of_ids)
    ultimately show ?thesis by (auto simp: ledger.moves_refl)
  qed
  have "moves (\<lambda>_. 0) (snd (snd s)) (snd (snd s'))" if "res_fold update_call_order_hf_343 is s = Inr s'" for "is" s s'
    using that
  proof (induction "is" arbitrary: s)
    case (Cons i "is")
    from Cons.prems obtain s1 where s1: "update_call_order_hf_343 i s = Inr s1" "res_fold update_call_order_hf_343 is s1 = Inr s'" by (auto elim: res_bind_InrE)
    have "moves (\<lambda>_. 0) (snd (snd s)) (snd (snd s1))" using s1(1) step by (metis prod.collapse)
    then show ?case using Cons.IH [OF s1(2)] by (rule moves_zero_trans)
  qed (simp add: ledger.moves_refl)
  then show ?thesis using assms unfolding update_call_orders_hf_343_def by (fastforce elim!: res_bind_InrE)
qed

lemma update_call_orders_hf_1270_moves: "update_call_orders_hf_1270 db = Inr db' \<Longrightarrow> moves (\<lambda>_. 0) db db'"
  unfolding update_call_orders_hf_1270_def by (erule ledger.moves_fold) (erule set_call_price_moves, auto)

lemma match_call_orders_moves:
  assumes "match_call_orders env lib db = Inr db'" "safe_exact (fc_safe lib)"
  shows "moves (\<lambda>_. 0) db db'"
  using assms(1) unfolding match_call_orders_def by (rule ledger.moves_fold) (auto elim!: res_bind_InrE intro: check_call_orders_moves [OF _ assms(2)])

lemma process_hf_935_moves: "process_hf_935 env lib db = Inr db' \<Longrightarrow> safe_exact (fc_safe lib) \<Longrightarrow> moves (\<lambda>_. 0) db db'"
  by (rule match_call_orders_moves) (simp_all add: process_hf_935_def match_call_orders_def)

lemma process_hf_1465_moves: "process_hf_1465 db = Inr db' \<Longrightarrow> moves (\<lambda>_. 0) db db'"
  unfolding process_hf_1465_def
  by (erule ledger.moves_fold) (auto elim!: res_bind_InrE modify_asset_moves split: if_splits simp: ledger.moves_refl)

lemma update_all_median_feeds_moves: "update_all_median_feeds db = Inr db' \<Longrightarrow> moves (\<lambda>_. 0) db db'"
  unfolding update_all_median_feeds_def
  by (erule ledger.moves_fold) (auto elim!: res_bind_InrE put_bitasset_moves simp: get_bitasset_def dest!: update_median_feeds_keeps split: option.splits)

lemma process_hf_868_890_moves:
  assumes "process_hf_868_890 env lib skip db = Inr db'" "safe_exact (fc_safe lib)"
  shows "moves (\<lambda>_. 0) db db'"
  using assms(1) unfolding process_hf_868_890_def
proof (rule ledger.moves_fold)
  fix a db db'
  assume "process_asset_hf_868_890 env lib skip a db = Inr db'"
  then obtain now maint r db1 where m: "modify_bitasset a (\<lambda>b. update_median_feeds now maint (repair_feeds r b)) db = Inr db1"
    and c: "db' = db1 \<or> (\<exists>q. check_call_orders (search_fuel env) (loop_fuel env) lib a True False db1 = Inr (q, db'))"
    unfolding process_asset_hf_868_890_def by (auto elim!: res_bind_InrE split: if_splits)
  have "moves (\<lambda>_. 0) db db1" using m by (rule modify_bitasset_neutral) (auto dest!: update_median_feeds_keeps simp: repair_feeds_def Let_def)
  moreover have "moves (\<lambda>_. 0) db1 db'" using c check_call_orders_moves [OF _ assms(2)] by (auto simp: ledger.moves_refl)
  ultimately show "moves (\<lambda>_. 0) db db'" by (rule moves_zero_trans)
qed

lemma update_parameters_moves: "update_parameters db = Inr db' \<Longrightarrow> moves (\<lambda>_. 0) db db'"
proof -
  assume "update_parameters db = Inr db'"
  then obtain p where "db' = db\<lparr>parameters := p\<rparr> \<or> db' = db\<lparr>parameters := p, pending_parameters := None\<rparr>"
    unfolding update_parameters_def by (auto elim!: res_bind_InrE split: option.splits)
  then show ?thesis using moves_neutral(15) moves_zero_trans [OF moves_neutral(15) moves_neutral(14)] by auto
qed

lemma hold_elections_moves:
  assumes "hold_elections lib track db = Inr db'" "safe_exact (fc_safe lib)"
  shows "moves (\<lambda>_. 0) db db'"
proof -
  from assms(1) obtain tally db1 db2 db3 db4 where s: "perform_account_maintenance lib (new_vote_tally db) db = Inr (tally, db1)" "update_top_n_authorities db1 = Inr db2"
    "update_active_witnesses lib track tally db2 = Inr db3" "update_active_committee_members lib track tally db3 = Inr db4" "db' = update_worker_votes tally db4"
    unfolding hold_elections_def by (auto elim!: res_bind_InrE)
  have "moves (\<lambda>_. 0) db db3"
    by (rule moves_zero_trans [OF moves_zero_trans [OF perform_account_maintenance_moves [OF s(1) assms(2)] update_top_n_authorities_moves [OF s(2)]] update_active_witnesses_moves [OF s(3)]])
  moreover have "moves (\<lambda>_. 0) db3 db'" unfolding s(5) by (rule moves_zero_trans [OF update_active_committee_members_moves [OF s(4)] update_worker_votes_moves])
  ultimately show ?thesis by (rule moves_zero_trans)
qed

lemma apply_hardforks_moves:
  assumes "apply_hardforks env lib t db = Inr db'" "safe_exact (fc_safe lib)"
  shows "moves (\<lambda>_. 0) db db'"
proof -
  define old where "old = next_maintenance_time (dgp db)"
  define hf where "hf = crosses old t HARDFORK_CORE_343_TIME"
  from assms(1) obtain db1 db2 db3 db4 db6 where s: "(if old < HARDFORK_613_TIME \<and> t \<ge> HARDFORK_613_TIME then deprecate_annual_members env lib db else Inr db) = Inr db1"
    "(if crosses old t HARDFORK_CORE_868_890_TIME then process_hf_868_890 env lib hf db1 else Inr db1) = Inr db2"
    "(if crosses old t HARDFORK_CORE_935_TIME \<and> \<not> hf then process_hf_935 env lib db2 else Inr db2) = Inr db3"
    "(if crosses old t HARDFORK_CORE_1465_TIME then process_hf_1465 db3 else Inr db3) = Inr db4"
    "(if hf then res_bind (update_call_orders_hf_343 (db4\<lparr>dgp := (dgp db4)\<lparr>next_maintenance_time := t, accounts_registered_this_interval := 0\<rparr>\<rparr>)) (match_call_orders env lib)
      else Inr (db4\<lparr>dgp := (dgp db4)\<lparr>next_maintenance_time := t, accounts_registered_this_interval := 0\<rparr>\<rparr>)) = Inr db6"
    "(if crosses old t HARDFORK_CORE_1270_TIME
      then res_bind (update_call_orders_hf_1270 db6) (\<lambda>db7. res_bind (update_all_median_feeds db7) (match_call_orders env lib)) else Inr db6) = Inr db'"
    unfolding apply_hardforks_def Let_def old_def [symmetric] hf_def [symmetric] by (elim res_bind_InrE) (rule that)
  note match = match_call_orders_moves [OF _ assms(2)]
  have m1: "moves (\<lambda>_. 0) db db1" using s(1) deprecate_annual_members_moves [OF _ assms(2)] by (auto simp: ledger.moves_refl split: if_splits)
  have m2: "moves (\<lambda>_. 0) db1 db2" using s(2) process_hf_868_890_moves [OF _ assms(2)] by (auto simp: ledger.moves_refl split: if_splits)
  have m3: "moves (\<lambda>_. 0) db2 db3" using s(3) process_hf_935_moves [OF _ assms(2)] by (auto simp: ledger.moves_refl split: if_splits)
  have m4: "moves (\<lambda>_. 0) db3 db4" using s(4) process_hf_1465_moves by (auto simp: ledger.moves_refl split: if_splits)
  have m5: "moves (\<lambda>_. 0) db4 (db4\<lparr>dgp := (dgp db4)\<lparr>next_maintenance_time := t, accounts_registered_this_interval := 0\<rparr>\<rparr>)" by (rule moves_dgp_neutral) simp
  have m6: "moves (\<lambda>_. 0) (db4\<lparr>dgp := (dgp db4)\<lparr>next_maintenance_time := t, accounts_registered_this_interval := 0\<rparr>\<rparr>) db6"
    using s(5) by (auto simp: ledger.moves_refl elim!: res_bind_InrE split: if_splits intro: moves_zero_trans [OF update_call_orders_hf_343_moves match])
  have m7: "moves (\<lambda>_. 0) db6 db'"
    using s(6) by (auto simp: ledger.moves_refl elim!: res_bind_InrE split: if_splits
        intro: moves_zero_trans [OF moves_zero_trans [OF update_call_orders_hf_1270_moves update_all_median_feeds_moves] match])
  show ?thesis
    by (rule moves_zero_trans [OF moves_zero_trans [OF moves_zero_trans [OF moves_zero_trans [OF moves_zero_trans [OF moves_zero_trans [OF m1 m2] m3] m4] m5] m6] m7])
qed

lemma begin_maintenance_moves:
  assumes "begin_maintenance env lib track n ts db = Inr db'" "safe_exact (fc_safe lib)"
  shows "moves (\<lambda>_. 0) db db'"
proof -
  from assms(1) obtain db1 db2 db3 db4 t where s: "distribute_fba_balances lib db = Inr db1" "create_buyback_orders env lib db1 = Inr db2" "hold_elections lib track db2 = Inr db3"
    "update_parameters db3 = Inr db4" "apply_hardforks env lib t db4 = Inr db'"
    unfolding begin_maintenance_def by (elim res_bind_InrE) (rule that)
  note m = distribute_fba_balances_moves [OF s(1) assms(2)] create_buyback_orders_moves [OF s(2) assms(2)] hold_elections_moves [OF s(3) assms(2)]
    update_parameters_moves [OF s(4)] apply_hardforks_moves [OF s(5) assms(2)]
  show ?thesis by (rule moves_zero_trans [OF moves_zero_trans [OF moves_zero_trans [OF moves_zero_trans [OF m(1,2)] m(3)] m(4)] m(5)])
qed

subsection \<open>What reviving settled assets moves\<close>

text \<open>Bids are only removed.\<close>

definition bids_shrink :: "database \<Rightarrow> database \<Rightarrow> bool" where
  "bids_shrink db db' \<longleftrightarrow> set (ix_tab (bids db')) \<subseteq> set (ix_tab (bids db))"

lemma bids_shrink_refl [simp]: "bids_shrink db db"
  by (simp add: bids_shrink_def)

lemma bids_shrink_trans: "bids_shrink a b \<Longrightarrow> bids_shrink b c \<Longrightarrow> bids_shrink a c"
  by (auto simp: bids_shrink_def)

lemma ix_remove_subset: "set (ix_tab (ix_remove i ix)) \<subseteq> set (ix_tab ix)"
  by (auto simp: ix_remove_def dest: set_t_del)

lemma cancel_bid_shrinks:
  assumes "cancel_bid lib i v db = Inr db'"
  shows "bids_shrink db db'"
proof -
  from assms obtain b :: collateral_bid_object and db1 where s: "adjust_balance lib (bidder b) (base (inv_swan_price b)) db = Inr db1" "bids db' = ix_remove i (bids db1)"
    unfolding cancel_bid_def Let_def by (cases v) (auto simp: push_applied_operation_def elim!: res_bind_InrE)
  have "bids db1 = bids db" using same_market_adjust_balance [OF s(1)] by (simp add: same_market_def)
  then show ?thesis unfolding bids_shrink_def s(2) using ix_remove_subset by simp
qed

lemma execute_bid_shrinks:
  assumes "execute_bid lib i dc cf feed db = Inr db'"
  shows "bids_shrink db db'"
proof -
  from assms obtain c db1 db2 x acc coll where s: "insert_call_order c db = Inr db1" "(if x then modify_stats_by_owner acc (add_core_in_orders lib coll) db1 else Inr db1) = Inr db2"
    and b: "bids db' = ix_remove i (bids db2)"
    unfolding execute_bid_def Let_def by (elim res_bind_InrE) (auto simp: push_applied_operation_def)
  have "bids db1 = bids db" using s(1) by (auto simp: insert_call_order_def FC_ASSERT_def split: if_splits)
  moreover have "bids db2 = bids db1" using s(2) by (auto simp: modify_stats_by_owner_def split: if_splits option.splits elim!: res_bind_InrE)
  ultimately show ?thesis unfolding bids_shrink_def b using ix_remove_subset by simp
qed

lemma revive_frame:
  assumes "cancel_bids_and_revive_mpa lib a db = Inr db'"
  obtains ao i bd where "ix_get a (assets db) = Some ao" "bitasset_data_id ao = Some i" "bids_shrink db db'" "assets db' = assets db"
    "\<forall>j. ix_get j (bitassets db') = (if j = i then Some bd else ix_get j (bitassets db))" "\<not> has_settlement bd"
proof -
  from assms obtain ids db1 where f: "res_fold (\<lambda>i. cancel_bid lib i True) ids db = Inr db1"
    and m: "modify_bitasset a (\<lambda>obj. Inr (obj\<lparr>bd_settlement_price := null_price, settlement_fund := 0\<rparr>)) db1 = Inr db'"
    unfolding cancel_bids_and_revive_mpa_def Let_def FC_ASSERT_def by (auto elim!: res_bind_InrE split: if_splits)
  have l: "same_links db db1" using f by (rule cancel_bids_links)
  have sh: "bids_shrink db db1" using f by (rule res_fold_invariant [where P = "bids_shrink db"]) (auto intro: bids_shrink_trans cancel_bid_shrinks)
  from m obtain ao :: asset_object and i ix and bd bd' :: asset_bitasset_data_object where e: "ix_get a (assets db1) = Some ao" "bitasset_data_id ao = Some i"
    "bd' = bd\<lparr>bd_settlement_price := null_price, settlement_fund := 0\<rparr>" "db' = db1\<lparr>bitassets := ix\<rparr>" "\<forall>j. ix_get j ix = (if j = i then Some bd' else ix_get j (bitassets db1))"
    by (elim modify_bitassetE) auto
  have "\<not> has_settlement bd'" unfolding e(3) by (simp add: has_settlement_def price_is_null_def null_price_def)
  with e l sh show thesis by (intro that [of ao i bd']) (auto simp: same_links_def bids_shrink_def)
qed

lemma covering_bids_ids:
  assumes "covering_bids lib bad a cur bs cov = Inr (cov', is)" "i \<in> set is"
  shows "\<exists>b. (i, b) \<in> set bs \<and> asset_id (quote (inv_swan_price b)) = a"
  using assms
proof (induction bs arbitrary: cov cov' "is")
  case (Cons p bs)
  obtain j bid where p: "p = (j, bid)" by (cases p)
  show ?case
  proof (cases "cov < cur \<and> asset_id (quote (inv_swan_price bid)) = a")
    case True
    from Cons.prems True have "is = [] \<or> (\<exists>c is' cov1. covering_bids lib bad a cur bs cov1 = Inr (c, is') \<and> is = j # is')"
      unfolding p by (auto simp: Let_def elim!: res_bind_InrE split: if_splits)
    then show ?thesis using Cons.IH Cons.prems(2) True unfolding p by fastforce
  qed (use Cons.prems in \<open>auto simp: p\<close>)
qed simp

text \<open>The settlement price of a settled asset and the bids for it are about the asset and its backing asset.\<close>

definition bids_fit :: "database \<Rightarrow> bool" where
  "bids_fit db \<longleftrightarrow> (\<forall>i bad a. ix_get i (bitassets db) = Some bad \<longrightarrow> has_settlement bad \<longrightarrow> revive_target bad = Inr a \<longrightarrow>
     (\<forall>ao. ix_get a (assets db) = Some ao \<longrightarrow> bitasset_data_id ao = Some i)
     \<and> (\<forall>p\<in>set (ix_tab (bids db)). asset_id (quote (inv_swan_price (snd p))) = a \<longrightarrow> asset_id (base (inv_swan_price (snd p))) = short_backing_asset (bd_options bad)))"

lemma execute_next_bid_moves:
  assumes "execute_next_bid lib bad cur i (tc, rf, db) = Inr (tc', rf', db')" "safe_exact (fc_safe lib)"
    "\<And>b. (i, b) \<in> set (ix_tab (bids db)) \<Longrightarrow> asset_id (base (inv_swan_price b)) = c"
  shows "moves (part (mk_asset (rf - rf') c)) db db'" "same_links db db'" "bids_shrink db db'"
proof -
  from assms(1) obtain b debt1 coll where b: "ix_get i (bids db) = Some b" and r: "rf' = rf - coll" and e: "execute_bid lib i debt1 coll (current_feed bad) db = Inr db'"
    unfolding execute_next_bid_def Let_def by (auto elim!: res_bind_InrE split: if_splits option.splits dest!: safe_exactD [OF assms(2)])
  have "(i, b) \<in> set (ix_tab (bids db))" using b by (simp add: ix_get_def map_of_SomeD)
  then show "moves (part (mk_asset (rf - rf') c)) db db'" "same_links db db'" "bids_shrink db db'"
    using r execute_bid_moves [OF e assms(2) b] execute_bid_shrinks [OF e] assms(3) by simp_all
qed

lemma execute_bids_moves:
  assumes "res_fold (execute_next_bid lib bad cur) is (tc, rf, db) = Inr (tc', rf', db')" "safe_exact (fc_safe lib)"
    "\<And>i b. i \<in> set is \<Longrightarrow> (i, b) \<in> set (ix_tab (bids db)) \<Longrightarrow> asset_id (base (inv_swan_price b)) = c"
  shows "moves (part (mk_asset (rf - rf') c)) db db' \<and> same_links db db' \<and> bids_shrink db db'"
  using assms(1,3)
proof (induction "is" arbitrary: tc rf db)
  case (Cons i "is")
  from Cons.prems(1) obtain tc1 rf1 db1 where s: "execute_next_bid lib bad cur i (tc, rf, db) = Inr (tc1, rf1, db1)" "res_fold (execute_next_bid lib bad cur) is (tc1, rf1, db1) = Inr (tc', rf', db')"
    by (auto elim: res_bind_InrE)
  have "\<And>b. (i, b) \<in> set (ix_tab (bids db)) \<Longrightarrow> asset_id (base (inv_swan_price b)) = c" by (rule Cons.prems(2)) simp_all
  then have m: "moves (part (mk_asset (rf - rf1) c)) db db1" "same_links db db1" "bids_shrink db db1" using execute_next_bid_moves [OF s(1) assms(2)] by blast+
  have "\<And>j b. j \<in> set is \<Longrightarrow> (j, b) \<in> set (ix_tab (bids db1)) \<Longrightarrow> asset_id (base (inv_swan_price b)) = c"
    using Cons.prems(2) m(3) by (auto simp: bids_shrink_def)
  then have IH: "moves (part (mk_asset (rf1 - rf') c)) db1 db' \<and> same_links db1 db' \<and> bids_shrink db1 db'" using Cons.IH [OF s(2)] by blast
  have "moves (part (mk_asset (rf - rf') c)) db db'" using ledger.moves_trans [OF m(1) conjunct1 [OF IH]] by (rule ledger.moves_weaken) (simp add: part_def)
  then show ?case using IH same_links_trans [OF m(2)] bids_shrink_trans [OF m(3)] by blast
qed (simp add: same_links_def)

lemma process_bids_moves:
  assumes "process_bids lib bad db = Inr db'" "safe_exact (fc_safe lib)" "ix_get i (bitassets db) = Some bad" "has_settlement bad" "bids_fit db" "db_ok db"
  shows "moves (\<lambda>_. 0) db db' \<and> bids_fit db'"
proof (cases "db' = db")
  case False
  from assms(1) False obtain a ao and bdd :: asset_dynamic_data_object and mp cov "is" tc db1 where a: "revive_target bad = Inr a" and ao: "get_asset db a = Inr ao"
    and c: "covering_bids lib bad a (current_supply bdd) (index_from bid_before bid_key (a, mp) (bids db)) 0 = Inr (cov, is)"
    and e: "res_fold (execute_next_bid lib bad (current_supply bdd)) is (current_supply bdd, settlement_fund bad, db) = Inr (tc, 0, db1)"
    and r: "cancel_bids_and_revive_mpa lib a db1 = Inr db'"
    unfolding process_bids_def FC_ASSERT_def by (auto elim!: res_bind_InrE split: if_splits)
  note fit = assms(5) [unfolded bids_fit_def, rule_format, OF assms(3,4) a]
  have ao': "ix_get a (assets db) = Some ao" "bitasset_data_id ao = Some i" using ao fit by (auto simp: get_asset_def split: option.splits)
  have key: "asset_id (base (inv_swan_price b)) = short_backing_asset (bd_options bad)" if "j \<in> set is" "(j, b) \<in> set (ix_tab (bids db))" for j b
  proof -
    note covering_bids_ids [OF c that(1)]
    then obtain b' where "(j, b') \<in> set (index_from bid_before bid_key (a, mp) (bids db))" "asset_id (quote (inv_swan_price b')) = a" by blast
    moreover from this have "b' = b" using that(2) assms(6) by (auto simp: index_from_def db_ok_def ix_ok_def dest: eq_key_imp_eq_value)
    ultimately show ?thesis using fit that(2) by force
  qed
  have m1: "moves (part (mk_asset (settlement_fund bad - 0) (short_backing_asset (bd_options bad)))) db db1 \<and> same_links db db1 \<and> bids_shrink db db1"
    using e assms(2) by (rule execute_bids_moves) (rule key)
  have "get_asset db1 a = Inr ao" "bitasset_data db1 ao = Inr bad" using m1 ao' assms(3) by (auto simp: same_links_def get_asset_def bitasset_data_def)
  note m2 = cancel_bids_and_revive_moves [OF r assms(2) this]
  have "moves (\<lambda>_. 0) db db'" using ledger.moves_trans [OF conjunct1 [OF m1] m2] by (rule ledger.moves_weaken) simp
  moreover have "bids_fit db'"
  proof -
    from r obtain ao2 :: asset_object and k bd where f: "ix_get a (assets db1) = Some ao2" "bitasset_data_id ao2 = Some k" "bids_shrink db1 db'" "assets db' = assets db1"
      "\<forall>j. ix_get j (bitassets db') = (if j = k then Some bd else ix_get j (bitassets db1))" "\<not> has_settlement bd" by (rule revive_frame)
    have links: "assets db' = assets db" "bitassets db1 = bitassets db" "set (ix_tab (bids db')) \<subseteq> set (ix_tab (bids db))"
      using f(3,4) m1 by (auto simp: same_links_def bids_shrink_def)
    show ?thesis unfolding bids_fit_def
    proof (intro allI impI)
      fix j bad' a'
      assume h: "ix_get j (bitassets db') = Some bad'" "has_settlement bad'" "revive_target bad' = Inr a'"
      have "ix_get j (bitassets db) = Some bad'" using h(1,2) f(5,6) links(2) by (auto split: if_splits)
      from assms(5) [unfolded bids_fit_def, rule_format, OF this h(2,3)]
      show "(\<forall>ao. ix_get a' (assets db') = Some ao \<longrightarrow> bitasset_data_id ao = Some j) \<and> (\<forall>p\<in>set (ix_tab (bids db')). asset_id (quote (inv_swan_price (snd p))) = a'
        \<longrightarrow> asset_id (base (inv_swan_price (snd p))) = short_backing_asset (bd_options bad'))" using links by auto
    qed
  qed
  ultimately show ?thesis ..
qed (use assms(5) in \<open>simp add: ledger.moves_refl\<close>)

lemma refresh_bitasset_keeps:
  "refresh_bitasset db b = Inr b' \<Longrightarrow> settlement_fund b' = settlement_fund b \<and> bd_settlement_price b' = bd_settlement_price b \<and> bd_options b' = bd_options b"
  by (auto simp: refresh_bitasset_def clear_expired_feeds_def Let_def elim!: res_bind_InrE split: if_splits)

lemma process_bitasset_moves:
  assumes "process_bitasset lib i db = Inr db'" "safe_exact (fc_safe lib)" "bids_fit db" "db_ok db"
  shows "moves (\<lambda>_. 0) db db' \<and> bids_fit db'"
proof -
  from assms(1) obtain ix d where ix: "ix_modify i (refresh_bitasset db) (bitassets db) = Inr ix" and d: "ix_get i ix = Some d"
    and p: "(if has_settlement d then process_bids lib d (db\<lparr>bitassets := ix\<rparr>) else Inr (db\<lparr>bitassets := ix\<rparr>)) = Inr db'"
    unfolding process_bitasset_def get_bitasset_def Let_def by (auto elim!: res_bind_InrE split: option.splits)
  let ?db = "db\<lparr>bitassets := ix\<rparr>"
  from ix obtain b where b: "ix_get i (bitassets db) = Some b" and rb: "refresh_bitasset db b = Inr d"
    and get: "\<And>j. ix_get j ix = (if j = i then Some d else ix_get j (bitassets db))" using d by (elim ix_modifyE) auto
  note keep = refresh_bitasset_keeps [OF rb]
  have "put_bitasset i d db = Inr ?db" using ix b rb unfolding put_bitasset_def by (simp add: ix_modify_def)
  then have m: "moves (\<lambda>_. 0) db ?db" by (rule put_bitasset_moves) (use b keep in auto)
  then have ok: "db_ok ?db" using assms(4) by (simp add: moves_def)
  have "revive_target d = revive_target b" "has_settlement d = has_settlement b" using keep by (simp_all add: revive_target_def has_settlement_def)
  then have fit: "bids_fit ?db" using assms(3) b keep unfolding bids_fit_def by (auto simp: get split: if_splits)
  show ?thesis
  proof (cases "has_settlement d")
    case True
    then have "moves (\<lambda>_. 0) ?db db' \<and> bids_fit db'" using p d fit ok by (intro process_bids_moves [OF _ assms(2)]) auto
    then show ?thesis using moves_zero_trans [OF m] by blast
  qed (use p m fit in auto)
qed

lemma process_bitassets_moves:
  assumes "process_bitassets lib db = Inr db'" "safe_exact (fc_safe lib)" "bids_fit db" "db_ok db"
  shows "moves (\<lambda>_. 0) db db'"
proof -
  have "moves (\<lambda>_. 0) db db' \<and> bids_fit db' \<and> db_ok db'"
    using assms(1) unfolding process_bitassets_def
  proof (rule res_fold_invariant)
    show "moves (\<lambda>_. 0) db db \<and> bids_fit db \<and> db_ok db" using assms(3,4) by (simp add: ledger.moves_refl)
    show "moves (\<lambda>_. 0) db d' \<and> bids_fit d' \<and> db_ok d'" if "moves (\<lambda>_. 0) db d \<and> bids_fit d \<and> db_ok d" "process_bitasset lib i d = Inr d'" for i d d'
      using process_bitasset_moves [OF that(2) assms(2)] that(1) moves_zero_trans [of db d d'] by (auto simp: moves_def)
  qed
  then show ?thesis ..
qed


subsection \<open>The next maintenance\<close>

text \<open>C18: maintenance is scheduled for the first time after the head block that lies a whole number of intervals after the last one; at the first
  block, for the next multiple of the interval.\<close>

theorem next_maintenance_is_next:
  assumes "next_time \<le> ts" "0 < interval" "ts + interval < 2 ^ 32"
  shows "\<exists>t. next_maintenance n ts ts interval next_time = Inr t \<and> ts < t \<and> t \<le> ts + interval \<and> t mod interval = (if n = 1 then 0 else next_time mod interval)"
proof (cases "n = 1")
  case True
  have "ts < (ts div interval + 1) * interval" using assms(2) by (metis Suc_eq_plus1 add.commute dividend_less_times_div mult.commute mult_Suc_right)
  moreover have le: "(ts div interval + 1) * interval \<le> ts + interval" by (simp add: add_mult_distrib)
  moreover have "(ts div interval + 1) * interval mod 2 ^ 32 = (ts div interval + 1) * interval" using le_less_trans [OF le assms(3)] by (rule mod_less)
  ultimately show ?thesis using True assms(1,2) by (simp add: next_maintenance_def)
next
  case False
  let ?y = "(ts - next_time) div interval"
  have y: "int_quot (int ts - int next_time) (int interval) = int ?y"
    using assms(1) by (cases "ts = next_time") (simp_all add: int_quot_def of_nat_diff [symmetric] zdiv_int sgn_if del: of_nat_diff)
  have "next_time + ?y * interval \<le> ts" using div_times_less_eq_dividend [of "ts - next_time" interval] assms(1) by linarith
  then have le: "next_time + (?y + 1) * interval \<le> ts + interval" by (simp add: add_mult_distrib)
  have "ts - next_time < (?y + 1) * interval" using assms(2) by (metis Suc_eq_plus1 add.commute dividend_less_times_div mult.commute mult_Suc_right)
  then have gt: "ts < next_time + (?y + 1) * interval" by simp
  define t where "t = next_time + (?y + 1) * interval"
  have small: "t < 2 ^ 32" using le assms(3) unfolding t_def by linarith
  have "int next_time + (int ?y + 1) * int interval = int t" unfolding t_def by (simp only: of_nat_add of_nat_mult of_nat_1)
  moreover have "nat (int t mod 2 ^ 32) = t" using small by simp
  ultimately have "next_maintenance n ts ts interval next_time = Inr (next_time + (?y + 1) * interval)"
    using False assms(1,2) unfolding next_maintenance_def Let_def y t_def [symmetric] by simp
  moreover have "(next_time + (?y + 1) * interval) mod interval = next_time mod interval" by (rule mod_mult_self1)
  ultimately show ?thesis unfolding if_not_P [OF False] using gt le by blast
qed

theorem next_maintenance_is_next_witness:
  "next_maintenance 7 2000000 2000000 86400 1900000 = Inr 2072800 \<and> (\<exists>t. next_maintenance 7 2000000 2000000 86400 1900000 = Inr t \<and> 2000000 < t \<and> t \<le> 2086400)"
proof -
  have "next_maintenance 7 2000000 2000000 86400 1900000 = Inr 2072800" by code_simp
  then show ?thesis using next_maintenance_is_next [of 1900000 2000000 86400 7] by auto
qed

text \<open>A chain at its maintenance: a settled asset whose bids cover its supply, fees of a designated asset that is not configured, a worker and a reserve.\<close>

definition maintenance_bids :: "collateral_bid_object index" where
  "maintenance_bids = \<lparr>ix_tab = [(0, \<lparr>bidder = 1, inv_swan_price = mk_price (mk_asset 1000 0) (mk_asset 300 1)\<rparr>), (1, \<lparr>bidder = 2, inv_swan_price = mk_price (mk_asset 5 0) (mk_asset 20 1)\<rparr>)], ix_next = 2\<rparr>"

definition maintenance_sample :: database where
  "maintenance_sample = budget_sample\<lparr>call_orders := \<lparr>ix_tab = [], ix_next = 1\<rparr>,
     bitassets := \<lparr>ix_tab = [(0, sample_bitasset\<lparr>current_feed := sample_feed, bd_settlement_price := mk_price (mk_asset 1 1) (mk_asset 3 0), settlement_fund := 900,
       force_settled_volume := 12\<rparr>)], ix_next = 1\<rparr>,
     bids := maintenance_bids, fbas := \<lparr>ix_tab = [(0, \<lparr>accumulated_fba_fees = 50, designated_asset = None\<rparr>), (1, \<lparr>accumulated_fba_fees = 0, designated_asset = None\<rparr>),
       (2, \<lparr>accumulated_fba_fees = 0, designated_asset = None\<rparr>)], ix_next = 3\<rparr>,
     parameters := (parameters budget_sample)\<lparr>current_fees := \<lparr>fee_scale = 10000, fee_params = [(5, Account_fees 100 200 1)]\<rparr>, maximum_witness_count := 3, maximum_committee_count := 3\<rparr>,
     dgp := (dgp budget_sample)\<lparr>next_maintenance_time := 2000000000\<rparr>\<rparr>"

definition maintenance_env :: environment where
  "maintenance_env = \<lparr>preimage_digest = \<lambda>_ _. [], key_addresses = \<lambda>_. [], is_proposed_trx = False, skip_assert_evaluation = False, block_summary = \<lambda>_. (0, 0),
     search_fuel = 10, loop_fuel = 10\<rparr>"

definition maintained :: "database res \<Rightarrow> (time_sec \<times> int \<times> int \<times> nat \<times> bool) option" where
  "maintained r = (case r of Inl _ \<Rightarrow> None | Inr db \<Rightarrow> Some (next_maintenance_time (dgp db), witness_budget (dgp db),
     amount (get_balance db 2 0), length (ix_tab (call_orders db)), map (\<lambda>p. has_settlement (snd p)) (ix_tab (bitassets db)) = [False]))"

definition maintenance_mid :: database where
  "maintenance_mid = maintenance_sample\<lparr>dyn_data := \<lparr>ix_tab = [(0, \<lparr>current_supply = 950, confidential_supply = 0, accumulated_fees = 0, fee_pool = 0\<rparr>),
       (1, \<lparr>current_supply = 300, confidential_supply = 0, accumulated_fees = 0, fee_pool = 0\<rparr>)], ix_next = 2\<rparr>,
     fbas := \<lparr>ix_tab = [(0, \<lparr>accumulated_fba_fees = 0, designated_asset = None\<rparr>), (1, \<lparr>accumulated_fba_fees = 0, designated_asset = None\<rparr>),
       (2, \<lparr>accumulated_fba_fees = 0, designated_asset = None\<rparr>)], ix_next = 3\<rparr>,
     workers := (workers maintenance_sample)\<lparr>ix_tab := map (\<lambda>(i, w). (i, w\<lparr>total_votes_for := 0\<rparr>)) (ix_tab (workers maintenance_sample))\<rparr>,
     active_witnesses := [0], dgp := (dgp maintenance_sample)\<lparr>next_maintenance_time := 2000086400\<rparr>\<rparr>"

definition maintenance_end :: database where
  "maintenance_end = maintenance_mid\<lparr>
     balances := \<lparr>ix_tab = [(0, \<lparr>ab_owner = 2, ab_asset_type = 1, ab_balance = 200, ab_maintenance_flag = False\<rparr>),
       (1, \<lparr>ab_owner = 2, ab_asset_type = 0, ab_balance = 5, ab_maintenance_flag = True\<rparr>)], ix_next = 2\<rparr>,
     account_stats := \<lparr>ix_tab = [(0, sample_stats 0 0 0), (1, sample_stats 1 2000 0), (2, sample_stats 2 900 0)], ix_next = 3\<rparr>,
     call_orders := \<lparr>ix_tab = [(1, \<lparr>borrower = 1, collateral = 1900, debt = 300, call_price = mk_price (mk_asset 1 0) (mk_asset 1 1), target_collateral_ratio = None\<rparr>)], ix_next = 2\<rparr>,
     bids := \<lparr>ix_tab = [], ix_next = 2\<rparr>, bitassets := \<lparr>ix_tab = [(0, sample_bitasset\<lparr>current_feed := sample_feed\<rparr>)], ix_next = 1\<rparr>,
     applied_ops := [Execute_bid_vop 1 (mk_asset 1900 0) (mk_asset 300 1), Bid_collateral_vop 2 (mk_asset 5 0) (mk_asset 0 1)]\<rparr>"

lemma maintenance_begins: "begin_maintenance maintenance_env std_lib False 5 2000000000 maintenance_sample = Inr maintenance_mid"
  by code_simp

lemma maintenance_revives: "process_bitassets std_lib maintenance_mid = Inr maintenance_end"
  by code_simp

lemma maintenance_ends: "case process_budget std_lib maintenance_end of Inl _ \<Rightarrow> False | Inr db \<Rightarrow> budget_outcome db = (0, 339, 1289)"
  by code_simp


end
