(* ===== verification/Payment_Safety.thy ===== *)
theory Payment_Safety
  imports Payment_Evaluators Sample_Chain
begin

text \<open>
  What the payment operations promise their users over time: the limit of a withdrawal permission holds in every period,
  and an expired hash time locked contract pays its sender back.
\<close>

subsection \<open>Withdrawal limits\<close>

text \<open>A sequence of claims against one permission, each checked and then recorded as
  \<open>withdraw_permission_claim_evaluator\<close> does it.\<close>

fun claim_all :: "fc_lib \<Rightarrow> (time_sec \<times> asset) list \<Rightarrow> withdraw_permission_object \<Rightarrow> withdraw_permission_object res" where
  "claim_all lib [] p = Inr p"
| "claim_all lib ((t, x) # cs) p = res_bind (check_claim lib p t x) (\<lambda>_. res_bind (claim_permit lib t x p) (claim_all lib cs))"

definition claimed_between :: "time_sec \<Rightarrow> time_sec \<Rightarrow> (time_sec \<times> asset) list \<Rightarrow> int" where
  "claimed_between lo hi cs = (\<Sum>(t, x)\<leftarrow>cs. if lo \<le> t \<and> t < hi then amount x else 0)"

lemma claimed_between_simps [simp]: "claimed_between lo hi [] = 0"
  "claimed_between lo hi ((t, x) # cs) = (if lo \<le> t \<and> t < hi then amount x else 0) + claimed_between lo hi cs"
  by (simp_all add: claimed_between_def)

text \<open>Times do not run into the end of 32-bit time.\<close>

definition in_time :: "withdraw_permission_object \<Rightarrow> (time_sec \<times> asset) list \<Rightarrow> bool" where
  "in_time p cs \<longleftrightarrow> (\<forall>(t, x)\<in>set cs. t + withdrawal_period_sec p < 2 ^ 32 \<and> 0 \<le> amount x)"

text \<open>One claim: the permission moves on to the period of the claim, and within it the limit holds.\<close>

lemma claim_step:
  assumes "check_claim lib p t x = Inr ()" "claim_permit lib t x p = Inr p'" "safe_exact (fc_safe lib)"
    "t + withdrawal_period_sec p < 2 ^ 32" "0 \<le> amount x" "0 \<le> claimed_this_period p" "claimed_this_period p \<le> amount (withdrawal_limit p)"
  defines "q \<equiv> (t - period_start_time p) div withdrawal_period_sec p"
  shows "period_start_time p \<le> t" "0 < withdrawal_period_sec p" "withdrawal_period_sec p' = withdrawal_period_sec p" "withdrawal_limit p' = withdrawal_limit p"
    "period_start_time p' = period_start_time p + q * withdrawal_period_sec p"
    "claimed_this_period p' = (if q = 0 then claimed_this_period p + amount x else amount x)"
    "0 \<le> claimed_this_period p'" "claimed_this_period p' \<le> amount (withdrawal_limit p)"
proof -
  let ?s = "period_start_time p" and ?d = "withdrawal_period_sec p" and ?L = "amount (withdrawal_limit p)" and ?c = "claimed_this_period p"
  show st: "?s \<le> t" and d: "0 < ?d" using assms(1,2) by (auto simp: check_claim_def claim_permit_def split: if_splits)
  have start: "time_plus ?s (q * ?d) = ?s + q * ?d"
  proof -
    have "q * ?d \<le> t - ?s" by (simp add: q_def)
    with st assms(4) have "?s + q * ?d < 2 ^ 32" by linarith
    then show ?thesis by (simp add: time_plus_def)
  qed
  have later: "t < time_plus ?s ?d \<longleftrightarrow> q = 0"
  proof -
    have "?s + ?d < 2 ^ 32" using st assms(4) by linarith
    then have "time_plus ?s ?d = ?s + ?d" by (simp add: time_plus_def)
    with st d show ?thesis by (auto simp: q_def div_eq_0_iff)
  qed
  have p': "p' = p\<lparr>period_start_time := ?s + q * ?d, claimed_this_period := (if q = 0 then ?c + amount x else amount x)\<rparr>"
    using assms(2) d safe_exactD [OF assms(3)] start by (auto simp: claim_permit_def Let_def q_def split: if_splits)
  then show "withdrawal_period_sec p' = ?d" "withdrawal_limit p' = withdrawal_limit p" "period_start_time p' = ?s + q * ?d"
    "claimed_this_period p' = (if q = 0 then ?c + amount x else amount x)" "0 \<le> claimed_this_period p'" using assms(5,6) by auto
  have "amount x \<le> (if q = 0 then ?L - ?c else ?L)"
    using assms(1,7) later
    by (cases "?L = ?c") (auto simp: check_claim_def available_this_period_def asset_le_def asset_less_def split: if_splits dest!: safe_exactD [OF assms(3)])
  then show "claimed_this_period p' \<le> ?L" using p' by auto
qed

lemma period_index:
  fixes s t d k :: nat
  assumes "s \<le> t" "0 < d"
  shows "s + k * d \<le> t \<and> t < s + Suc k * d \<longleftrightarrow> k = (t - s) div d"
proof -
  obtain u where t: "t = s + u" using assms(1) le_Suc_ex by blast
  have "k = u div d" if "k * d \<le> u" "u < Suc k * d"
    using that by (intro div_nat_eqI [symmetric]) (simp_all add: mult.commute)
  moreover have "u div d * d \<le> u" "u < Suc (u div d) * d"
    using dividend_less_div_times [OF assms(2), of u] by simp_all
  ultimately show ?thesis by (auto simp: t)
qed

lemma claims_in_period:
  assumes "claim_all lib cs p = Inr p'" "safe_exact (fc_safe lib)" "in_time p cs" "0 \<le> claimed_this_period p"
    "claimed_this_period p \<le> amount (withdrawal_limit p)"
  shows "(\<forall>k. claimed_between (period_start_time p + k * withdrawal_period_sec p) (period_start_time p + Suc k * withdrawal_period_sec p) cs
      \<le> amount (withdrawal_limit p) - (if k = 0 then claimed_this_period p else 0)) \<and> (\<forall>c\<in>set cs. period_start_time p \<le> fst c)"
  using assms
proof (induction cs arbitrary: p)
  case (Cons c cs)
  obtain t x where c: "c = (t, x)" by (cases c)
  with Cons.prems(1) obtain p1 where s: "check_claim lib p t x = Inr ()" "claim_permit lib t x p = Inr p1" "claim_all lib cs p1 = Inr p'" by auto
  let ?d = "withdrawal_period_sec p" and ?s = "period_start_time p" and ?L = "amount (withdrawal_limit p)"
  define q where "q = (t - ?s) div ?d"
  have h: "t + ?d < 2 ^ 32" "0 \<le> amount x" using Cons.prems(3) by (auto simp: in_time_def c)
  note st = claim_step [OF s(1,2) Cons.prems(2) h Cons.prems(4,5), folded q_def]
  have t: "in_time p1 cs" using Cons.prems(3) st(3) by (auto simp: in_time_def)
  have ih: "claimed_between (?s + q * ?d + j * ?d) (?s + q * ?d + Suc j * ?d) cs \<le> ?L - (if j = 0 then claimed_this_period p1 else 0)" for j
    using Cons.IH [OF s(3) Cons.prems(2) t] st by simp
  have after: "\<forall>c\<in>set cs. ?s + q * ?d \<le> fst c" using Cons.IH [OF s(3) Cons.prems(2) t] st by simp
  then have all: "\<forall>c\<in>set (c # cs). ?s \<le> fst c" using st(1) by (auto simp: c)
  have tq: "?s + k * ?d \<le> t \<and> t < ?s + Suc k * ?d \<longleftrightarrow> k = q" for k
    unfolding q_def using st(1,2) by (rule period_index)
  have "claimed_between (?s + k * ?d) (?s + Suc k * ?d) (c # cs) \<le> ?L - (if k = 0 then claimed_this_period p else 0)" for k
  proof (cases "q \<le> k")
    case True
    then obtain j where "k = q + j" using le_Suc_ex by blast
    have "claimed_between (?s + k * ?d) (?s + Suc k * ?d) cs \<le> ?L - (if j = 0 then claimed_this_period p1 else 0)"
      using ih [of j] by (simp add: \<open>k = q + j\<close> algebra_simps)
    then show ?thesis unfolding c claimed_between_simps tq using st(6) Cons.prems(4) h(2) \<open>k = q + j\<close> by auto
  next
    case False
    have none: "claimed_between lo hi cs = 0" if "hi \<le> ?s + q * ?d" for lo hi
      using after that by (induction cs) (auto simp: claimed_between_def)
    have "?s + Suc k * ?d \<le> ?s + q * ?d" using False by (intro add_left_mono mult_le_mono1) simp
    then show ?thesis unfolding c claimed_between_simps tq using none False Cons.prems(4,5) by auto
  qed
  with all show ?case by blast
qed auto

text \<open>C9: Whatever claims a chain of blocks accepts against a withdrawal permission, in whatever order, the amounts claimed in
  one withdrawal period never add up to more than the limit, as long as no period ends beyond the range of 32-bit time.\<close>

theorem withdrawal_limit_per_period:
  assumes "claim_all lib cs p = Inr p'" "fc_lib_ok lib" "in_time p cs" "claimed_this_period p = 0" "0 \<le> amount (withdrawal_limit p)"
  shows "claimed_between (period_start_time p + k * withdrawal_period_sec p) (period_start_time p + Suc k * withdrawal_period_sec p) cs
      \<le> amount (withdrawal_limit p)"
proof -
  have "safe_exact (fc_safe lib)" using assms(2) by (simp add: fc_lib_ok_def)
  from claims_in_period [OF assms(1) this assms(3)] assms(4,5)
  have "claimed_between (period_start_time p + k * withdrawal_period_sec p) (period_start_time p + Suc k * withdrawal_period_sec p) cs
      \<le> amount (withdrawal_limit p) - (if k = 0 then claimed_this_period p else 0)" by simp
  with assms(4) show ?thesis by (simp split: if_splits)
qed

definition sample_permit :: withdraw_permission_object where
  "sample_permit = \<lparr>withdraw_from_account = 1, authorized_account = 2, withdrawal_limit = mk_asset 10 1, withdrawal_period_sec = 100,
     period_start_time = 1000, wp_expiration = 2000, claimed_this_period = 0\<rparr>"

definition sample_claims :: "(time_sec \<times> asset) list" where
  "sample_claims = [(1010, mk_asset 7 1), (1090, mk_asset 3 1), (1250, mk_asset 10 1)]"

theorem withdrawal_limit_per_period_witness:
  "(\<exists>p'. claim_all std_lib sample_claims sample_permit = Inr p') \<and> claimed_between (1000 + 2 * 100) (1000 + Suc 2 * 100) sample_claims = 10
     \<and> claimed_between (1000 + 2 * 100) (1000 + Suc 2 * 100) sample_claims \<le> 10"
proof -
  have "case claim_all std_lib sample_claims sample_permit of Inl _ \<Rightarrow> False | Inr _ \<Rightarrow> True" by code_simp
  then obtain p' where r: "claim_all std_lib sample_claims sample_permit = Inr p'" by (auto split: sum.splits)
  have "in_time sample_permit sample_claims" by code_simp
  with withdrawal_limit_per_period [OF r std_lib_ok, of 2] r show ?thesis by (simp add: sample_permit_def) (simp add: sample_claims_def)
qed

definition overflowing_permission :: withdraw_permission_create_operation where
  "overflowing_permission = \<lparr>wc_fee = mk_asset 0 0, wc_withdraw_from_account = 1, wc_authorized_account = 2, wc_withdrawal_limit = mk_asset 10 1,
     wc_withdrawal_period_sec = 3000000000, wc_periods_until_expiration = 2, wc_period_start_time = 2000000001\<rparr>"

definition double_claim :: "(time_sec \<times> asset) list" where
  "double_claim = [(2000000010, mk_asset 10 1), (2000000011, mk_asset 10 1)]"

lemma not_isl: "\<not> isl x \<Longrightarrow> \<exists>y. x = Inr y"
  by (cases x) auto


subsection \<open>Expired contracts\<close>

text \<open>What an account has locked in contracts that it would get back.\<close>

definition locked :: "account_id \<Rightarrow> asset_id \<Rightarrow> database \<Rightarrow> int" where
  "locked acc a db = ix_sum (\<lambda>h. if htlc_from h = acc \<and> htlc_asset_id h = a then htlc_amount h else 0) (htlcs db)"

lemma refund_htlcE:
  assumes "refund_htlc lib i db = Inr db'" "safe_exact (fc_safe lib)" "db_ok db"
  obtains h where "ix_get i (htlcs db) = Some h" "htlcs db' = ix_remove i (htlcs db)" "db_ok db'"
    "\<And>acc a. amount (get_balance db' acc a) + locked acc a db' = amount (get_balance db acc a) + locked acc a db"
proof -
  from assms(1) obtain h db1 where h: "ix_get i (htlcs db) = Some h"
    "adjust_balance lib (htlc_from h) (mk_asset (htlc_amount h) (htlc_asset_id h)) db = Inr db1"
    and db': "db' = (push_applied_operation (Htlc_refund_vop i (htlc_from h)) db1)\<lparr>htlcs := ix_remove i (htlcs db1)\<rparr>"
    by (auto simp: refund_htlc_def get_htlc_def Let_def push_applied_operation_def)
  have eq: "htlcs db1 = htlcs db" using same_market_adjust_balance [OF h(2)] by (simp add: same_market_def)
  have bal: "get_balance db' acc a = get_balance db1 acc a" for acc a
    by (simp add: db' get_balance_def find_account_balance_def push_applied_operation_def)
  have "ix_ok (balances db)" using assms(3) by (simp add: db_ok_def)
  note b = get_balance_adjust [OF h(2) assms(2) this]
  show thesis
  proof (rule that [OF h(1)])
    show "htlcs db' = ix_remove i (htlcs db)" by (simp add: db' eq)
    show "db_ok db'" using refund_htlc_moves [OF assms(1,2)] assms(3) by (simp add: moves_def)
    show "amount (get_balance db' acc a) + locked acc a db' = amount (get_balance db acc a) + locked acc a db" for acc a
      unfolding bal b by (simp add: locked_def db' eq part_def ix_sum_remove [OF h(1)])
  qed
qed

lemma refund_htlcs:
  assumes "res_fold (refund_htlc lib) is db = Inr db'" "safe_exact (fc_safe lib)" "db_ok db"
  shows "db_ok db' \<and> (\<forall>i. ix_get i (htlcs db') = (if i \<in> set is then None else ix_get i (htlcs db)))
     \<and> (\<forall>acc a. amount (get_balance db' acc a) + locked acc a db' = amount (get_balance db acc a) + locked acc a db)"
  using assms
proof (induction "is" arbitrary: db)
  case (Cons i js)
  then obtain db1 where r: "refund_htlc lib i db = Inr db1" "res_fold (refund_htlc lib) js db1 = Inr db'" by auto
  have ok: "ix_ok (htlcs db)" using Cons.prems(3) by (simp add: db_ok_def)
  from refund_htlcE [OF r(1) Cons.prems(2,3)] obtain h where
    f: "htlcs db1 = ix_remove i (htlcs db)" "db_ok db1"
       "\<And>acc a. amount (get_balance db1 acc a) + locked acc a db1 = amount (get_balance db acc a) + locked acc a db" by metis
  from Cons.IH [OF r(2) Cons.prems(2) f(2)] show ?case by (auto simp: f(1,3) ok)
qed simp

text \<open>C31: At the end of a block, the contracts that have expired are gone and the others untouched, and what an account has in its
  balance and locked in contracts is together the same as before: each expired contract paid exactly its sender.\<close>

theorem expired_htlcs_refunded:
  assumes "clear_expired_htlcs lib db = Inr db'" "fc_lib_ok lib" "db_ok db"
  shows "(\<forall>i. ix_get i (htlcs db') = (case ix_get i (htlcs db) of Some h \<Rightarrow> if htlc_expiration h \<le> head_block_time db then None else Some h | None \<Rightarrow> None))
    \<and> (\<forall>acc a. amount (get_balance db' acc a) + locked acc a db' = amount (get_balance db acc a) + locked acc a db)"
proof -
  have ok: "ix_ok (htlcs db)" using assms(3) by (simp add: db_ok_def)
  have mem: "(i, h) \<in> set (ix_tab (htlcs db)) \<longleftrightarrow> ix_get i (htlcs db) = Some h" for i h
    using ok by (simp add: ix_get_def ix_ok_def)
  have ex: "i \<in> set (expired_htlcs db) \<longleftrightarrow> (\<exists>h. ix_get i (htlcs db) = Some h \<and> htlc_expiration h \<le> head_block_time db)" for i
    unfolding expired_htlcs_def set_map due_objects [OF ok] image_iff by (auto simp: mem)
  have "safe_exact (fc_safe lib)" using assms(2) by (simp add: fc_lib_ok_def)
  from refund_htlcs [OF assms(1) [unfolded clear_expired_htlcs_def] this assms(3)]
  have r: "ix_get i (htlcs db') = (if i \<in> set (expired_htlcs db) then None else ix_get i (htlcs db))"
    "amount (get_balance db' acc a) + locked acc a db' = amount (get_balance db acc a) + locked acc a db" for i acc a by blast+
  show ?thesis unfolding r ex by (simp split: option.split)
qed

definition sample_htlc :: "account_id \<Rightarrow> time_sec \<Rightarrow> htlc_object" where
  "sample_htlc acc t = \<lparr>htlc_from = acc, htlc_to = 2, htlc_amount = 5, htlc_asset_id = 1, preimage_hash = (0, []), preimage_size = 0, htlc_expiration = t\<rparr>"

definition sample_htlc_db :: database where
  "sample_htlc_db = sample_db\<lparr>htlcs := \<lparr>ix_tab = [(0, sample_htlc 1 2000000100), (1, sample_htlc 1 1999999999)], ix_next = 2\<rparr>\<rparr>"

theorem expired_htlcs_refunded_witness:
  "\<exists>db'. clear_expired_htlcs std_lib sample_htlc_db = Inr db' \<and> ix_get 1 (htlcs db') = None \<and> ix_get 0 (htlcs db') = Some (sample_htlc 1 2000000100)
     \<and> amount (get_balance db' 1 1) = 5
     \<and> amount (get_balance db' 1 1) + locked 1 1 db' = amount (get_balance sample_htlc_db 1 1) + locked 1 1 sample_htlc_db"
proof -
  have c: "case clear_expired_htlcs std_lib sample_htlc_db of Inl _ \<Rightarrow> False | Inr db' \<Rightarrow> amount (get_balance db' 1 1) = 5" by code_simp
  then obtain db' where r: "clear_expired_htlcs std_lib sample_htlc_db = Inr db'" "amount (get_balance db' 1 1) = 5"
    by (auto split: sum.split_asm)
  have "db_ok sample_htlc_db" using sample_db_ok by (simp add: sample_htlc_db_def db_ok_def ix_ok_def)
  from expired_htlcs_refunded [OF r(1) std_lib_ok this]
  have t: "ix_get i (htlcs db') = (case ix_get i (htlcs sample_htlc_db) of Some h \<Rightarrow> if htlc_expiration h \<le> head_block_time sample_htlc_db then None else Some h | None \<Rightarrow> None)"
    "amount (get_balance db' 1 1) + locked 1 1 db' = amount (get_balance sample_htlc_db 1 1) + locked 1 1 sample_htlc_db" for i by blast+
  have "head_block_time sample_htlc_db = 2000000000" "ix_get 1 (htlcs sample_htlc_db) = Some (sample_htlc 1 1999999999)"
    "ix_get 0 (htlcs sample_htlc_db) = Some (sample_htlc 1 2000000100)" by code_simp+
  then have "ix_get 1 (htlcs db') = None" "ix_get 0 (htlcs db') = Some (sample_htlc 1 2000000100)"
    unfolding t(1) by (simp_all add: sample_htlc_def)
  with r t(2) show ?thesis by blast
qed

end
