(* ===== verification/Authority.thy ===== *)
theory Authority
  imports Operations "HOL-Library.Code_Target_Numeral"
begin

text \<open>
  Who has to sign a transaction and whether the signatures suffice: \<open>struct sign_state\<close>, \<open>verify_authority\<close>,
  \<open>get_required_signatures\<close> and \<open>minimize_required_signatures\<close> of \<open>libraries/protocol/transaction.cpp\<close>, with
  \<open>operation_get_required_authorities\<close> of \<open>operations.cpp\<close>.

  A public key is a number; the addresses derived from a key are a parameter. The callbacks that fetch the authorities of an
  account may throw (\<open>Inl\<close>) or return a null pointer (\<open>None\<close>). The recursion over the accounts of an authority ends at the
  recursion limit, so it is a recursion on the number of levels left. Sets and maps that the source keeps sorted are lists.
\<close>

subsection \<open>The state of a signature check\<close>

type_synonym pub_key = nat
type_synonym key_address = nat

text \<open>The constant members of \<open>sign_state\<close>.\<close>

record sign_context =
  get_active :: "account_id \<Rightarrow> authority option res"
  get_owner :: "account_id \<Rightarrow> authority option res"
  allow_non_immediate_owner :: bool
  max_recursion :: nat
  available_keys :: "pub_key list"
  addresses_of :: "pub_key \<Rightarrow> key_address list"

text \<open>The mutable members; \<open>address_sigs\<close> are the two maps from addresses to available and provided keys, filled on first use.\<close>

record sign_state =
  provided_signatures :: "(pub_key \<times> bool) list"
  approved_by :: "account_id list"
  address_sigs :: "((key_address \<times> pub_key) list \<times> (key_address \<times> pub_key) list) option"

definition new_sign_state :: "pub_key list \<Rightarrow> sign_state" where
  "new_sign_state sigs = \<lparr>provided_signatures = map (\<lambda>k. (k, False)) sigs, approved_by = [GRAPHENE_TEMP_ACCOUNT], address_sigs = None\<rparr>"

text \<open>\<open>provided_signatures[k] = true\<close>, which inserts a new key in order.\<close>

definition mark_key :: "pub_key \<Rightarrow> (pub_key \<times> bool) list \<Rightarrow> (pub_key \<times> bool) list" where
  "mark_key k ps = (if k \<in> fst ` set ps then map (\<lambda>p. if fst p = k then (k, True) else p) ps else insort_key fst (k, True) ps)"

definition mark_used :: "pub_key \<Rightarrow> sign_state \<Rightarrow> sign_state" where
  "mark_used k s = s\<lparr>provided_signatures := mark_key k (provided_signatures s)\<rparr>"

definition signed_by_key :: "sign_context \<Rightarrow> pub_key \<Rightarrow> sign_state \<Rightarrow> (bool \<times> sign_state) res" where
  "signed_by_key ctx k s =
     (case map_of (provided_signatures s) k of
        None \<Rightarrow> if k \<in> set (available_keys ctx) then Inr (True, mark_used k s) else Inr (False, s)
      | Some _ \<Rightarrow> Inr (True, mark_used k s))"

text \<open>The map from the addresses of keys to the keys; a later key replaces an earlier one with the same address.\<close>

definition address_map :: "sign_context \<Rightarrow> pub_key list \<Rightarrow> (key_address \<times> pub_key) list" where
  "address_map ctx keys = rev (concat (map (\<lambda>k. map (\<lambda>a. (a, k)) (addresses_of ctx k)) keys))"

definition cache_addresses :: "sign_context \<Rightarrow> sign_state \<Rightarrow> sign_state" where
  "cache_addresses ctx s =
     (case address_sigs s of
        None \<Rightarrow> s\<lparr>address_sigs := Some (address_map ctx (available_keys ctx), address_map ctx (map fst (provided_signatures s)))\<rparr>
      | Some _ \<Rightarrow> s)"

text \<open>An address that no key has makes the source read past the end of a map; that is an error here.\<close>

definition signed_by_address :: "sign_context \<Rightarrow> key_address \<Rightarrow> sign_state \<Rightarrow> (bool \<times> sign_state) res" where
  "signed_by_address ctx a s0 =
     (let s = cache_addresses ctx s0 in
      case address_sigs s of None \<Rightarrow> Inl (Throw_exn ''no maps'')
      | Some (available, provided) \<Rightarrow>
          (case map_of provided a of
             Some k \<Rightarrow> Inr (True, mark_used k s)
           | None \<Rightarrow>
               (case map_of available a of
                  Some k \<Rightarrow> if k \<in> set (available_keys ctx) then Inr (True, mark_used k s) else Inr (False, s)
                | None \<Rightarrow> Inl (Throw_exn ''undefined behaviour: end of provided_address_sigs is dereferenced''))))"

subsection \<open>Checking an authority\<close>

text \<open>The loop that each of the three kinds of members has: the weights of the members that pass are added in 32 bits until
  the threshold is reached.\<close>

fun weigh :: "('m \<Rightarrow> sign_state \<Rightarrow> (bool \<times> sign_state) res) \<Rightarrow> nat \<Rightarrow> ('m \<times> nat) list \<Rightarrow> nat \<Rightarrow> sign_state \<Rightarrow> (bool \<times> nat \<times> sign_state) res" where
  "weigh passes threshold [] total_weight s = Inr (False, total_weight, s)"
| "weigh passes threshold ((m, w) # ms) total_weight s =
     res_bind (passes m s) (\<lambda>(ok, s1).
     if ok then let t = (total_weight + w) mod 2 ^ 32 in
                if t \<ge> threshold then Inr (True, t, s1) else weigh passes threshold ms t s1
     else weigh passes threshold ms total_weight s1)"

text \<open>An account passes when it has approved already, or when the deeper check \<open>sub\<close> accepts one of its authorities.\<close>

definition account_passes :: "(account_id \<Rightarrow> sign_state \<Rightarrow> (bool \<times> sign_state) res) \<Rightarrow> account_id \<Rightarrow> sign_state \<Rightarrow> (bool \<times> sign_state) res" where
  "account_passes sub a s =
     (if a \<in> set (approved_by s) then Inr (True, s)
      else res_bind (sub a s) (\<lambda>(ok, s1). Inr (ok, if ok then s1\<lparr>approved_by := List.insert a (approved_by s1)\<rparr> else s1)))"

definition check_members ::
  "sign_context \<Rightarrow> (account_id \<Rightarrow> sign_state \<Rightarrow> (bool \<times> sign_state) res) \<Rightarrow> authority \<Rightarrow> sign_state \<Rightarrow> (bool \<times> sign_state) res" where
  "check_members ctx sub auth s =
     res_bind (weigh (signed_by_key ctx) (weight_threshold auth) (key_auths auth) 0 s) (\<lambda>(reached, t1, s1).
     if reached then Inr (True, s1)
     else res_bind (weigh (signed_by_address ctx) (weight_threshold auth) (address_auths auth) t1 s1) (\<lambda>(reached, t2, s2).
     if reached then Inr (True, s2)
     else res_bind (weigh (account_passes sub) (weight_threshold auth) (account_auths auth) t2 s2) (\<lambda>(reached, t3, s3).
     Inr (reached \<or> t3 \<ge> weight_threshold auth, s3))))"

definition check_pointer ::
  "(authority \<Rightarrow> sign_state \<Rightarrow> (bool \<times> sign_state) res) \<Rightarrow> authority option res \<Rightarrow> sign_state \<Rightarrow> (bool \<times> sign_state) res" where
  "check_pointer chk r s = res_bind r (\<lambda>au. case au of None \<Rightarrow> Inr (False, s) | Some auth \<Rightarrow> chk auth s)"

definition check_account ::
  "sign_context \<Rightarrow> (authority \<Rightarrow> sign_state \<Rightarrow> (bool \<times> sign_state) res) \<Rightarrow> account_id \<Rightarrow> sign_state \<Rightarrow> (bool \<times> sign_state) res" where
  "check_account ctx chk a s =
     res_bind (check_pointer chk (get_active ctx a) s) (\<lambda>(ok, s1).
     if ok then Inr (True, s1)
     else if allow_non_immediate_owner ctx then check_pointer chk (get_owner ctx a) s1 else Inr (False, s1))"

text \<open>\<open>check_authority\<close> with the number of levels left, \<open>max_recursion - depth\<close>.\<close>

primrec check_levels :: "sign_context \<Rightarrow> nat \<Rightarrow> authority \<Rightarrow> sign_state \<Rightarrow> (bool \<times> sign_state) res" where
  "check_levels ctx 0 = check_members ctx (\<lambda>_ s. Inr (False, s))"
| "check_levels ctx (Suc left) = check_members ctx (check_account ctx (check_levels ctx left))"

definition check_authority :: "sign_context \<Rightarrow> authority \<Rightarrow> sign_state \<Rightarrow> (bool \<times> sign_state) res" where
  "check_authority ctx = check_levels ctx (max_recursion ctx)"

definition check_authority_of :: "sign_context \<Rightarrow> account_id \<Rightarrow> sign_state \<Rightarrow> (bool \<times> sign_state) res" where
  "check_authority_of ctx a s = (if a \<in> set (approved_by s) then Inr (True, s) else check_account ctx (check_authority ctx) a s)"

definition remove_unused_signatures :: "sign_state \<Rightarrow> bool \<times> sign_state" where
  "remove_unused_signatures s =
     (\<exists>p\<in>set (provided_signatures s). \<not> snd p, s\<lparr>provided_signatures := filter snd (provided_signatures s)\<rparr>)"

subsection \<open>Required authorities\<close>

text \<open>The accounts whose active and owner authority and the further authorities that an operation needs, in this order.\<close>

record required =
  req_active :: "account_id list"
  req_owner :: "account_id list"
  req_other :: "authority list"

definition insert_account :: "account_id \<Rightarrow> account_id list \<Rightarrow> account_id list" where
  "insert_account a as = (if a \<in> set as then as else insort a as)"

definition operation_get_required_authorities :: "operation \<Rightarrow> required \<Rightarrow> required" where
  "operation_get_required_authorities op1 r =
     (let r1 = r\<lparr>req_active := insert_account (fee_payer op1) (req_active r)\<rparr> in
      case op1 of
        Asset_update_issuer x \<Rightarrow> r1\<lparr>req_owner := insert_account (ui_issuer x) (req_owner r1)\<rparr>
      | Balance_claim x \<Rightarrow> r1\<lparr>req_other := req_other r1 @ [\<lparr>weight_threshold = 1, account_auths = [], key_auths = [(balance_owner_key x, 1)], address_auths = []\<rparr>]\<rparr>
      | Account_create x \<Rightarrow>
          (let r2 = r1\<lparr>req_active := insert_account (cr_registrar x) (req_active r1)\<rparr> in
           case cr_buyback_options x of None \<Rightarrow> r2
           | Some bbo \<Rightarrow> r2\<lparr>req_active := insert_account (asset_to_buy_issuer bbo) (req_active r2)\<rparr>)
      | Account_update x \<Rightarrow>
          if is_owner_update x then r1\<lparr>req_owner := insert_account (ud_account x) (req_owner r1)\<rparr>
          else r1\<lparr>req_active := insert_account (ud_account x) (req_active r1)\<rparr>
      | _ \<Rightarrow> r1)"

definition required_authorities :: "operation list \<Rightarrow> required" where
  "required_authorities ops = fold operation_get_required_authorities ops \<lparr>req_active = [], req_owner = [], req_other = []\<rparr>"

text \<open>\<open>transaction::get_required_authorities\<close>: an account that signs as owner need not sign as active as well.\<close>

definition get_required_authorities :: "operation list \<Rightarrow> required" where
  "get_required_authorities ops =
     (let r = required_authorities ops in r\<lparr>req_active := filter (\<lambda>a. a \<notin> set (req_owner r)) (req_active r)\<rparr>)"

subsection \<open>Verification\<close>

definition demand :: "string \<Rightarrow> (bool \<times> sign_state) res \<Rightarrow> sign_state res" where
  "demand name r = res_bind r (\<lambda>(ok, s). if ok then Inr s else Inl (Throw_exn name))"

definition or_else :: "(bool \<times> sign_state) res \<Rightarrow> (sign_state \<Rightarrow> (bool \<times> sign_state) res) \<Rightarrow> (bool \<times> sign_state) res" where
  "or_else r f = res_bind r (\<lambda>(ok, s). if ok then Inr (True, s) else f s)"

definition demand_owner :: "sign_context \<Rightarrow> account_id list \<Rightarrow> account_id \<Rightarrow> sign_state \<Rightarrow> sign_state res" where
  "demand_owner ctx owner_approvals a s =
     demand ''tx_missing_owner_auth'' (if a \<in> set owner_approvals then Inr (True, s) else check_pointer (check_authority ctx) (get_owner ctx a) s)"

definition demand_active :: "sign_context \<Rightarrow> account_id \<Rightarrow> sign_state \<Rightarrow> sign_state res" where
  "demand_active ctx a s =
     demand ''tx_missing_active_auth'' (or_else (check_authority_of ctx a s) (check_pointer (check_authority ctx) (get_owner ctx a)))"

definition verify_authority ::
  "sign_context \<Rightarrow> operation list \<Rightarrow> pub_key list \<Rightarrow> bool \<Rightarrow> account_id list \<Rightarrow> account_id list \<Rightarrow> unit res" where
  "verify_authority ctx0 ops sigs allow_committe active_aprovals owner_approvals =
     (let r = required_authorities ops; ctx = ctx0\<lparr>available_keys := []\<rparr> in
      if \<not> allow_committe \<and> GRAPHENE_COMMITTEE_ACCOUNT \<in> set (req_active r) then Inl (Throw_exn ''invalid_committee_approval'')
      else let s0 = new_sign_state sigs;
               s1 = s0\<lparr>approved_by := fold List.insert (active_aprovals @ owner_approvals) (approved_by s0)\<rparr> in
      res_bind (res_fold (\<lambda>auth s. demand ''tx_missing_other_auth'' (check_authority ctx auth s)) (req_other r) s1) (\<lambda>s2.
      res_bind (res_fold (demand_owner ctx owner_approvals) (req_owner r) s2) (\<lambda>s3.
      res_bind (res_fold (demand_active ctx) (req_active r) s3) (\<lambda>s4.
      if fst (remove_unused_signatures s4) then Inl (Throw_exn ''tx_irrelevant_sig'') else Inr ()))))"

subsection \<open>Finding the signatures a transaction needs\<close>

text \<open>\<open>get_signature_keys\<close>: recovering a key from a signature and a digest is a parameter, applied to the signatures beforehand.\<close>

definition get_signature_keys :: "pub_key list \<Rightarrow> pub_key list res" where
  "get_signature_keys recovered = res_fold (\<lambda>k ks. if k \<in> set ks then Inl (Throw_exn ''tx_duplicate_sig'') else Inr (insort k ks)) recovered []"

definition get_required_signatures :: "sign_context \<Rightarrow> operation list \<Rightarrow> pub_key list \<Rightarrow> pub_key list res" where
  "get_required_signatures ctx ops recovered =
     (let r = get_required_authorities ops in
      res_bind (get_signature_keys recovered) (\<lambda>signature_keys.
      res_bind (res_fold (\<lambda>auth s. res_bind (check_authority ctx auth s) (\<lambda>(_, s1). Inr s1)) (req_other r) (new_sign_state signature_keys)) (\<lambda>s1.
      res_bind (res_fold (\<lambda>a s. res_bind (check_pointer (check_authority ctx) (get_owner ctx a) s) (\<lambda>(_, s1). Inr s1)) (req_owner r) s1) (\<lambda>s2.
      res_bind (res_fold (\<lambda>a s. res_bind (or_else (check_authority_of ctx a s) (check_pointer (check_authority ctx) (get_owner ctx a))) (\<lambda>(_, s1). Inr s1)) (req_active r) s2) (\<lambda>s3.
      Inr (filter (\<lambda>k. k \<in> set (available_keys ctx) \<and> k \<notin> set signature_keys) (map fst (provided_signatures (snd (remove_unused_signatures s3))))))))))"

definition missing_authority :: "fc_exception \<Rightarrow> bool" where
  "missing_authority e \<longleftrightarrow> e = Throw_exn ''tx_missing_owner_auth'' \<or> e = Throw_exn ''tx_missing_active_auth'' \<or> e = Throw_exn ''tx_missing_other_auth''"

text \<open>The call of \<open>get_required_signatures\<close> passes the recursion limit in the place of \<open>allow_non_immediate_owner\<close>, so the
  search runs with the default limit and with the owner authorities of other accounts unless the limit is 0.\<close>

definition minimize_required_signatures :: "sign_context \<Rightarrow> operation list \<Rightarrow> pub_key list \<Rightarrow> pub_key list res" where
  "minimize_required_signatures ctx ops recovered =
     res_bind (get_required_signatures (ctx\<lparr>allow_non_immediate_owner := max_recursion ctx \<noteq> 0, max_recursion := GRAPHENE_MAX_SIG_CHECK_DEPTH\<rparr>) ops recovered) (\<lambda>s.
     res_fold (\<lambda>k result.
       case verify_authority ctx ops (remove1 k result) False [] [] of
         Inr _ \<Rightarrow> Inr (remove1 k result)
       | Inl e \<Rightarrow> if missing_authority e then Inr result else Inl e) s s)"

subsection \<open>What a check establishes\<close>

text \<open>The weight that signatures by the keys \<open>K\<close> and approvals by the accounts \<open>X\<close> give to an authority.\<close>

definition weight_sum :: "('m \<Rightarrow> bool) \<Rightarrow> ('m \<times> nat) list \<Rightarrow> nat" where
  "weight_sum P ms = sum_list (map snd (filter (\<lambda>m. P (fst m)) ms))"

definition address_held :: "sign_context \<Rightarrow> pub_key set \<Rightarrow> key_address \<Rightarrow> bool" where
  "address_held ctx K a \<longleftrightarrow> (\<exists>k\<in>K. a \<in> set (addresses_of ctx k))"

definition approving_weight :: "sign_context \<Rightarrow> pub_key set \<Rightarrow> account_id set \<Rightarrow> authority \<Rightarrow> nat" where
  "approving_weight ctx K X auth =
     weight_sum (\<lambda>k. k \<in> K) (key_auths auth) + weight_sum (address_held ctx K) (address_auths auth) + weight_sum (\<lambda>a. a \<in> X) (account_auths auth)"

text \<open>An account is authorized by the keys \<open>K\<close> and the approvals \<open>A\<close> if it is one of \<open>A\<close>, or if its active authority (or its
  owner authority, where that is allowed) gets its threshold from \<open>K\<close> and accounts that are authorized.\<close>

inductive authorized :: "sign_context \<Rightarrow> pub_key set \<Rightarrow> account_id set \<Rightarrow> account_id \<Rightarrow> bool" for ctx K A where
  given: "a \<in> A \<Longrightarrow> authorized ctx K A a"
| by_active: "get_active ctx a = Inr (Some auth) \<Longrightarrow> (\<forall>x\<in>X. authorized ctx K A x) \<Longrightarrow> weight_threshold auth \<le> approving_weight ctx K X auth
    \<Longrightarrow> authorized ctx K A a"
| by_owner: "allow_non_immediate_owner ctx \<Longrightarrow> get_owner ctx a = Inr (Some auth) \<Longrightarrow> (\<forall>x\<in>X. authorized ctx K A x)
    \<Longrightarrow> weight_threshold auth \<le> approving_weight ctx K X auth \<Longrightarrow> authorized ctx K A a"

definition satisfied :: "sign_context \<Rightarrow> pub_key set \<Rightarrow> account_id set \<Rightarrow> authority \<Rightarrow> bool" where
  "satisfied ctx K A auth \<longleftrightarrow> weight_threshold auth \<le> approving_weight ctx K {x. authorized ctx K A x} auth"

text \<open>The authorities that a check may come across, starting from some of them, and the keys they name.\<close>

inductive consulted :: "sign_context \<Rightarrow> authority set \<Rightarrow> authority \<Rightarrow> bool" for ctx R where
  root: "auth \<in> R \<Longrightarrow> consulted ctx R auth"
| member: "consulted ctx R auth \<Longrightarrow> a \<in> fst ` set (account_auths auth) \<Longrightarrow> get_active ctx a = Inr (Some au) \<or> get_owner ctx a = Inr (Some au)
    \<Longrightarrow> consulted ctx R au"

definition names_key :: "sign_context \<Rightarrow> authority \<Rightarrow> pub_key \<Rightarrow> bool" where
  "names_key ctx auth k \<longleftrightarrow> k \<in> fst ` set (key_auths auth) \<or> (\<exists>a\<in>fst ` set (address_auths auth). a \<in> set (addresses_of ctx k))"

definition named_keys :: "sign_context \<Rightarrow> authority set \<Rightarrow> pub_key set" where
  "named_keys ctx R = {k. \<exists>auth. consulted ctx R auth \<and> names_key ctx auth k}"

text \<open>What every step keeps: exactly the keys that signed are provided, the accounts that approved are authorized, and the keys marked as
  used are named by an authority.\<close>

definition good_state :: "sign_context \<Rightarrow> pub_key set \<Rightarrow> account_id set \<Rightarrow> pub_key set \<Rightarrow> sign_state \<Rightarrow> bool" where
  "good_state ctx K A N s \<longleftrightarrow> fst ` set (provided_signatures s) \<subseteq> K \<and> set (available_keys ctx) \<subseteq> K \<and> K \<subseteq> fst ` set (provided_signatures s) \<union> set (available_keys ctx) \<and> (\<forall>a\<in>set (approved_by s). authorized ctx K A a)
     \<and> (\<forall>k. (k, True) \<in> set (provided_signatures s) \<longrightarrow> k \<in> N)
     \<and> (\<forall>av pr. address_sigs s = Some (av, pr) \<longrightarrow> (\<forall>(a, k) \<in> set av \<union> set pr. k \<in> K \<and> a \<in> set (addresses_of ctx k)))"

definition sound_on :: "'m set \<Rightarrow> sign_context \<Rightarrow> pub_key set \<Rightarrow> account_id set \<Rightarrow> pub_key set \<Rightarrow> ('m \<Rightarrow> sign_state \<Rightarrow> (bool \<times> sign_state) res) \<Rightarrow> ('m \<Rightarrow> bool) \<Rightarrow> bool" where
  "sound_on M ctx K A N passes P \<longleftrightarrow>
     (\<forall>m\<in>M. \<forall>s ok s'. good_state ctx K A N s \<longrightarrow> passes m s = Inr (ok, s') \<longrightarrow> good_state ctx K A N s' \<and> (ok \<longrightarrow> P m))"

lemma sound_onD: "sound_on M ctx K A N passes P \<Longrightarrow> m \<in> M \<Longrightarrow> good_state ctx K A N s \<Longrightarrow> passes m s = Inr (ok, s') \<Longrightarrow> good_state ctx K A N s' \<and> (ok \<longrightarrow> P m)"
  unfolding sound_on_def by blast

lemma sound_on_subset: "sound_on M ctx K A N passes P \<Longrightarrow> M' \<subseteq> M \<Longrightarrow> sound_on M' ctx K A N passes P"
  unfolding sound_on_def by blast

lemma mark_key_keys: "fst ` set (mark_key k ps) = insert k (fst ` set ps)"
proof (cases "k \<in> fst ` set ps")
  case True
  let ?f = "\<lambda>p :: nat \<times> bool. if fst p = k then (k, True) else p"
  have "map fst (map ?f ps) = map fst ps" by (induction ps) auto
  then have "set (map fst (map ?f ps)) = set (map fst ps)" by (rule arg_cong)
  moreover have "mark_key k ps = map ?f ps" unfolding mark_key_def using True by (rule if_P)
  ultimately show ?thesis unfolding insert_absorb [OF True] by (simp only: set_map)
qed (simp add: mark_key_def set_insort_key)

lemma mark_key_marked: "(j, True) \<in> set (mark_key k ps) \<Longrightarrow> j = k \<or> (j, True) \<in> set ps"
  by (auto simp: mark_key_def set_insort_key split: if_splits)

lemma mark_used_good:
  assumes "good_state ctx K A N s" "k \<in> K" "k \<in> N"
  shows "good_state ctx K A N (mark_used k s)"
proof -
  have "fst ` set (mark_key k (provided_signatures s)) \<subseteq> K" "K \<subseteq> fst ` set (mark_key k (provided_signatures s)) \<union> set (available_keys ctx)"
    using assms(1,2) unfolding mark_key_keys good_state_def by blast+
  moreover have "\<forall>j. (j, True) \<in> set (mark_key k (provided_signatures s)) \<longrightarrow> j \<in> N" using mark_key_marked assms(1,3) unfolding good_state_def by blast
  ultimately show ?thesis using assms(1) unfolding good_state_def mark_used_def by simp
qed

lemma address_map_mem: "(a, k) \<in> set (address_map ctx keys) \<longleftrightarrow> k \<in> set keys \<and> a \<in> set (addresses_of ctx k)"
  by (auto simp: address_map_def)

lemma cache_addresses_good: "good_state ctx K A N s \<Longrightarrow> good_state ctx K A N (cache_addresses ctx s)"
  by (auto simp: good_state_def cache_addresses_def address_map_mem subset_iff split: option.splits)

lemma good_state_keys:
  assumes "good_state ctx K A N s" "k \<in> set (available_keys ctx) \<or> map_of (provided_signatures s) k = Some b"
  shows "k \<in> K"
  using assms by (auto simp: good_state_def dest!: map_of_SomeD)

lemma signed_by_key_sound: "sound_on N ctx K A N (signed_by_key ctx) (\<lambda>k. k \<in> K)"
  unfolding sound_on_def
proof (intro ballI allI impI)
  fix k s ok s' assume k: "k \<in> N" and s: "good_state ctx K A N s" and r: "signed_by_key ctx k s = Inr (ok, s')"
  show "good_state ctx K A N s' \<and> (ok \<longrightarrow> k \<in> K)"
  proof (cases ok)
    case True
    with r have "s' = mark_used k s" and in_K: "k \<in> set (available_keys ctx) \<or> (\<exists>b. map_of (provided_signatures s) k = Some b)"
      by (auto simp: signed_by_key_def split: option.splits if_splits)
    moreover have "k \<in> K" using in_K good_state_keys [OF s] by blast
    ultimately show ?thesis using mark_used_good [OF s _ k] by simp
  next
    case False
    with r have "s' = s" by (auto simp: signed_by_key_def split: option.splits if_splits)
    with s False show ?thesis by simp
  qed
qed

lemma signed_by_address_sound: "sound_on {a. \<forall>k. a \<in> set (addresses_of ctx k) \<longrightarrow> k \<in> N} ctx K A N (signed_by_address ctx) (address_held ctx K)"
  unfolding sound_on_def
proof (intro ballI allI impI)
  fix a s ok s'
  assume a: "a \<in> {a. \<forall>k. a \<in> set (addresses_of ctx k) \<longrightarrow> k \<in> N}" and s: "good_state ctx K A N s" and r: "signed_by_address ctx a s = Inr (ok, s')"
  let ?s = "cache_addresses ctx s"
  have g: "good_state ctx K A N ?s" using s by (rule cache_addresses_good)
  obtain av pr where sigs: "address_sigs ?s = Some (av, pr)"
    by (cases "address_sigs s") (auto simp: cache_addresses_def)
  have mem: "k \<in> K \<and> a \<in> set (addresses_of ctx k)" if "map_of av a = Some k \<or> map_of pr a = Some k" for k
    using that g sigs by (auto simp: good_state_def dest!: map_of_SomeD)
  from r sigs consider k where "map_of av a = Some k \<or> map_of pr a = Some k" "s' = mark_used k ?s" | "\<not> ok" "s' = ?s"
    by (auto simp: signed_by_address_def Let_def split: option.splits if_splits)
  then show "good_state ctx K A N s' \<and> (ok \<longrightarrow> address_held ctx K a)"
  proof cases
    case 1
    then show ?thesis using mem [OF 1(1)] a g by (auto simp: address_held_def intro: mark_used_good)
  qed (use g in auto)
qed

lemma weight_sum_simps [simp]: "weight_sum P [] = 0" "weight_sum P ((m, w) # ms) = (if P m then w else 0) + weight_sum P ms"
  by (simp_all add: weight_sum_def)

lemma weigh_sound:
  assumes "sound_on (fst ` set ms) ctx K A N passes P" "good_state ctx K A N s" "weigh passes threshold ms t s = Inr (reached, t', s')"
  shows "good_state ctx K A N s' \<and> t' \<le> t + weight_sum P ms \<and> (reached \<longrightarrow> threshold \<le> t')"
  using assms
proof (induction ms arbitrary: t s)
  case (Cons p ms)
  obtain m w where p: "p = (m, w)" by (cases p)
  define u where "u = (t + w) mod 2 ^ 32"
  from Cons.prems(3) obtain q where q: "passes m s = Inr q" unfolding p weigh.simps by (rule res_bind_InrE)
  obtain ok s1 where ok: "passes m s = Inr (ok, s1)" using q by (cases q) simp
  have rest: "(if ok then if u \<ge> threshold then Inr (True, u, s1) else weigh passes threshold ms u s1
               else weigh passes threshold ms t s1) = Inr (reached, t', s')"
    using Cons.prems(3) unfolding p weigh.simps ok u_def by (simp only: res_bind_simps(1) prod.case Let_def)
  have g: "good_state ctx K A N s1" "ok \<Longrightarrow> P m" using sound_onD [OF Cons.prems(1) _ Cons.prems(2) ok] by (simp_all add: p)
  have rest_sound: "sound_on (fst ` set ms) ctx K A N passes P" by (rule sound_on_subset [OF Cons.prems(1)]) auto
  have le: "u \<le> t + w" unfolding u_def by simp
  show ?case
  proof (cases "ok \<and> u \<ge> threshold")
    case True
    with rest have "reached" "t' = u" "s' = s1" by simp_all
    with g le True show ?thesis by (simp add: p)
  next
    case False
    with rest obtain t1 where t1: "weigh passes threshold ms t1 s1 = Inr (reached, t', s')" "t1 = (if ok then u else t)"
      by (cases ok) simp_all
    have "t1 \<le> t + (if P m then w else 0)" using t1(2) le g(2) by simp
    with Cons.IH [OF rest_sound g(1) t1(1)] show ?thesis by (simp add: p)
  qed
qed auto

lemma account_passes_sound:
  assumes "sound_on M ctx K A N sub (authorized ctx K A)"
  shows "sound_on M ctx K A N (account_passes sub) (authorized ctx K A)"
  unfolding sound_on_def
proof (intro ballI allI impI)
  fix a s ok s' assume a: "a \<in> M" and s: "good_state ctx K A N s" and r: "account_passes sub a s = Inr (ok, s')"
  show "good_state ctx K A N s' \<and> (ok \<longrightarrow> authorized ctx K A a)"
  proof (cases "a \<in> set (approved_by s)")
    case True
    with r s show ?thesis by (auto simp: account_passes_def good_state_def)
  next
    case False
    with r obtain s1 where s1: "sub a s = Inr (ok, s1)" "s' = (if ok then s1\<lparr>approved_by := List.insert a (approved_by s1)\<rparr> else s1)"
      by (auto simp: account_passes_def)
    from sound_onD [OF assms a s s1(1)] s1(2) show ?thesis by (auto simp: good_state_def)
  qed
qed

lemma check_members_sound:
  assumes "sound_on (fst ` set (account_auths auth)) ctx K A N sub (authorized ctx K A)"
    "\<And>k. names_key ctx auth k \<Longrightarrow> k \<in> N" "good_state ctx K A N s" "check_members ctx sub auth s = Inr (ok, s')"
  shows "good_state ctx K A N s' \<and> (ok \<longrightarrow> satisfied ctx K A auth)"
proof -
  let ?t = "weight_threshold auth"
  have keys: "sound_on (fst ` set (key_auths auth)) ctx K A N (signed_by_key ctx) (\<lambda>k. k \<in> K)"
    by (rule sound_on_subset [OF signed_by_key_sound]) (use assms(2) in \<open>auto simp: names_key_def\<close>)
  have addresses: "sound_on (fst ` set (address_auths auth)) ctx K A N (signed_by_address ctx) (address_held ctx K)"
    by (rule sound_on_subset [OF signed_by_address_sound]) (use assms(2) in \<open>auto simp: names_key_def\<close>)
  note accounts = account_passes_sound [OF assms(1)]
  have sum: "satisfied ctx K A auth \<longleftrightarrow> ?t \<le> weight_sum (\<lambda>k. k \<in> K) (key_auths auth) + weight_sum (address_held ctx K) (address_auths auth)
      + weight_sum (authorized ctx K A) (account_auths auth)" by (simp add: satisfied_def approving_weight_def)
  from assms(4) obtain r1 t1 s1 where w1: "weigh (signed_by_key ctx) ?t (key_auths auth) 0 s = Inr (r1, t1, s1)"
    unfolding check_members_def by (elim res_bind_InrE) (metis prod_cases3)
  note k = weigh_sound [OF keys assms(3) w1]
  show ?thesis
  proof (cases r1)
    case True
    with assms(4) w1 have "ok" "s' = s1" by (auto simp: check_members_def)
    with k True show ?thesis by (simp add: sum)
  next
    case False
    with assms(4) w1 obtain r2 t2 s2 where w2: "weigh (signed_by_address ctx) ?t (address_auths auth) t1 s1 = Inr (r2, t2, s2)"
      by (auto simp: check_members_def)
    have "good_state ctx K A N s1" using k by simp
    note a = weigh_sound [OF addresses this w2]
    show ?thesis
    proof (cases r2)
      case True
      with assms(4) w1 w2 False have "ok" "s' = s2" by (auto simp: check_members_def)
      with k a True show ?thesis by (simp add: sum)
    next
      case not_r2: False
      with assms(4) w1 w2 False obtain r3 t3 where w3: "weigh (account_passes sub) ?t (account_auths auth) t2 s2 = Inr (r3, t3, s')" "ok = (r3 \<or> t3 \<ge> ?t)"
        by (auto simp: check_members_def)
      have "good_state ctx K A N s2" using a by simp
      from weigh_sound [OF accounts this w3(1)] k a w3(2) show ?thesis by (auto simp: sum)
    qed
  qed
qed

text \<open>A pointer to an authority that passes is one to a satisfied authority.\<close>

lemma satisfied_authorizes:
  assumes "satisfied ctx K A auth" "get_active ctx a = Inr (Some auth) \<or> allow_non_immediate_owner ctx \<and> get_owner ctx a = Inr (Some auth)"
  shows "authorized ctx K A a"
  using assms authorized.by_active [of ctx a auth "{x. authorized ctx K A x}"] authorized.by_owner [of ctx a auth "{x. authorized ctx K A x}"]
  unfolding satisfied_def by blast

definition sound_check :: "sign_context \<Rightarrow> pub_key set \<Rightarrow> account_id set \<Rightarrow> authority set \<Rightarrow> (authority \<Rightarrow> sign_state \<Rightarrow> (bool \<times> sign_state) res) \<Rightarrow> bool" where
  "sound_check ctx K A R chk \<longleftrightarrow> sound_on {auth. consulted ctx R auth} ctx K A (named_keys ctx R) chk (satisfied ctx K A)"

lemma check_pointer_sound:
  assumes "sound_check ctx K A R chk" "good_state ctx K A (named_keys ctx R) s" "check_pointer chk p s = Inr (ok, s')"
    "\<And>auth. p = Inr (Some auth) \<Longrightarrow> consulted ctx R auth"
  shows "good_state ctx K A (named_keys ctx R) s' \<and> (ok \<longrightarrow> (\<exists>auth. p = Inr (Some auth) \<and> satisfied ctx K A auth))"
proof -
  from assms(3) consider "s' = s" "\<not> ok" | auth where "p = Inr (Some auth)" "chk auth s = Inr (ok, s')"
    by (auto simp: check_pointer_def split: option.splits)
  then show ?thesis
  proof cases
    case 2
    with sound_onD [OF assms(1) [unfolded sound_check_def] _ assms(2) 2(2)] assms(4) show ?thesis by blast
  qed (use assms(2) in simp)
qed

lemma check_account_sound:
  assumes "sound_check ctx K A R chk" "good_state ctx K A (named_keys ctx R) s" "check_account ctx chk a s = Inr (ok, s')"
    "\<And>auth. get_active ctx a = Inr (Some auth) \<or> get_owner ctx a = Inr (Some auth) \<Longrightarrow> consulted ctx R auth"
  shows "good_state ctx K A (named_keys ctx R) s' \<and> (ok \<longrightarrow> authorized ctx K A a)"
proof -
  from assms(3) obtain p where p: "check_pointer chk (get_active ctx a) s = Inr p" unfolding check_account_def by (rule res_bind_InrE)
  obtain b s1 where s1: "check_pointer chk (get_active ctx a) s = Inr (b, s1)" using p by (cases p) simp
  have rest: "(if b then Inr (True, s1) else if allow_non_immediate_owner ctx then check_pointer chk (get_owner ctx a) s1 else Inr (False, s1)) = Inr (ok, s')"
    using assms(3) unfolding check_account_def s1 by (simp only: res_bind_simps(1) prod.case)
  note act = check_pointer_sound [OF assms(1,2) s1 assms(4)]
  show ?thesis
  proof (cases "\<not> b \<and> allow_non_immediate_owner ctx")
    case True
    with rest have o: "check_pointer chk (get_owner ctx a) s1 = Inr (ok, s')" by simp
    have "good_state ctx K A (named_keys ctx R) s1" using act by simp
    note own = check_pointer_sound [OF assms(1) this o assms(4)]
    then show ?thesis using True satisfied_authorizes by blast
  next
    case False
    with rest have "ok = b" "s' = s1" by (cases b; simp)+
    then show ?thesis using act satisfied_authorizes by blast
  qed
qed

lemma members_check_sound:
  assumes "\<And>auth. consulted ctx R auth \<Longrightarrow> sound_on (fst ` set (account_auths auth)) ctx K A (named_keys ctx R) sub (authorized ctx K A)"
  shows "sound_check ctx K A R (check_members ctx sub)"
proof -
  have "k \<in> named_keys ctx R" if "consulted ctx R auth" "names_key ctx auth k" for auth k using that by (auto simp: named_keys_def)
  then show ?thesis unfolding sound_check_def using check_members_sound [OF assms] by (subst sound_on_def) blast
qed

lemma check_levels_sound: "sound_check ctx K A R (check_levels ctx n)"
proof (induction n)
  case 0
  show ?case unfolding check_levels.simps by (rule members_check_sound) (simp add: sound_on_def)
next
  case (Suc n)
  have "sound_on (fst ` set (account_auths auth)) ctx K A (named_keys ctx R) (check_account ctx (check_levels ctx n)) (authorized ctx K A)"
    if "consulted ctx R auth" for auth
    unfolding sound_on_def using check_account_sound [OF Suc.IH] consulted.member [OF that] by blast
  then show ?case unfolding check_levels.simps by (rule members_check_sound)
qed

subsection \<open>Verified transactions are authorized\<close>

lemma res_fold_each:
  assumes "res_fold f xs s = Inr s'" "I s" "\<And>x s s'. x \<in> set xs \<Longrightarrow> I s \<Longrightarrow> f x s = Inr s' \<Longrightarrow> I s' \<and> Q x"
  shows "I s' \<and> (\<forall>x\<in>set xs. Q x)"
  using assms
proof (induction xs arbitrary: s)
  case (Cons x xs)
  from Cons.prems(1) obtain s1 where s1: "f x s = Inr s1" "res_fold f xs s1 = Inr s'" by auto
  have "I s1 \<and> Q x" by (rule Cons.prems(3) [OF _ Cons.prems(2) s1(1)]) simp
  moreover have "I s' \<and> (\<forall>x\<in>set xs. Q x)" by (rule Cons.IH [OF s1(2)]) (use calculation Cons.prems(3) in auto)
  ultimately show ?case by simp
qed simp

lemma demandE:
  assumes "demand name r = Inr s"
  shows "r = Inr (True, s)"
  using assms by (auto simp: demand_def split: if_splits)

lemma check_authority_sound:
  assumes "good_state ctx K A (named_keys ctx R) s" "consulted ctx R auth" "check_authority ctx auth s = Inr (ok, s')"
  shows "good_state ctx K A (named_keys ctx R) s' \<and> (ok \<longrightarrow> satisfied ctx K A auth)"
  using sound_onD [OF check_levels_sound [unfolded sound_check_def] _ assms(1) assms(3) [unfolded check_authority_def]] assms(2) by blast

lemma check_authority_is_sound: "sound_check ctx K A R (check_authority ctx)"
  by (simp add: check_authority_def check_levels_sound)

lemmas check_authority_pointer = check_pointer_sound [OF check_authority_is_sound]
lemmas check_authority_account = check_account_sound [OF check_authority_is_sound]

text \<open>What an account whose active authority is required must have: it is authorized, or its owner authority is satisfied.\<close>

definition owner_satisfied :: "sign_context \<Rightarrow> pub_key set \<Rightarrow> account_id set \<Rightarrow> account_id \<Rightarrow> bool" where
  "owner_satisfied ctx K A a \<longleftrightarrow> (\<exists>auth. get_owner ctx a = Inr (Some auth) \<and> satisfied ctx K A auth)"

lemma demand_owner_sound:
  assumes "good_state ctx K A (named_keys ctx R) s" "demand_owner ctx owners a s = Inr s'"
    "\<And>auth. get_active ctx a = Inr (Some auth) \<or> get_owner ctx a = Inr (Some auth) \<Longrightarrow> auth \<in> R"
  shows "good_state ctx K A (named_keys ctx R) s' \<and> (a \<in> set owners \<or> owner_satisfied ctx K A a)"
proof (cases "a \<in> set owners")
  case True
  with assms(1,2) show ?thesis by (simp add: demand_owner_def demand_def)
next
  case False
  with assms(2) have "check_pointer (check_authority ctx) (get_owner ctx a) s = Inr (True, s')" by (auto simp: demand_owner_def dest: demandE)
  from check_authority_pointer [OF assms(1) this] assms(3) show ?thesis by (auto simp: owner_satisfied_def intro: consulted.root)
qed

lemma demand_active_sound:
  assumes "good_state ctx K A (named_keys ctx R) s" "demand_active ctx a s = Inr s'"
    "\<And>auth. get_active ctx a = Inr (Some auth) \<or> get_owner ctx a = Inr (Some auth) \<Longrightarrow> auth \<in> R"
  shows "good_state ctx K A (named_keys ctx R) s' \<and> (authorized ctx K A a \<or> owner_satisfied ctx K A a)"
proof -
  have roots: "consulted ctx R auth" if "get_active ctx a = Inr (Some auth) \<or> get_owner ctx a = Inr (Some auth)" for auth
    using assms(3) that by (auto intro: consulted.root)
  from assms(2) have d: "or_else (check_authority_of ctx a s) (check_pointer (check_authority ctx) (get_owner ctx a)) = Inr (True, s')"
    unfolding demand_active_def by (rule demandE)
  then obtain p where p: "check_authority_of ctx a s = Inr p" unfolding or_else_def by (rule res_bind_InrE)
  obtain ok s1 where r: "check_authority_of ctx a s = Inr (ok, s1)" using p by (cases p) simp
  have g: "good_state ctx K A (named_keys ctx R) s1 \<and> (ok \<longrightarrow> authorized ctx K A a)"
  proof (cases "a \<in> set (approved_by s)")
    case True
    with r assms(1) show ?thesis by (auto simp: check_authority_of_def good_state_def)
  next
    case False
    with r have "check_account ctx (check_authority ctx) a s = Inr (ok, s1)" by (simp add: check_authority_of_def)
    from check_authority_account [OF assms(1) this roots] show ?thesis .
  qed
  show ?thesis
  proof (cases ok)
    case True
    with d r g show ?thesis by (simp add: or_else_def)
  next
    case False
    with d r have "check_pointer (check_authority ctx) (get_owner ctx a) s1 = Inr (True, s')" by (simp add: or_else_def)
    from check_authority_pointer [OF conjunct1 [OF g] this] roots show ?thesis by (auto simp: owner_satisfied_def)
  qed
qed

text \<open>The roots of a check: the authorities a transaction asks for.\<close>

definition root_authorities :: "sign_context \<Rightarrow> operation list \<Rightarrow> authority set" where
  "root_authorities ctx ops = set (req_other (required_authorities ops)) \<union>
     {auth. \<exists>a \<in> set (req_active (required_authorities ops)) \<union> set (req_owner (required_authorities ops)).
        get_active ctx a = Inr (Some auth) \<or> get_owner ctx a = Inr (Some auth)}"

lemma fold_List_insert: "set (fold List.insert xs ys) = set xs \<union> set ys"
  by (induction xs arbitrary: ys) auto

lemma verify_authority_checks:
  assumes "verify_authority ctx0 ops sigs allow actives owners = Inr ()"
  defines "ctx \<equiv> ctx0\<lparr>available_keys := []\<rparr>" and "r \<equiv> required_authorities ops"
    and "A \<equiv> insert GRAPHENE_TEMP_ACCOUNT (set actives \<union> set owners)"
  obtains s where "good_state ctx (set sigs) A (named_keys ctx (root_authorities ctx ops)) s" "\<forall>p\<in>set (provided_signatures s). snd p"
    "\<forall>auth\<in>set (req_other r). satisfied ctx (set sigs) A auth"
    "\<forall>a\<in>set (req_owner r). a \<in> set owners \<or> owner_satisfied ctx (set sigs) A a"
    "\<forall>a\<in>set (req_active r). authorized ctx (set sigs) A a \<or> owner_satisfied ctx (set sigs) A a"
    "allow \<or> GRAPHENE_COMMITTEE_ACCOUNT \<notin> set (req_active r)"
proof -
  let ?R = "root_authorities ctx ops" let ?I = "good_state ctx (set sigs) A (named_keys ctx ?R)"
  define s1 where "s1 = (new_sign_state sigs)\<lparr>approved_by := fold List.insert (actives @ owners) (approved_by (new_sign_state sigs))\<rparr>"
  have committee: "allow \<or> GRAPHENE_COMMITTEE_ACCOUNT \<notin> set (req_active r)"
  proof (rule ccontr)
    assume "\<not> (allow \<or> GRAPHENE_COMMITTEE_ACCOUNT \<notin> set (req_active r))"
    then have "verify_authority ctx0 ops sigs allow actives owners = Inl (Throw_exn ''invalid_committee_approval'')"
      unfolding verify_authority_def Let_def r_def by (simp only: de_Morgan_disj not_not simp_thms if_True)
    with assms(1) show False by simp
  qed
  then have c: "(\<not> allow \<and> GRAPHENE_COMMITTEE_ACCOUNT \<in> set (req_active (required_authorities ops))) = False" by (auto simp: r_def)
  have body: "res_bind (res_fold (\<lambda>auth s. demand ''tx_missing_other_auth'' (check_authority ctx auth s)) (req_other r) s1) (\<lambda>s2.
      res_bind (res_fold (demand_owner ctx owners) (req_owner r) s2) (\<lambda>s3.
      res_bind (res_fold (demand_active ctx) (req_active r) s3) (\<lambda>s4.
      if fst (remove_unused_signatures s4) then Inl (Throw_exn ''tx_irrelevant_sig'') else Inr ()))) = Inr ()"
    using assms(1) unfolding verify_authority_def Let_def r_def ctx_def s1_def c if_False .
  then obtain s2 s3 s4 where s: "res_fold (\<lambda>auth s. demand ''tx_missing_other_auth'' (check_authority ctx auth s)) (req_other r) s1 = Inr s2"
    "res_fold (demand_owner ctx owners) (req_owner r) s2 = Inr s3" "res_fold (demand_active ctx) (req_active r) s3 = Inr s4"
    "(if fst (remove_unused_signatures s4) then Inl (Throw_exn ''tx_irrelevant_sig'') else Inr ()) = Inr ()"
    by (elim res_bind_InrE) (rule that)
  have "?I s1" by (auto simp: good_state_def s1_def new_sign_state_def ctx_def A_def fold_List_insert image_image intro: authorized.given)
  then have g2: "?I s2 \<and> (\<forall>auth\<in>set (req_other r). satisfied ctx (set sigs) A auth)"
  proof (rule res_fold_each [where I = ?I, OF s(1)])
    fix auth t t' assume "auth \<in> set (req_other r)" and t: "?I t" and "demand ''tx_missing_other_auth'' (check_authority ctx auth t) = Inr t'"
    then have "consulted ctx ?R auth" "check_authority ctx auth t = Inr (True, t')" using demandE by (auto simp: root_authorities_def r_def intro: consulted.root)
    from check_authority_sound [OF t this] show "?I t' \<and> satisfied ctx (set sigs) A auth" by simp
  qed
  have g3: "?I s3 \<and> (\<forall>a\<in>set (req_owner r). a \<in> set owners \<or> owner_satisfied ctx (set sigs) A a)"
    by (rule res_fold_each [where I = ?I, OF s(2) conjunct1 [OF g2]]) (rule demand_owner_sound, auto simp: root_authorities_def r_def)
  have g4: "?I s4 \<and> (\<forall>a\<in>set (req_active r). authorized ctx (set sigs) A a \<or> owner_satisfied ctx (set sigs) A a)"
    by (rule res_fold_each [where I = ?I, OF s(3) conjunct1 [OF g3]]) (rule demand_active_sound, auto simp: root_authorities_def r_def)
  show ?thesis
  proof (rule that)
    show "?I s4" using g4 by simp
    show "\<forall>p\<in>set (provided_signatures s4). snd p" using s(4) by (auto simp: remove_unused_signatures_def split: if_splits)
  qed (use g2 g3 g4 committee in blast)+
qed

text \<open>The keys a wallet could still sign with do not matter for who is authorized.\<close>

lemma address_held_available [simp]: "address_held (ctx\<lparr>available_keys := ks\<rparr>) = address_held ctx"
  by (simp add: address_held_def fun_eq_iff)

lemma approving_weight_available [simp]: "approving_weight (ctx\<lparr>available_keys := ks\<rparr>) = approving_weight ctx"
  by (simp add: approving_weight_def fun_eq_iff)

lemma authorized_available_le: "authorized (ctx\<lparr>available_keys := ks\<rparr>) K A a \<Longrightarrow> authorized ctx K A a"
  by (induction rule: authorized.induct) (auto intro: authorized.intros)

lemma authorized_available: "authorized (ctx\<lparr>available_keys := ks\<rparr>) K A = authorized ctx K A"
  using authorized_available_le [where ctx = "ctx\<lparr>available_keys := ks\<rparr>" and ks = "available_keys ctx" and K = K and A = A]
    authorized_available_le [where ctx = ctx and ks = ks and K = K and A = A] by auto

lemma satisfied_available: "satisfied (ctx\<lparr>available_keys := ks\<rparr>) K A = satisfied ctx K A" "owner_satisfied (ctx\<lparr>available_keys := ks\<rparr>) K A = owner_satisfied ctx K A"
  by (simp_all add: fun_eq_iff satisfied_def owner_satisfied_def authorized_available)

lemma consulted_available_le: "consulted (ctx\<lparr>available_keys := ks\<rparr>) R a \<Longrightarrow> consulted ctx R a"
  by (induction rule: consulted.induct) (auto intro: consulted.intros)

lemma root_authorities_available: "root_authorities (ctx\<lparr>available_keys := ks\<rparr>) ops = root_authorities ctx ops"
  by (simp add: root_authorities_def)

lemma verified_payers:
  assumes "verify_authority ctx ops sigs allow actives owners = Inr ()" "a \<in> set (req_active (required_authorities ops))"
  defines "A \<equiv> insert GRAPHENE_TEMP_ACCOUNT (set actives \<union> set owners)"
  shows "authorized ctx (set sigs) A a \<or> owner_satisfied ctx (set sigs) A a" "allow \<or> a \<noteq> GRAPHENE_COMMITTEE_ACCOUNT"
  using assms(2) by (rule_tac [!] verify_authority_checks [OF assms(1)]) (unfold A_def authorized_available satisfied_available, blast+)

text \<open>C2: a transaction that passes \<open>verify_authority\<close> is authorized by its signatures. Every account whose active authority an
  operation needs is authorized by the keys that signed and the approvals given, through authorities that reach their
  threshold, or its owner authority is; every account whose owner authority is needed approved as owner or has its owner authority
  satisfied; every other authority is satisfied; and no transaction of the committee passes unless it is allowed. Weights that
  wrap around in 32 bits cannot authorize anything.\<close>

theorem verified_transaction_authorized:
  assumes "verify_authority ctx ops sigs allow actives owners = Inr ()"
  defines "r \<equiv> required_authorities ops" and "A \<equiv> insert GRAPHENE_TEMP_ACCOUNT (set actives \<union> set owners)"
  shows "(\<forall>a\<in>set (req_active r). authorized ctx (set sigs) A a \<or> owner_satisfied ctx (set sigs) A a)
    \<and> (\<forall>a\<in>set (req_owner r). a \<in> set owners \<or> owner_satisfied ctx (set sigs) A a)
    \<and> (\<forall>auth\<in>set (req_other r). satisfied ctx (set sigs) A auth)
    \<and> (allow \<or> GRAPHENE_COMMITTEE_ACCOUNT \<notin> set (req_active r))"
  by (rule verify_authority_checks [OF assms(1)])
    (unfold r_def A_def authorized_available satisfied_available, blast)

text \<open>a transaction that passes \<open>verify_authority\<close> carries no irrelevant signature: every key that signed it is named by an
  authority that the transaction needs or by one below it.\<close>

lemma signatures_relevant:
  assumes "verify_authority ctx ops sigs allow actives owners = Inr ()"
  shows "set sigs \<subseteq> named_keys ctx (root_authorities ctx ops)"
proof (rule verify_authority_checks [OF assms])
  let ?ctx = "ctx\<lparr>available_keys := []\<rparr>"
  fix s A assume s: "good_state ?ctx (set sigs) A (named_keys ?ctx (root_authorities ?ctx ops)) s" "\<forall>p\<in>set (provided_signatures s). snd p"
  have "set sigs \<subseteq> named_keys ?ctx (root_authorities ?ctx ops)" using s by (fastforce simp: good_state_def)
  also have "\<dots> \<subseteq> named_keys ctx (root_authorities ctx ops)"
    by (auto simp: named_keys_def names_key_def root_authorities_available dest: consulted_available_le)
  finally show ?thesis .
qed

subsection \<open>Enough signatures are accepted\<close>

text \<open>Whether an authority reaches its threshold within a number of levels, without remembering earlier approvals.\<close>

definition pointed :: "(authority \<Rightarrow> bool) \<Rightarrow> authority option res \<Rightarrow> bool" where
  "pointed P r \<longleftrightarrow> (case r of Inr (Some auth) \<Rightarrow> P auth | _ \<Rightarrow> False)"

primrec reaches :: "sign_context \<Rightarrow> pub_key set \<Rightarrow> account_id set \<Rightarrow> nat \<Rightarrow> authority \<Rightarrow> bool" where
  "reaches ctx K A 0 = (\<lambda>auth. weight_threshold auth \<le> approving_weight ctx K A auth)"
| "reaches ctx K A (Suc n) = (\<lambda>auth. weight_threshold auth \<le> approving_weight ctx K
     {a. a \<in> A \<or> pointed (reaches ctx K A n) (get_active ctx a) \<or> allow_non_immediate_owner ctx \<and> pointed (reaches ctx K A n) (get_owner ctx a)} auth)"

text \<open>What an orderly authority is like, down to a number of levels: no addresses, weights that add up in 32 bits, and members that exist.\<close>

definition safe_pointer :: "(authority \<Rightarrow> bool) \<Rightarrow> authority option res \<Rightarrow> bool" where
  "safe_pointer P r \<longleftrightarrow> (case r of Inl _ \<Rightarrow> False | Inr None \<Rightarrow> True | Inr (Some auth) \<Rightarrow> P auth)"

definition orderly_here :: "authority \<Rightarrow> bool" where
  "orderly_here auth \<longleftrightarrow> address_auths auth = [] \<and> sum_list (map snd (key_auths auth)) + sum_list (map snd (account_auths auth)) < 2 ^ 32"

primrec orderly :: "sign_context \<Rightarrow> nat \<Rightarrow> authority \<Rightarrow> bool" where
  "orderly ctx 0 = orderly_here"
| "orderly ctx (Suc n) = (\<lambda>auth. orderly_here auth \<and>
     (\<forall>p\<in>set (account_auths auth). safe_pointer (orderly ctx n) (get_active ctx (fst p)) \<and> safe_pointer (orderly ctx n) (get_owner ctx (fst p))))"

definition covers :: "sign_context \<Rightarrow> pub_key set \<Rightarrow> account_id set \<Rightarrow> sign_state \<Rightarrow> bool" where
  "covers ctx K A s \<longleftrightarrow> K \<subseteq> fst ` set (provided_signatures s) \<union> set (available_keys ctx) \<and> A \<subseteq> set (approved_by s)"

text \<open>A check never fails on orderly input, keeps what is covered and accepts what it should.\<close>

definition accepts_on :: "'m set \<Rightarrow> sign_context \<Rightarrow> pub_key set \<Rightarrow> account_id set \<Rightarrow> ('m \<Rightarrow> sign_state \<Rightarrow> (bool \<times> sign_state) res) \<Rightarrow> ('m \<Rightarrow> bool) \<Rightarrow> bool" where
  "accepts_on M ctx K A passes P \<longleftrightarrow> (\<forall>m\<in>M. \<forall>s. covers ctx K A s \<longrightarrow> (\<exists>ok s'. passes m s = Inr (ok, s') \<and> covers ctx K A s' \<and> (P m \<longrightarrow> ok)))"

lemma accepts_onE:
  assumes "accepts_on M ctx K A passes P" "m \<in> M" "covers ctx K A s"
  obtains ok s' where "passes m s = Inr (ok, s')" "covers ctx K A s'" "P m \<Longrightarrow> ok"
  using assms unfolding accepts_on_def by blast

lemma accepts_on_subset: "accepts_on M ctx K A passes P \<Longrightarrow> M' \<subseteq> M \<Longrightarrow> accepts_on M' ctx K A passes P"
  unfolding accepts_on_def by blast

lemma covers_mark_used: "covers ctx K A s \<Longrightarrow> covers ctx K A (mark_used k s)"
  by (auto simp: covers_def mark_used_def mark_key_keys)

lemma signed_by_key_accepts: "accepts_on M ctx K A (signed_by_key ctx) (\<lambda>k. k \<in> K)"
  unfolding accepts_on_def
proof (intro ballI allI impI)
  fix k s assume s: "covers ctx K A s"
  show "\<exists>ok s'. signed_by_key ctx k s = Inr (ok, s') \<and> covers ctx K A s' \<and> (k \<in> K \<longrightarrow> ok)"
  proof (cases "map_of (provided_signatures s) k")
    case None
    then have "k \<notin> fst ` set (provided_signatures s)" by (simp add: map_of_eq_None_iff)
    with s have "k \<in> K \<longrightarrow> k \<in> set (available_keys ctx)" unfolding covers_def by blast
    with None s show ?thesis by (auto simp: signed_by_key_def intro: covers_mark_used)
  qed (auto simp: signed_by_key_def covers_mark_used s)
qed

lemma weight_sum_le: "weight_sum P ms \<le> sum_list (map snd ms)"
  by (induction ms) (auto simp: weight_sum_def)

lemma weigh_accepts:
  assumes "accepts_on (fst ` set ms) ctx K A passes P" "covers ctx K A s" "t + sum_list (map snd ms) < 2 ^ 32"
  shows "\<exists>reached t' s'. weigh passes threshold ms t s = Inr (reached, t', s') \<and> covers ctx K A s' \<and> t' \<le> t + sum_list (map snd ms)
    \<and> (reached \<or> t + weight_sum P ms \<le> t')"
  using assms
proof (induction ms arbitrary: t s)
  case (Cons p ms)
  obtain m w where p: "p = (m, w)" by (cases p)
  obtain ok s1 where ok: "passes m s = Inr (ok, s1)" "covers ctx K A s1" "P m \<Longrightarrow> ok"
    by (rule accepts_onE [OF Cons.prems(1) _ Cons.prems(2), of m]) (auto simp: p)
  have rest: "accepts_on (fst ` set ms) ctx K A passes P" by (rule accepts_on_subset [OF Cons.prems(1)]) auto
  have no_wrap: "(t + w) mod 2 ^ 32 = t + w" using Cons.prems(3) by (simp add: p)
  have step: "weigh passes threshold (p # ms) t s = (if ok \<and> t + w \<ge> threshold then Inr (True, t + w, s1)
      else weigh passes threshold ms (if ok then t + w else t) s1)"
    by (simp only: p weigh.simps ok(1) res_bind_simps prod.case Let_def no_wrap split: if_split) simp
  show ?case
  proof (cases "ok \<and> t + w \<ge> threshold")
    case True
    then have eq: "weigh passes threshold (p # ms) t s = Inr (True, t + w, s1)" using step by simp
    show ?thesis unfolding eq using ok(2) by (auto simp: p)
  next
    case False
    define u where "u = (if ok then t + w else t)"
    have "u + sum_list (map snd ms) < 2 ^ 32" using Cons.prems(3) by (auto simp: p u_def)
    from Cons.IH [OF rest ok(2) this] obtain reached t' s' where r: "weigh passes threshold ms u s1 = Inr (reached, t', s')" "covers ctx K A s'"
      "t' \<le> u + sum_list (map snd ms)" "reached \<or> u + weight_sum P ms \<le> t'" by blast
    have "weigh passes threshold (p # ms) t s = Inr (reached, t', s')" unfolding step u_def [symmetric] using False r(1) by auto
    moreover have "t' \<le> t + sum_list (map snd (p # ms))" "reached \<or> t + weight_sum P (p # ms) \<le> t'"
      using r(3,4) ok(3) by (auto simp: p u_def split: if_splits)
    ultimately show ?thesis using r(2) by blast
  qed
qed auto

lemma account_passes_accepts:
  assumes "accepts_on M ctx K A sub P"
  shows "accepts_on M ctx K A (account_passes sub) (\<lambda>a. a \<in> A \<or> P a)"
  unfolding accepts_on_def
proof (intro ballI allI impI)
  fix a s assume a: "a \<in> M" and s: "covers ctx K A s"
  show "\<exists>ok s'. account_passes sub a s = Inr (ok, s') \<and> covers ctx K A s' \<and> (a \<in> A \<or> P a \<longrightarrow> ok)"
  proof (cases "a \<in> set (approved_by s)")
    case False
    obtain ok s1 where s1: "sub a s = Inr (ok, s1)" "covers ctx K A s1" "P a \<Longrightarrow> ok" by (rule accepts_onE [OF assms a s]) (rule that)
    let ?s = "if ok then s1\<lparr>approved_by := List.insert a (approved_by s1)\<rparr> else s1"
    have "a \<notin> A" using False s by (auto simp: covers_def)
    moreover have "covers ctx K A ?s" using s1(2) by (auto simp: covers_def)
    moreover have "account_passes sub a s = Inr (ok, ?s)" using False s1(1) by (simp add: account_passes_def)
    ultimately show ?thesis using s1(3) by blast
  qed (use s in \<open>auto simp: account_passes_def\<close>)
qed

lemma check_members_accepts:
  assumes "accepts_on (fst ` set (account_auths auth)) ctx K A sub P" "orderly_here auth" "covers ctx K A s"
  shows "\<exists>ok s'. check_members ctx sub auth s = Inr (ok, s') \<and> covers ctx K A s'
    \<and> (weight_threshold auth \<le> approving_weight ctx K {a. a \<in> A \<or> P a} auth \<longrightarrow> ok)"
proof -
  let ?t = "weight_threshold auth" let ?k = "sum_list (map snd (key_auths auth))" and ?a = "sum_list (map snd (account_auths auth))"
  have small: "0 + ?k < 2 ^ 32" "?k + ?a < 2 ^ 32" and none: "address_auths auth = []" using assms(2) by (auto simp: orderly_here_def)
  obtain r1 t1 s1 where w1: "weigh (signed_by_key ctx) ?t (key_auths auth) 0 s = Inr (r1, t1, s1)" "covers ctx K A s1" "t1 \<le> 0 + ?k"
    "r1 \<or> 0 + weight_sum (\<lambda>k. k \<in> K) (key_auths auth) \<le> t1"
    using weigh_accepts [OF signed_by_key_accepts assms(3) small(1)] by blast
  have "t1 + ?a < 2 ^ 32" using w1(3) small(2) by simp
  from weigh_accepts [OF account_passes_accepts [OF assms(1)] w1(2) this]
  obtain r3 t3 s3 where w3: "weigh (account_passes sub) ?t (account_auths auth) t1 s1 = Inr (r3, t3, s3)" "covers ctx K A s3"
    "r3 \<or> t1 + weight_sum (\<lambda>a. a \<in> A \<or> P a) (account_auths auth) \<le> t3" by blast
  have "check_members ctx sub auth s = (if r1 then Inr (True, s1) else Inr (r3 \<or> t3 \<ge> ?t, s3))"
    unfolding check_members_def none weigh.simps by (simp only: w1(1) w3(1) res_bind_simps prod.case if_False)
  moreover have "?t \<le> approving_weight ctx K {a. a \<in> A \<or> P a} auth \<Longrightarrow> r1 \<or> r3 \<or> t3 \<ge> ?t"
    using w1(4) w3(3) by (auto simp: approving_weight_def none)
  ultimately show ?thesis using w1(2) w3(2) by (cases r1) auto
qed

lemma check_pointer_accepts:
  assumes "accepts_on {auth. Q auth} ctx K A chk P" "safe_pointer Q r" "covers ctx K A s"
  shows "\<exists>ok s'. check_pointer chk r s = Inr (ok, s') \<and> covers ctx K A s' \<and> (pointed P r \<longrightarrow> ok)"
proof -
  from assms(2) consider "r = Inr None" | auth where "r = Inr (Some auth)" "Q auth" by (auto simp: safe_pointer_def split: sum.splits option.splits)
  then show ?thesis
  proof cases
    case 2
    then show ?thesis using assms(1,3) unfolding accepts_on_def by (simp add: check_pointer_def pointed_def)
  qed (auto simp: check_pointer_def pointed_def assms(3))
qed

lemma check_account_accepts:
  assumes "accepts_on {auth. Q auth} ctx K A chk P" "\<And>a. a \<in> M \<Longrightarrow> safe_pointer Q (get_active ctx a) \<and> safe_pointer Q (get_owner ctx a)"
  shows "accepts_on M ctx K A (check_account ctx chk) (\<lambda>a. pointed P (get_active ctx a) \<or> allow_non_immediate_owner ctx \<and> pointed P (get_owner ctx a))"
  unfolding accepts_on_def
proof (intro ballI allI impI)
  fix a s assume a: "a \<in> M" and s: "covers ctx K A s"
  let ?P = "pointed P (get_active ctx a) \<or> allow_non_immediate_owner ctx \<and> pointed P (get_owner ctx a)"
  from check_pointer_accepts [OF assms(1) conjunct1 [OF assms(2) [OF a]] s]
  obtain ok1 s1 where s1: "check_pointer chk (get_active ctx a) s = Inr (ok1, s1)" "covers ctx K A s1" "pointed P (get_active ctx a) \<longrightarrow> ok1" by blast
  from check_pointer_accepts [OF assms(1) conjunct2 [OF assms(2) [OF a]] s1(2)]
  obtain ok2 s2 where s2: "check_pointer chk (get_owner ctx a) s1 = Inr (ok2, s2)" "covers ctx K A s2" "pointed P (get_owner ctx a) \<longrightarrow> ok2" by blast
  have "check_account ctx chk a s = (if ok1 then Inr (True, s1) else if allow_non_immediate_owner ctx then Inr (ok2, s2) else Inr (False, s1))"
    unfolding check_account_def by (simp only: s1(1) s2(1) res_bind_simps prod.case)
  then show "\<exists>ok s'. check_account ctx chk a s = Inr (ok, s') \<and> covers ctx K A s' \<and> (?P \<longrightarrow> ok)"
    using s1(2,3) s2(2,3) by (cases ok1; cases "allow_non_immediate_owner ctx") auto
qed

lemma check_levels_accepts: "accepts_on {auth. orderly ctx n auth} ctx K A (check_levels ctx n) (reaches ctx K A n)"
proof (induction n)
  case 0
  have "accepts_on M ctx K A (\<lambda>_ s. Inr (False, s)) (\<lambda>_. False)" for M :: "account_id set" by (auto simp: accepts_on_def)
  from check_members_accepts [OF this] show ?case unfolding accepts_on_def check_levels.simps reaches.simps orderly.simps by simp
next
  case (Suc n)
  let ?P = "\<lambda>a. pointed (reaches ctx K A n) (get_active ctx a) \<or> allow_non_immediate_owner ctx \<and> pointed (reaches ctx K A n) (get_owner ctx a)"
  have "accepts_on (fst ` set (account_auths auth)) ctx K A (check_account ctx (check_levels ctx n)) ?P" if "orderly ctx (Suc n) auth" for auth
    by (rule check_account_accepts [OF Suc.IH]) (use that in auto)
  from check_members_accepts [OF this] show ?case unfolding accepts_on_def check_levels.simps reaches.simps by simp
qed

text \<open>C22: enough signatures are accepted. An authority that reaches its threshold within the recursion limit from keys that signed and
  accounts that approved passes \<open>check_authority\<close>, whatever was checked before, if the authorities below it hold no addresses, have
  weights that add up in 32 bits and name accounts that exist.\<close>

theorem sufficient_signatures_accepted:
  assumes "reaches ctx K A (max_recursion ctx) auth" "orderly ctx (max_recursion ctx) auth" "covers ctx K A s"
  shows "\<exists>s'. check_authority ctx auth s = Inr (True, s') \<and> covers ctx K A s'"
  using accepts_onE [OF check_levels_accepts [of ctx "max_recursion ctx" K A] _ assms(3), of auth] assms(1,2) unfolding check_authority_def by auto

subsection \<open>A sample\<close>

text \<open>Account 10 is controlled by key 1 alone, account 11 by any two of key 2, key 3 and account 10.\<close>

definition sample_authority :: "account_id \<Rightarrow> authority option res" where
  "sample_authority a =
     (if a = 10 then Inr (Some \<lparr>weight_threshold = 1, account_auths = [], key_auths = [(1, 1)], address_auths = []\<rparr>)
      else if a = 11 then Inr (Some \<lparr>weight_threshold = 2, account_auths = [(10, 1)], key_auths = [(2, 1), (3, 1)], address_auths = []\<rparr>)
      else Inl (Throw_exn ''no such account''))"

definition sample_context :: sign_context where
  "sample_context = \<lparr>get_active = sample_authority, get_owner = sample_authority, allow_non_immediate_owner = True, max_recursion = 2,
     available_keys = [], addresses_of = (\<lambda>k. [k])\<rparr>"

definition sample_payment :: operation where
  "sample_payment = Transfer \<lparr>tr_fee = mk_asset 0 0, tr_from = 11, tr_to = 10, tr_amount = mk_asset 5 0\<rparr>"

lemma sample_verified: "verify_authority sample_context [sample_payment] [1, 2] False [] [] = Inr ()"
  by code_simp

theorem verified_transaction_authorized_witness:
  "verify_authority sample_context [sample_payment] [1, 2] False [] [] = Inr ()
   \<and> (authorized sample_context {1, 2} {GRAPHENE_TEMP_ACCOUNT} 11 \<or> owner_satisfied sample_context {1, 2} {GRAPHENE_TEMP_ACCOUNT} 11)"
proof -
  have "req_active (required_authorities [sample_payment]) = [11]" by code_simp
  with verified_transaction_authorized [OF sample_verified] sample_verified show ?thesis by simp
qed

theorem sufficient_signatures_accepted_witness:
  "\<exists>auth s'. sample_authority 11 = Inr (Some auth) \<and> check_authority sample_context auth (new_sign_state [1, 2]) = Inr (True, s')"
proof -
  obtain auth where auth: "sample_authority 11 = Inr (Some auth)" by (simp add: sample_authority_def)
  have m: "max_recursion sample_context = Suc (Suc 0)" by (simp add: sample_context_def)
  have "reaches sample_context {1, 2} {} (max_recursion sample_context) auth" "orderly sample_context (max_recursion sample_context) auth"
    "covers sample_context {1, 2} {} (new_sign_state [1, 2])"
    using auth unfolding m by (auto simp: sample_context_def sample_authority_def approving_weight_def weight_sum_def pointed_def
        orderly_here_def safe_pointer_def covers_def new_sign_state_def)
  from sufficient_signatures_accepted [OF this] auth show ?thesis by blast
qed

end
