(* ===== verification/Replay_Protection.thy ===== *)
theory Replay_Protection
  imports Transactions Authority
begin

text \<open>
  Applying a signed transaction (\<open>database::_apply_transaction\<close> in \<open>libraries/chain/db_block.cpp\<close>): validation, the
  check for duplicates, signatures, the reference to a recent block (TaPoS), expiration and size, and then the operations;
  and \<open>clear_expired_transactions\<close> of \<open>db_update.cpp\<close>.

  The hash of a transaction, its packed size and the keys recovered from its signatures are data of the model's transaction.
  Transaction history and block summaries are indexes of their own beside the database record. A TaPoS reference is compared with
  the second word of the block identifier, which is all a block summary keeps here.
\<close>

subsection \<open>Transactions and skip flags\<close>

record signed_transaction =
  trx_id :: nat
  ref_block_num :: nat
  ref_block_prefix :: nat
  trx_expiration :: time_sec
  trx_operations :: "(operation \<times> op_sizes) list"
  recovered_keys :: "pub_key list"
  trx_packed_size :: nat

record transaction_history_object =
  th_trx_id :: nat
  th_expiration :: time_sec

record validation_steps =
  skip_transaction_signatures :: bool
  skip_transaction_dupe_check :: bool
  skip_block_size_check :: bool
  skip_tapos_check :: bool

record chain =
  chain_db :: database
  transactions :: "transaction_history_object index"
  block_summaries :: "nat index"

subsection \<open>The checks\<close>

definition known_transaction :: "nat \<Rightarrow> chain \<Rightarrow> bool" where
  "known_transaction i c \<longleftrightarrow> (\<exists>p\<in>set (ix_tab (transactions c)). th_trx_id (snd p) = i)"

text \<open>The callbacks of \<open>verify_authority\<close>: the authorities of an account object, which throw when there is no such account.\<close>

definition chain_context :: "environment \<Rightarrow> database \<Rightarrow> sign_context" where
  "chain_context env db =
     \<lparr>get_active = (\<lambda>a. res_bind (get_account db a) (\<lambda>ao. Inr (Some (active_auth ao)))),
      get_owner = (\<lambda>a. res_bind (get_account db a) (\<lambda>ao. Inr (Some (owner_auth ao)))),
      allow_non_immediate_owner = (head_block_time db \<ge> HARDFORK_CORE_584_TIME),
      max_recursion = max_authority_depth (parameters db), available_keys = [], addresses_of = key_addresses env\<rparr>"

definition check_signatures :: "environment \<Rightarrow> signed_transaction \<Rightarrow> database \<Rightarrow> unit res" where
  "check_signatures env trx db =
     res_bind (get_signature_keys (recovered_keys trx)) (\<lambda>keys.
       verify_authority (chain_context env db) (map fst (trx_operations trx)) keys False [] [])"

definition check_tapos :: "signed_transaction \<Rightarrow> chain \<Rightarrow> unit res" where
  "check_tapos trx c =
     res_bind (opt_get ''Unable to find Object'' (ix_get (ref_block_num trx) (block_summaries c))) (\<lambda>prefix.
     FC_ASSERT (ref_block_prefix trx = prefix) ''trx.ref_block_prefix == tapos_block_summary.block_id._hash[1]'' (Inr ()))"

definition check_expiration :: "validation_steps \<Rightarrow> signed_transaction \<Rightarrow> database \<Rightarrow> unit res" where
  "check_expiration skip trx db =
     (let now = head_block_time db in
      FC_ASSERT (trx_expiration trx \<le> time_plus now (maximum_time_until_expiration (parameters db))) ''trx.expiration <= now + maximum_time_until_expiration''
     (FC_ASSERT (now \<le> trx_expiration trx) ''now <= trx.expiration''
     (if \<not> skip_block_size_check skip
      then FC_ASSERT (head_block_time db \<le> HARDFORK_CORE_1573_TIME \<or> trx_packed_size trx \<le> maximum_transaction_size (parameters db))
             ''Transaction exceeds maximum transaction size.'' (Inr ())
      else Inr ())))"

definition remember_transaction :: "signed_transaction \<Rightarrow> chain \<Rightarrow> chain" where
  "remember_transaction trx c = c\<lparr>transactions := ix_create \<lparr>th_trx_id = trx_id trx, th_expiration = trx_expiration trx\<rparr> (transactions c)\<rparr>"

definition apply_transaction :: "environment \<Rightarrow> fc_lib \<Rightarrow> validation_steps \<Rightarrow> signed_transaction \<Rightarrow> chain \<Rightarrow> chain res" where
  "apply_transaction env lib skip trx c =
     res_bind (transaction_validate (trx_operations trx)) (\<lambda>_.
     FC_ASSERT (skip_transaction_dupe_check skip \<or> \<not> known_transaction (trx_id trx) c) ''trx_idx.find(trx.id()) == trx_idx.end()''
    (res_bind (if skip_transaction_signatures skip then Inr () else check_signatures env trx (chain_db c)) (\<lambda>_.
     res_bind (if head_block_number (dgp (chain_db c)) > 0
               then res_bind (if skip_tapos_check skip then Inr () else check_tapos trx c) (\<lambda>_. check_expiration skip trx (chain_db c))
               else Inr ()) (\<lambda>_.
     let c1 = (if skip_transaction_dupe_check skip then c else remember_transaction trx c) in
     res_bind (res_fold (apply_operation env lib False) (trx_operations trx) (chain_db c1)) (\<lambda>db.
     Inr (c1\<lparr>chain_db := db\<rparr>))))))"

text \<open>\<open>clear_expired_transactions\<close>: what has expired leaves from the front of the index by expiration.\<close>

definition expired_transactions :: "chain \<Rightarrow> obj_id list" where
  "expired_transactions c = map fst (takeWhile (\<lambda>p. th_expiration (snd p) < head_block_time (chain_db c)) (sorted_index earlier th_expiration (transactions c)))"

definition clear_expired_transactions :: "chain \<Rightarrow> chain" where
  "clear_expired_transactions c = c\<lparr>transactions := fold ix_remove (expired_transactions c) (transactions c)\<rparr>"

subsection \<open>Nothing is applied twice\<close>

abbreviation chain_time :: "chain \<Rightarrow> time_sec" where
  "chain_time c \<equiv> head_block_time (chain_db c)"

text \<open>How a chain goes on: further transactions, expired entries that are dropped, and whatever else happens to the database and the
  block summaries, as long as time does not run backwards.\<close>

inductive later :: "environment \<Rightarrow> fc_lib \<Rightarrow> chain \<Rightarrow> chain \<Rightarrow> bool" for env lib where
  start: "later env lib c c"
| transaction: "later env lib c c1 \<Longrightarrow> apply_transaction env lib skip trx c1 = Inr c2 \<Longrightarrow> chain_time c1 \<le> chain_time c2 \<Longrightarrow> later env lib c c2"
| expire: "later env lib c c1 \<Longrightarrow> later env lib c (clear_expired_transactions c1)"
| update: "later env lib c c1 \<Longrightarrow> chain_time c1 \<le> head_block_time db \<Longrightarrow> later env lib c (c1\<lparr>chain_db := db, block_summaries := bs\<rparr>)"

text \<open>A transaction is blocked while it is remembered and once it has expired.\<close>

definition remembered :: "nat \<Rightarrow> time_sec \<Rightarrow> chain \<Rightarrow> bool" where
  "remembered i e c \<longleftrightarrow> (\<exists>j. ix_get j (transactions c) = Some \<lparr>th_trx_id = i, th_expiration = e\<rparr>)"

definition blocked :: "nat \<Rightarrow> time_sec \<Rightarrow> chain \<Rightarrow> bool" where
  "blocked i e c \<longleftrightarrow> ix_ok (transactions c) \<and>
     (remembered i e c \<or> e < chain_time c)"

lemma apply_transactionE:
  assumes "apply_transaction env lib skip trx c = Inr c'"
  obtains db where "transaction_validate (trx_operations trx) = Inr ()" "skip_transaction_dupe_check skip \<or> \<not> known_transaction (trx_id trx) c"
    "skip_transaction_signatures skip \<or> check_signatures env trx (chain_db c) = Inr ()"
    "head_block_number (dgp (chain_db c)) = 0 \<or> check_expiration skip trx (chain_db c) = Inr ()"
    "res_fold (apply_operation env lib False) (trx_operations trx) (chain_db c) = Inr db"
    "c' = (if skip_transaction_dupe_check skip then c else remember_transaction trx c)\<lparr>chain_db := db\<rparr>"
proof -
  let ?c = "if skip_transaction_dupe_check skip then c else remember_transaction trx c"
  have db: "chain_db ?c = chain_db c" by (simp add: remember_transaction_def)
  from assms obtain u1 u2 u3 db where s: "transaction_validate (trx_operations trx) = Inr u1"
    "skip_transaction_dupe_check skip \<or> \<not> known_transaction (trx_id trx) c"
    "(if skip_transaction_signatures skip then Inr () else check_signatures env trx (chain_db c)) = Inr u2"
    "(if head_block_number (dgp (chain_db c)) > 0
        then res_bind (if skip_tapos_check skip then Inr () else check_tapos trx c) (\<lambda>_. check_expiration skip trx (chain_db c)) else Inr ()) = Inr u3"
    "res_fold (apply_operation env lib False) (trx_operations trx) (chain_db ?c) = Inr db" "(Inr (?c\<lparr>chain_db := db\<rparr>) :: chain res) = Inr c'"
    unfolding apply_transaction_def Let_def FC_ASSERT_Inr by (elim res_bind_InrE conjE) (simp only: FC_ASSERT_Inr, elim res_bind_InrE conjE, rule that)
  show ?thesis
  proof (rule that)
    show "skip_transaction_signatures skip \<or> check_signatures env trx (chain_db c) = Inr ()" using s(3) by (cases "skip_transaction_signatures skip") auto
    show "head_block_number (dgp (chain_db c)) = 0 \<or> check_expiration skip trx (chain_db c) = Inr ()"
      using s(4) by (cases "head_block_number (dgp (chain_db c)) > 0") (auto elim: res_bind_InrE)
    show "res_fold (apply_operation env lib False) (trx_operations trx) (chain_db c) = Inr db" using s(5) by (simp only: db)
  qed (use s in auto)
qed

lemma remembered_known: "remembered i e c \<Longrightarrow> known_transaction i c"
  by (auto simp: remembered_def known_transaction_def ix_get_def dest!: map_of_SomeD intro!: bexI)

lemma remember_transaction_ok:
  assumes "ix_ok (transactions c)"
  shows "ix_ok (transactions (remember_transaction trx c))" "remembered (trx_id trx) (trx_expiration trx) (remember_transaction trx c)"
    "remembered i e c \<Longrightarrow> remembered i e (remember_transaction trx c)"
proof -
  have "ix_get (ix_next (transactions c)) (transactions c) = None"
    using assms by (auto simp: ix_get_def ix_ok_def map_of_eq_None_iff)
  then show "remembered i e c \<Longrightarrow> remembered i e (remember_transaction trx c)"
    using assms by (auto simp: remember_transaction_def remembered_def) (metis option.distinct(1))
  show "ix_ok (transactions (remember_transaction trx c))" "remembered (trx_id trx) (trx_expiration trx) (remember_transaction trx c)"
    using assms by (auto simp: remember_transaction_def remembered_def ix_ok_create)
qed

lemma fold_remove:
  assumes "ix_ok ix"
  shows "ix_ok (fold ix_remove is ix)" "ix_get j (fold ix_remove is ix) = (if j \<in> set is then None else ix_get j ix)"
  using assms by (induction "is" arbitrary: ix) (simp_all add: ix_ok_remove)

lemma clear_expired_blocked:
  assumes "blocked i e c"
  shows "blocked i e (clear_expired_transactions c)"
proof -
  have ok: "ix_ok (transactions c)" using assms by (simp add: blocked_def)
  have expired: "th_expiration th < chain_time c" if "j \<in> set (expired_transactions c)" "ix_get j (transactions c) = Some th" for j th
  proof -
    from that(1) obtain th' where th': "(j, th') \<in> set (ix_tab (transactions c))" "th_expiration th' < chain_time c"
      by (auto simp: expired_transactions_def dest!: set_takeWhileD)
    with that(2) ok show ?thesis by (auto simp: ix_get_def ix_ok_def map_of_is_SomeI)
  qed
  show ?thesis using assms fold_remove [OF ok] expired unfolding blocked_def remembered_def clear_expired_transactions_def
    by (auto split: if_splits) fastforce
qed

lemma later_blocked:
  assumes "later env lib c c'" "blocked i e c"
  shows "blocked i e c'"
  using assms
proof (induction rule: later.induct)
  case (transaction c c1 skip trx c2)
  then have b: "blocked i e c1" by simp
  from transaction.hyps(2) obtain db where c2: "c2 = (if skip_transaction_dupe_check skip then c1 else remember_transaction trx c1)\<lparr>chain_db := db\<rparr>"
    by (rule apply_transactionE)
  let ?c = "if skip_transaction_dupe_check skip then c1 else remember_transaction trx c1"
  have "ix_ok (transactions ?c)" "remembered i e c1 \<Longrightarrow> remembered i e ?c" using b remember_transaction_ok by (auto simp: blocked_def)
  moreover have "transactions c2 = transactions ?c" "remembered i e c2 = remembered i e ?c" by (simp_all add: c2 remembered_def)
  ultimately show ?case using b transaction.hyps(3) by (auto simp: blocked_def)
next
  case (expire c c1)
  then show ?case by (simp add: clear_expired_blocked)
qed (auto simp: blocked_def remembered_def)

lemma blocked_rejected:
  assumes "blocked (trx_id trx) (trx_expiration trx) c" "\<not> skip_transaction_dupe_check skip" "0 < head_block_number (dgp (chain_db c))"
  shows "\<exists>e. apply_transaction env lib skip trx c = Inl e"
proof (cases "apply_transaction env lib skip trx c")
  case (Inr c')
  then show ?thesis
  proof (rule apply_transactionE)
    assume "skip_transaction_dupe_check skip \<or> \<not> known_transaction (trx_id trx) c"
      "head_block_number (dgp (chain_db c)) = 0 \<or> check_expiration skip trx (chain_db c) = Inr ()"
    with assms remembered_known [of "trx_id trx" "trx_expiration trx" c] show ?thesis by (auto simp: blocked_def check_expiration_def Let_def)
  qed
qed simp


definition sample_trx :: signed_transaction where
  "sample_trx = \<lparr>trx_id = 77, ref_block_num = 1, ref_block_prefix = 42, trx_expiration = 2000000060, trx_operations = sample_transaction,
     recovered_keys = [2], trx_packed_size = 200\<rparr>"

definition sample_chain :: chain where
  "sample_chain = \<lparr>chain_db = sample_fees_db, transactions = \<lparr>ix_tab = [], ix_next = 0\<rparr>, block_summaries = \<lparr>ix_tab = [(1, 42)], ix_next = 65536\<rparr>\<rparr>"

definition check_all :: validation_steps where
  "check_all = \<lparr>skip_transaction_signatures = False, skip_transaction_dupe_check = False, skip_block_size_check = False, skip_tapos_check = False\<rparr>"

lemma sample_trx_applies: "\<exists>c1. apply_transaction sample_env std_lib check_all sample_trx sample_chain = Inr c1 \<and> chain_time c1 = 2000000000"
proof -
  have "(case apply_transaction sample_env std_lib check_all sample_trx sample_chain of Inl _ \<Rightarrow> False | Inr c1 \<Rightarrow> chain_time c1 = 2000000000)" by code_simp
  then show ?thesis by (auto split: sum.split_asm)
qed


subsection \<open>Applied transactions are signed\<close>

lemma req_active_mono: "set (req_active r) \<subseteq> set (req_active (fold operation_get_required_authorities ops r))"
proof (induction ops arbitrary: r)
  case (Cons op1 ops)
  have "set (req_active r) \<subseteq> set (req_active (operation_get_required_authorities op1 r))"
    by (auto simp: operation_get_required_authorities_def Let_def insert_account_def set_insort_key split: operation.splits option.splits)
  with Cons.IH show ?case by fastforce
qed simp

lemma payer_required: "op1 \<in> set ops \<Longrightarrow> fee_payer op1 \<in> set (req_active (required_authorities ops))"
proof -
  have "fee_payer op1 \<in> set (req_active (operation_get_required_authorities op1 r))" for op1 r
    by (auto simp: operation_get_required_authorities_def Let_def insert_account_def set_insort_key split: operation.split option.splits)
  moreover assume "op1 \<in> set ops"
  then obtain xs ys where "ops = xs @ op1 # ys" by (metis split_list)
  ultimately show ?thesis using req_active_mono by (fastforce simp: required_authorities_def)
qed

lemma signature_keys: "get_signature_keys ks = Inr keys \<Longrightarrow> set keys = set ks"
proof -
  have "res_fold (\<lambda>k ks. if k \<in> set ks then Inl (Throw_exn ''tx_duplicate_sig'') else Inr (insort k ks)) ks acc = Inr keys \<Longrightarrow> set keys = set ks \<union> set acc" for acc
    by (induction ks arbitrary: acc) (auto simp: set_insort_key split: if_splits)
  then show "get_signature_keys ks = Inr keys \<Longrightarrow> set keys = set ks" by (simp add: get_signature_keys_def)
qed

text \<open>C21: whoever pays for an operation of an applied transaction has authorized it: when signatures are checked, the fee payer of
  each operation is authorized, at the state the transaction found, by the keys recovered from its signatures, or its owner authority is satisfied
  by them; and the committee account pays for nothing.\<close>

theorem applied_transaction_signed:
  assumes "apply_transaction env lib skip trx c = Inr c'" "\<not> skip_transaction_signatures skip" "(op1, sizes) \<in> set (trx_operations trx)"
  defines "ctx \<equiv> chain_context env (chain_db c)" and "K \<equiv> set (recovered_keys trx)"
  shows "(authorized ctx K {GRAPHENE_TEMP_ACCOUNT} (fee_payer op1) \<or> owner_satisfied ctx K {GRAPHENE_TEMP_ACCOUNT} (fee_payer op1))
    \<and> fee_payer op1 \<noteq> GRAPHENE_COMMITTEE_ACCOUNT"
proof -
  from assms(1) have "check_signatures env trx (chain_db c) = Inr ()" by (rule apply_transactionE) (simp add: assms(2))
  then obtain keys where keys: "get_signature_keys (recovered_keys trx) = Inr keys"
    "verify_authority ctx (map fst (trx_operations trx)) keys False [] [] = Inr ()" unfolding check_signatures_def ctx_def by (elim res_bind_InrE)
  have "fee_payer op1 \<in> set (req_active (required_authorities (map fst (trx_operations trx))))" using assms(3) by (intro payer_required) force
  with verified_payers [OF keys(2)] signature_keys [OF keys(1)] show ?thesis by (auto simp: K_def)
qed

theorem applied_transaction_signed_witness:
  "\<exists>c' op1 sizes. apply_transaction sample_env std_lib check_all sample_trx sample_chain = Inr c' \<and> (op1, sizes) \<in> set (trx_operations sample_trx)
     \<and> fee_payer op1 = 2 \<and> (authorized (chain_context sample_env sample_fees_db) {2} {GRAPHENE_TEMP_ACCOUNT} 2
        \<or> owner_satisfied (chain_context sample_env sample_fees_db) {2} {GRAPHENE_TEMP_ACCOUNT} 2)"
proof -
  obtain c1 where c1: "apply_transaction sample_env std_lib check_all sample_trx sample_chain = Inr c1" using sample_trx_applies by blast
  define op1 where "op1 = Transfer \<lparr>tr_fee = mk_asset 0 0, tr_from = 2, tr_to = 1, tr_amount = mk_asset 50 1\<rparr>"
  have "(op1, \<lparr>memo_size = None, packed_size = 0\<rparr>) \<in> set (trx_operations sample_trx)" by (simp add: sample_trx_def sample_transaction_def op1_def)
  from applied_transaction_signed [OF c1 _ this] c1 this show ?thesis
    by (intro exI [of _ c1] exI [of _ op1] exI) (auto simp: check_all_def op1_def sample_trx_def sample_chain_def)
qed

end
