(* ===== verification/Witness_Schedule.thy ===== *)
theory Witness_Schedule
  imports Price_Feeds Balances "HOL-Library.Word"
begin

unbundle bit_operations_syntax

text \<open>
  Block production: slots and their times, which witness is scheduled for a slot, how the schedule is shuffled
  (\<open>libraries/chain/db_witness_schedule.cpp\<close>), and what a new block changes in the dynamic global properties and the signing
  witness, up to the last irreversible block (\<open>db_update.cpp\<close>).

  The shuffle computes its random numbers in 64-bit words, as the source does. The flag word \<open>dynamic_flags\<close> has one bit and is
  a boolean; block and chain identifiers are left out. \<open>std::nth_element\<close> is the selection of the price feeds.
\<close>

definition GRAPHENE_IRREVERSIBLE_THRESHOLD :: int where "GRAPHENE_IRREVERSIBLE_THRESHOLD = 7000"
definition GRAPHENE_MAX_UNDO_HISTORY :: nat where "GRAPHENE_MAX_UNDO_HISTORY = 10000"
definition GRAPHENE_RECENTLY_MISSED_COUNT_INCREMENT :: nat where "GRAPHENE_RECENTLY_MISSED_COUNT_INCREMENT = 4"
definition GRAPHENE_RECENTLY_MISSED_COUNT_DECREMENT :: nat where "GRAPHENE_RECENTLY_MISSED_COUNT_DECREMENT = 3"

subsection \<open>Slots\<close>

definition chain_interval :: "database \<Rightarrow> nat res" where
  "chain_interval db = (if block_interval (parameters db) = 0 then Inl (Throw_exn ''division by zero'') else Inr (block_interval (parameters db)))"

definition get_slot_time :: "nat \<Rightarrow> database \<Rightarrow> time_sec res" where
  "get_slot_time slot_num db =
     (if slot_num = 0 then Inr 0
      else if head_block_number (dgp db) = 0
      then Inr (time_plus (dgp_time (dgp db)) (u32_times slot_num (block_interval (parameters db))))
      else res_bind (chain_interval db) (\<lambda>interval.
        let head_slot_time = head_block_time db div interval * interval;
            n = (if maintenance_flag (dgp db) then (slot_num + maintenance_skip_slots (parameters db)) mod 2 ^ 32 else slot_num) in
        Inr (time_plus head_slot_time (u32_times n interval))))"

definition get_slot_at_time :: "time_sec \<Rightarrow> database \<Rightarrow> nat res" where
  "get_slot_at_time now db =
     res_bind (get_slot_time 1 db) (\<lambda>first_slot_time.
     if now < first_slot_time then Inr 0
     else res_bind (chain_interval db) (\<lambda>interval. Inr (((now - first_slot_time) div interval + 1) mod 2 ^ 32)))"

definition get_scheduled_witness :: "nat \<Rightarrow> database \<Rightarrow> obj_id res" where
  "get_scheduled_witness slot_num db =
     (let ws = current_shuffled_witnesses db; aslot = (current_aslot (dgp db) + slot_num) mod 2 ^ 64 in
      if ws = [] then Inl (Throw_exn ''modulo by zero'') else Inr (ws ! (aslot mod length ws)))"

subsection \<open>The schedule\<close>

text \<open>The random number of round \<open>i\<close>: one step of an xorshift generator, in 64-bit words.\<close>

definition xorshift :: "64 word \<Rightarrow> 64 word" where
  "xorshift k0 =
     (let k1 = k0 XOR drop_bit 12 k0;
          k2 = k1 XOR push_bit 25 k1;
          k3 = k2 XOR drop_bit 27 k2
      in k3 * 2685821657736338717)"

definition shuffle_key :: "time_sec \<Rightarrow> nat \<Rightarrow> nat" where
  "shuffle_key now i = unat (xorshift (push_bit 32 (of_nat now) + of_nat i * 2685821657736338717))"

definition swap :: "nat \<Rightarrow> nat \<Rightarrow> 'w list \<Rightarrow> 'w list" where
  "swap i j ws = ws[i := ws ! j, j := ws ! i]"

definition shuffle :: "time_sec \<Rightarrow> 'w list \<Rightarrow> 'w list" where
  "shuffle now ws = fold (\<lambda>i ws. swap i (i + shuffle_key now i mod (length ws - i)) ws) [0..<length ws] ws"

definition update_witness_schedule :: "database \<Rightarrow> database res" where
  "update_witness_schedule db =
     (if active_witnesses db = [] then Inl (Throw_exn ''modulo by zero'')
      else if head_block_number (dgp db) mod length (active_witnesses db) = 0
      then Inr (db\<lparr>current_shuffled_witnesses := shuffle (head_block_time db) (active_witnesses db)\<rparr>)
      else Inr db)"

subsection \<open>A new block\<close>

definition modify_witness :: "obj_id \<Rightarrow> (witness_object \<Rightarrow> witness_object) \<Rightarrow> database \<Rightarrow> database res" where
  "modify_witness w f db = res_bind (ix_modify w (\<lambda>x. Inr (f x)) (witnesses db)) (\<lambda>ix. Inr (db\<lparr>witnesses := ix\<rparr>))"

definition count_missed :: "nat \<Rightarrow> database \<Rightarrow> database res" where
  "count_missed i db = res_bind (get_scheduled_witness (i + 1) db) (\<lambda>w. modify_witness w (\<lambda>x. x\<lparr>total_missed := total_missed x + 1\<rparr>) db)"

definition update_witness_missed_blocks :: "time_sec \<Rightarrow> database \<Rightarrow> (nat \<times> database) res" where
  "update_witness_missed_blocks timestamp db =
     res_bind (get_slot_at_time timestamp db) (\<lambda>slot.
     FC_ASSERT (slot \<noteq> 0) ''Trying to push double-produced block onto current block?!''
       (let missed = slot - 1 in
        res_bind (if missed < length (current_shuffled_witnesses db) then res_fold count_missed [0..<missed] db else Inr db) (\<lambda>db1.
          Inr (missed, db1))))"

text \<open>The number of blocks missed lately, which a checkpoint at or after the block resets.\<close>

definition new_missed_count :: "nat option \<Rightarrow> nat \<Rightarrow> nat \<Rightarrow> nat \<Rightarrow> nat" where
  "new_missed_count last_checkpoint block_num missed_blocks missed_count =
     (if block_num = 1 then 0
      else if (case last_checkpoint of None \<Rightarrow> False | Some n \<Rightarrow> n \<ge> block_num) then 0
      else if missed_blocks \<noteq> 0 then (missed_count + GRAPHENE_RECENTLY_MISSED_COUNT_INCREMENT * missed_blocks) mod 2 ^ 32
      else if missed_count > GRAPHENE_RECENTLY_MISSED_COUNT_INCREMENT then missed_count - GRAPHENE_RECENTLY_MISSED_COUNT_DECREMENT
      else if missed_count > 0 then missed_count - 1
      else missed_count)"

text \<open>The second component of the result is the size that the undo and the fork database are given.\<close>

definition update_global_dynamic_data ::
  "bool \<Rightarrow> nat option \<Rightarrow> nat \<Rightarrow> time_sec \<Rightarrow> obj_id \<Rightarrow> nat \<Rightarrow> database \<Rightarrow> (database \<times> nat) res" where
  "update_global_dynamic_data skip_undo_history_check last_checkpoint block_num timestamp witness missed_blocks db =
     (let d = (dgp db)\<lparr>recently_missed_count := new_missed_count last_checkpoint block_num missed_blocks (recently_missed_count (dgp db)),
                 head_block_number := block_num, dgp_time := timestamp, current_witness := witness,
                 recent_slots_filled := (recent_slots_filled (dgp db) * 2 + 1) * 2 ^ missed_blocks mod 2 ^ 128,
                 current_aslot := (current_aslot (dgp db) + missed_blocks + 1) mod 2 ^ 64\<rparr>;
          undone = nat ((int (head_block_number d) - int (last_irreversible_block_num d)) mod 2 ^ 32) in
      FC_ASSERT (skip_undo_history_check \<or> undone < GRAPHENE_MAX_UNDO_HISTORY) ''The database does not have enough undo history''
        (Inr (db\<lparr>dgp := d\<rparr>, undone + 1)))"

definition update_signing_witness :: "fc_lib \<Rightarrow> obj_id \<Rightarrow> nat \<Rightarrow> time_sec \<Rightarrow> database \<Rightarrow> database res" where
  "update_signing_witness lib w block_num timestamp db =
     res_bind (get_slot_at_time timestamp db) (\<lambda>slot.
     let aslot = (current_aslot (dgp db) + slot) mod 2 ^ 64;
         witness_pay = min (witness_pay_per_block (parameters db)) (witness_budget (dgp db)) in
     res_bind (fc_safe lib (witness_budget (dgp db) - witness_pay)) (\<lambda>budget.
     res_bind (deposit_witness_pay lib w witness_pay (db\<lparr>dgp := (dgp db)\<lparr>witness_budget := budget\<rparr>\<rparr>)) (\<lambda>db1.
     modify_witness w (\<lambda>x. x\<lparr>last_aslot := aslot, last_confirmed_block_num := block_num\<rparr>) db1)))"

definition witness_objects :: "database \<Rightarrow> witness_object list res" where
  "witness_objects db = res_fold (\<lambda>w ws. res_bind (opt_get ''Unable to find Object'' (ix_get w (witnesses db))) (\<lambda>x. Inr (ws @ [x]))) (active_witnesses db) []"

definition confirmed_less :: "witness_object \<Rightarrow> witness_object \<Rightarrow> bool" where
  "confirmed_less a b \<longleftrightarrow> last_confirmed_block_num a < last_confirmed_block_num b"

definition update_last_irreversible_block :: "database \<Rightarrow> database res" where
  "update_last_irreversible_block db =
     res_bind (witness_objects db) (\<lambda>wit_objs.
     let offset = nat ((GRAPHENE_100_PERCENT - GRAPHENE_IRREVERSIBLE_THRESHOLD) * int (length wit_objs) div GRAPHENE_100_PERCENT) in
     if length wit_objs \<le> offset then Inl (Throw_exn ''out of range'')
     else let new_lib = last_confirmed_block_num (nth_element confirmed_less offset wit_objs ! offset) in
       if new_lib > last_irreversible_block_num (dgp db) then Inr (db\<lparr>dgp := (dgp db)\<lparr>last_irreversible_block_num := new_lib\<rparr>\<rparr>) else Inr db)"

definition update_maintenance_flag :: "bool \<Rightarrow> database \<Rightarrow> database" where
  "update_maintenance_flag new_flag db = db\<lparr>dgp := (dgp db)\<lparr>maintenance_flag := new_flag\<rparr>\<rparr>"

text \<open>\<open>witness_participation_rate\<close>: the share of the last 128 slots that were filled.\<close>

definition witness_participation_rate :: "database \<Rightarrow> int" where
  "witness_participation_rate db = GRAPHENE_100_PERCENT * int (length (filter (bit (recent_slots_filled (dgp db))) [0..<128])) div 128"

subsection \<open>Slots tile the time line\<close>

text \<open>The start of slot 0, which maintenance delays, and the absence of 32-bit overflow.\<close>

definition slot_zero :: "database \<Rightarrow> time_sec" where
  "slot_zero db = (if head_block_number (dgp db) = 0 then dgp_time (dgp db)
     else head_block_time db div block_interval (parameters db) * block_interval (parameters db)
        + (if maintenance_flag (dgp db) then maintenance_skip_slots (parameters db) * block_interval (parameters db) else 0))"

definition slot_in_range :: "nat \<Rightarrow> database \<Rightarrow> bool" where
  "slot_in_range n db \<longleftrightarrow> 0 < block_interval (parameters db) \<and> dgp_time (dgp db) + (n + 1 + maintenance_skip_slots (parameters db)) * block_interval (parameters db) < 2 ^ 32"

lemma time_no_wrap: "s \<le> t \<Longrightarrow> m * i + t < 2 ^ 32 \<Longrightarrow> time_plus s (u32_times m i) = s + m * i"
proof -
  assume "s \<le> t" "m * i + t < 2 ^ 32"
  then have "s + m * i < 2 ^ 32" "m * i < 2 ^ 32" by linarith+
  then show ?thesis by (simp add: time_plus_def u32_times_def)
qed

lemma get_slot_time_eq:
  assumes "0 < n" "slot_in_range n db"
  shows "get_slot_time n db = Inr (slot_zero db + n * block_interval (parameters db))"
proof -
  let ?i = "block_interval (parameters db)" and ?k = "maintenance_skip_slots (parameters db)" and ?t = "dgp_time (dgp db)"
  have i: "0 < ?i" and r: "?t + (n + 1 + ?k) * ?i < 2 ^ 32" using assms(2) by (auto simp: slot_in_range_def)
  have "n + ?k \<le> (n + ?k) * ?i" using i by simp
  also have "\<dots> \<le> ?t + (n + 1 + ?k) * ?i" by (simp add: algebra_simps)
  finally have nk: "n + ?k < 2 ^ 32" using r by simp
  have t: "?t div ?i * ?i \<le> ?t" by simp
  have p: "(n + ?k) * ?i + ?t < 2 ^ 32" "n * ?i + ?t < 2 ^ 32" using r by (simp_all add: algebra_simps)
  note no_wrap = time_no_wrap [OF le_refl p(2)] time_no_wrap [OF t p(1)] time_no_wrap [OF t p(2)]
  show ?thesis using assms(1) i nk no_wrap
    by (simp add: get_slot_time_def chain_interval_def slot_zero_def Let_def head_block_time_def algebra_simps)
qed

lemma slot_in_range_mono: "slot_in_range n db \<Longrightarrow> m \<le> n \<Longrightarrow> slot_in_range m db"
proof -
  assume "slot_in_range n db" "m \<le> n"
  moreover from this(2) have "(m + 1 + maintenance_skip_slots (parameters db)) * block_interval (parameters db)
      \<le> (n + 1 + maintenance_skip_slots (parameters db)) * block_interval (parameters db)" by (intro mult_le_mono1) simp
  ultimately show ?thesis unfolding slot_in_range_def by linarith
qed

text \<open>C32: The slots tile the time line: slot number n lasts from its \<open>get_slot_time\<close> for one block interval, and
  \<open>get_slot_at_time\<close> gives n for every time in it.\<close>

theorem slot_at_slot_time:
  assumes "0 < n" "slot_in_range n db" "get_slot_time n db = Inr t" "t \<le> now" "now < t + block_interval (parameters db)"
  shows "get_slot_at_time now db = Inr n"
proof -
  let ?i = "block_interval (parameters db)"
  have i: "0 < ?i" using assms(2) by (simp add: slot_in_range_def)
  obtain m where n: "n = Suc m" using assms(1) by (cases n) auto
  have t: "t = slot_zero db + n * ?i" using get_slot_time_eq [OF assms(1,2)] assms(3) by simp
  have first: "get_slot_time 1 db = Inr (slot_zero db + ?i)"
    using get_slot_time_eq [of 1 db] slot_in_range_mono [OF assms(2), of 1] assms(1) by simp
  have "n \<le> n * ?i" using i by simp
  also have "\<dots> \<le> dgp_time (dgp db) + (n + 1 + maintenance_skip_slots (parameters db)) * ?i" by (simp add: algebra_simps)
  finally have "n < 2 ^ 32" using assms(2) by (simp add: slot_in_range_def)
  moreover have "(now - (slot_zero db + ?i)) div ?i = m"
    using assms(4,5) i by (intro div_nat_eqI) (auto simp: t n algebra_simps)
  moreover have "slot_zero db + ?i \<le> now" using assms(4) by (simp add: t n)
  ultimately show ?thesis using i by (simp add: get_slot_at_time_def first [simplified] chain_interval_def n)
qed

theorem slot_at_slot_time_witness: "get_slot_time 2 sample_db = Inr 2000000010 \<and> get_slot_at_time 2000000013 sample_db = Inr 2"
proof -
  have "get_slot_time 2 sample_db = Inr 2000000010" "slot_in_range 2 sample_db" "block_interval (parameters sample_db) = 5" by code_simp+
  with slot_at_slot_time [of 2 sample_db 2000000010 2000000013] show ?thesis by simp
qed

subsection \<open>Every witness has its turn\<close>

lemma mset_swap_nth: "i < length ws \<Longrightarrow> j < length ws \<Longrightarrow> mset (swap i j ws) = mset ws"
  unfolding swap_def by (metis list_update_id list_update_swap mset_swap)

lemma length_swap [simp]: "length (swap i j ws) = length ws"
  by (simp add: swap_def)

lemma mset_shuffle: "mset (shuffle now ws) = mset ws"
proof -
  have "mset (fold (\<lambda>i ws. swap i (i + shuffle_key now i mod (length ws - i)) ws) is vs) = mset vs" if "set is \<subseteq> {..<length vs}" for "is" and vs :: "'a list"
    using that
  proof (induction "is" arbitrary: vs)
    case (Cons i js)
    then have i: "i < length vs" by simp
    then have "shuffle_key now i mod (length vs - i) < length vs - i" by (intro mod_less_divisor) simp
    then have "mset (swap i (i + shuffle_key now i mod (length vs - i)) vs) = mset vs" using i by (intro mset_swap_nth) linarith+
    then show ?case using Cons.IH [of "swap i (i + shuffle_key now i mod (length vs - i)) vs"] Cons.prems by simp
  qed simp
  then show ?thesis by (simp add: shuffle_def lessThan_atLeast0)
qed

lemma mset_rotate [simp]: "mset (rotate n ws) = mset ws"
proof -
  have "mset (rotate1 vs) = mset vs" for vs :: "'a list" by (cases vs) simp_all
  then show ?thesis by (induction n) simp_all
qed

lemma mset_round: "ws \<noteq> [] \<Longrightarrow> mset (map (\<lambda>s. ws ! ((c + s) mod length ws)) [j..<j + length ws]) = mset ws"
proof -
  assume "ws \<noteq> []"
  have "map (\<lambda>s. ws ! ((c + s) mod length ws)) [j..<j + length ws] = rotate (c + j) ws"
    by (rule nth_equalityI) (simp_all add: nth_rotate add.assoc)
  then show ?thesis by simp
qed

text \<open>C17: The schedule is fair. Once it is drawn, each of the active witnesses is scheduled for exactly one of any
  \<open>n\<close> consecutive slots, where \<open>n\<close> is their number, whatever the random numbers are.\<close>

theorem schedule_is_fair:
  assumes "update_witness_schedule db = Inr db'" "head_block_number (dgp db) mod length (active_witnesses db) = 0"
    "current_aslot (dgp db) + first + length (active_witnesses db) < 2 ^ 64"
  shows "mset (map (\<lambda>slot. get_scheduled_witness slot db') [first..<first + length (active_witnesses db)]) = mset (map Inr (active_witnesses db))"
proof -
  let ?ws = "shuffle (head_block_time db) (active_witnesses db)"
  have db': "db' = db\<lparr>current_shuffled_witnesses := ?ws\<rparr>" and "active_witnesses db \<noteq> []"
    using assms(1,2) by (auto simp: update_witness_schedule_def split: if_splits)
  have len: "length ?ws = length (active_witnesses db)" by (metis mset_shuffle size_mset)
  with \<open>active_witnesses db \<noteq> []\<close> have ne: "?ws \<noteq> []" by auto
  have "get_scheduled_witness slot db' = Inr (?ws ! ((current_aslot (dgp db) + slot) mod length ?ws))"
    if "slot \<in> set [first..<first + length ?ws]" for slot
    using that ne assms(3) len by (simp add: get_scheduled_witness_def db' Let_def)
  then have "map (\<lambda>slot. get_scheduled_witness slot db') [first..<first + length ?ws]
      = map Inr (map (\<lambda>s. ?ws ! ((current_aslot (dgp db) + s) mod length ?ws)) [first..<first + length ?ws])"
    by (simp add: comp_def)
  then show ?thesis unfolding len [symmetric] using mset_round [OF ne] mset_shuffle by (metis mset_map)
qed

theorem schedule_is_fair_witness:
  "\<exists>db'. update_witness_schedule (sample_db\<lparr>dgp := (dgp sample_db)\<lparr>head_block_number := 3\<rparr>\<rparr>) = Inr db'
    \<and> mset (map (\<lambda>slot. get_scheduled_witness slot db') [1, 2, 3]) = mset (map Inr [0, 1, 2])"
proof -
  let ?db = "sample_db\<lparr>dgp := (dgp sample_db)\<lparr>head_block_number := 3\<rparr>\<rparr>"
  have "\<exists>db'. update_witness_schedule ?db = Inr db'" by (simp add: update_witness_schedule_def sample_db_def)
  then obtain db' where r: "update_witness_schedule ?db = Inr db'" by blast
  have a: "active_witnesses ?db = [0, 1, 2]" "head_block_number (dgp ?db) = 3" "current_aslot (dgp ?db) = 1" by (simp_all add: sample_db_def)
  have "[1..<1 + length (active_witnesses ?db)] = [1, 2, 3]" unfolding a by code_simp
  with schedule_is_fair [OF r, of 1] r show ?thesis by (simp only: a) auto
qed

subsection \<open>Irreversible blocks\<close>

lemma witness_objects_filter:
  assumes "witness_objects db = Inr objs"
  shows "length objs = length (active_witnesses db)"
    "length (filter P objs) = length (filter (\<lambda>w. case ix_get w (witnesses db) of None \<Rightarrow> False | Some x \<Rightarrow> P x) (active_witnesses db))"
proof -
  have "length objs = length acc + length ws \<and>
      length (filter P objs) = length (filter P acc) + length (filter (\<lambda>w. case ix_get w (witnesses db) of None \<Rightarrow> False | Some x \<Rightarrow> P x) ws)"
    if "res_fold (\<lambda>w ws. res_bind (opt_get ''Unable to find Object'' (ix_get w (witnesses db))) (\<lambda>x. Inr (ws @ [x]))) ws acc = Inr objs" for ws acc
    using that by (induction ws arbitrary: acc) auto
  from this [OF assms [unfolded witness_objects_def]]
  show "length objs = length (active_witnesses db)"
    "length (filter P objs) = length (filter (\<lambda>w. case ix_get w (witnesses db) of None \<Rightarrow> False | Some x \<Rightarrow> P x) (active_witnesses db))" by simp_all
qed

lemma selected_from_above:
  assumes "offset < length objs"
  defines "sel \<equiv> nth_element confirmed_less offset objs"
  shows "length objs - offset \<le> length (filter (\<lambda>w. last_confirmed_block_num (sel ! offset) \<le> last_confirmed_block_num w) objs)"
proof -
  let ?P = "\<lambda>w. last_confirmed_block_num (sel ! offset) \<le> last_confirmed_block_num w"
  have ord: "ordered_by confirmed_less objs" unfolding confirmed_less_def by (rule ordered_by_key)
  have "?P (sel ! i)" if "offset \<le> i" "i < length objs" for i
    using std_nth.upper_part [OF ord assms(1), of i] that unfolding sel_def by (cases "i = offset") (auto simp: confirmed_less_def)
  then have "\<forall>w\<in>set (drop offset sel). ?P w" by (auto simp: sel_def in_set_conv_nth)
  then have "filter ?P sel = filter ?P (take offset sel) @ drop offset sel" by (metis append_take_drop_id filter_True filter_append)
  then have "length (drop offset sel) \<le> length (filter ?P sel)" by simp
  then show ?thesis using std_nth.select_count [of ?P confirmed_less offset objs] by (simp add: sel_def)
qed

text \<open>C14: The last irreversible block never moves back, and it moves on only to a block that at least the irreversibility threshold
  (70 per cent) of the active witnesses have confirmed by signing it or a later one.\<close>

theorem irreversible_block_confirmed:
  assumes "update_last_irreversible_block db = Inr db'"
  defines "block_num \<equiv> last_irreversible_block_num (dgp db')"
  shows "last_irreversible_block_num (dgp db) \<le> block_num
    \<and> (block_num \<noteq> last_irreversible_block_num (dgp db) \<longrightarrow>
       GRAPHENE_IRREVERSIBLE_THRESHOLD * int (length (active_witnesses db))
         \<le> GRAPHENE_100_PERCENT * int (length (filter (\<lambda>w. case ix_get w (witnesses db) of None \<Rightarrow> False
              | Some x \<Rightarrow> block_num \<le> last_confirmed_block_num x) (active_witnesses db))))"
proof -
  from assms(1) obtain objs where objs: "witness_objects db = Inr objs"
    by (auto simp: update_last_irreversible_block_def Let_def)
  define offset where "offset = nat ((GRAPHENE_100_PERCENT - GRAPHENE_IRREVERSIBLE_THRESHOLD) * int (length objs) div GRAPHENE_100_PERCENT)"
  define confirmed where "confirmed = last_confirmed_block_num (nth_element confirmed_less offset objs ! offset)"
  from assms(1) objs have off: "offset < length objs"
    and db': "db' = (if confirmed > last_irreversible_block_num (dgp db) then db\<lparr>dgp := (dgp db)\<lparr>last_irreversible_block_num := confirmed\<rparr>\<rparr> else db)"
    by (auto simp: update_last_irreversible_block_def Let_def offset_def confirmed_def split: if_splits)
  have "length objs - offset \<le> length (filter (\<lambda>w. confirmed \<le> last_confirmed_block_num w) objs)"
    unfolding confirmed_def by (rule selected_from_above [OF off])
  also have "\<dots> = length (filter (\<lambda>w. case ix_get w (witnesses db) of None \<Rightarrow> False | Some x \<Rightarrow> confirmed \<le> last_confirmed_block_num x) (active_witnesses db))"
    by (rule witness_objects_filter(2) [OF objs])
  finally have "int (length objs) - int offset \<le>
      int (length (filter (\<lambda>w. case ix_get w (witnesses db) of None \<Rightarrow> False | Some x \<Rightarrow> confirmed \<le> last_confirmed_block_num x) (active_witnesses db)))"
    using off by linarith
  moreover have "GRAPHENE_100_PERCENT * int offset \<le> (GRAPHENE_100_PERCENT - GRAPHENE_IRREVERSIBLE_THRESHOLD) * int (length objs)"
    by (simp add: offset_def GRAPHENE_100_PERCENT_def GRAPHENE_IRREVERSIBLE_THRESHOLD_def) presburger
  ultimately have enough: "GRAPHENE_IRREVERSIBLE_THRESHOLD * int (length (active_witnesses db)) \<le> GRAPHENE_100_PERCENT *
      int (length (filter (\<lambda>w. case ix_get w (witnesses db) of None \<Rightarrow> False | Some x \<Rightarrow> confirmed \<le> last_confirmed_block_num x) (active_witnesses db)))"
    by (simp add: GRAPHENE_100_PERCENT_def GRAPHENE_IRREVERSIBLE_THRESHOLD_def witness_objects_filter(1) [OF objs])
  show ?thesis
  proof (cases "confirmed > last_irreversible_block_num (dgp db)")
    case True
    then have "block_num = confirmed" by (simp add: block_num_def db')
    then show ?thesis unfolding \<open>block_num = confirmed\<close> using enough True by simp
  qed (simp add: block_num_def db')
qed

theorem irreversible_block_confirmed_witness:
  "\<exists>db'. update_last_irreversible_block sample_db = Inr db' \<and> last_irreversible_block_num (dgp db') = 3
     \<and> GRAPHENE_IRREVERSIBLE_THRESHOLD * int (length (active_witnesses sample_db))
         \<le> GRAPHENE_100_PERCENT * int (length (filter (\<lambda>w. case ix_get w (witnesses sample_db) of None \<Rightarrow> False
              | Some x \<Rightarrow> 3 \<le> last_confirmed_block_num x) (active_witnesses sample_db)))"
proof -
  have "case update_last_irreversible_block sample_db of Inl _ \<Rightarrow> False | Inr db' \<Rightarrow> last_irreversible_block_num (dgp db') = 3" by code_simp
  then obtain db' where r: "update_last_irreversible_block sample_db = Inr db'" "last_irreversible_block_num (dgp db') = 3"
    by (auto split: sum.split_asm)
  have "last_irreversible_block_num (dgp sample_db) = 0" by (simp add: sample_db_def)
  with irreversible_block_confirmed [OF r(1), unfolded r(2)] r show ?thesis by auto
qed

end
