(* ===== verification/Fork_Database.thy ===== *)
theory Fork_Database
  imports Graphene_Prelude "HOL-Library.Multiset" "HOL-Library.Code_Target_Numeral"
begin

text \<open>
  Blocks and forks: block identifiers and the merkle root of \<open>libraries/protocol/block.cpp\<close>, and the fork database of
  \<open>libraries/chain/fork_database.cpp\<close>.

  A block identifier is the number of the block with the rest of its hash; the hash functions are parameters. The items of the fork
  database are shared objects that point to their predecessor weakly. The model has an explicit heap: a pointer is the position of an
  item in the list of all items made so far, the index lists the pointers in the order of the index \<open>block_num\<close>, and a weak pointer can be
  locked as long as the index or the head holds the item. Pointers held only by local variables of a caller do not count.
  The loops that follow predecessors take fuel; the block number of the start is enough.
\<close>

subsection \<open>Blocks\<close>

type_synonym block_id = "nat \<times> nat"

record signed_block =
  previous :: block_id
  block_hash :: nat

definition num_from_id :: "block_id \<Rightarrow> nat" where
  "num_from_id i = fst i"

definition block_num :: "signed_block \<Rightarrow> nat" where
  "block_num b = (num_from_id (previous b) + 1) mod 2 ^ 32"

definition block_id_of :: "signed_block \<Rightarrow> block_id" where
  "block_id_of b = (block_num b, block_hash b)"

subsection \<open>The merkle root\<close>

text \<open>One pass of the loop overwrites the front of the array with the hashes of its pairs; an odd last element moves down.\<close>

definition hash_pairs :: "('d \<Rightarrow> 'd \<Rightarrow> 'd) \<Rightarrow> nat \<Rightarrow> 'd list \<Rightarrow> nat \<times> 'd list" where
  "hash_pairs hash n ids =
     (let ids1 = fold (\<lambda>k ids. ids[k := hash (ids ! (2 * k)) (ids ! (2 * k + 1))]) [0..<n div 2] ids in
      if odd n then (n div 2 + 1, ids1[n div 2 := ids1 ! (n - 1)]) else (n div 2, ids1))"

lemma hash_pairs_shrinks: "1 < n \<Longrightarrow> fst (hash_pairs hash n ids) < n"
  by (auto simp: hash_pairs_def Let_def) presburger

function merkle_loop :: "('d \<Rightarrow> 'd \<Rightarrow> 'd) \<Rightarrow> nat \<Rightarrow> 'd list \<Rightarrow> 'd list" where
  "merkle_loop hash n ids =
     (if n > 1 then let (k, ids1) = hash_pairs hash n ids in merkle_loop hash k ids1 else ids)"
  by pat_completeness auto

termination
proof (relation "measure (\<lambda>(hash, n, ids). n)")
  fix hash :: "'d \<Rightarrow> 'd \<Rightarrow> 'd" and n ids x k ids1
  assume "1 < n" "x = hash_pairs hash n ids" "(k, ids1) = x"
  then show "((hash, k, ids1), hash, n, ids) \<in> measure (\<lambda>(hash, n, ids). n)" using hash_pairs_shrinks [of n hash ids] by (metis case_prod_conv fst_conv in_measure)
qed simp

definition calculate_merkle_root :: "('d \<Rightarrow> 'd \<Rightarrow> 'd) \<Rightarrow> ('d \<Rightarrow> 'c) \<Rightarrow> 'c \<Rightarrow> 'd list \<Rightarrow> 'c" where
  "calculate_merkle_root hash checksum empty_checksum digests =
     (if digests = [] then empty_checksum else checksum (merkle_loop hash (length digests) digests ! 0))"

text \<open>The tree that this computes.\<close>

fun tree_level :: "('d \<Rightarrow> 'd \<Rightarrow> 'd) \<Rightarrow> 'd list \<Rightarrow> 'd list" where
  "tree_level hash (x # y # zs) = hash x y # tree_level hash zs"
| "tree_level hash xs = xs"

lemma tree_level_shorter: "length (tree_level hash xs) = (length xs + 1) div 2"
  by (induction hash xs rule: tree_level.induct) auto

function tree_root :: "('d \<Rightarrow> 'd \<Rightarrow> 'd) \<Rightarrow> 'd list \<Rightarrow> 'd" where
  "tree_root hash xs = (if length xs > 1 then tree_root hash (tree_level hash xs) else hd xs)"
  by pat_completeness auto

termination
  by (relation "measure (\<lambda>(hash, xs). length xs)") (auto simp: tree_level_shorter)

declare merkle_loop.simps [simp del] tree_root.simps [simp del]

lemma tree_level_nth:
  "k < length xs div 2 \<Longrightarrow> tree_level hash xs ! k = hash (xs ! (2 * k)) (xs ! (2 * k + 1))"
  "odd (length xs) \<Longrightarrow> tree_level hash xs ! (length xs div 2) = xs ! (length xs - 1)"
proof -
  show "k < length xs div 2 \<Longrightarrow> tree_level hash xs ! k = hash (xs ! (2 * k)) (xs ! (2 * k + 1))" for k
    by (induction hash xs arbitrary: k rule: tree_level.induct) (auto simp: nth_Cons split: nat.split)
  show "odd (length xs) \<Longrightarrow> tree_level hash xs ! (length xs div 2) = xs ! (length xs - 1)"
    by (induction hash xs rule: tree_level.induct) (auto simp: nth_Cons' elim: oddE)
qed

text \<open>The pass reads each pair before it overwrites it.\<close>

lemma hash_pairs_fold:
  fixes hash :: "'d \<Rightarrow> 'd \<Rightarrow> 'd" and ids :: "'d list"
  assumes "2 * m \<le> length ids"
  defines "r \<equiv> fold (\<lambda>k ids. ids[k := hash (ids ! (2 * k)) (ids ! (2 * k + 1))]) [0..<m] ids"
  shows "length r = length ids" "\<And>k. k < m \<Longrightarrow> r ! k = hash (ids ! (2 * k)) (ids ! (2 * k + 1))" "\<And>k. m \<le> k \<Longrightarrow> k < length ids \<Longrightarrow> r ! k = ids ! k"
proof -
  have "length r = length ids \<and> (\<forall>k<m. r ! k = hash (ids ! (2 * k)) (ids ! (2 * k + 1))) \<and> (\<forall>k. m \<le> k \<longrightarrow> k < length ids \<longrightarrow> r ! k = ids ! k)"
    using assms(1) unfolding r_def
  proof (induction m)
    case (Suc m)
    let ?r = "fold (\<lambda>k ids. ids[k := hash (ids ! (2 * k)) (ids ! (2 * k + 1))]) [0..<m] ids"
    have "length ?r = length ids" "\<forall>k<m. ?r ! k = hash (ids ! (2 * k)) (ids ! (2 * k + 1))" "\<forall>k. m \<le> k \<longrightarrow> k < length ids \<longrightarrow> ?r ! k = ids ! k"
      using Suc by simp_all
    then show ?case using Suc.prems by (auto simp: nth_list_update less_Suc_eq)
  qed simp
  then show "length r = length ids" "\<And>k. k < m \<Longrightarrow> r ! k = hash (ids ! (2 * k)) (ids ! (2 * k + 1))" "\<And>k. m \<le> k \<Longrightarrow> k < length ids \<Longrightarrow> r ! k = ids ! k" by auto
qed

lemma hash_pairs_level:
  assumes "n \<le> length ids" "0 < n" "hash_pairs hash n ids = (k, ids')"
  shows "k = (n + 1) div 2" "length ids' = length ids" "take k ids' = tree_level hash (take n ids)"
proof -
  let ?m = "n div 2"
  define r where "r = fold (\<lambda>k ids. ids[k := hash (ids ! (2 * k)) (ids ! (2 * k + 1))]) [0..<?m] ids"
  have "2 * ?m \<le> length ids" using assms(1) by simp
  note f = hash_pairs_fold [OF this, where hash = hash, folded r_def]
  have eq: "k = (n + 1) div 2" "ids' = (if odd n then r[?m := r ! (n - 1)] else r)"
    using assms(3) by (auto simp: hash_pairs_def r_def Let_def split: if_splits elim!: oddE)
  then show "k = (n + 1) div 2" "length ids' = length ids" using f(1) by auto
  show "take k ids' = tree_level hash (take n ids)"
  proof (rule nth_equalityI)
    show "length (take k ids') = length (tree_level hash (take n ids))" using assms(1,2) eq f(1) by (auto simp: tree_level_shorter)
    fix i assume "i < length (take k ids')"
    then have i: "i < k" "i < length ids" using eq f(1) by (auto split: if_splits)
    consider "i < ?m" | "odd n" "i = ?m" using i(1) eq(1) by fastforce
    then show "take k ids' ! i = tree_level hash (take n ids) ! i"
    proof cases
      case 1
      then have "2 * i + 1 < n" by linarith
      then show ?thesis using 1 i f(2) assms(1) eq tree_level_nth(1) [of i "take n ids" hash] by (auto simp: nth_list_update)
    next
      case 2
      have "?m \<le> n - 1" "n - 1 < length ids" using assms(1,2) by auto
      moreover have "length (take n ids) = n" using assms(1) by simp
      ultimately show ?thesis using 2 i f(1,3) assms(1,2) eq tree_level_nth(2) [of "take n ids" hash] by simp
    qed
  qed
qed

lemma merkle_loop_tree:
  assumes "0 < n" "n \<le> length ids"
  shows "merkle_loop hash n ids ! 0 = tree_root hash (take n ids)"
  using assms
proof (induction hash n ids rule: merkle_loop.induct)
  case (1 hash n ids)
  show ?case
  proof (cases "n > 1")
    case True
    obtain k ids' where p: "hash_pairs hash n ids = (k, ids')" by fastforce
    note l = hash_pairs_level [OF 1(3,2) p]
    have "merkle_loop hash k ids' ! 0 = tree_root hash (take k ids')"
      by (rule 1(1) [OF True p [symmetric] refl]) (use l True 1(3) in auto)
    then show ?thesis using True 1(3) l by (subst merkle_loop.simps, subst tree_root.simps) (simp add: p)
  next
    case False
    with 1(2,3) have "n = 1" "ids \<noteq> []" by auto
    then show ?thesis by (subst merkle_loop.simps, subst tree_root.simps) (simp add: hd_conv_nth)
  qed
qed

text \<open>C33: the in-place computation of the merkle root, which overwrites the array of digests as it goes, gives the root of the
  hash tree over the digests: pairs are hashed level by level, and an odd last node moves up unhashed.\<close>

theorem merkle_root_is_tree_root:
  "calculate_merkle_root hash checksum empty_checksum digests = (if digests = [] then empty_checksum else checksum (tree_root hash digests))"
  by (simp add: calculate_merkle_root_def merkle_loop_tree)

subsection \<open>The fork database\<close>

type_synonym item_ptr = nat

record fork_item =
  prev :: "item_ptr option"
  fi_num :: nat
  fi_id :: block_id
  fi_data :: signed_block

record fork_database =
  fork_items :: "fork_item list"
  fork_index :: "item_ptr list"
  fork_head :: "item_ptr option"
  max_size :: nat

definition new_item :: "signed_block \<Rightarrow> fork_item" where
  "new_item b = \<lparr>prev = None, fi_num = block_num b, fi_id = block_id_of b, fi_data = b\<rparr>"

definition item :: "fork_database \<Rightarrow> item_ptr \<Rightarrow> fork_item" where
  "item f p = fork_items f ! p"

text \<open>\<open>weak_ptr::lock\<close>.\<close>

definition lock :: "fork_database \<Rightarrow> item_ptr option \<Rightarrow> item_ptr option" where
  "lock f w = (case w of None \<Rightarrow> None | Some p \<Rightarrow> if p \<in> set (fork_index f) \<or> fork_head f = Some p then Some p else None)"

definition fetch_block :: "fork_database \<Rightarrow> block_id \<Rightarrow> item_ptr option" where
  "fetch_block f i = List.find (\<lambda>p. fi_id (item f p) = i) (fork_index f)"

definition is_known_block :: "fork_database \<Rightarrow> block_id \<Rightarrow> bool" where
  "is_known_block f i \<longleftrightarrow> fetch_block f i \<noteq> None"

definition fetch_block_by_number :: "fork_database \<Rightarrow> nat \<Rightarrow> item_ptr list" where
  "fetch_block_by_number f n = takeWhile (\<lambda>p. fi_num (item f p) = n) (dropWhile (\<lambda>p. fi_num (item f p) < n) (fork_index f))"

text \<open>\<open>_index.insert\<close>: an item with a known identifier is not inserted; among equal numbers it goes last.\<close>

definition index_insert :: "item_ptr \<Rightarrow> fork_database \<Rightarrow> fork_database" where
  "index_insert p f =
     (if is_known_block f (fi_id (item f p)) then f
      else f\<lparr>fork_index := takeWhile (\<lambda>q. fi_num (item f q) \<le> fi_num (item f p)) (fork_index f) @ p #
                          dropWhile (\<lambda>q. fi_num (item f q) \<le> fi_num (item f p)) (fork_index f)\<rparr>)"

definition drop_below :: "nat \<Rightarrow> fork_database \<Rightarrow> fork_database" where
  "drop_below n f = f\<lparr>fork_index := dropWhile (\<lambda>p. fi_num (item f p) < n) (fork_index f)\<rparr>"

definition fork_reset :: "fork_database \<Rightarrow> fork_database" where
  "fork_reset f = f\<lparr>fork_head := None, fork_index := []\<rparr>"

definition fork_pop_block :: "fork_database \<Rightarrow> fork_database res" where
  "fork_pop_block f =
     (case fork_head f of None \<Rightarrow> Inl (Assert_exn ''no block to pop'')
      | Some h \<Rightarrow> (case lock f (prev (item f h)) of None \<Rightarrow> Inl (Assert_exn ''popping block would leave head block null'')
                   | Some p \<Rightarrow> Inr (f\<lparr>fork_head := Some p\<rparr>)))"

definition make_item :: "fork_item \<Rightarrow> fork_database \<Rightarrow> item_ptr \<times> fork_database" where
  "make_item it f = (length (fork_items f), f\<lparr>fork_items := fork_items f @ [it]\<rparr>)"

definition start_block :: "signed_block \<Rightarrow> fork_database \<Rightarrow> fork_database" where
  "start_block b f = (let (p, f1) = make_item (new_item b) f in (index_insert p f1)\<lparr>fork_head := Some p\<rparr>)"

text \<open>\<open>_push_block\<close>, and \<open>push_block\<close>, which gives back the head.\<close>

definition not_too_old :: "fork_database \<Rightarrow> nat \<Rightarrow> bool" where
  "not_too_old f n = (case fork_head f of None \<Rightarrow> True | Some h \<Rightarrow> int n > max 0 (int (fi_num (item f h)) - int (max_size f)))"

definition link_item :: "fork_database \<Rightarrow> fork_item \<Rightarrow> fork_item res" where
  "link_item f it =
     (if fork_head f \<noteq> None \<and> previous (fi_data it) \<noteq> (0, 0)
      then (case fetch_block f (previous (fi_data it)) of None \<Rightarrow> Inl (Throw_exn ''unlinkable_block_exception'')
            | Some q \<Rightarrow> Inr (it\<lparr>prev := Some q\<rparr>))
      else Inr it)"

definition advance_head :: "item_ptr \<Rightarrow> fork_database \<Rightarrow> fork_database" where
  "advance_head p f =
     (case fork_head f of None \<Rightarrow> f\<lparr>fork_head := Some p\<rparr>
      | Some h \<Rightarrow> if fi_num (item f p) > fi_num (item f h)
                  then drop_below (fi_num (item f p) - min (max_size f) (fi_num (item f p))) (f\<lparr>fork_head := Some p\<rparr>)
                  else f)"

definition fork_push_block :: "signed_block \<Rightarrow> fork_database \<Rightarrow> (item_ptr option \<times> fork_database) res" where
  "fork_push_block b f =
     FC_ASSERT (not_too_old f (block_num b)) ''attempting to push a block that is too old''
     (res_bind (link_item f (new_item b)) (\<lambda>it.
      let (p, f1) = make_item it f; f2 = advance_head p (index_insert p f1) in Inr (fork_head f2, f2)))"

definition set_max_size :: "nat \<Rightarrow> fork_database \<Rightarrow> fork_database" where
  "set_max_size s f =
     (let f1 = f\<lparr>max_size := s\<rparr> in
      case fork_head f of None \<Rightarrow> f1 | Some h \<Rightarrow> drop_below (nat (max 0 (int (fi_num (item f h)) - int s))) f1)"

definition set_head :: "item_ptr option \<Rightarrow> fork_database \<Rightarrow> fork_database" where
  "set_head h f = f\<lparr>fork_head := h\<rparr>"

definition fork_remove :: "block_id \<Rightarrow> fork_database \<Rightarrow> fork_database" where
  "fork_remove i f =
     (let f1 = f\<lparr>fork_index := filter (\<lambda>p. fi_id (item f p) \<noteq> i) (fork_index f)\<rparr> in
      case fork_head f of None \<Rightarrow> f1
      | Some h \<Rightarrow> if fi_id (item f h) = i then (case fork_pop_block f1 of Inl _ \<Rightarrow> f1\<lparr>fork_head := None\<rparr> | Inr f2 \<Rightarrow> f2) else f1)"

subsection \<open>Branches\<close>

definition previous_item :: "fork_database \<Rightarrow> item_ptr \<Rightarrow> item_ptr res" where
  "previous_item f p = (case lock f (prev (item f p)) of None \<Rightarrow> Inl (Assert_exn ''branch is not linked'') | Some q \<Rightarrow> Inr q)"

text \<open>Going back while the block number is above \<open>n\<close>: the items passed and the item reached.\<close>

fun go_back :: "nat \<Rightarrow> fork_database \<Rightarrow> nat \<Rightarrow> item_ptr \<Rightarrow> (item_ptr list \<times> item_ptr) res" where
  "go_back 0 f n p = Inl (Throw_exn ''out of fuel'')"
| "go_back (Suc k) f n p =
     (if block_num (fi_data (item f p)) > n
      then res_bind (previous_item f p) (\<lambda>q. res_bind (go_back k f n q) (\<lambda>(ps, r). Inr (p # ps, r)))
      else Inr ([], p))"

text \<open>Going back on both branches while the predecessors differ.\<close>

fun meet :: "nat \<Rightarrow> fork_database \<Rightarrow> item_ptr \<Rightarrow> item_ptr \<Rightarrow> (item_ptr list \<times> item_ptr list) res" where
  "meet 0 f p q = Inl (Throw_exn ''out of fuel'')"
| "meet (Suc k) f p q =
     (if previous (fi_data (item f p)) \<noteq> previous (fi_data (item f q))
      then res_bind (previous_item f p) (\<lambda>p1. res_bind (previous_item f q) (\<lambda>q1.
           res_bind (meet k f p1 q1) (\<lambda>(ps, qs). Inr (p # ps, q # qs))))
      else Inr ([p], [q]))"

definition fetch_branch_from :: "nat \<Rightarrow> fork_database \<Rightarrow> block_id \<Rightarrow> block_id \<Rightarrow> (item_ptr list \<times> item_ptr list) res" where
  "fetch_branch_from fuel f first second =
     (case (fetch_block f first, fetch_block f second) of
        (Some p, Some q) \<Rightarrow>
          res_bind (go_back fuel f (block_num (fi_data (item f q))) p) (\<lambda>(ps, p1).
          res_bind (go_back fuel f (block_num (fi_data (item f p1))) q) (\<lambda>(qs, q1).
          res_bind (meet fuel f p1 q1) (\<lambda>(ps1, qs1). Inr (ps @ ps1, qs @ qs1))))
      | _ \<Rightarrow> Inl (Assert_exn ''branch_itr != end''))"

subsection \<open>Well-formed fork databases\<close>

definition item_ok :: "fork_database \<Rightarrow> fork_item \<Rightarrow> bool" where
  "item_ok f it \<longleftrightarrow> fi_num it = block_num (fi_data it) \<and> fi_id it = block_id_of (fi_data it) \<and> num_from_id (previous (fi_data it)) + 1 < 2 ^ 32
     \<and> (\<forall>q. prev it = Some q \<longrightarrow> q < length (fork_items f) \<and> fi_id (item f q) = previous (fi_data it))"

definition fork_ok :: "fork_database \<Rightarrow> bool" where
  "fork_ok f \<longleftrightarrow> (\<forall>it\<in>set (fork_items f). item_ok f it) \<and> (\<forall>p\<in>set (fork_index f). p < length (fork_items f))
     \<and> (\<forall>h. fork_head f = Some h \<longrightarrow> h < length (fork_items f)) \<and> distinct (map (\<lambda>p. fi_id (item f p)) (fork_index f))
     \<and> sorted (map (\<lambda>p. fi_num (item f p)) (fork_index f))"

abbreviation data_of :: "fork_database \<Rightarrow> item_ptr \<Rightarrow> signed_block" where
  "data_of f p \<equiv> fi_data (item f p)"

lemma item_okD:
  assumes "fork_ok f" "p < length (fork_items f)"
  shows "item_ok f (item f p)"
  using assms by (simp add: fork_ok_def item_def)

lemma previous_item_ok:
  assumes "fork_ok f" "p < length (fork_items f)" "previous_item f p = Inr q"
  shows "q < length (fork_items f)" "fi_id (item f q) = previous (data_of f p)" "block_num (data_of f p) = Suc (block_num (data_of f q))"
proof -
  from assms(3) have "prev (item f p) = Some q" by (auto simp: previous_item_def lock_def split: option.splits if_splits)
  then show q: "q < length (fork_items f)" "fi_id (item f q) = previous (data_of f p)"
    using item_okD [OF assms(1,2)] by (auto simp: item_ok_def)
  have "fi_id (item f q) = block_id_of (data_of f q)" using item_okD [OF assms(1) q(1)] by (simp add: item_ok_def)
  with q(2) have "num_from_id (previous (data_of f p)) = block_num (data_of f q)" by (metis block_id_of_def fst_conv num_from_id_def)
  moreover have "num_from_id (previous (data_of f p)) + 1 < 2 ^ 32" using item_okD [OF assms(1,2)] by (simp add: item_ok_def)
  ultimately show "block_num (data_of f p) = Suc (block_num (data_of f q))" by (simp add: block_num_def [of "data_of f p"])
qed

text \<open>A branch: each block is followed by the one it names as its predecessor.\<close>

definition is_branch :: "fork_database \<Rightarrow> item_ptr \<Rightarrow> item_ptr list \<Rightarrow> bool" where
  "is_branch f p ps \<longleftrightarrow> ps \<noteq> [] \<and> hd ps = p \<and> successively (\<lambda>x y. previous (data_of f x) = fi_id (item f y)) ps"

lemma is_branch_Cons: "is_branch f p (p # ps) \<longleftrightarrow> ps = [] \<or> is_branch f (hd ps) ps \<and> previous (data_of f p) = fi_id (item f (hd ps))"
  by (cases ps) (auto simp: is_branch_def)

lemma is_branch_append:
  assumes "is_branch f p (ps @ [r])" "is_branch f r rs"
  shows "is_branch f p (ps @ rs)"
  using assms by (induction ps arbitrary: p) (auto simp: is_branch_def hd_append neq_Nil_conv successively_Cons split: if_splits)

lemma go_back_result:
  assumes "go_back k f n p = Inr (ps, r)" "fork_ok f" "p < length (fork_items f)"
  shows "r < length (fork_items f) \<and> is_branch f p (ps @ [r]) \<and> (\<forall>x\<in>set ps. n < block_num (data_of f x) \<and> block_num (data_of f x) \<le> block_num (data_of f p))
    \<and> block_num (data_of f r) = min n (block_num (data_of f p))"
  using assms(1,3)
proof (induction k arbitrary: p ps)
  case (Suc k)
  show ?case
  proof (cases "block_num (data_of f p) > n")
    case True
    with Suc.prems(1) obtain q ps' where s: "previous_item f p = Inr q" "go_back k f n q = Inr (ps', r)" "ps = p # ps'" by auto
    note q = previous_item_ok [OF assms(2) Suc.prems(2) s(1)]
    from Suc.IH [OF s(2) q(1)] have ih: "r < length (fork_items f)" "is_branch f q (ps' @ [r])" "\<forall>x\<in>set ps'. n < block_num (data_of f x) \<and> block_num (data_of f x) \<le> block_num (data_of f q)"
      "block_num (data_of f r) = min n (block_num (data_of f q))" by blast+
    have "hd (ps' @ [r]) = q" using ih(2) by (simp add: is_branch_def)
    then have "is_branch f p (ps @ [r])" using ih(2) q(2) by (simp add: s(3) is_branch_Cons)
    with ih True q(3) show ?thesis by (auto simp: s(3))
  next
    case False
    with Suc.prems have "ps = []" "r = p" by auto
    with False Suc.prems(2) show ?thesis by (simp add: is_branch_def)
  qed
qed simp

lemma go_back_fuel:
  assumes "go_back k f n p = Inl e" "fork_ok f" "p < length (fork_items f)" "block_num (data_of f p) < k"
  shows "e = Assert_exn ''branch is not linked''"
  using assms(1,3,4)
proof (induction k arbitrary: p)
  case (Suc k)
  show ?case
  proof (cases "previous_item f p")
    case (Inl e')
    with Suc.prems(1) show ?thesis by (auto simp: previous_item_def split: option.splits if_splits)
  next
    case (Inr q)
    note q = previous_item_ok [OF assms(2) Suc.prems(2) Inr]
    from Suc.prems(1) Inr have "go_back k f n q = Inl e" by (auto simp: res_bind_def split: if_splits sum.splits)
    with Suc.IH q(1,3) Suc.prems(3) show ?thesis by simp
  qed
qed simp

lemma meet_result:
  assumes "meet k f p q = Inr (ps, qs)" "fork_ok f" "p < length (fork_items f)" "q < length (fork_items f)" "block_num (data_of f p) = block_num (data_of f q)"
  shows "is_branch f p ps \<and> is_branch f q qs \<and> (\<forall>x\<in>set ps. block_num (data_of f x) \<le> block_num (data_of f p))
    \<and> (\<forall>y\<in>set qs. block_num (data_of f y) \<le> block_num (data_of f q)) \<and> previous (data_of f (last ps)) = previous (data_of f (last qs))
    \<and> (\<forall>x\<in>set ps. \<forall>y\<in>set qs. block_num (data_of f x) = block_num (data_of f y) \<longrightarrow> previous (data_of f x) = previous (data_of f y)
          \<longrightarrow> x = last ps \<and> y = last qs)"
  using assms(1,3-)
proof (induction k arbitrary: p q ps qs)
  case (Suc k)
  show ?case
  proof (cases "previous (data_of f p) = previous (data_of f q)")
    case True
    with Suc.prems(1) have "ps = [p]" "qs = [q]" by auto
    with True show ?thesis by (simp add: is_branch_def)
  next
    case False
    with Suc.prems(1) obtain p1 q1 ps1 qs1 where s: "previous_item f p = Inr p1" "previous_item f q = Inr q1" "meet k f p1 q1 = Inr (ps1, qs1)"
      "ps = p # ps1" "qs = q # qs1" by auto
    note p1 = previous_item_ok [OF assms(2) Suc.prems(2) s(1)]
    note q1 = previous_item_ok [OF assms(2) Suc.prems(3) s(2)]
    have "block_num (data_of f p1) = block_num (data_of f q1)" using p1(3) q1(3) Suc.prems(4) by simp
    note ih = Suc.IH [OF s(3) p1(1) q1(1) this]
    then have ne: "ps1 \<noteq> []" "hd ps1 = p1" "qs1 \<noteq> []" "hd qs1 = q1" by (simp_all add: is_branch_def)
    have below: "\<forall>x\<in>set ps1. block_num (data_of f x) < block_num (data_of f p)" "\<forall>y\<in>set qs1. block_num (data_of f y) < block_num (data_of f q)"
      using ih p1(3) q1(3) by fastforce+
    show ?thesis unfolding s(4,5)
    proof (intro conjI ballI impI)
      show "is_branch f p (p # ps1)" "is_branch f q (q # qs1)" using ih ne p1(2) q1(2) by (simp_all add: is_branch_Cons)
      show "previous (data_of f (last (p # ps1))) = previous (data_of f (last (q # qs1)))" using ih ne by simp
      fix x assume "x \<in> set (p # ps1)"
      then show "block_num (data_of f x) \<le> block_num (data_of f p)" using below(1) by (auto intro: less_imp_le)
    next
      fix y assume "y \<in> set (q # qs1)"
      then show "block_num (data_of f y) \<le> block_num (data_of f q)" using below(2) by (auto intro: less_imp_le)
    next
      fix x y assume "x \<in> set (p # ps1)" "y \<in> set (q # qs1)" "block_num (data_of f x) = block_num (data_of f y)" "previous (data_of f x) = previous (data_of f y)"
      then have "x \<in> set ps1 \<and> y \<in> set qs1" using below False Suc.prems(4) by auto
      then show "x = last (p # ps1)" "y = last (q # qs1)"
        using ih ne \<open>block_num (data_of f x) = block_num (data_of f y)\<close> \<open>previous (data_of f x) = previous (data_of f y)\<close> by auto
    qed
  qed
qed simp

lemma meet_fuel:
  assumes "meet k f p q = Inl e" "fork_ok f" "p < length (fork_items f)" "q < length (fork_items f)" "block_num (data_of f p) < k"
  shows "e = Assert_exn ''branch is not linked''"
  using assms(1,3-)
proof (induction k arbitrary: p q)
  case (Suc k)
  have err: "previous_item f r = Inl e' \<Longrightarrow> e' = Assert_exn ''branch is not linked''" for r e'
    by (auto simp: previous_item_def split: option.splits)
  show ?case
  proof (cases "previous_item f p")
    case (Inl e')
    with Suc.prems(1) show ?thesis by (auto split: if_splits dest: err)
  next
    case p1: (Inr p1)
    show ?thesis
    proof (cases "previous_item f q")
      case (Inl e')
      with Suc.prems(1) p1 show ?thesis by (auto split: if_splits dest: err)
    next
      case (Inr q1)
      with Suc.prems(1) p1 have "meet k f p1 q1 = Inl e" by (auto simp: res_bind_def split: if_splits sum.splits)
      with Suc.IH previous_item_ok [OF assms(2) Suc.prems(2) p1] previous_item_ok [OF assms(2) Suc.prems(3) Inr] Suc.prems(4) show ?thesis by simp
    qed
  qed
qed simp

lemma fetch_block_valid: "fork_ok f \<Longrightarrow> fetch_block f i = Some p \<Longrightarrow> p < length (fork_items f) \<and> fi_id (item f p) = i"
  by (auto simp: fetch_block_def fork_ok_def find_Some_iff)

text \<open>C15: \<open>fetch_branch_from\<close> always comes to an end, and it gives the two branches back to the most recent common ancestor: each
  starts at its block, each of its blocks is followed by its predecessor, the two end at blocks with the same predecessor, and no
  earlier pair of blocks of the same number has one. The only way to fail is a predecessor that the database has dropped.\<close>

theorem fetch_branch_from_common_ancestor:
  assumes "fork_ok f" "fetch_block f first = Some p" "fetch_block f second = Some q"
    "block_num (data_of f p) < fuel" "block_num (data_of f q) < fuel"
  shows "case fetch_branch_from fuel f first second of Inl e \<Rightarrow> e = Assert_exn ''branch is not linked''
    | Inr (ps, qs) \<Rightarrow> is_branch f p ps \<and> is_branch f q qs \<and> previous (data_of f (last ps)) = previous (data_of f (last qs))
        \<and> (\<forall>x\<in>set ps. \<forall>y\<in>set qs. block_num (data_of f x) = block_num (data_of f y) \<longrightarrow> previous (data_of f x) = previous (data_of f y)
              \<longrightarrow> x = last ps \<and> y = last qs)"
proof -
  let ?n = "\<lambda>x. block_num (data_of f x)"
  have p: "p < length (fork_items f)" and q: "q < length (fork_items f)" using fetch_block_valid [OF assms(1)] assms(2,3) by blast+
  show ?thesis
  proof (cases "go_back fuel f (?n q) p")
    case (Inl e)
    with go_back_fuel [OF Inl assms(1) p assms(4)] show ?thesis by (simp add: fetch_branch_from_def assms(2,3))
  next
    case (Inr a)
    obtain ps p1 where a: "go_back fuel f (?n q) p = Inr (ps, p1)" using Inr by (cases a) simp
    note ra = go_back_result [OF a assms(1) p]
    then have p1: "p1 < length (fork_items f)" "?n p1 = min (?n q) (?n p)" "is_branch f p (ps @ [p1])" "\<forall>x\<in>set ps. ?n q < ?n x" by blast+
    show ?thesis
    proof (cases "go_back fuel f (?n p1) q")
      case (Inl e)
      with go_back_fuel [OF Inl assms(1) q assms(5)] a show ?thesis by (simp add: fetch_branch_from_def assms(2,3))
    next
      case (Inr b)
      obtain qs q1 where b: "go_back fuel f (?n p1) q = Inr (qs, q1)" using Inr by (cases b) simp
      note rb = go_back_result [OF b assms(1) q]
      then have q1: "q1 < length (fork_items f)" "?n q1 = min (?n p1) (?n q)" "is_branch f q (qs @ [q1])" "\<forall>y\<in>set qs. ?n p1 < ?n y \<and> ?n y \<le> ?n q" by blast+
      have same: "?n p1 = ?n q1" using p1(2) q1(2) by simp
      show ?thesis
      proof (cases "meet fuel f p1 q1")
        case (Inl e)
        have "?n p1 < fuel" using p1(2) assms(4) by simp
        from meet_fuel [OF Inl assms(1) p1(1) q1(1) this] a b Inl show ?thesis by (simp add: fetch_branch_from_def assms(2,3))
      next
        case (Inr c)
        obtain ps1 qs1 where c: "meet fuel f p1 q1 = Inr (ps1, qs1)" using Inr by (cases c) simp
        note m = meet_result [OF c assms(1) p1(1) q1(1) same]
        have result: "fetch_branch_from fuel f first second = Inr (ps @ ps1, qs @ qs1)" by (simp add: fetch_branch_from_def assms(2,3) a b c)
        have ne: "ps1 \<noteq> []" "qs1 \<noteq> []" using m by (simp_all add: is_branch_def)
        have branches: "is_branch f p (ps @ ps1)" "is_branch f q (qs @ qs1)"
          using is_branch_append [OF p1(3)] is_branch_append [OF q1(3)] m by blast+
        have low: "\<forall>x\<in>set ps1. ?n x \<le> ?n p1" "\<forall>y\<in>set qs1. ?n y \<le> ?n p1" using m same by auto
        have "?n x \<noteq> ?n y" if "x \<in> set (ps @ ps1)" "y \<in> set (qs @ qs1)" "x \<in> set ps \<or> y \<in> set qs" for x y
        proof (cases "x \<in> set ps")
          case True
          have "?n y \<le> ?n q" using that(2) q1(4) low(2) p1(2) by fastforce
          with True p1(4) show ?thesis by fastforce
        next
          case False
          with that low(1) q1(4) show ?thesis by fastforce
        qed
        then have "\<forall>x\<in>set (ps @ ps1). \<forall>y\<in>set (qs @ qs1). ?n x = ?n y \<longrightarrow> previous (data_of f x) = previous (data_of f y)
            \<longrightarrow> x = last (ps @ ps1) \<and> y = last (qs @ qs1)" using m ne by (metis Un_iff last_appendR set_append)
        then show ?thesis unfolding result using branches m ne by simp
      qed
    qed
  qed
qed

text \<open>A block 1 with two successors, one of which has a successor itself.\<close>

definition sample_block :: "block_id \<Rightarrow> nat \<Rightarrow> signed_block" where
  "sample_block prv h = \<lparr>previous = prv, block_hash = h\<rparr>"

definition sample_fork :: fork_database where
  "sample_fork = \<lparr>fork_items = [new_item (sample_block (0, 0) 11), (new_item (sample_block (1, 11) 21))\<lparr>prev := Some 0\<rparr>,
       (new_item (sample_block (1, 11) 22))\<lparr>prev := Some 0\<rparr>, (new_item (sample_block (2, 21) 31))\<lparr>prev := Some 1\<rparr>],
     fork_index = [0, 1, 2, 3], fork_head = Some 3, max_size = 10\<rparr>"

lemma sample_fork_ok: "fork_ok sample_fork"
  by (simp add: fork_ok_def sample_fork_def item_ok_def item_def new_item_def sample_block_def block_num_def block_id_of_def num_from_id_def)

theorem fetch_branch_from_common_ancestor_witness:
  "fetch_branch_from 10 sample_fork (3, 31) (2, 22) = Inr ([3, 1], [2]) \<and> is_branch sample_fork 3 [3, 1]"
proof -
  have r: "fetch_branch_from 10 sample_fork (3, 31) (2, 22) = Inr ([3, 1], [2])" "fetch_block sample_fork (3, 31) = Some 3"
    "fetch_block sample_fork (2, 22) = Some 2" "block_num (data_of sample_fork 3) < 10" "block_num (data_of sample_fork 2) < 10" by code_simp+
  from fetch_branch_from_common_ancestor [OF sample_fork_ok r(2-5)] r(1) show ?thesis by simp
qed

subsection \<open>Pushing blocks\<close>

text \<open>The head is the longest fork, and the index holds no block older than the window.\<close>

definition head_longest :: "fork_database \<Rightarrow> bool" where
  "head_longest f \<longleftrightarrow> (case fork_head f of None \<Rightarrow> fork_index f = []
     | Some h \<Rightarrow> \<forall>p\<in>set (fork_index f). fi_num (item f p) \<le> fi_num (item f h) \<and> fi_num (item f h) \<le> fi_num (item f p) + max_size f)"

lemma sorted_dropWhile_le: "sorted (map g xs) \<Longrightarrow> y \<in> set (dropWhile (\<lambda>x. g x \<le> n) xs) \<Longrightarrow> n < (g y :: nat)"
  by (induction xs) (auto split: if_splits)

lemma sorted_dropWhile_less: "sorted (map g xs) \<Longrightarrow> y \<in> set (dropWhile (\<lambda>x. g x < n) xs) \<Longrightarrow> n \<le> (g y :: nat)"
  by (induction xs) (auto split: if_splits)

lemma sorted_insert_last:
  assumes "sorted (map g xs)"
  shows "sorted (map g (takeWhile (\<lambda>x. g x \<le> g p) xs @ p # dropWhile (\<lambda>x. g x \<le> (g p :: nat)) xs))"
proof -
  have "sorted (map g (takeWhile (\<lambda>x. g x \<le> g p) xs))" "sorted (map g (dropWhile (\<lambda>x. g x \<le> g p) xs))"
    using assms by (metis map_append sorted_append takeWhile_dropWhile_id)+
  moreover have "\<forall>x\<in>set (takeWhile (\<lambda>x. g x \<le> g p) xs). g x \<le> g p" by (auto dest: set_takeWhileD)
  moreover have "\<forall>y\<in>set (dropWhile (\<lambda>x. g x \<le> g p) xs). g p \<le> g y" using sorted_dropWhile_le [OF assms] by (auto intro: less_imp_le)
  ultimately show ?thesis by (force simp: sorted_append)
qed

lemma mset_insert_last: "mset (takeWhile P xs @ p # dropWhile P xs) = mset (p # xs)"
  by (induction xs) auto

lemma set_insert_last: "set (takeWhile P xs @ p # dropWhile P xs) = insert p (set xs)"
  by (metis list.simps(15) mset_insert_last set_mset_mset)

lemma item_make [simp]:
  "item (f\<lparr>fork_items := fork_items f @ [it]\<rparr>) (length (fork_items f)) = it"
  "q < length (fork_items f) \<Longrightarrow> item (f\<lparr>fork_items := fork_items f @ [it]\<rparr>) q = item f q"
  by (simp_all add: item_def nth_append)

lemma item_frame [simp]:
  "item (f\<lparr>fork_index := x\<rparr>) = item f" "item (f\<lparr>fork_head := h\<rparr>) = item f" "item (f\<lparr>max_size := s\<rparr>) = item f"
  by (simp_all add: item_def fun_eq_iff)

lemma item_ok_frame [simp]:
  "item_ok (f\<lparr>fork_index := x\<rparr>) = item_ok f" "item_ok (f\<lparr>fork_head := h\<rparr>) = item_ok f" "item_ok (f\<lparr>max_size := s\<rparr>) = item_ok f"
  by (simp_all add: item_ok_def fun_eq_iff)

lemma make_item_ok:
  assumes "fork_ok f" "item_ok f it"
  shows "fork_ok (f\<lparr>fork_items := fork_items f @ [it]\<rparr>)"
proof -
  let ?f = "f\<lparr>fork_items := fork_items f @ [it]\<rparr>"
  have items: "item_ok ?f x" if "item_ok f x" for x using that by (auto simp: item_ok_def)
  have m: "map (\<lambda>p. fi_id (item ?f p)) (fork_index f) = map (\<lambda>p. fi_id (item f p)) (fork_index f)"
    "map (\<lambda>p. fi_num (item ?f p)) (fork_index f) = map (\<lambda>p. fi_num (item f p)) (fork_index f)" using assms(1) by (auto simp: fork_ok_def)
  have "\<forall>x\<in>set (fork_items ?f). item_ok ?f x" using assms items by (auto simp: fork_ok_def)
  with assms show ?thesis unfolding fork_ok_def by (simp add: m less_Suc_eq)
qed

lemma index_insert_ok:
  assumes "fork_ok f" "p < length (fork_items f)"
  shows "fork_ok (index_insert p f)" "set (fork_index (index_insert p f)) \<subseteq> insert p (set (fork_index f))"
    "is_known_block (index_insert p f) (fi_id (item f p))" "item (index_insert p f) = item f" "max_size (index_insert p f) = max_size f"
    "fork_head (index_insert p f) = fork_head f" "fork_index f \<noteq> [] \<or> fork_index (index_insert p f) = [p]"
proof -
  let ?xs = "takeWhile (\<lambda>q. fi_num (item f q) \<le> fi_num (item f p)) (fork_index f) @ p # dropWhile (\<lambda>q. fi_num (item f q) \<le> fi_num (item f p)) (fork_index f)"
  have "distinct (map (\<lambda>q. fi_id (item f q)) ?xs)" if "\<not> is_known_block f (fi_id (item f p))"
  proof -
    have "distinct (map (\<lambda>q. fi_id (item f q)) (p # fork_index f))"
      using assms(1) that by (auto simp: fork_ok_def is_known_block_def fetch_block_def find_None_iff)
    then show ?thesis by (metis mset_eq_imp_distinct_iff mset_insert_last mset_map)
  qed
  moreover have "sorted (map (\<lambda>q. fi_num (item f q)) ?xs)" using assms(1) by (intro sorted_insert_last) (simp add: fork_ok_def)
  ultimately show "fork_ok (index_insert p f)"
    using assms set_insert_last [of _ "fork_index f" p] by (simp add: index_insert_def fork_ok_def)
  show "set (fork_index (index_insert p f)) \<subseteq> insert p (set (fork_index f))" using set_insert_last [of _ "fork_index f" p] by (auto simp: index_insert_def)
  show "is_known_block (index_insert p f) (fi_id (item f p))"
    by (auto simp: index_insert_def is_known_block_def fetch_block_def find_None_iff)
qed (auto simp: index_insert_def is_known_block_def fetch_block_def)

lemma drop_below_ok:
  assumes "fork_ok f"
  shows "fork_ok (drop_below n f)" "set (fork_index (drop_below n f)) \<subseteq> {p \<in> set (fork_index f). n \<le> fi_num (item f p)}"
proof -
  let ?d = "dropWhile (\<lambda>p. fi_num (item f p) < n) (fork_index f)"
  obtain t where t: "fork_index f = t @ ?d" using takeWhile_dropWhile_id by metis
  have sorted: "sorted (map (\<lambda>p. fi_num (item f p)) (fork_index f))" "distinct (map (\<lambda>p. fi_id (item f p)) (fork_index f))"
    using assms by (simp_all add: fork_ok_def)
  then have "sorted (map (\<lambda>p. fi_num (item f p)) ?d)" "distinct (map (\<lambda>p. fi_id (item f p)) ?d)" by (metis t map_append sorted_append distinct_append)+
  moreover have "set ?d \<subseteq> set (fork_index f)" by (auto dest: set_dropWhileD)
  ultimately show "fork_ok (drop_below n f)" using assms by (auto simp: fork_ok_def drop_below_def)
  have "n \<le> fi_num (item f p)" if "p \<in> set ?d" for p
    using sorted_dropWhile_less [OF sorted(1) that] .
  then show "set (fork_index (drop_below n f)) \<subseteq> {p \<in> set (fork_index f). n \<le> fi_num (item f p)}" using \<open>set ?d \<subseteq> set (fork_index f)\<close>
    by (auto simp: drop_below_def)
qed

lemma known_block_iff: "is_known_block f i \<longleftrightarrow> (\<exists>p\<in>set (fork_index f). fi_id (item f p) = i)"
  by (auto simp: is_known_block_def fetch_block_def find_None_iff)

lemma link_item_ok:
  assumes "link_item f (new_item b) = Inr it" "fork_ok f" "num_from_id (previous b) + 1 < 2 ^ 32"
  shows "item_ok f it" "fi_num it = block_num b" "fi_id it = block_id_of b"
proof -
  from assms(1) consider "it = new_item b" | q where "fetch_block f (previous b) = Some q" "it = (new_item b)\<lparr>prev := Some q\<rparr>"
    by (auto simp: link_item_def new_item_def split: if_splits option.splits)
  then show "item_ok f it" "fi_num it = block_num b" "fi_id it = block_id_of b"
    using fetch_block_valid [OF assms(2)] assms(3) by (cases; auto simp: item_ok_def new_item_def)+
qed

lemma advance_head_ok:
  assumes "fork_ok f" "p < length (fork_items f)" "is_known_block f (fi_id (item f p))"
    "\<And>h. fork_head f = Some h \<Longrightarrow> \<forall>q\<in>set (fork_index f). fi_id (item f q) \<noteq> fi_id (item f p) \<longrightarrow>
       fi_num (item f q) \<le> fi_num (item f h) \<and> fi_num (item f h) \<le> fi_num (item f q) + max_size f"
    "\<And>h. fork_head f = Some h \<Longrightarrow> fi_num (item f h) < fi_num (item f p) + max_size f \<or> fi_num (item f h) \<le> fi_num (item f p)"
    "fork_head f = None \<Longrightarrow> fork_index f = [p]"
  defines "f' \<equiv> advance_head p f"
  shows "fork_ok f'" "head_longest f'" "is_known_block f' (fi_id (item f p))" "item f' = item f"
    "\<exists>h. fork_head f' = Some h \<and> fi_num (item f h) = (case fork_head f of None \<Rightarrow> fi_num (item f p) | Some h0 \<Rightarrow> max (fi_num (item f h0)) (fi_num (item f p)))"
proof -
  have eqn: "fi_num (item f q) = fi_num (item f p)" if "q \<in> set (fork_index f)" "fi_id (item f q) = fi_id (item f p)" for q
  proof -
    have "q < length (fork_items f)" using assms(1) that(1) by (simp add: fork_ok_def)
    with item_okD [OF assms(1)] assms(2) that(2) show ?thesis by (metis block_id_of_def fst_conv item_ok_def)
  qed
  have "fork_ok f' \<and> head_longest f' \<and> is_known_block f' (fi_id (item f p)) \<and> item f' = item f \<and>
    (\<exists>h. fork_head f' = Some h \<and> fi_num (item f h) = (case fork_head f of None \<Rightarrow> fi_num (item f p) | Some h0 \<Rightarrow> max (fi_num (item f h0)) (fi_num (item f p))))"
  proof (cases "fork_head f")
    case None
    then have f': "f' = f\<lparr>fork_head := Some p\<rparr>" by (simp add: f'_def advance_head_def)
    have "fork_ok f'" using assms(1,2) by (simp add: f' fork_ok_def)
    moreover have "head_longest f'" using assms(6) [OF None] by (simp add: f' head_longest_def)
    moreover have "is_known_block f' (fi_id (item f p))" using assms(3) by (simp add: f' known_block_iff)
    ultimately show ?thesis using None by (simp add: f')
  next
    case (Some h)
    note old = assms(4) [OF Some]
    show ?thesis
    proof (cases "fi_num (item f p) > fi_num (item f h)")
      case True
      let ?m = "fi_num (item f p) - min (max_size f) (fi_num (item f p))" let ?g = "f\<lparr>fork_head := Some p\<rparr>"
      have f': "f' = drop_below ?m ?g" using Some True by (simp add: f'_def advance_head_def)
      have g: "fork_ok ?g" using assms(1,2) by (simp add: fork_ok_def)
      note d = drop_below_ok [OF g, of ?m]
      have "fi_num (item f q) \<le> fi_num (item f p) \<and> fi_num (item f p) \<le> fi_num (item f q) + max_size f" if "q \<in> set (fork_index f')" for q
      proof -
        have q: "q \<in> set (fork_index f)" "?m \<le> fi_num (item f q)" using d(2) that by (auto simp: f')
        have "fi_num (item f q) \<le> fi_num (item f p)" using old eqn [OF q(1)] q(1) True by force
        with q(2) show ?thesis by linarith
      qed
      then have "head_longest f'" by (simp add: head_longest_def f' drop_below_def)
      moreover have "is_known_block f' (fi_id (item f p))"
      proof -
        obtain q where q: "q \<in> set (fork_index f)" "fi_id (item f q) = fi_id (item f p)" using assms(3) by (auto simp: known_block_iff)
        have "?m \<le> fi_num (item f q)" using eqn [OF q] by simp
        then have "q \<in> set (dropWhile (\<lambda>p. fi_num (item f p) < ?m) (fork_index f))" using q(1)
          by (metis Un_iff linorder_not_less set_append set_takeWhileD takeWhile_dropWhile_id)
        then show ?thesis using q(2) by (auto simp: known_block_iff f' drop_below_def)
      qed
      ultimately show ?thesis using d(1) Some True by (auto simp: f' drop_below_def max_def)
    next
      case False
      then have f': "f' = f" using Some by (simp add: f'_def advance_head_def)
      have "fi_num (item f q) \<le> fi_num (item f h) \<and> fi_num (item f h) \<le> fi_num (item f q) + max_size f" if "q \<in> set (fork_index f)" for q
      proof (cases "fi_id (item f q) = fi_id (item f p)")
        case True
        with eqn [OF that True] False assms(5) [OF Some] show ?thesis by auto
      qed (use old that in blast)
      then show ?thesis using assms(1,3) Some False by (simp add: f' head_longest_def max_def)
    qed
  qed
  then show "fork_ok f'" "head_longest f'" "is_known_block f' (fi_id (item f p))" "item f' = item f"
    "\<exists>h. fork_head f' = Some h \<and> fi_num (item f h) = (case fork_head f of None \<Rightarrow> fi_num (item f p) | Some h0 \<Rightarrow> max (fi_num (item f h0)) (fi_num (item f p)))"
    by blast+
qed

text \<open>The other operations keep it well formed too.\<close>

lemma fork_pop_block_ok:
  assumes "fork_pop_block f = Inr f'" "fork_ok f"
  shows "fork_ok f'"
proof -
  from assms(1) obtain h p where h: "fork_head f = Some h" "prev (item f h) = Some p" "f' = f\<lparr>fork_head := Some p\<rparr>"
    by (auto simp: fork_pop_block_def lock_def split: option.splits if_splits)
  have "h < length (fork_items f)" using assms(2) h(1) by (simp add: fork_ok_def)
  with item_okD [OF assms(2)] h(2) have "p < length (fork_items f)" by (auto simp: item_ok_def)
  with assms(2) show ?thesis by (simp add: h(3) fork_ok_def)
qed

lemma fork_remove_ok:
  assumes "fork_ok f"
  shows "fork_ok (fork_remove i f)"
proof -
  let ?f = "f\<lparr>fork_index := filter (\<lambda>p. fi_id (item f p) \<noteq> i) (fork_index f)\<rparr>"
  have ok: "fork_ok ?f" using assms by (auto simp: fork_ok_def distinct_map_filter sorted_filter)
  then have "fork_ok (?f\<lparr>fork_head := None\<rparr>)" by (simp add: fork_ok_def)
  with ok show ?thesis unfolding fork_remove_def Let_def by (auto split: option.splits sum.splits dest: fork_pop_block_ok)
qed

lemma fork_ok_kept:
  assumes "fork_ok f"
  shows "fork_ok (fork_reset f)" "fork_ok (set_max_size s f)"
    "num_from_id (previous b) + 1 < 2 ^ 32 \<Longrightarrow> fork_ok (start_block b f)" "(\<And>p. h = Some p \<Longrightarrow> p < length (fork_items f)) \<Longrightarrow> fork_ok (set_head h f)"
proof -
  show "fork_ok (fork_reset f)" using assms by (simp add: fork_reset_def fork_ok_def)
  have "fork_ok (f\<lparr>max_size := s\<rparr>)" using assms by (simp add: fork_ok_def)
  then show "fork_ok (set_max_size s f)" using drop_below_ok(1) by (simp add: set_max_size_def Let_def split: option.split)
  show "fork_ok (set_head h f)" if "\<And>p. h = Some p \<Longrightarrow> p < length (fork_items f)" using assms that by (simp add: set_head_def fork_ok_def)
  assume b: "num_from_id (previous b) + 1 < 2 ^ 32"
  let ?p = "length (fork_items f)" and ?f = "f\<lparr>fork_items := fork_items f @ [new_item b]\<rparr>"
  have "item_ok f (new_item b)" using b by (simp add: item_ok_def new_item_def)
  with make_item_ok [OF assms] have "fork_ok ?f" by blast
  then have "fork_ok (index_insert ?p ?f)" by (rule index_insert_ok(1)) simp
  then show "fork_ok (start_block b f)" by (simp add: start_block_def make_item_def fork_ok_def index_insert_def)
qed

text \<open>C16: pushing a block keeps the fork database well formed with the longest fork as its head. The block is then known; the
  head that is given back has the greater of the two numbers; every block of the index links to its predecessor by identifier, has a
  unique identifier and lies in the window below the head. A block that is too old or links to nothing is refused.\<close>

theorem push_block_longest_fork:
  assumes "fork_push_block b f = Inr (h, f')" "fork_ok f" "head_longest f" "num_from_id (previous b) + 1 < 2 ^ 32"
  shows "fork_ok f' \<and> head_longest f' \<and> is_known_block f' (block_id_of b)
    \<and> (\<exists>p. h = Some p \<and> fork_head f' = Some p
         \<and> fi_num (item f' p) = (case fork_head f of None \<Rightarrow> block_num b | Some h0 \<Rightarrow> max (fi_num (item f h0)) (block_num b)))"
proof -
  from assms(1) obtain it where old: "not_too_old f (block_num b)" and it: "link_item f (new_item b) = Inr it"
    and res: "(Inr (h, f') :: (item_ptr option \<times> fork_database) res) = (let (p, f1) = make_item it f; f2 = advance_head p (index_insert p f1) in Inr (fork_head f2, f2))"
    unfolding fork_push_block_def FC_ASSERT_Inr by (elim conjE res_bind_InrE) simp
  define f1 where "f1 = f\<lparr>fork_items := fork_items f @ [it]\<rparr>" define p where "p = length (fork_items f)" define f2 where "f2 = index_insert p f1"
  have f': "f' = advance_head p f2" "h = fork_head f'" using res by (simp_all add: make_item_def f1_def f2_def p_def Let_def)
  note l = link_item_ok [OF it assms(2,4)]
  have f1: "fork_ok f1" "p < length (fork_items f1)" "item f1 p = it" using make_item_ok [OF assms(2) l(1)] by (simp_all add: f1_def p_def)
  have same: "item f1 q = item f q" if "q \<in> set (fork_index f) \<or> fork_head f = Some q" for q
    using that assms(2) by (auto simp: f1_def fork_ok_def)
  note i = index_insert_ok [OF f1(1,2), folded f2_def]
  have heads: "fork_head f2 = fork_head f" "max_size f2 = max_size f" "fork_index f1 = fork_index f" using i by (simp_all add: f1_def)
  have it2: "item f2 p = it" "fi_num (item f2 p) = block_num b" using i(4) f1(3) l(2) by simp_all
  note a = advance_head_ok [OF i(1), of p, folded f'(1)]
  have pre: "p < length (fork_items f2)" "is_known_block f2 (fi_id (item f2 p))" using f1(2) i(3,4) by (simp_all add: f2_def index_insert_def)
  have 4: "\<forall>q\<in>set (fork_index f2). fi_id (item f2 q) \<noteq> fi_id (item f2 p) \<longrightarrow>
      fi_num (item f2 q) \<le> fi_num (item f2 h0) \<and> fi_num (item f2 h0) \<le> fi_num (item f2 q) + max_size f2" if "fork_head f2 = Some h0" for h0
  proof (intro ballI impI)
    fix q assume "q \<in> set (fork_index f2)" "fi_id (item f2 q) \<noteq> fi_id (item f2 p)"
    then have "q \<in> set (fork_index f)" using i(2) heads(3) by auto
    then show "fi_num (item f2 q) \<le> fi_num (item f2 h0) \<and> fi_num (item f2 h0) \<le> fi_num (item f2 q) + max_size f2"
      using assms(3) that heads same i(4) by (simp add: head_longest_def)
  qed
  have 5: "fi_num (item f2 h0) < fi_num (item f2 p) + max_size f2 \<or> fi_num (item f2 h0) \<le> fi_num (item f2 p)" if "fork_head f2 = Some h0" for h0
    using old that heads same [of h0] i(4) it2(2) by (simp add: not_too_old_def)
  have 6: "fork_head f2 = None \<Longrightarrow> fork_index f2 = [p]" using assms(3) heads i(7) by (simp add: head_longest_def)
  note a = a [OF pre 4 5 6]
  have "(case fork_head f2 of None \<Rightarrow> fi_num (item f2 p) | Some h0 \<Rightarrow> max (fi_num (item f2 h0)) (fi_num (item f2 p)))
      = (case fork_head f of None \<Rightarrow> block_num b | Some h0 \<Rightarrow> max (fi_num (item f h0)) (block_num b))"
    using heads(1) same i(4) it2(2) by (simp split: option.split)
  with a l(3) it2(1) f'(2) show ?thesis by auto
qed

theorem push_block_longest_fork_witness:
  "\<exists>f'. fork_push_block (sample_block (3, 31) 41) sample_fork = Inr (Some 4, f') \<and> head_longest f' \<and> is_known_block f' (4, 41)"
proof -
  have "(case fork_push_block (sample_block (3, 31) 41) sample_fork of Inl _ \<Rightarrow> False | Inr (h, f') \<Rightarrow> h = Some 4)" by code_simp
  then obtain f' where r: "fork_push_block (sample_block (3, 31) 41) sample_fork = Inr (Some 4, f')" by (auto split: sum.split_asm)
  have "head_longest sample_fork" "num_from_id (previous (sample_block (3, 31) 41)) + 1 < 2 ^ 32" "block_id_of (sample_block (3, 31) 41) = (4, 41)"
    by (simp_all add: head_longest_def sample_fork_def item_def new_item_def sample_block_def block_num_def block_id_of_def num_from_id_def)
  with push_block_longest_fork [OF r sample_fork_ok] r show ?thesis by auto
qed

end
