(* ===== verification/Amount_Strings.thy ===== *)
theory Amount_Strings
  imports Sample_Chain
begin

text \<open>
  Amounts as decimal strings (\<open>amount_to_string\<close> and \<open>amount_from_string\<close> of \<open>asset_object.cpp\<close>): printing with the precision of the asset and
  reading back. \<open>fc::to_string\<close> is a parameter that prints an integer in decimal; \<open>std::to_string\<close> and \<open>std::stoll\<close> are modelled on
  the characters that can occur, digits, a minus sign and a point.
\<close>

subsection \<open>Decimal numbers\<close>

definition digit_char :: "nat \<Rightarrow> char" where
  "digit_char d = char_of (48 + d)"

definition digit_val :: "char \<Rightarrow> nat" where
  "digit_val c = of_char c - 48"

fun show_nat :: "nat \<Rightarrow> string" where
  "show_nat n = (if n < 10 then [digit_char n] else show_nat (n div 10) @ [digit_char (n mod 10)])"

declare show_nat.simps [simp del]

definition show_int :: "int \<Rightarrow> string" where
  "show_int x = (if x < 0 then CHR ''-'' # show_nat (nat (- x)) else show_nat (nat x))"

definition read_nat :: "string \<Rightarrow> nat" where
  "read_nat s = foldl (\<lambda>n c. 10 * n + digit_val c) 0 s"

text \<open>\<open>std::stoll\<close>: an optional sign and the longest sequence of digits after it, what follows is ignored.\<close>

definition stoll :: "string \<Rightarrow> int res" where
  "stoll s =
     (let neg = (s \<noteq> [] \<and> hd s = CHR ''-'');
          ds = takeWhile is_digit (if neg then tl s else s);
          x = (if neg then - int (read_nat ds) else int (read_nat ds)) in
      if ds = [] then Inl (Throw_exn ''std::invalid_argument'')
      else if x < - (2 ^ 63) \<or> 2 ^ 63 \<le> x then Inl (Throw_exn ''std::out_of_range'')
      else Inr x)"

subsection \<open>Reading and printing amounts\<close>

text \<open>The loop over the characters returns whether a minus sign and whether a point was found.\<close>

fun scan_amount :: "bool \<Rightarrow> bool \<Rightarrow> string \<Rightarrow> (bool \<times> bool) res" where
  "scan_amount negative_found decimal_found [] = Inr (negative_found, decimal_found)"
| "scan_amount negative_found decimal_found (c # cs) =
     (if is_digit c then scan_amount negative_found decimal_found cs
      else if c = CHR ''-'' \<and> \<not> negative_found then scan_amount True decimal_found cs
      else if c = CHR ''.'' \<and> \<not> decimal_found then scan_amount negative_found True cs
      else Inl (Throw_exn ''amount_string''))"

text \<open>The part after the point, filled up with zeros.\<close>

definition read_decimals :: "int \<Rightarrow> string \<Rightarrow> int res" where
  "read_decimals scale rhs =
     (let max_rhs_size = length (tl (show_int scale)) in
      FC_ASSERT (length rhs \<le> max_rhs_size) ''rhs.size() <= max_rhs_size''
      (let padded = rhs @ replicate (max_rhs_size - length rhs) (CHR ''0'') in
       if padded = [] then Inr 0 else stoll padded))"

definition amount_from_string :: "fc_lib \<Rightarrow> asset_id \<Rightarrow> asset_object \<Rightarrow> string \<Rightarrow> asset res" where
  "amount_from_string lib aid ao amount_string =
     res_bind (scan_amount False False amount_string) (\<lambda>(negative_found, decimal_found).
     res_bind (scaled_precision (precision ao)) (\<lambda>scale.
     let decimal_pos = length (takeWhile (\<lambda>c. c \<noteq> CHR ''.'') amount_string);
         lhs = (if negative_found then take decimal_pos (drop 1 amount_string) else take decimal_pos amount_string) in
     res_bind (if lhs \<noteq> [] then res_bind (stoll lhs) (\<lambda>x. fc_safe lib (x * scale)) else Inr 0) (\<lambda>whole.
     res_bind (if decimal_found
               then res_bind (read_decimals scale (drop (decimal_pos + 1) amount_string)) (\<lambda>y. fc_safe lib (whole + y))
               else Inr whole) (\<lambda>satoshis.
     FC_ASSERT (satoshis \<le> GRAPHENE_MAX_SHARE_SUPPLY) ''satoshis <= GRAPHENE_MAX_SHARE_SUPPLY''
     (res_bind (if negative_found then fc_safe lib (satoshis * - 1) else Inr satoshis) (\<lambda>r. Inr (mk_asset r aid)))))))"

text \<open>The division and remainder of \<open>int64_t\<close> truncate towards zero.\<close>

definition trunc_div :: "int \<Rightarrow> int \<Rightarrow> int" where
  "trunc_div x y = sgn x * (\<bar>x\<bar> div y)"

definition amount_to_string :: "(int \<Rightarrow> string) \<Rightarrow> asset_object \<Rightarrow> int \<Rightarrow> string res" where
  "amount_to_string to_string ao x =
     res_bind (scaled_precision (precision ao)) (\<lambda>scale.
     let result = to_string (trunc_div x scale);
         decimals = \<bar>x - trunc_div x scale * scale\<bar> in
     if decimals \<noteq> 0
     then let signed = (if x < 0 \<and> result = ''0'' then ''-0'' else result) in
          Inr (signed @ ''.'' @ drop 1 (to_string (scale + decimals)))
     else Inr result)"

subsection \<open>Digits\<close>

lemma digit_char [simp]:
  assumes "d < 10"
  shows "is_digit (digit_char d)" "digit_val (digit_char d) = d" "digit_char d \<noteq> CHR ''-''" "digit_char d \<noteq> CHR ''.''"
proof -
  have "d \<in> {0, 1, 2, 3, 4, 5, 6, 7, 8, 9}" using assms by auto
  then show "is_digit (digit_char d)" "digit_val (digit_char d) = d" "digit_char d \<noteq> CHR ''-''" "digit_char d \<noteq> CHR ''.''"
    by (auto simp: digit_char_def is_digit_def digit_val_def less_eq_char_def char_of_eq_iff)
qed

lemma not_digit [simp]: "\<not> is_digit (CHR ''-'')" "\<not> is_digit (CHR ''.'')" "is_digit (CHR ''0'')"
  by (simp_all add: is_digit_def less_eq_char_def)

lemma read_nat_snoc [simp]: "read_nat (s @ [c]) = 10 * read_nat s + digit_val c"
  by (simp add: read_nat_def)

lemma show_nat_digits: "set (show_nat n) \<subseteq> Collect is_digit"
  by (induction n rule: show_nat.induct) (subst show_nat.simps, auto)

lemma show_nat_not_Nil [simp]: "show_nat n \<noteq> []"
  by (subst show_nat.simps) simp

lemma read_show_nat [simp]: "read_nat (show_nat n) = n"
proof (induction n rule: show_nat.induct)
  case (1 n)
  then show ?case by (subst show_nat.simps) (auto simp: read_nat_def)
qed

text \<open>The digits of \<open>10 ^ p + d\<close> after the leading one are the \<open>p\<close> digits of \<open>d\<close>.\<close>

lemma show_nat_padded:
  "d < 10 ^ p \<Longrightarrow> \<exists>ds. show_nat (10 ^ p + d) = CHR ''1'' # ds \<and> length ds = p \<and> read_nat ds = d"
proof (induction p arbitrary: d)
  case 0
  then show ?case by (simp add: show_nat.simps digit_char_def read_nat_def char_of_eq_iff)
next
  case (Suc p)
  from Suc.prems have "d div 10 < 10 ^ p" by (simp add: less_mult_imp_div_less mult.commute)
  from Suc.IH [OF this] obtain ds where ds: "show_nat (10 ^ p + d div 10) = CHR ''1'' # ds" "length ds = p" "read_nat ds = d div 10" by blast
  have "show_nat (10 ^ Suc p + d) = show_nat (10 ^ p + d div 10) @ [digit_char (d mod 10)]"
  proof -
    have "(1 :: nat) \<le> 10 ^ p" by simp
    then have "10 \<le> 10 ^ Suc p + d" unfolding power_Suc by linarith
    then have "\<not> 10 ^ Suc p + d < 10" by linarith
    then show ?thesis by (subst show_nat.simps) (simp add: div_plus_div_distrib_dvd_left)
  qed
  with ds show ?case by (intro exI [of _ "ds @ [digit_char (d mod 10)]"]) simp
qed

lemma scaled_precision_Inr: "scaled_precision p = Inr s \<longleftrightarrow> p < 19 \<and> s = 10 ^ p"
  by (auto simp: scaled_precision_def scaled_precision_lut_def nth_map simp del: upt_Suc)

subsection \<open>Round trip\<close>

lemma scan_digits: "set ds \<subseteq> Collect is_digit \<Longrightarrow> scan_amount n d (ds @ rest) = scan_amount n d rest"
  by (induction ds) auto

lemma takeWhile_digits:
  assumes "set ds \<subseteq> Collect is_digit"
  shows "takeWhile is_digit ds = ds" "takeWhile is_digit (ds @ CHR ''.'' # rest) = ds"
    "takeWhile (\<lambda>c. c \<noteq> CHR ''.'') ds = ds" "takeWhile (\<lambda>c. c \<noteq> CHR ''.'') (ds @ CHR ''.'' # rest) = ds"
proof -
  have "\<forall>c\<in>set ds. is_digit c" "\<forall>c\<in>set ds. c \<noteq> CHR ''.''" using assms by auto
  then show "takeWhile is_digit ds = ds" "takeWhile is_digit (ds @ CHR ''.'' # rest) = ds"
    "takeWhile (\<lambda>c. c \<noteq> CHR ''.'') ds = ds" "takeWhile (\<lambda>c. c \<noteq> CHR ''.'') (ds @ CHR ''.'' # rest) = ds"
    by (simp_all add: takeWhile_append2 takeWhile_eq_all_conv)
qed

lemma hd_digits: "set ds \<subseteq> Collect is_digit \<Longrightarrow> ds \<noteq> [] \<Longrightarrow> hd (ds @ rest) \<noteq> CHR ''-''"
  by (cases ds) auto

lemma stoll_digits:
  assumes "set ds \<subseteq> Collect is_digit" "ds \<noteq> []" "int (read_nat ds) < 2 ^ 63"
  shows "stoll ds = Inr (int (read_nat ds))" "stoll (ds @ ''.'') = Inr (int (read_nat ds))"
proof -
  have h: "hd ds \<noteq> CHR ''-''" "hd (ds @ ''.'') \<noteq> CHR ''-''" using hd_digits [OF assms(1,2), of "[]"] hd_digits [OF assms(1,2)] by auto
  show "stoll ds = Inr (int (read_nat ds))"
    unfolding stoll_def takeWhile_digits(1) [OF assms(1)] Let_def using h(1) assms(2,3) by (simp add: takeWhile_digits(1) [OF assms(1)])
  show "stoll (ds @ ''.'') = Inr (int (read_nat ds))"
    unfolding stoll_def Let_def using h(2) assms(2,3) by (simp add: takeWhile_digits(2) [OF assms(1)])
qed

text \<open>A printed amount, taken apart: a sign, the digits of the whole part, and the decimals if there are any.\<close>

definition decimal_string :: "bool \<Rightarrow> string \<Rightarrow> string option \<Rightarrow> string" where
  "decimal_string neg ds rest = (if neg then ''-'' else []) @ ds @ (case rest of None \<Rightarrow> [] | Some r \<Rightarrow> ''.'' @ r)"

lemma scan_decimal_string:
  assumes "set ds \<subseteq> Collect is_digit" "\<And>r. rest = Some r \<Longrightarrow> set r \<subseteq> Collect is_digit"
  shows "scan_amount False False (decimal_string neg ds rest) = Inr (neg, rest \<noteq> None)"
  using assms(1) scan_digits [OF assms(2), of _ _ _ "[]"] by (cases rest) (auto simp: decimal_string_def scan_digits [of ds _ _ "[]", simplified] scan_digits)

lemma show_int_power: "length (tl (show_int (10 ^ p))) = p"
proof -
  obtain ds where "show_nat (10 ^ p + 0) = CHR ''1'' # ds" "length ds = p" using show_nat_padded [of 0 p] by auto
  then show ?thesis by (simp add: show_int_def nat_power_eq)
qed

lemma read_decimals_full:
  assumes "set r \<subseteq> Collect is_digit" "length r = p" "r \<noteq> []" "int (read_nat r) < 2 ^ 63"
  shows "read_decimals (10 ^ p) r = Inr (int (read_nat r))"
  unfolding read_decimals_def show_int_power Let_def using assms(2,3) stoll_digits(1) [OF assms(1,3,4)] by simp

lemma from_decimal_string:
  assumes lib: "fc_lib_ok lib" and p: "precision ao < 19"
    and ds: "set ds \<subseteq> Collect is_digit" "ds \<noteq> []"
    and r: "\<And>r. rest = Some r \<Longrightarrow> set r \<subseteq> Collect is_digit \<and> length r = precision ao \<and> r \<noteq> []"
    and m: "m = int (read_nat ds) * 10 ^ precision ao + (case rest of None \<Rightarrow> 0 | Some r \<Rightarrow> int (read_nat r))"
    and le: "m \<le> GRAPHENE_MAX_SHARE_SUPPLY"
  shows "amount_from_string lib aid ao (decimal_string neg ds rest) = Inr (mk_asset (if neg then - m else m) aid)"
proof -
  let ?s = "decimal_string neg ds rest" and ?scale = "10 ^ precision ao :: int" and ?d = "case rest of None \<Rightarrow> 0 | Some r \<Rightarrow> int (read_nat r)"
  have "1 * int (read_nat ds) \<le> ?scale * int (read_nat ds)" by (rule mult_right_mono) simp_all
  then have whole: "int (read_nat ds) \<le> int (read_nat ds) * ?scale" "0 \<le> int (read_nat ds) * ?scale" by (simp_all add: mult.commute)
  have d: "0 \<le> ?d" by (simp split: option.splits)
  have small: "int (read_nat ds) * ?scale \<le> GRAPHENE_MAX_SHARE_SUPPLY" "?d \<le> GRAPHENE_MAX_SHARE_SUPPLY" "0 \<le> m"
    using m le whole d by linarith+
  have big: "GRAPHENE_MAX_SHARE_SUPPLY < 2 ^ 63" by (simp add: GRAPHENE_MAX_SHARE_SUPPLY_def)
  have lhs: "stoll ds = Inr (int (read_nat ds))" "stoll (ds @ ''.'') = Inr (int (read_nat ds))"
    using stoll_digits [OF ds] le_less_trans [OF order_trans [OF whole(1) small(1)] big] by blast+
  have pos_of: "length (takeWhile (\<lambda>c. c \<noteq> CHR ''.'') ?s) = (if neg then Suc (length ds) else length ds)"
    by (cases rest; cases neg) (simp_all add: decimal_string_def takeWhile_digits [OF ds(1)])
  have sf: "fc_safe lib (int (read_nat ds) * ?scale) = Inr (int (read_nat ds) * ?scale)" "fc_safe lib m = Inr m" "fc_safe lib (- m) = Inr (- m)"
  proof -
    have "0 \<le> x \<Longrightarrow> x \<le> GRAPHENE_MAX_SHARE_SUPPLY \<Longrightarrow> fc_safe lib x = Inr x \<and> fc_safe lib (- x) = Inr (- x)" for x
      using fc_safe_in_range [OF lib, of x] fc_safe_in_range [OF lib, of "- x"] by (simp add: GRAPHENE_MAX_SHARE_SUPPLY_def)
    then show "fc_safe lib (int (read_nat ds) * ?scale) = Inr (int (read_nat ds) * ?scale)" "fc_safe lib m = Inr m" "fc_safe lib (- m) = Inr (- m)"
      using whole(2) small le by blast+
  qed
  have scan: "scan_amount False False ?s = Inr (neg, rest \<noteq> None)" using ds(1) r by (intro scan_decimal_string) auto
  have sp: "scaled_precision (precision ao) = Inr ?scale" using p by (simp add: scaled_precision_Inr)
  show ?thesis
  proof (cases rest)
    case None
    then have "m = int (read_nat ds) * ?scale" using m by simp
    with None show ?thesis unfolding amount_from_string_def scan sp res_bind_simps Let_def pos_of prod.case
      using lhs(1) sf ds(2) le by (simp add: decimal_string_def)
  next
    case (Some r)
    have "read_decimals ?scale r = Inr (int (read_nat r))"
      using assms(5) [OF Some] le_less_trans [OF small(2) big] Some by (intro read_decimals_full) auto
    moreover have "m = int (read_nat ds) * ?scale + int (read_nat r)" using m Some by simp
    ultimately show ?thesis using Some unfolding amount_from_string_def scan sp res_bind_simps Let_def pos_of prod.case
      using lhs sf ds(2) le by (simp add: decimal_string_def)
  qed
qed

text \<open>\<open>fc::to_string\<close> prints an integer in decimal.\<close>

definition prints_decimal :: "(int \<Rightarrow> string) \<Rightarrow> bool" where
  "prints_decimal to_string \<longleftrightarrow> (\<forall>x. to_string x = show_int x)"

lemma trunc_parts:
  assumes "0 < scale"
  shows "\<bar>x - trunc_div x scale * scale\<bar> = \<bar>x\<bar> mod scale" "\<bar>trunc_div x scale\<bar> = \<bar>x\<bar> div scale"
    "\<bar>x\<bar> = \<bar>x\<bar> div scale * scale + \<bar>x\<bar> mod scale" "trunc_div x scale < 0 \<longleftrightarrow> x < 0 \<and> \<bar>x\<bar> div scale \<noteq> 0"
proof -
  have "x = sgn x * \<bar>x\<bar>" by (simp add: sgn_mult_abs)
  also have "\<dots> = sgn x * (\<bar>x\<bar> div scale * scale + \<bar>x\<bar> mod scale)" by simp
  finally have "x - trunc_div x scale * scale = sgn x * (\<bar>x\<bar> mod scale)" unfolding trunc_div_def distrib_left mult.assoc by linarith
  then show "\<bar>x - trunc_div x scale * scale\<bar> = \<bar>x\<bar> mod scale" using assms by (cases "x = 0") (simp_all add: abs_mult abs_sgn_eq)
  have "0 \<le> \<bar>x\<bar> div scale" using assms by (simp add: pos_imp_zdiv_nonneg_iff)
  then show "\<bar>trunc_div x scale\<bar> = \<bar>x\<bar> div scale" "trunc_div x scale < 0 \<longleftrightarrow> x < 0 \<and> \<bar>x\<bar> div scale \<noteq> 0"
    by (auto simp: trunc_div_def abs_mult abs_sgn_eq mult_less_0_iff sgn_if)
qed simp

lemma amount_to_decimal_string:
  assumes "prints_decimal to_string" "precision ao < 19"
  obtains rest where "amount_to_string to_string ao x = Inr (decimal_string (x < 0) (show_nat (nat (\<bar>x\<bar> div 10 ^ precision ao))) rest)"
    "\<forall>r. rest = Some r \<longrightarrow> set r \<subseteq> Collect is_digit \<and> length r = precision ao \<and> r \<noteq> []"
    "(case rest of None \<Rightarrow> 0 | Some r \<Rightarrow> int (read_nat r)) = \<bar>x\<bar> mod 10 ^ precision ao"
proof -
  let ?s = "10 ^ precision ao :: int"
  let ?m = "\<bar>x\<bar> mod ?s" and ?q = "\<bar>x\<bar> div ?s"
  have s: "0 < ?s" by simp
  note parts = trunc_parts [OF s, of x]
  have m: "0 \<le> ?m" "?m < ?s" and q: "0 \<le> ?q" by (simp_all add: pos_imp_zdiv_nonneg_iff)
  have sp: "scaled_precision (precision ao) = Inr ?s" using assms(2) by (simp add: scaled_precision_Inr)
  have ts: "to_string y = show_int y" for y using assms(1) by (simp add: prints_decimal_def)
  have neg: "show_int (trunc_div x ?s) = (if x < 0 \<and> ?q \<noteq> 0 then ''-'' else []) @ show_nat (nat ?q)"
    using parts(2,4) by (auto simp: show_int_def)
  have zero: "show_nat (nat ?q) = ''0'' \<longleftrightarrow> ?q = 0"
  proof
    assume "show_nat (nat ?q) = ''0''"
    from arg_cong [where f = read_nat, OF this] have "nat ?q = 0" unfolding read_show_nat by (simp add: read_nat_def digit_val_def)
    then show "?q = 0" using q by simp
  qed (simp add: show_nat.simps digit_char_def char_of_eq_iff)
  let ?whole = "(if x < 0 \<and> ?q \<noteq> 0 then ''-'' else []) @ show_nat (nat ?q)"
  have str: "amount_to_string to_string ao x = (if ?m \<noteq> 0
     then Inr ((if x < 0 \<and> ?whole = ''0'' then ''-0'' else ?whole) @ ''.'' @ drop 1 (show_int (?s + ?m))) else Inr ?whole)"
    unfolding amount_to_string_def sp res_bind_simps ts Let_def parts(1) neg ..
  show thesis
  proof (cases "?m = 0")
    case True
    moreover have "x < 0 \<Longrightarrow> ?q \<noteq> 0" using parts(3) True by auto
    ultimately have "amount_to_string to_string ao x = Inr (decimal_string (x < 0) (show_nat (nat ?q)) None)"
      unfolding str decimal_string_def by auto
    then show thesis using that [of None] True by simp
  next
    case False
    from m have "nat ?m < 10 ^ precision ao" by (simp add: nat_less_iff)
    then obtain r where r: "show_nat (10 ^ precision ao + nat ?m) = CHR ''1'' # r" "length r = precision ao" "read_nat r = nat ?m"
      using show_nat_padded by blast
    have "\<not> ?s + ?m < 0" using m(1) s by linarith
    moreover have "nat (?s + ?m) = 10 ^ precision ao + nat ?m" using m(1) by (simp add: nat_add_distrib nat_power_eq)
    ultimately have one: "show_int (?s + ?m) = CHR ''1'' # r" using r(1) unfolding show_int_def by (simp only: if_False)
    have "0 < ?m" using m(1) False by linarith
    then have "r \<noteq> []" using r(3) by (auto simp: read_nat_def)
    moreover have "set r \<subseteq> Collect is_digit" using show_nat_digits [of "10 ^ precision ao + nat ?m"] r(1) by auto
    moreover have "amount_to_string to_string ao x = Inr (decimal_string (x < 0) (show_nat (nat ?q)) (Some r))"
      unfolding str decimal_string_def one using False zero by auto
    ultimately show thesis using that [of "Some r"] r(2,3) m(1) by simp
  qed
qed

text \<open>C36: reading back a printed amount gives the amount. For every asset precision that the protocol admits and every amount up to the
  maximal share supply, positive or negative, \<open>amount_from_string\<close> accepts what \<open>amount_to_string\<close> prints and returns that amount of the asset.\<close>

theorem amount_string_roundtrip:
  assumes "fc_lib_ok lib" "prints_decimal to_string" "precision ao < 19" "\<bar>x\<bar> \<le> GRAPHENE_MAX_SHARE_SUPPLY"
  shows "\<exists>str. amount_to_string to_string ao x = Inr str \<and> amount_from_string lib aid ao str = Inr (mk_asset x aid)"
proof -
  obtain rest where str: "amount_to_string to_string ao x = Inr (decimal_string (x < 0) (show_nat (nat (\<bar>x\<bar> div 10 ^ precision ao))) rest)"
    and r: "\<forall>r. rest = Some r \<longrightarrow> set r \<subseteq> Collect is_digit \<and> length r = precision ao \<and> r \<noteq> []"
    "(case rest of None \<Rightarrow> 0 | Some r \<Rightarrow> int (read_nat r)) = \<bar>x\<bar> mod 10 ^ precision ao"
    by (rule amount_to_decimal_string [OF assms(2,3), where x = x]) (rule that)
  have "int (read_nat (show_nat (nat (\<bar>x\<bar> div 10 ^ precision ao)))) = \<bar>x\<bar> div 10 ^ precision ao"
    by (simp add: pos_imp_zdiv_nonneg_iff)
  then have "\<bar>x\<bar> = int (read_nat (show_nat (nat (\<bar>x\<bar> div 10 ^ precision ao)))) * 10 ^ precision ao + (case rest of None \<Rightarrow> 0 | Some r \<Rightarrow> int (read_nat r))"
    unfolding r(2) by (simp only: div_mult_mod_eq)
  note from_decimal_string [OF assms(1,3) show_nat_digits show_nat_not_Nil r(1) [rule_format] this assms(4), of aid "x < 0"]
  with str show ?thesis by auto
qed

theorem amount_string_roundtrip_witness:
  "amount_to_string show_int (sample_asset ''USD'' (sample_options 0 0) 1 None) (- 50) = Inr ''-0.00050''
   \<and> amount_from_string std_lib 1 (sample_asset ''USD'' (sample_options 0 0) 1 None) ''-0.00050'' = Inr (mk_asset (- 50) 1)"
proof -
  let ?ao = "sample_asset ''USD'' (sample_options 0 0) 1 None"
  have "prints_decimal show_int" "precision ?ao < 19" "\<bar>- 50\<bar> \<le> GRAPHENE_MAX_SHARE_SUPPLY"
    by (simp_all add: prints_decimal_def sample_asset_def GRAPHENE_MAX_SHARE_SUPPLY_def)
  from amount_string_roundtrip [OF std_lib_ok this, of 1]
  obtain str where str: "amount_to_string show_int ?ao (- 50) = Inr str" "amount_from_string std_lib 1 ?ao str = Inr (mk_asset (- 50) 1)" by blast
  moreover have "amount_to_string show_int ?ao (- 50) = Inr ''-0.00050''" by code_simp
  ultimately show ?thesis by simp
qed

text \<open>The reader takes a minus sign anywhere in the string and drops the first character, whatever it is.\<close>

lemma amount_from_string_sign_inside:
  "amount_from_string std_lib 1 (sample_asset ''USD'' (sample_options 0 0) 1 None) ''1-2'' = Inr (mk_asset 200000 1)"
  by code_simp

end
