(* ===== verification/Spec2Isabelle.thy ===== *)
theory Spec2Isabelle
  imports Undo_Database Market_Safety Maintenance Payment_Safety Replay_Protection Witness_Schedule Fork_Database Amount_Strings
begin

text \<open>
  A verification library for the Graphene blockchain core in \<open>src/libraries\<close>: the ledger, the market of limit orders and
  margin positions, the evaluators of operations, the signatures that authorize them, elections and
  the budget, and the bookkeeping of blocks.

  \<^bold>\<open>How the program is put together.\<close> A node applies blocks of signed transactions to one object database
  (\<open>libraries/db\<close>, \<open>libraries/chain\<close>). A transaction is validated (\<open>libraries/protocol\<close>), checked for
  duplicates, signatures and expiration, and each of its operations goes to the evaluator registered for it, which checks
  the operation against the state, takes the fee and changes the objects. Orders are matched as they arrive; price feeds can trigger margin calls
  and the global settlement of a market-issued asset. At the end of a block expired objects are processed, at the maintenance interval votes are
  counted and the budget is spent, and the block moves the witness schedule and the last irreversible block on. A session of the undo database makes all of this revertible.

  \<^bold>\<open>Foundations.\<close>
  \<^item> \<open>Graphene_Prelude\<close>: results (\<open>Inl\<close> an exception, \<open>Inr\<close> a value), \<open>FC_ASSERT\<close>, loops that may throw
    (\<open>res_fold\<close>), tables of objects, and the parameter for \<open>fc::safe\<close> arithmetic, which lives outside the repository. What the code
    relies on is \<open>safe_exact\<close> (a result that is returned is the exact one) and \<open>fc_lib_ok\<close>; \<open>std_lib\<close> is a concrete instance with 64-bit overflow checks.
  \<^item> \<open>Graphene_Config\<close>: the constants of \<open>config.hpp\<close> and the hard-fork times of \<open>hardfork.d\<close>.
  \<^item> \<open>Asset_Price\<close>: \<open>asset.hpp\<close>, \<open>asset.cpp\<close>. Price comparison is a strict weak order, conversions round down and up as
    they should and survive a round trip, scaling by a ratio terminates with a valid price, the limits derived from a feed are ordered.
  \<^item> \<open>Undo_Database\<close>: \<open>undo_database.cpp\<close> and the mutators of \<open>index.hpp\<close>. The detailed undo states refine a stack of
    snapshots: undo restores, merge and commit keep, the state; object identifiers round trip.
  \<^item> \<open>Vesting\<close>: \<open>vesting_balance_object.cpp\<close>. The three policies satisfy the locale \<open>vesting_contract\<close>, so no sequence
    of withdrawals exceeds what has vested.

  \<^bold>\<open>State.\<close> \<open>Governance\<close> has authorities, account names, votes, chain parameters and the operations of accounts and elected positions,
  \<open>Operations\<close> the other operation structures and \<open>validate()\<close> of \<open>libraries/protocol\<close>;
  \<open>Fee_Schedule\<close> their fees; \<open>Chain_State\<close> one record per object class (the fields the modelled code uses) and the
  record \<open>database\<close> with one index per class. Its predicate \<open>db_ok\<close> says that the indexes are well formed and every asset has its own
  dynamic data; \<open>imbalance a db\<close> is what the books hold of asset \<open>a\<close> minus its supply. The locale \<open>quantity\<close>,
  interpreted as \<open>ledger\<close>, is the calculus of steps that \<open>moves\<close> amounts between holders; every operation of the
  library has a lemma that says what it moves. \<open>Sample_Chain\<close> is the concrete state that witnesses evaluate.

  \<^bold>\<open>Ledger and market.\<close>
  \<^item> \<open>Balances\<close>: \<open>db_balance.cpp\<close>, \<open>account_object.cpp\<close>, \<open>evaluator.cpp\<close>, \<open>fba_object.cpp\<close>, asset authorization; the locale
    \<open>fee_paying_evaluator\<close> is the contract of an evaluator: fee handling and \<open>do_apply\<close> together bring exactly the fee into the books.
  \<^item> \<open>Margin_Calls\<close>: \<open>market_object.cpp\<close>; the search for the amount a margin call covers ends and reaches the target ratio.
  \<^item> \<open>Market\<close>, \<open>Order_Books\<close>: \<open>db_market.cpp\<close>; matching, filling, cancellation, margin calls, black swans, global settlement,
    collateral bids and revival, with all hard-fork branches. \<open>Market_Safety\<close> has their properties.
  \<^item> \<open>Price_Feeds\<close>, \<open>Amount_Strings\<close>: \<open>asset_object.cpp\<close>; median feeds follow the majority and use only fresh feeds, and
    amounts are read back as printed.

  \<^bold>\<open>Evaluators and transactions.\<close>
  \<^item> \<open>Market_Evaluators\<close>, \<open>Asset_Evaluators\<close>, \<open>Payment_Evaluators\<close>: the evaluators of transfers, vesting, orders, margin
    positions, bids, assets, withdrawal permissions, HTLCs and balance claims; each interprets \<open>fee_paying_evaluator\<close>.
  \<^item> \<open>Account_Evaluators\<close>: the evaluators of accounts, witnesses, committee members, workers and assertions; account names are those of the
    documented grammar, and vote identifiers stay unique. With them 41 evaluators are modelled.
  \<^item> \<open>Transactions\<close>: dispatch and the operations of a transaction (\<open>db_block.cpp\<close>); whatever the operations, no share is created or
    destroyed. The state must fit three of the operations (\<open>state_fits\<close>): a margin position agrees with the record it came from, a settlement
    price with the fund, a vesting policy with its contract.
  \<^item> \<open>Payment_Safety\<close>: limits of withdrawal permissions, which hold without and fail with 32-bit overflow, and refunds of expired HTLCs.
  \<^item> \<open>Authority\<close>: \<open>protocol/transaction.cpp\<close>. The inductive predicate \<open>authorized\<close> says which accounts a set of keys controls;
    \<open>verify_authority\<close> accepts only what is authorized, and everything that is within the recursion limit.
  \<^item> \<open>Replay_Protection\<close>: the whole of \<open>_apply_transaction\<close>; a transaction is applied once, and only if it is signed.

  \<^bold>\<open>Blocks.\<close>
  \<^item> \<open>Block_Updates\<close>: \<open>db_update.cpp\<close>; expired orders, due settlements, stale feeds and exchange rates at the end of a block
    conserve every asset, and settlements respect the volume their issuer allows.
  \<^item> \<open>Elections\<close>, \<open>Budget\<close>, \<open>Maintenance\<close>: \<open>db_maint.cpp\<close>. The active witnesses are those with the most votes, as many as the
    stake-weighted median opinion wants, and their authority is a strict majority of their weights; the budget stays within the reserve; maintenance as a
    whole conserves every asset and schedules the next one correctly. Where an operation that the chain applies itself throws after its first change the
    model ends with the error, because the source would keep a part of the changes.
  \<^item> \<open>Witness_Schedule\<close>: \<open>db_witness_schedule.cpp\<close> and the block bookkeeping of \<open>db_update.cpp\<close>; slots tile the time line, the
    shuffled schedule is fair, and a block becomes irreversible only when 70 per cent of the witnesses have confirmed it.
  \<^item> \<open>Fork_Database\<close>: \<open>fork_database.cpp\<close> over an explicit heap with weak pointers, and the merkle root of \<open>block.cpp\<close>; pushing keeps the
    longest fork as the head, two branches are followed back to their most recent common ancestor, and the in-place merkle root is that of
    the hash tree.

  \<^bold>\<open>Numbers.\<close> Amounts are integers with \<open>fc::safe\<close> checks where the source has them; \<open>fc::uint128_t\<close> is reduced modulo \<open>2 ^ 128\<close>, 32-bit
  times and weights modulo \<open>2 ^ 32\<close>, the random numbers of the schedule are 64-bit words. Dereferencing the end of a container, dividing by zero and
  reading out of range are errors of the model.

  \<^bold>\<open>Fuel.\<close> The loops over margin calls (\<open>margin_call_loop\<close>, \<open>loop_fuel\<close>), the forward search for a covering amount (\<open>cover_forward\<close>,
  \<open>search_fuel\<close>), the loops over expired orders and settlements (\<open>rounds\<close>) and back along a fork re-read what the body changes and carry fuel; running
  out is an exception, so no conservation theorem can hold because a loop did not return. For the forward search
  \<open>Margin_Calls\<close>, and for branches of a fork \<open>Fork_Database\<close>, prove that enough fuel gives a result. All other loops are structural recursions or have
  termination proofs; the recursion over authorities is a recursion on the levels left.

  \<^bold>\<open>Not modelled.\<close> Proposals and confidential transfers and their evaluators; switching forks, block storage, genesis and
  notification; hashing, signatures, serialization and addresses, which are parameters; the peer-to-peer network, the application layer, the wallet,
  plugins and programs, which do not change the chain state.
\<close>

end
